(* ===== verification/MC_Prelude.thy ===== *)
theory MC_Prelude
  imports Main "HOL-Library.Word" "HOL-Library.Sublist" "HOL-Library.Code_Target_Nat"
begin

text \<open>
  Shared vocabulary of the development: the C integer types, C strings as \<open>char\<close> lists without
  their terminating NUL, the part of \<open><ctype.h>\<close>, \<open><string.h>\<close>, \<open><stdlib.h>\<close> and \<open><stdio.h>\<close> that
  the sources use (in the C locale, which no source file leaves), decimal printing and reading, and
  the generic list lemmas the components share. A \<open>char *\<close> that the code tests against \<open>NULL\<close> is a
  \<open>string option\<close>.
\<close>

section \<open>Machine integers and collections of rewrite rules\<close>

type_synonym u8 = "8 word"
type_synonym u16 = "16 word"
type_synonym u32 = "32 word"
type_synonym u64 = "64 word"

named_theorems cstr_simps "rewrite rules for the C string functions"
named_theorems decimal_simps "rewrite rules for decimal printing and reading"

abbreviation PATH_MAX :: nat where "PATH_MAX \<equiv> 4096"

section \<open>Character classes of the C locale\<close>

definition isdigit :: "char \<Rightarrow> bool" where
  "isdigit c \<longleftrightarrow> 48 \<le> (of_char c :: nat) \<and> (of_char c :: nat) \<le> 57"

definition islower :: "char \<Rightarrow> bool" where
  "islower c \<longleftrightarrow> 97 \<le> (of_char c :: nat) \<and> (of_char c :: nat) \<le> 122"

definition isupper :: "char \<Rightarrow> bool" where
  "isupper c \<longleftrightarrow> 65 \<le> (of_char c :: nat) \<and> (of_char c :: nat) \<le> 90"

definition isalpha :: "char \<Rightarrow> bool" where
  "isalpha c \<longleftrightarrow> islower c \<or> isupper c"

definition isalnum :: "char \<Rightarrow> bool" where
  "isalnum c \<longleftrightarrow> isalpha c \<or> isdigit c"

definition isspace :: "char \<Rightarrow> bool" where
  "isspace c \<longleftrightarrow> (of_char c :: nat) = 32 \<or> 9 \<le> (of_char c :: nat) \<and> (of_char c :: nat) \<le> 13"

definition tolower :: "char \<Rightarrow> char" where
  "tolower c = (if isupper c then char_of ((of_char c :: nat) + 32) else c)"

lemmas ctype_defs = isdigit_def islower_def isupper_def isalpha_def isalnum_def isspace_def tolower_def

section \<open>String functions\<close>

fun strchr :: "string \<Rightarrow> char \<Rightarrow> string option" where
  "strchr [] c = None"
| "strchr (x # xs) c = (if x = c then Some (x # xs) else strchr xs c)"

fun strrchr :: "string \<Rightarrow> char \<Rightarrow> string option" where
  "strrchr [] c = None"
| "strrchr (x # xs) c =
     (case strrchr xs c of Some r \<Rightarrow> Some r | None \<Rightarrow> if x = c then Some (x # xs) else None)"

fun strstr :: "string \<Rightarrow> string \<Rightarrow> string option" where
  "strstr [] n = (if n = [] then Some [] else None)"
| "strstr (x # xs) n = (if prefix n (x # xs) then Some (x # xs) else strstr xs n)"

definition strncmp_eq :: "string \<Rightarrow> string \<Rightarrow> nat \<Rightarrow> bool" where
  "strncmp_eq a b n \<longleftrightarrow> take n a = take n b"

text \<open>\<open>snprintf (buf, n, ...)\<close> leaves at most \<open>n - 1\<close> characters in the buffer and returns the
  length of the untruncated text.\<close>

definition snprintf_buf :: "nat \<Rightarrow> string \<Rightarrow> string" where
  "snprintf_buf n txt = take (n - 1) txt"

fun strsplit :: "char \<Rightarrow> string \<Rightarrow> string list" where
  "strsplit c [] = [[]]"
| "strsplit c (x # xs) =
     (if x = c then [] # strsplit c xs
      else (case strsplit c xs of [] \<Rightarrow> [[x]] | w # ws \<Rightarrow> (x # w) # ws))"

text \<open>\<open>strtok\<close> with a delimiter set: the maximal non-empty runs of non-delimiters.\<close>

function strtok_all :: "(char \<Rightarrow> bool) \<Rightarrow> string \<Rightarrow> string list" where
  "strtok_all d [] = []"
| "strtok_all d (x # xs) =
     (if d x then strtok_all d xs
      else (x # takeWhile (\<lambda>c. \<not> d c) xs) # strtok_all d (dropWhile (\<lambda>c. \<not> d c) xs))"
  by pat_completeness auto
termination
  by (relation "measure (\<lambda>(d, s). length s)") (auto simp: less_Suc_eq_le length_dropWhile_le)

text \<open>A line with its end.\<close>

definition text_line :: "string \<Rightarrow> string" where
  "text_line s = s @ [CHR 0x0A]"

section \<open>Decimal numbers\<close>

definition digit_char :: "nat \<Rightarrow> char" where
  "digit_char d = char_of (48 + d)"

fun show_nat :: "nat \<Rightarrow> string" where
  "show_nat n = (if n < 10 then [digit_char n] else show_nat (n div 10) @ [digit_char (n mod 10)])"

declare show_nat.simps [simp del]

definition show_int :: "int \<Rightarrow> string" where
  "show_int i = (if i < 0 then CHR ''-'' # show_nat (nat (- i)) else show_nat (nat i))"

definition digits_val :: "string \<Rightarrow> nat" where
  "digits_val s = foldl (\<lambda>n c. n * 10 + (of_char c - 48)) 0 s"

record strto_result =
  st_val :: u64
  st_end :: string
  st_range :: bool

definition strto_sign :: "string \<Rightarrow> bool \<times> string" where
  "strto_sign t = (case t of [] \<Rightarrow> (False, [])
     | c # cs \<Rightarrow> if c = CHR ''-'' then (True, cs) else if c = CHR ''+'' then (False, cs) else (False, t))"

text \<open>\<open>strtoull (s, &end, 10)\<close>, which is also \<open>strtoul\<close> on the LP64 targets of the project: white
  space, an optional sign, digits. Without digits \<open>end\<close> is \<open>s\<close> itself. A value that does not fit
  is reported as a range error (\<open>ERANGE\<close>), and a minus sign negates modulo $2^{64}$.\<close>

definition strtoull :: "string \<Rightarrow> strto_result" where
  "strtoull s = (let (neg, u) = strto_sign (dropWhile isspace s);
       ds = takeWhile isdigit u; n = digits_val ds in
     if ds = [] then \<lparr>st_val = 0, st_end = s, st_range = False\<rparr>
     else if n \<ge> 2 ^ 64 then \<lparr>st_val = - 1, st_end = dropWhile isdigit u, st_range = True\<rparr>
     else \<lparr>st_val = (if neg then - word_of_nat n else word_of_nat n),
           st_end = dropWhile isdigit u, st_range = False\<rparr>)"

text \<open>\<open>strtol (s, &end, 10)\<close>: value, unread text, range error.\<close>

definition strtol :: "string \<Rightarrow> int \<times> string \<times> bool" where
  "strtol s = (let (neg, u) = strto_sign (dropWhile isspace s);
       ds = takeWhile isdigit u; n = int (digits_val ds); v = (if neg then - n else n) in
     if ds = [] then (0, s, False)
     else if v > 2 ^ 63 - 1 then (2 ^ 63 - 1, dropWhile isdigit u, True)
     else if v < - (2 ^ 63) then (- (2 ^ 63), dropWhile isdigit u, True)
     else (v, dropWhile isdigit u, False))"

section \<open>Pieces of \<open>sscanf\<close>\<close>

text \<open>\<open>%u\<close>: as \<open>strtoul\<close>, stored into an \<open>unsigned int\<close> (the low 32 bits); no match without digits.\<close>

definition scan_uint :: "string \<Rightarrow> (u32 \<times> string) option" where
  "scan_uint s = (let r = strtoull s in
     if st_end r = s then None else Some (ucast (st_val r), st_end r))"

definition scan_lit :: "char \<Rightarrow> string \<Rightarrow> string option" where
  "scan_lit c s = (case s of [] \<Rightarrow> None | x # xs \<Rightarrow> if x = c then Some xs else None)"

text \<open>\<open>%n[set]\<close>: at least one and at most \<open>n\<close> characters of the set.\<close>

definition scan_set :: "nat \<Rightarrow> (char \<Rightarrow> bool) \<Rightarrow> string \<Rightarrow> (string \<times> string) option" where
  "scan_set n p s = (let m = takeWhile p (take n s) in
     if m = [] then None else Some (m, drop (length m) s))"

section \<open>Lemmas on strings\<close>

lemma strchr_eq: "strchr s c = (if c \<in> set s then Some (dropWhile (\<lambda>x. x \<noteq> c) s) else None)"
  by (induction s) auto

lemma strchr_None_iff [cstr_simps]: "strchr s c = None \<longleftrightarrow> c \<notin> set s"
  by (simp add: strchr_eq)

lemma strrchr_None_iff [cstr_simps]: "strrchr s c = None \<longleftrightarrow> c \<notin> set s"
  by (induction s) (auto split: option.splits)

lemma strchr_None [simp]: "c \<notin> set s \<Longrightarrow> strchr s c = None"
  and strrchr_None [simp]: "c \<notin> set s \<Longrightarrow> strrchr s c = None"
  by (simp_all add: strchr_None_iff strrchr_None_iff)

lemma strrchr_last [simp]: "c \<notin> set b \<Longrightarrow> strrchr (a @ c # b) c = Some (c # b)"
  by (induction a) simp_all

lemma strrchr_Some: "strrchr s c = Some r \<Longrightarrow> \<exists>a b. s = a @ c # b \<and> r = c # b \<and> c \<notin> set b"
proof (induction s)
  case (Cons x xs)
  show ?case
  proof (cases "strrchr xs c")
    case None
    with Cons.prems have "x = c" "r = x # xs" "c \<notin> set xs"
      by (auto simp: strrchr_None_iff split: if_splits)
    then show ?thesis by (intro exI [of _ "[]"] exI [of _ xs]) simp
  next
    case (Some r')
    with Cons.prems have "r = r'" by simp
    with Some Cons.IH obtain a b where "xs = a @ c # b" "r = c # b" "c \<notin> set b" by auto
    then show ?thesis by (intro exI [of _ "x # a"] exI [of _ b]) simp
  qed
qed simp

lemma strstr_sublist: "strstr s n \<noteq> None \<longleftrightarrow> sublist n s"
  by (induction s) (auto simp: sublist_Cons_right)

text \<open>\<open>strstr\<close> finds the first occurrence.\<close>

lemma strstr_first:
  "strstr s n = Some r \<Longrightarrow>
     \<exists>a b. s = a @ n @ b \<and> r = n @ b \<and> (\<forall>a' b'. s = a' @ n @ b' \<longrightarrow> length a \<le> length a')"
proof (induction s)
  case Nil
  then show ?case by (auto split: if_splits)
next
  case (Cons x s)
  show ?case
  proof (cases "prefix n (x # s)")
    case True
    then obtain b where "x # s = n @ b" by (auto simp: prefix_def)
    moreover have "r = x # s" using True Cons.prems by simp
    ultimately show ?thesis by (intro exI [of _ "[]"] exI [of _ b]) simp
  next
    case False
    then obtain a b where ab: "s = a @ n @ b" "r = n @ b" "\<forall>a' b'. s = a' @ n @ b' \<longrightarrow> length a \<le> length a'"
      using Cons by auto
    have "length (x # a) \<le> length a'" if "x # s = a' @ n @ b'" for a' b'
      using that False ab(3) by (cases a') auto
    then show ?thesis using ab by (intro exI [of _ "x # a"] exI [of _ b]) auto
  qed
qed

lemma length_snprintf_buf: "0 < n \<Longrightarrow> length (snprintf_buf n t) < n"
  by (simp add: snprintf_buf_def)

lemma snprintf_buf_fits [simp]: "length t < n \<Longrightarrow> snprintf_buf n t = t"
  by (simp add: snprintf_buf_def)

lemma takeWhile_sep:
  assumes "c \<notin> set a"
  shows "takeWhile (\<lambda>x. x \<noteq> c) (a @ c # b) = a" and "dropWhile (\<lambda>x. x \<noteq> c) (a @ c # b) = c # b"
proof -
  have "\<forall>x\<in>set a. x \<noteq> c" using assms by auto
  then show "takeWhile (\<lambda>x. x \<noteq> c) (a @ c # b) = a" "dropWhile (\<lambda>x. x \<noteq> c) (a @ c # b) = c # b"
    by auto
qed

lemma takeWhile_nosep:
  assumes "c \<notin> set a"
  shows "takeWhile (\<lambda>x. x \<noteq> c) a = a" and "dropWhile (\<lambda>x. x \<noteq> c) a = []"
proof -
  have "\<forall>x\<in>set a. x \<noteq> c" using assms by auto
  then show "takeWhile (\<lambda>x. x \<noteq> c) a = a" "dropWhile (\<lambda>x. x \<noteq> c) a = []"
    by auto
qed

lemma split_sep_unique:
  assumes "a @ c # b = k @ c # v" and "c \<notin> set a" and "c \<notin> set k"
  shows "a = k \<and> b = v"
proof -
  have "a = k" using takeWhile_sep(1) [OF assms(2), of b] takeWhile_sep(1) [OF assms(3), of v] assms(1) by simp
  then show ?thesis using assms(1) by simp
qed

lemmas takeWhile_seps [cstr_simps] = takeWhile_sep takeWhile_nosep

lemma strsplit_nonempty [simp]: "strsplit c s \<noteq> []"
  by (induction s) (auto split: list.splits)

lemma strsplit_nosep: "c \<notin> set s \<Longrightarrow> strsplit c s = [s]"
  by (induction s) auto

lemma strsplit_append: "strsplit c (a @ c # b) = strsplit c a @ strsplit c b"
  by (induction a) (auto split: list.splits)

lemma strsplit_word: "c \<notin> set a \<Longrightarrow> strsplit c (a @ c # b) = a # strsplit c b"
  by (simp add: strsplit_append strsplit_nosep)

lemma strsplit_no_sep: "w \<in> set (strsplit c s) \<Longrightarrow> c \<notin> set w"
  by (induction s arbitrary: w) (auto split: list.splits if_splits)

lemma dropWhile_neq_Cons:
  "dropWhile (\<lambda>x. x \<noteq> c) s = y # t \<Longrightarrow> y = c \<and> s = takeWhile (\<lambda>x. x \<noteq> c) s @ c # t"
  by (induction s) (auto split: if_splits)

lemma dropWhile_Cons_shorter: "dropWhile P s = x # t \<Longrightarrow> length t < length s"
  by (metis impossible_Cons length_dropWhile_le linorder_not_le order_trans)

lemma split_at_sep:
  obtains "c \<notin> set s" | a b where "s = a @ c # b" "c \<notin> set a"
  using split_list_first [of c s] by blast

lemma dropWhile_neq_Nil: "dropWhile (\<lambda>x. x \<noteq> c) s = [] \<longleftrightarrow> c \<notin> set s"
  by (auto simp: dropWhile_eq_Nil_conv)

lemma strtok_cut:
  "w \<noteq> [] \<Longrightarrow> \<not> list_ex d w \<Longrightarrow> d c \<Longrightarrow> strtok_all d (w @ c # s) = w # strtok_all d s"
proof -
  assume w: "w \<noteq> []" "\<not> list_ex d w" "d c"
  then obtain x xs where xs: "w = x # xs" by (cases w) auto
  then have "takeWhile (\<lambda>c. \<not> d c) (xs @ c # s) = xs" "dropWhile (\<lambda>c. \<not> d c) (xs @ c # s) = c # s"
    using w by (auto simp: list_ex_iff takeWhile_append2 dropWhile_append2)
  then show ?thesis using w xs by simp
qed

lemma strtok_lines:
  "list_all (\<lambda>l. l \<noteq> [] \<and> CHR 0x0A \<notin> set l) ls \<Longrightarrow> strtok_all (\<lambda>c. c = CHR 0x0A) (concat (map text_line ls)) = ls"
  by (induction ls) (auto simp: text_line_def strtok_cut list_ex_iff)

section \<open>Lemmas on decimal numbers\<close>

lemma of_digit_char: "d < 10 \<Longrightarrow> of_char (digit_char d) = (48 + d :: nat)"
  by (simp add: digit_char_def)

lemma isdigit_digit_char [simp]: "d < 10 \<Longrightarrow> isdigit (digit_char d)"
  by (simp add: isdigit_def of_digit_char)

lemma show_nat_digits: "c \<in> set (show_nat n) \<Longrightarrow> isdigit c"
proof (induction n arbitrary: c rule: show_nat.induct)
  case (1 n)
  then show ?case by (subst (asm) show_nat.simps) (auto split: if_splits)
qed

lemma show_nat_nonempty [simp]: "show_nat n \<noteq> []" "[] \<noteq> show_nat n"
  by (subst show_nat.simps, simp)+

lemma digits_val_snoc: "digits_val (s @ [c]) = digits_val s * 10 + (of_char c - 48)"
  by (simp add: digits_val_def)

lemma digits_val_show_nat [decimal_simps]: "digits_val (show_nat n) = n"
proof (induction n rule: show_nat.induct)
  case (1 n)
  show ?case
  proof (cases "n < 10")
    case True
    then show ?thesis by (subst show_nat.simps) (simp add: digits_val_def of_digit_char)
  next
    case False
    with 1 show ?thesis
      by (subst show_nat.simps) (simp add: digits_val_snoc of_digit_char)
  qed
qed

lemma length_show_nat: "n < 10 ^ k \<Longrightarrow> 0 < k \<Longrightarrow> length (show_nat n) \<le> k"
proof (induction n arbitrary: k rule: show_nat.induct)
  case (1 n)
  show ?case
  proof (cases "n < 10")
    case True
    then show ?thesis using 1 by (subst show_nat.simps) simp
  next
    case False
    then have "k \<noteq> 1" using 1 by auto
    with "1.prems" obtain j where k: "k = Suc j" "0 < j" by (cases k) auto
    with "1.prems" have "n div 10 < 10 ^ j" by (simp add: less_mult_imp_div_less)
    then have "length (show_nat (n div 10)) \<le> j" using 1 False k by simp
    then show ?thesis using False k by (subst show_nat.simps) simp
  qed
qed

definition nondigit_start :: "string \<Rightarrow> bool" where
  "nondigit_start r \<longleftrightarrow> (case r of [] \<Rightarrow> True | c # _ \<Rightarrow> \<not> isdigit c)"

lemma takeWhile_show_nat [decimal_simps]:
  "nondigit_start r \<Longrightarrow> takeWhile isdigit (show_nat n @ r) = show_nat n"
  "nondigit_start r \<Longrightarrow> dropWhile isdigit (show_nat n @ r) = r"
  using show_nat_digits [of _ n]
  by (auto simp: nondigit_start_def split: list.splits)

lemma digit_not_space: "isdigit c \<Longrightarrow> \<not> isspace c \<and> c \<noteq> CHR ''-'' \<and> c \<noteq> CHR ''+''"
  by (auto simp: isdigit_def isspace_def)

lemma show_nat_Cons: obtains c cs where "show_nat n = c # cs" and "isdigit c"
  using show_nat_digits [of _ n] by (cases "show_nat n") auto

lemma strto_prefix_show_nat [decimal_simps]:
  "strto_sign (dropWhile isspace (show_nat n @ r)) = (False, show_nat n @ r)"
proof -
  obtain c cs where "show_nat n = c # cs" "isdigit c" by (rule show_nat_Cons)
  then show ?thesis using digit_not_space [of c] by (simp add: strto_sign_def)
qed

lemma strtoull_show_nat [decimal_simps]:
  assumes "n < 2 ^ 64" and "nondigit_start r"
  shows "strtoull (show_nat n @ r) = \<lparr>st_val = word_of_nat n, st_end = r, st_range = False\<rparr>"
  using assms by (simp add: strtoull_def Let_def decimal_simps)

lemma strtol_show_nat [decimal_simps]:
  assumes "n < 2 ^ 63" and "nondigit_start r"
  shows "strtol (show_nat n @ r) = (int n, r, False)"
proof -
  have "int n < 2 ^ 63" using assms(1) by (metis of_nat_less_iff of_nat_numeral of_nat_power)
  then show ?thesis using assms by (simp add: strtol_def Let_def decimal_simps)
qed

lemma scan_uint_show_nat [decimal_simps]:
  assumes "n < 2 ^ 64" and "nondigit_start r"
  shows "scan_uint (show_nat n @ r) = Some (word_of_nat n, r)"
proof -
  have "r \<noteq> show_nat n @ r" using show_nat_nonempty [of n] by auto
  moreover have "(ucast (word_of_nat n :: u64) :: u32) = word_of_nat n"
    using assms(1) by (simp add: unsigned_of_nat take_bit_nat_eq_self)
  ultimately show ?thesis
    using assms by (simp add: scan_uint_def Let_def decimal_simps)
qed

section \<open>Lemmas on words\<close>

lemma unat_word_of_nat_u64 [simp]: "n < 2 ^ 64 \<Longrightarrow> unat (word_of_nat n :: u64) = n"
  by (simp add: unsigned_of_nat take_bit_nat_eq_self)

lemma unat_word_of_nat_u32 [simp]: "n < 2 ^ 32 \<Longrightarrow> unat (word_of_nat n :: u32) = n"
  by (simp add: unsigned_of_nat take_bit_nat_eq_self)

lemma unat_u64_less: "unat (w :: u64) < 2 ^ 64"
  using unsigned_less [of w] by simp

lemma unat_u32_less: "unat (w :: u32) < 2 ^ 32"
  using unsigned_less [of w] by simp

lemma unat_u16_less: "unat (w :: u16) < 2 ^ 16"
  using unsigned_less [of w] by simp

lemma unat_u8_less: "unat (w :: u8) < 2 ^ 8"
  using unsigned_less [of w] by simp

lemma ucast_word_of_nat: "n < 2 ^ 64 \<Longrightarrow> (ucast (word_of_nat n :: u64) :: u32) = word_of_nat n"
  by (simp add: unsigned_of_nat take_bit_nat_eq_self)

lemma unat_ucast_u32: "unat (x :: u64) < 2 ^ 32 \<Longrightarrow> unat (ucast x :: u32) = unat x"
  by (simp add: unsigned_ucast_eq take_bit_nat_eq_self)

section \<open>Results\<close>

text \<open>A step that is reached only when the one before it did not fail.\<close>

definition ebind :: "'e + 'a \<Rightarrow> ('a \<Rightarrow> 'e + 'b) \<Rightarrow> 'e + 'b" where
  "ebind r f = (case r of Inl e \<Rightarrow> Inl e | Inr x \<Rightarrow> f x)"

lemma ebind_simps [simp]: "ebind (Inl e) f = Inl e" "ebind (Inr x) f = f x"
  by (simp_all add: ebind_def)

lemma ebind_Inr_iff: "ebind r f = Inr y \<longleftrightarrow> (\<exists>x. r = Inr x \<and> f x = Inr y)"
  by (cases r) simp_all

section \<open>Encodings\<close>

text \<open>
  An encoding that a decoder reads back, for the values satisfying \<open>ok\<close>. The textual and JSON forms
  of the data that passes between the processes and the state files are instances.
\<close>

locale codec =
  fixes enc :: "'a \<Rightarrow> 'b" and dec :: "'b \<Rightarrow> 'a option" and ok :: "'a \<Rightarrow> bool"
  assumes dec_enc: "ok x \<Longrightarrow> dec (enc x) = Some x"
begin

lemma enc_inj: "ok x \<Longrightarrow> ok y \<Longrightarrow> enc x = enc y \<Longrightarrow> x = y"
  using dec_enc by (metis option.inject)

lemma list_dec_enc: "list_all ok xs \<Longrightarrow> those (map (\<lambda>x. dec (enc x)) xs) = Some xs"
  by (induction xs) (simp_all add: dec_enc)

lemma enc_inj_on_set: "list_all ok xs \<Longrightarrow> distinct xs \<Longrightarrow> distinct (map enc xs)"
  by (auto simp: distinct_map inj_on_def list_all_iff intro: enc_inj)

end

end
