(* ===== verification/MC_Error.thy ===== *)
theory MC_Error
  imports MC_Prelude
begin

text \<open>
  The error channel (\<open>include/minicontainer/error.h\<close>, \<open>src/util/error.c\<close>): exit codes, the error
  record with its fixed-size text fields, \<open>mc_error_set\<close> and the two output formats of
  \<open>mc_error_print\<close>. Fallible operations of the other theories return \<open>Inl\<close> of an error record or
  \<open>Inr\<close> of a result. The lemmas show that the text fields never exceed their buffers.
\<close>

section \<open>Exit codes and errno values\<close>

datatype mc_exit_code =
    MC_EXIT_OK | MC_EXIT_USAGE | MC_EXIT_PREREQUISITE | MC_EXIT_CONFLICT | MC_EXIT_NOT_FOUND
  | MC_EXIT_PERMISSION | MC_EXIT_RUNTIME | MC_EXIT_INTERNAL

fun exit_value :: "mc_exit_code \<Rightarrow> int" where
  "exit_value MC_EXIT_OK = 0"
| "exit_value MC_EXIT_USAGE = 2"
| "exit_value MC_EXIT_PREREQUISITE = 3"
| "exit_value MC_EXIT_CONFLICT = 4"
| "exit_value MC_EXIT_NOT_FOUND = 5"
| "exit_value MC_EXIT_PERMISSION = 6"
| "exit_value MC_EXIT_RUNTIME = 7"
| "exit_value MC_EXIT_INTERNAL = 125"

type_synonym errno = nat

abbreviation (input) EPERM :: errno where "EPERM \<equiv> 1"
abbreviation (input) ENOENT :: errno where "ENOENT \<equiv> 2"
abbreviation (input) ESRCH :: errno where "ESRCH \<equiv> 3"
abbreviation (input) EINTR :: errno where "EINTR \<equiv> 4"
abbreviation (input) EIO :: errno where "EIO \<equiv> 5"
abbreviation (input) EBUSY :: errno where "EBUSY \<equiv> 16"
abbreviation (input) EEXIST :: errno where "EEXIST \<equiv> 17"
abbreviation (input) EINVAL :: errno where "EINVAL \<equiv> 22"
abbreviation (input) ENOSPC :: errno where "ENOSPC \<equiv> 28"
abbreviation (input) ENAMETOOLONG :: errno where "ENAMETOOLONG \<equiv> 36"
abbreviation (input) ENOSYS :: errno where "ENOSYS \<equiv> 38"
abbreviation (input) EOVERFLOW :: errno where "EOVERFLOW \<equiv> 75"
abbreviation (input) EADDRINUSE :: errno where "EADDRINUSE \<equiv> 98"
abbreviation (input) ETIMEDOUT :: errno where "ETIMEDOUT \<equiv> 110"

section \<open>The error record\<close>

record mc_error =
  err_code :: int
  saved_errno :: errno
  operation :: string
  resource :: string
  message :: string

definition copy_text :: "nat \<Rightarrow> string option \<Rightarrow> string" where
  "copy_text n source = (case source of None \<Rightarrow> [] | Some s \<Rightarrow> snprintf_buf n s)"

definition mc_error_set ::
  "mc_error option \<Rightarrow> int \<Rightarrow> errno \<Rightarrow> string option \<Rightarrow> string option \<Rightarrow> string option \<Rightarrow> mc_error option"
where
  "mc_error_set error code saved op res msg =
     (case error of None \<Rightarrow> None
      | Some e \<Rightarrow> Some (e\<lparr>err_code := code, saved_errno := saved, operation := copy_text 64 op,
                         resource := copy_text 256 res, message := copy_text 256 msg\<rparr>))"

text \<open>The record after a call of \<open>mc_error_set\<close> on a non-null pointer.\<close>

definition mk_error :: "mc_exit_code \<Rightarrow> errno \<Rightarrow> string \<Rightarrow> string option \<Rightarrow> string \<Rightarrow> mc_error" where
  "mk_error code saved op res msg =
     \<lparr>err_code = exit_value code, saved_errno = saved, operation = copy_text 64 (Some op),
      resource = copy_text 256 res, message = copy_text 256 (Some msg)\<rparr>"

definition quoted :: "string \<Rightarrow> string" where
  "quoted s = CHR 0x22 # s @ [CHR 0x22]"

text \<open>\<open>mc_error_print\<close>: the text written to standard error; \<open>strerror\<close> is the C library's.\<close>

definition mc_error_print :: "(errno \<Rightarrow> string) \<Rightarrow> mc_error option \<Rightarrow> bool \<Rightarrow> string" where
  "mc_error_print strerror error json =
     (case error of None \<Rightarrow> []
      | Some e \<Rightarrow>
        let system_message = (if saved_errno e = 0 then [] else strerror (saved_errno e)) in
        if json then
          ''{'' @ quoted ''error'' @ '':{'' @ quoted ''code'' @ '':'' @ show_int (err_code e) @ '','' @
          quoted ''operation'' @ '':'' @ quoted (operation e) @ '','' @
          quoted ''resource'' @ '':'' @ quoted (resource e) @ '','' @
          quoted ''message'' @ '':'' @ quoted (message e) @ '','' @
          quoted ''system'' @ '':'' @ quoted system_message @ ''}}'' @ [CHR 0x0A]
        else
          ''minicontainer: '' @ operation e @ '': '' @ message e @
          (if resource e \<noteq> [] then '' ['' @ resource e @ '']'' else []) @
          (if system_message \<noteq> [] then '': '' @ system_message else []) @ [CHR 0x0A])"

section \<open>Lemmas\<close>

lemma mc_error_set_mk_error:
  "mc_error_set (Some e) (exit_value code) saved (Some op) res (Some msg) =
   Some (mc_error.extend (mk_error code saved op res msg) ())"
  by (cases e) (simp add: mc_error_set_def mk_error_def mc_error.defs)

lemma length_copy_text: "0 < n \<Longrightarrow> length (copy_text n s) < n"
  by (simp add: copy_text_def length_snprintf_buf split: option.splits)

lemma mk_error_code [simp]: "err_code (mk_error code saved op res msg) = exit_value code"
  by (simp add: mk_error_def)

lemma mk_error_errno [simp]: "saved_errno (mk_error code saved op res msg) = saved"
  by (simp add: mk_error_def)

lemma exit_value_zero [simp]: "exit_value c = 0 \<longleftrightarrow> c = MC_EXIT_OK"
  by (cases c) auto

lemma exit_value_inj: "exit_value a = exit_value b \<longleftrightarrow> a = b"
  by (cases a; cases b) auto

lemma exit_value_range: "0 \<le> exit_value c \<and> exit_value c \<le> 125"
  by (cases c) auto

lemma mc_error_set_bounds:
  assumes "mc_error_set e code saved op res msg = Some e'"
  shows "length (operation e') < 64" "length (resource e') < 256" "length (message e') < 256"
  using assms by (auto simp: mc_error_set_def length_copy_text split: option.splits)

end
