(* ===== verification/MC_Validate.thy ===== *)
theory MC_Validate
  imports MC_Error
begin

text \<open>
  \<open>src/util/validate.c\<close>: names, archive paths, archive links, environment assignments, user
  specifications. The archive-path and link checks are related to a lexical walk over a stack of
  directory names: an accepted path or link never leaves the directory it is resolved in.
\<close>

section \<open>The checks\<close>

fun mc_valid_name :: "string option \<Rightarrow> bool" where
  "mc_valid_name None = False"
| "mc_valid_name (Some name) =
     (let n = length name in
      if n = 0 \<or> n > 64 \<or> \<not> isalnum (hd name) then False
      else if \<exists>c \<in> set name. \<not> (islower c \<or> isdigit c \<or> c = CHR ''.'' \<or> c = CHR ''_'' \<or> c = CHR ''-'')
      then False
      else strstr name ''..'' = None)"

text \<open>The loop of \<open>mc_safe_archive_path\<close>; the argument is the text from \<open>component\<close> on.\<close>

function safe_components :: "string \<Rightarrow> bool" where
  "safe_components s =
     (if s = [] then True
      else let comp = takeWhile (\<lambda>c. c \<noteq> CHR ''/'') s in
        if comp = [] \<or> comp = ''.'' \<or> comp = ''..'' then False
        else (case dropWhile (\<lambda>c. c \<noteq> CHR ''/'') s of
                [] \<Rightarrow> True
              | _ # next_comp \<Rightarrow> safe_components next_comp))"
  by pat_completeness auto
termination
  by (relation "measure length") (auto dest: dropWhile_Cons_shorter dropWhile_Cons_shorter [OF sym])

declare safe_components.simps [simp del]

fun mc_safe_archive_path :: "string option \<Rightarrow> bool" where
  "mc_safe_archive_path None = False"
| "mc_safe_archive_path (Some path) =
     (if path = [] \<or> hd path = CHR ''/'' \<or> strchr path (CHR 0x5C) \<noteq> None then False
      else safe_components path)"

fun mc_safe_link_target :: "string option \<Rightarrow> bool" where
  "mc_safe_link_target None = False"
| "mc_safe_link_target (Some path) =
     mc_safe_archive_path (Some (if path \<noteq> [] \<and> hd path = CHR ''/'' then tl path else path))"

text \<open>\<open>apply_components (path, &depth)\<close>: the new depth, or \<open>None\<close> for the return value 0.\<close>

function apply_components :: "string \<Rightarrow> nat \<Rightarrow> nat option" where
  "apply_components s depth =
     (if s = [] then Some depth
      else let comp = takeWhile (\<lambda>c. c \<noteq> CHR ''/'') s;
               rest = dropWhile (\<lambda>c. c \<noteq> CHR ''/'') s;
               continue = (\<lambda>d. case rest of [] \<Rightarrow> Some d | _ # next_comp \<Rightarrow> apply_components next_comp d) in
        if comp = ''..'' then (if depth = 0 then None else continue (depth - 1))
        else if comp \<noteq> [] \<and> comp \<noteq> ''.'' then continue (depth + 1)
        else continue depth)"
  by pat_completeness auto
termination
  by (relation "measure (\<lambda>(s, d). length s)") (auto dest: dropWhile_Cons_shorter dropWhile_Cons_shorter [OF sym])

declare apply_components.simps [simp del]

fun mc_link_stays_beneath :: "string option \<Rightarrow> string option \<Rightarrow> bool" where
  "mc_link_stays_beneath (Some entry_path) (Some target) =
     (if target = [] \<or> strchr target (CHR 0x5C) \<noteq> None then False
      else if hd target = CHR ''/'' then apply_components (tl target) 0 \<noteq> None
      else
        let parent_length = (case strrchr entry_path (CHR ''/'') of None \<Rightarrow> 0
                             | Some slash \<Rightarrow> length entry_path - length slash) in
        if parent_length \<ge> 4096 then False
        else case apply_components (take parent_length entry_path) 0 of
               None \<Rightarrow> False
             | Some depth \<Rightarrow> apply_components target depth \<noteq> None)"
| "mc_link_stays_beneath _ _ = False"

fun mc_valid_environment :: "string option \<Rightarrow> bool" where
  "mc_valid_environment None = False"
| "mc_valid_environment (Some assignment) =
     (case strchr assignment (CHR ''='') of
        None \<Rightarrow> False
      | Some equals \<Rightarrow>
        if length equals = length assignment \<or> \<not> (isalpha (hd assignment) \<or> hd assignment = CHR ''_'')
        then False
        else if \<exists>c \<in> set (tl (takeWhile (\<lambda>c. c \<noteq> CHR ''='') assignment)). \<not> (isalnum c \<or> c = CHR ''_'')
        then False
        else strchr (tl equals) (CHR 0x0A) = None \<and> strchr (tl equals) (CHR 0x0D) = None)"

fun mc_parse_user :: "string option \<Rightarrow> (u32 \<times> u32) option" where
  "mc_parse_user None = None"
| "mc_parse_user (Some value) =
     (if value = [] then None
      else let u = strtoull value in
        if st_range u \<or> st_end u = value \<or> st_val u > 65535 then None
        else (case st_end u of
                c # group_start \<Rightarrow>
                  if c = CHR '':'' then
                    let g = strtoull group_start in
                    if st_range g \<or> st_end g = group_start \<or> st_val g > 65535 then None
                    else if st_end g \<noteq> [] then None
                    else Some (ucast (st_val u), ucast (st_val g))
                  else None
              | [] \<Rightarrow> Some (ucast (st_val u), ucast (st_val u))))"

section \<open>A lexical walk as the reference\<close>

text \<open>The stack holds the directory names below the root, innermost first. \<open>None\<close>: the walk went
  above the root.\<close>

fun walk :: "string list \<Rightarrow> string list \<Rightarrow> string list option" where
  "walk st [] = Some st"
| "walk st (w # ws) =
     (if w = ''..'' then (case st of [] \<Rightarrow> None | _ # st' \<Rightarrow> walk st' ws)
      else if w = [] \<or> w = ''.'' then walk st ws
      else walk (w # st) ws)"

definition path_components :: "string \<Rightarrow> string list" where
  "path_components s = strsplit (CHR ''/'') s"

abbreviation plain_component :: "string \<Rightarrow> bool" where
  "plain_component w \<equiv> w \<noteq> [] \<and> w \<noteq> ''.'' \<and> w \<noteq> ''..''"

section \<open>Lemmas\<close>

lemma walk_append: "walk st (a @ b) = Option.bind (walk st a) (\<lambda>st'. walk st' b)"
  by (induction st a rule: walk.induct) (auto split: list.splits)

lemma walk_prefix: "walk st (a @ b) \<noteq> None \<Longrightarrow> walk st a \<noteq> None"
  by (cases "walk st a") (auto simp: walk_append)

lemma walk_all_prefixes: "walk st r \<noteq> None \<longleftrightarrow> (\<forall>ws. prefix ws r \<longrightarrow> walk st ws \<noteq> None)"
proof (intro iffI allI impI)
  fix ws
  assume "walk st r \<noteq> None" and "prefix ws r"
  then show "walk st ws \<noteq> None" by (metis prefix_def walk_prefix)
qed (meson prefix_order.refl)

lemma walk_plain: "\<forall>w \<in> set ws. plain_component w \<Longrightarrow> walk st ws = Some (rev ws @ st)"
  by (induction ws arbitrary: st) auto

lemma path_components_nosep: "CHR ''/'' \<notin> set s \<Longrightarrow> path_components s = [s]"
  by (simp add: path_components_def strsplit_nosep)

lemma path_components_cons:
  "CHR ''/'' \<notin> set a \<Longrightarrow> path_components (a @ CHR ''/'' # b) = a # path_components b"
  by (simp add: path_components_def strsplit_word)

lemma path_components_append:
  "path_components (a @ CHR ''/'' # b) = path_components a @ path_components b"
  by (simp add: path_components_def strsplit_append)

lemma path_components_nonempty [simp]: "path_components s \<noteq> []"
  by (simp add: path_components_def)

lemma path_components_Nil [simp]: "path_components [] = [[]]"
  by (simp add: path_components_def)

lemma safe_components_nosep:
  "CHR ''/'' \<notin> set s \<Longrightarrow> safe_components s \<longleftrightarrow> s = [] \<or> plain_component s"
  by (subst safe_components.simps) (auto simp: takeWhile_nosep)

lemma safe_components_cons:
  "CHR ''/'' \<notin> set a \<Longrightarrow>
   safe_components (a @ CHR ''/'' # b) \<longleftrightarrow> plain_component a \<and> safe_components b"
  by (subst safe_components.simps) (auto simp: takeWhile_sep)

lemma safe_components_iff:
  "safe_components s \<longleftrightarrow>
     (\<forall>w \<in> set (butlast (path_components s)). plain_component w) \<and>
     (last (path_components s) = [] \<or> plain_component (last (path_components s)))"
proof (induction "length s" arbitrary: s rule: less_induct)
  case less
  show ?case
  proof (cases rule: split_at_sep [of "CHR ''/''" s])
    case 1
    then show ?thesis by (auto simp: safe_components_nosep path_components_nosep)
  next
    case (2 a b)
    then have "safe_components b \<longleftrightarrow> (\<forall>w \<in> set (butlast (path_components b)). plain_component w) \<and>
     (last (path_components b) = [] \<or> plain_component (last (path_components b)))"
      using less by simp
    then show ?thesis using 2 by (simp add: safe_components_cons path_components_cons)
  qed
qed

lemma apply_components_nosep:
  "CHR ''/'' \<notin> set s \<Longrightarrow> apply_components s (length st) = map_option length (walk st [s])"
  by (subst apply_components.simps) (auto simp: takeWhile_nosep Let_def split: list.splits)

lemma apply_components_cons:
  "CHR ''/'' \<notin> set a \<Longrightarrow>
   apply_components (a @ CHR ''/'' # b) (length st) =
   Option.bind (walk st [a]) (\<lambda>st'. apply_components b (length st'))"
  by (subst apply_components.simps) (auto simp: takeWhile_sep Let_def split: list.splits)

text \<open>The depth counter implements the stack: it is the stack's height.\<close>

lemma apply_components_walk:
  "apply_components s (length st) = map_option length (walk st (path_components s))"
proof (induction "length s" arbitrary: s st rule: less_induct)
  case less
  show ?case
  proof (cases rule: split_at_sep [of "CHR ''/''" s])
    case 1
    then show ?thesis by (simp add: apply_components_nosep path_components_nosep del: walk.simps)
  next
    case (2 a b)
    then have IH: "apply_components b (length st') = map_option length (walk st' (path_components b))" for st'
      using less by simp
    have "apply_components s (length st) = Option.bind (walk st [a]) (\<lambda>st'. map_option length (walk st' (path_components b)))"
      unfolding 2(1) apply_components_cons [OF 2(2)] IH ..
    also have "\<dots> = map_option length (walk st ([a] @ path_components b))"
      unfolding walk_append by (cases "walk st [a]") auto
    finally show ?thesis using 2 by (simp add: path_components_cons)
  qed
qed

lemma apply_components_walk0: "apply_components s 0 = map_option length (walk [] (path_components s))"
  using apply_components_walk [of s "[]"] by simp

definition parent_path :: "string \<Rightarrow> string" where
  "parent_path p = (case strrchr p (CHR ''/'') of None \<Rightarrow> []
                    | Some slash \<Rightarrow> take (length p - length slash) p)"

lemma parent_path_simps [simp]:
  "CHR ''/'' \<notin> set b \<Longrightarrow> parent_path (a @ CHR ''/'' # b) = a"
  "CHR ''/'' \<notin> set b \<Longrightarrow> parent_path b = []"
  by (simp_all add: parent_path_def)

text \<open>The component sequence along which the kernel resolves an archive link: from the root for an
  absolute target (the container's root), from the entry's directory otherwise.\<close>

definition link_resolution :: "string \<Rightarrow> string \<Rightarrow> string list" where
  "link_resolution entry target =
     (if hd target = CHR ''/'' then path_components (tl target)
      else path_components (parent_path entry) @ path_components target)"

lemma link_parent:
  "(case strrchr e (CHR ''/'') of None \<Rightarrow> 0 | Some slash \<Rightarrow> length e - length slash) = length (parent_path e)"
  "take (length (parent_path e)) e = parent_path e"
  by (auto simp: parent_path_def split: option.splits)

lemma link_stays_beneath_walk:
  "mc_link_stays_beneath (Some e) (Some t) \<longleftrightarrow>
     t \<noteq> [] \<and> CHR 0x5C \<notin> set t \<and> (hd t = CHR ''/'' \<or> length (parent_path e) < 4096) \<and>
     walk [] (link_resolution e t) \<noteq> None"
proof (cases "hd t = CHR ''/''")
  case True
  then show ?thesis
    by (auto simp: link_resolution_def apply_components_walk0 strchr_None_iff)
next
  case False
  have "(case apply_components (parent_path e) 0 of None \<Rightarrow> False
         | Some depth \<Rightarrow> apply_components t depth \<noteq> None) \<longleftrightarrow>
        walk [] (path_components (parent_path e) @ path_components t) \<noteq> None"
    by (cases "walk [] (path_components (parent_path e))")
      (auto simp: apply_components_walk0 apply_components_walk walk_append)
  with False show ?thesis
    by (auto simp: link_resolution_def strchr_None_iff link_parent Let_def)
qed

lemma safe_archive_path_iff:
  "mc_safe_archive_path (Some p) \<longleftrightarrow>
     p \<noteq> [] \<and> hd p \<noteq> CHR ''/'' \<and> CHR 0x5C \<notin> set p \<and>
     (\<forall>w \<in> set (butlast (path_components p)). plain_component w) \<and>
     (last (path_components p) = [] \<or> plain_component (last (path_components p)))"
  by (auto simp: safe_components_iff strchr_None_iff)

lemma valid_name_iff:
  "mc_valid_name (Some n) \<longleftrightarrow>
     0 < length n \<and> length n \<le> 64 \<and> (islower (hd n) \<or> isdigit (hd n)) \<and>
     (\<forall>c \<in> set n. islower c \<or> isdigit c \<or> c = CHR ''.'' \<or> c = CHR ''_'' \<or> c = CHR ''-'') \<and>
     \<not> sublist ''..'' n"
proof -
  have "n \<noteq> [] \<Longrightarrow> islower (hd n) \<or> isdigit (hd n) \<or> hd n = CHR ''.'' \<or> hd n = CHR ''_'' \<or> hd n = CHR ''-''
    \<Longrightarrow> isalnum (hd n) \<longleftrightarrow> islower (hd n) \<or> isdigit (hd n)"
    by (auto simp: ctype_defs)
  then show ?thesis
    using strstr_sublist [of n "''..''"] hd_in_set [of n]
    by (auto simp: Let_def not_less)
qed

section \<open>Properties\<close>

text \<open>C32: an archive link is accepted exactly when its target is a non-empty text without a
  backslash, its entry's directory fits the 4096-byte buffer (relative targets), and no prefix of
  its lexical resolution, however many \<open>..\<close> it has, leaves the extraction root.\<close>

theorem link_stays_beneath_correct:
  "mc_link_stays_beneath (Some entry) (Some target) \<longleftrightarrow>
     target \<noteq> [] \<and> CHR 0x5C \<notin> set target \<and>
     (hd target = CHR ''/'' \<or> length (parent_path entry) < 4096) \<and>
     (\<forall>ws. prefix ws (link_resolution entry target) \<longrightarrow> walk [] ws \<noteq> None)"
  unfolding link_stays_beneath_walk using walk_all_prefixes [of "[]" "link_resolution entry target"] by blast

theorem link_stays_beneath_correct_witness:
  "mc_link_stays_beneath (Some ''usr/share/keys/x86/key'') (Some ''../key'') \<and>
   walk [] [''usr'', ''share'', ''keys'', ''x86'', ''..''] \<noteq> None"
proof -
  have r: "link_resolution ''usr/share/keys/x86/key'' ''../key'' =
     [''usr'', ''share'', ''keys'', ''x86'', ''..'', ''key'']"
    by (simp add: link_resolution_def parent_path_def path_components_def)
  have "mc_link_stays_beneath (Some ''usr/share/keys/x86/key'') (Some ''../key'')"
    by code_simp
  then show ?thesis
    using link_stays_beneath_correct [of "''usr/share/keys/x86/key''" "''../key''"] by (simp add: r)
qed

text \<open>Extracting an entry whose path passes \<open>mc_safe_archive_path\<close> below any directory lands at
  exactly the path's own components below that directory (a trailing slash aside): no component is
  dropped, none escapes.\<close>

theorem safe_archive_path_lands:
  assumes "mc_safe_archive_path (Some path)"
  shows "walk dir (path_components path) = Some (rev (filter (\<lambda>w. w \<noteq> []) (path_components path)) @ dir)"
proof -
  let ?cs = "path_components path"
  have cs: "?cs = butlast ?cs @ [last ?cs]" by simp
  have plain: "\<forall>w \<in> set (butlast ?cs). plain_component w"
    and last: "last ?cs = [] \<or> plain_component (last ?cs)"
    using assms by (auto simp only: safe_archive_path_iff)
  have "walk dir ?cs = walk (rev (butlast ?cs) @ dir) [last ?cs]"
    by (subst cs) (simp only: walk_append walk_plain [OF plain] Option.bind.simps)
  moreover have "filter (\<lambda>w. w \<noteq> []) ?cs = butlast ?cs @ filter (\<lambda>w. w \<noteq> []) [last ?cs]"
    using plain by (subst cs) (simp add: filter_id_conv del: append_butlast_last_id)
  ultimately show ?thesis using last by auto
qed

theorem safe_archive_path_lands_witness:
  "mc_safe_archive_path (Some ''etc/init.d/'') \<and>
   walk [''root''] (path_components ''etc/init.d/'') = Some [''init.d'', ''etc'', ''root'']"
proof -
  have "mc_safe_archive_path (Some ''etc/init.d/'')"
    by code_simp
  then show ?thesis
    using safe_archive_path_lands [of "''etc/init.d/''" "[''root'']"] by (simp add: path_components_def)
qed

text \<open>A name accepted by \<open>mc_valid_name\<close> is one ordinary path component: joined to a directory it
  names an entry of that directory itself, and it is made only of lower-case letters, digits, dots,
  underscores and hyphens.\<close>

theorem valid_name_one_component:
  assumes "mc_valid_name (Some name)"
  shows "path_components (dir @ CHR ''/'' # name) = path_components dir @ [name] \<and> plain_component name \<and>
         length name \<le> 64 \<and> (\<forall>c \<in> set name. islower c \<or> isdigit c \<or> c \<in> set ''._-'')"
proof -
  have v: "0 < length name" "length name \<le> 64" "islower (hd name) \<or> isdigit (hd name)"
    "\<forall>c \<in> set name. islower c \<or> isdigit c \<or> c = CHR ''.'' \<or> c = CHR ''_'' \<or> c = CHR ''-''"
    using assms by (auto simp only: valid_name_iff)
  have "CHR ''/'' \<notin> set name" using v(4) by (auto simp: ctype_defs)
  moreover have "plain_component name" using v(1,3) by (auto simp: ctype_defs)
  ultimately show ?thesis using v(2,4) by (auto simp: path_components_append path_components_nosep)
qed

theorem valid_name_one_component_witness:
  "mc_valid_name (Some ''alpine-3.24'') \<and>
   path_components (''names'' @ CHR ''/'' # ''alpine-3.24'') = [''names'', ''alpine-3.24'']"
proof -
  have "mc_valid_name (Some ''alpine-3.24'')" by code_simp
  then show ?thesis
    using valid_name_one_component [of "''alpine-3.24''" "''names''"] by (simp add: path_components_def)
qed

lemma valid_environment_split:
  assumes "CHR ''='' \<notin> set k"
  shows "mc_valid_environment (Some (k @ CHR ''='' # v)) \<longleftrightarrow>
     k \<noteq> [] \<and> (isalpha (hd k) \<or> hd k = CHR ''_'') \<and> (\<forall>c \<in> set (tl k). isalnum c \<or> c = CHR ''_'') \<and>
     CHR 0x0A \<notin> set v \<and> CHR 0x0D \<notin> set v"
  using assms by (cases k) (auto simp: strchr_eq takeWhile_sep)

text \<open>An environment assignment is accepted exactly when it is \<open>KEY=VALUE\<close> with \<open>KEY\<close> a C
  identifier (everything before the first equals sign) and no line break in \<open>VALUE\<close>.\<close>

theorem valid_environment_iff:
  "mc_valid_environment (Some assignment) \<longleftrightarrow>
     (\<exists>k v. assignment = k @ CHR ''='' # v \<and> CHR ''='' \<notin> set k \<and> k \<noteq> [] \<and>
        (isalpha (hd k) \<or> hd k = CHR ''_'') \<and> list_all (\<lambda>c. isalnum c \<or> c = CHR ''_'') (tl k) \<and>
        CHR 0x0A \<notin> set v \<and> CHR 0x0D \<notin> set v)"
proof (cases rule: split_at_sep [of "CHR ''=''" assignment])
  case 1
  then show ?thesis by auto
next
  case (2 a b)
  then have u: "\<And>k v. assignment = k @ CHR ''='' # v \<Longrightarrow> CHR ''='' \<notin> set k \<Longrightarrow> k = a \<and> v = b"
    using split_sep_unique [where c = "CHR ''=''"] by blast
  have "mc_valid_environment (Some assignment) \<longleftrightarrow>
     a \<noteq> [] \<and> (isalpha (hd a) \<or> hd a = CHR ''_'') \<and> list_all (\<lambda>c. isalnum c \<or> c = CHR ''_'') (tl a) \<and>
     CHR 0x0A \<notin> set b \<and> CHR 0x0D \<notin> set b"
    unfolding 2(1) list_all_iff by (rule valid_environment_split [OF 2(2)])
  then show ?thesis using 2 u by blast
qed

lemma word_of_nat_le_65535: "n \<le> 65535 \<Longrightarrow> \<not> (65535 :: u64) < word_of_nat n"
  by (simp add: word_less_nat_alt)

text \<open>The launcher's \<open>%u:%u\<close> rendering of a user is read back exactly.\<close>

lemma parse_user_roundtrip:
  assumes "u \<le> 65535" and "g \<le> 65535"
  shows "mc_parse_user (Some (show_nat u @ CHR '':'' # show_nat g)) = Some (word_of_nat u, word_of_nat g)"
proof -
  have "nondigit_start (CHR '':'' # r)" for r by (simp add: nondigit_start_def isdigit_def)
  moreover have "strtoull (show_nat g) = \<lparr>st_val = word_of_nat g, st_end = [], st_range = False\<rparr>"
    using strtoull_show_nat [of g "[]"] assms by (simp add: nondigit_start_def)
  ultimately show ?thesis
    using assms show_nat_nonempty [of g]
    by (auto simp: strtoull_show_nat word_of_nat_le_65535 ucast_word_of_nat Let_def)
qed

lemma parse_user_range:
  assumes "mc_parse_user v = Some (u, g)"
  shows "unat u \<le> 65535 \<and> unat g \<le> 65535"
proof -
  have le: "x \<le> 65535 \<Longrightarrow> unat (ucast x :: u32) \<le> 65535" for x :: u64
    by (simp add: word_le_nat_alt unat_ucast_u32)
  from assms show ?thesis
    by (cases v) (auto simp: Let_def not_less le split: if_splits list.splits)
qed

end
