(* ===== verification/MC_Resource.thy ===== *)
theory MC_Resource
  imports MC_Error
begin

text \<open>
  \<open>src/util/resource.c\<close>: limits given as counts, byte sizes with IEC suffixes and decimal CPU counts.
  All arithmetic is done on 64-bit words, as in the C code; the lemmas show that no accepted input
  wraps around and relate each parser to exact arithmetic on natural numbers.
\<close>

section \<open>The parsers\<close>

fun mc_parse_positive_u64 :: "string option \<Rightarrow> u64 \<Rightarrow> u64 option" where
  "mc_parse_positive_u64 None maximum = None"
| "mc_parse_positive_u64 (Some value) maximum =
     (if value = [] \<or> hd value = CHR ''-'' then None
      else let parsed = strtoull value in
        if st_range parsed \<or> st_end parsed = value \<or> st_end parsed \<noteq> [] \<or>
           st_val parsed = 0 \<or> st_val parsed > maximum then None
        else Some (st_val parsed))"

definition bytes_multiplier :: "string \<Rightarrow> u64 option" where
  "bytes_multiplier s =
     (if s = '''' \<or> s = ''b'' then Some 1
      else if s = ''k'' \<or> s = ''ki'' \<or> s = ''kib'' then Some 1024
      else if s = ''m'' \<or> s = ''mi'' \<or> s = ''mib'' then Some (1024 * 1024)
      else if s = ''g'' \<or> s = ''gi'' \<or> s = ''gib'' then Some (1024 * 1024 * 1024)
      else None)"

fun mc_parse_bytes :: "string option \<Rightarrow> u64 option" where
  "mc_parse_bytes None = None"
| "mc_parse_bytes (Some value) =
     (if value = [] \<or> hd value = CHR ''-'' then None
      else let number = strtoull value in
        if st_range number \<or> st_end number = value \<or> st_val number = 0 then None
        else if length (st_end number) \<ge> 8 then None
        else
          (case bytes_multiplier (map tolower (st_end number)) of
             None \<Rightarrow> None
           | Some multiplier \<Rightarrow>
               if st_val number > (- 1) div multiplier then None
               else Some (st_val number * multiplier)))"

record cpu_scan =
  cs_whole :: u64
  cs_fraction :: u64
  cs_scale :: u64
  cs_digit :: bool
  cs_dot :: bool

fun cpu_quota_loop :: "string \<Rightarrow> cpu_scan \<Rightarrow> cpu_scan option" where
  "cpu_quota_loop [] s = Some s"
| "cpu_quota_loop (c # cursor) s =
     (if c = CHR ''.'' then
        (if cs_dot s then None else cpu_quota_loop cursor (s\<lparr>cs_dot := True\<rparr>))
      else if \<not> isdigit c then None
      else if \<not> cs_dot s then
        (if cs_whole s > 1024 then None
         else cpu_quota_loop cursor
                (s\<lparr>cs_digit := True, cs_whole := cs_whole s * 10 + word_of_nat (of_char c - 48)\<rparr>))
      else if cs_scale s < 1000000 then
        cpu_quota_loop cursor
          (s\<lparr>cs_digit := True, cs_fraction := cs_fraction s * 10 + word_of_nat (of_char c - 48),
             cs_scale := cs_scale s * 10\<rparr>)
      else None)"

definition cpu_quota_result :: "cpu_scan \<Rightarrow> u64 option" where
  "cpu_quota_result s =
     (if \<not> cs_digit s \<or> cs_whole s > 1024 then None
      else let micros = cs_whole s * 1000000 + (cs_fraction s * 1000000) div cs_scale s in
        if micros = 0 \<or> micros > 1024 * 1000000 then None
        else let quota = (micros * 100000) div 1000000 in
          if quota > 0 then Some quota else None)"

fun mc_parse_cpu_quota :: "string option \<Rightarrow> u64 option" where
  "mc_parse_cpu_quota None = None"
| "mc_parse_cpu_quota (Some value) =
     (if value = [] then None
      else case cpu_quota_loop value
             \<lparr>cs_whole = 0, cs_fraction = 0, cs_scale = 1, cs_digit = False, cs_dot = False\<rparr> of
        None \<Rightarrow> None
      | Some s \<Rightarrow> cpu_quota_result s)"

section \<open>Exact reference definitions\<close>

text \<open>The multiplier a size suffix stands for, case-insensitively.\<close>

definition byte_unit :: "string \<Rightarrow> nat option" where
  "byte_unit end_text = (let s = map tolower end_text in
     if s \<in> set ['''', ''b''] then Some 1
     else if s \<in> set [''k'', ''ki'', ''kib''] then Some (2 ^ 10)
     else if s \<in> set [''m'', ''mi'', ''mib''] then Some (2 ^ 20)
     else if s \<in> set [''g'', ''gi'', ''gib''] then Some (2 ^ 30)
     else None)"

text \<open>A decimal \<open>w.f\<close> as a number of millionths.\<close>

definition decimal_micros :: "string \<Rightarrow> string \<Rightarrow> nat" where
  "decimal_micros w f = digits_val w * 10 ^ 6 + digits_val f * 10 ^ (6 - length f)"

definition split_decimal :: "string \<Rightarrow> string \<times> string" where
  "split_decimal s = (takeWhile (\<lambda>c. c \<noteq> CHR ''.'') s, drop 1 (dropWhile (\<lambda>c. c \<noteq> CHR ''.'') s))"

text \<open>The exact quota per 100000 microseconds for a decimal CPU count.\<close>

definition exact_cpu_quota :: "string \<Rightarrow> nat option" where
  "exact_cpu_quota s = (let (w, f) = split_decimal s; micros = decimal_micros w f in
     if list_all isdigit (w @ f) \<and> w @ f \<noteq> [] \<and> length f \<le> 6 \<and>
        micros \<le> 1024 * 10 ^ 6 \<and> 0 < micros div 10
     then Some (micros div 10) else None)"

section \<open>Lemmas\<close>

lemma of_char_digit: "isdigit c \<Longrightarrow> of_char c - 48 \<le> (9 :: nat)"
  unfolding isdigit_def by linarith

lemma digit_not_dot: "isdigit c \<Longrightarrow> c \<noteq> CHR ''.''"
  by (auto simp: isdigit_def)

lemma digits_val_append:
  "digits_val (a @ b) = digits_val a * 10 ^ length b + digits_val b"
proof (induction b rule: rev_induct)
  case (snoc x xs)
  have "digits_val (a @ xs @ [x]) = digits_val (a @ xs) * 10 + (of_char x - 48)"
    using digits_val_snoc [of "a @ xs" x] by simp
  then show ?case using snoc by (simp add: digits_val_snoc algebra_simps)
qed (simp add: digits_val_def)

lemma digits_val_Nil [simp]: "digits_val [] = 0"
  by (simp add: digits_val_def)

lemma digits_val_single: "digits_val [c] = of_char c - 48"
  by (simp add: digits_val_def)

lemma digits_val_less: "list_all isdigit s \<Longrightarrow> digits_val s < 10 ^ length s"
proof (induction s rule: rev_induct)
  case (snoc x xs)
  then have "digits_val xs < 10 ^ length xs" "of_char x - 48 \<le> (9 :: nat)"
    by (auto simp: of_char_digit)
  then show ?case by (simp add: digits_val_snoc)
qed simp


lemma strtoull_positive_iff:
  "mc_parse_positive_u64 (Some value) maximum = Some n \<longleftrightarrow>
     value \<noteq> [] \<and> hd value \<noteq> CHR ''-'' \<and> \<not> st_range (strtoull value) \<and>
     st_end (strtoull value) = [] \<and> st_val (strtoull value) = n \<and> 0 < n \<and> n \<le> maximum"
  by (auto simp: Let_def word_gt_0 not_le not_less split: if_splits)

lemma hd_show_nat: "hd (show_nat n) \<noteq> CHR ''-''"
  using digit_not_space [of "hd (show_nat n)"] show_nat_digits [OF hd_in_set [of "show_nat n"]]
  by simp

lemma parse_positive_u64_roundtrip:
  assumes "0 < n" "n \<le> unat maximum"
  shows "mc_parse_positive_u64 (Some (show_nat n)) maximum = Some (word_of_nat n)"
proof -
  have n: "n < 2 ^ 64" using assms(2) unat_u64_less [of maximum] by simp
  have "strtoull (show_nat n) = \<lparr>st_val = word_of_nat n, st_end = [], st_range = False\<rparr>"
    using strtoull_show_nat [of n "[]"] n by (simp add: nondigit_start_def)
  moreover have "(word_of_nat n :: u64) \<le> maximum" "(word_of_nat n :: u64) \<noteq> 0"
    using assms n by (simp_all add: word_le_nat_alt unat_eq_0 [symmetric])
  ultimately show ?thesis by (simp add: strtoull_positive_iff word_gt_0 hd_show_nat)
qed

lemma nat_le_iff_less_Suc: "(k :: nat) \<le> n \<longleftrightarrow> k < Suc n"
  by auto

lemma word_mult_no_wrap:
  fixes a m :: u64
  assumes "m \<noteq> 0"
  shows "a \<le> (- 1) div m \<longleftrightarrow> unat a * unat m < 2 ^ 64"
proof -
  have "unat m > 0" using assms by (simp add: unat_gt_0)
  have "a \<le> (- 1) div m \<longleftrightarrow> unat a \<le> (2 ^ 64 - 1) div unat m"
    by (simp add: word_le_nat_alt unat_div unsigned_minus_1_eq_mask mask_eq_exp_minus_1)
  also have "\<dots> \<longleftrightarrow> unat a * unat m \<le> 2 ^ 64 - 1"
    using \<open>unat m > 0\<close> by (simp add: less_eq_div_iff_mult_less_eq)
  also have "\<dots> \<longleftrightarrow> unat a * unat m < 2 ^ 64"
    using nat_le_iff_less_Suc [of "unat a * unat m" "2 ^ 64 - 1"] by simp
  finally show ?thesis .
qed

lemma unat_mult_no_wrap:
  fixes a m :: u64
  shows "unat a * unat m < 2 ^ 64 \<Longrightarrow> unat (a * m) = unat a * unat m"
  by (simp add: unat_word_ariths)

lemma parse_bytes_show_nat:
  assumes "0 < unat n"
  shows "mc_parse_bytes (Some (show_nat (unat n))) = Some n"
proof -
  have r: "strtoull (show_nat (unat n)) = \<lparr>st_val = n, st_end = [], st_range = False\<rparr>"
    using strtoull_show_nat [of "unat n" "[]"] unat_u64_less [of n] by (simp add: nondigit_start_def)
  have "n \<noteq> 0" using assms by auto
  moreover have "n \<le> - 1" by (rule word_order.extremum)
  ultimately show ?thesis using r by (simp add: Let_def bytes_multiplier_def hd_show_nat)
qed

lemma parse_bytes_pos:
  assumes "mc_parse_bytes v = Some b"
  shows "0 < unat b"
proof -
  obtain u where v: "v = Some u" using assms by (cases v) auto
  obtain m where m: "bytes_multiplier (map tolower (st_end (strtoull u))) = Some m"
      "st_val (strtoull u) \<le> (- 1) div m" "b = st_val (strtoull u) * m" "st_val (strtoull u) \<noteq> 0"
    using assms v by (auto simp: Let_def not_less split: if_splits option.splits)
  have "m \<noteq> 0" using m(1) by (auto simp: bytes_multiplier_def split: if_splits)
  then have "unat b = unat (st_val (strtoull u)) * unat m"
    using m word_mult_no_wrap [of m] unat_mult_no_wrap by simp
  then show ?thesis using m(4) \<open>m \<noteq> 0\<close> by (simp add: unat_gt_0)
qed

lemma byte_unit_short: "byte_unit s = Some m \<Longrightarrow> length s < 8"
  using length_map [of tolower s] by (auto simp: byte_unit_def Let_def split: if_splits)

lemma bytes_multiplier_unit:
  "bytes_multiplier (map tolower s) = map_option word_of_nat (byte_unit s)"
  by (simp add: bytes_multiplier_def byte_unit_def Let_def del: map_eq_Cons_conv)

lemma byte_unit_word:
  "byte_unit s = Some m \<Longrightarrow> unat (word_of_nat m :: u64) = m \<and> (word_of_nat m :: u64) \<noteq> 0"
  by (auto simp: byte_unit_def Let_def split: if_splits)


subsection \<open>The CPU quota scanner\<close>

lemma unat_scan_step:
  fixes n :: u64
  assumes "unat n \<le> 1000000" "isdigit c"
  shows "unat (n * 10 + word_of_nat (of_char c - 48)) = unat n * 10 + (of_char c - 48)"
proof -
  have "of_char c - 48 \<le> (9 :: nat)" using assms(2) by (rule of_char_digit)
  then show ?thesis using assms(1) by (simp add: unat_word_ariths unsigned_of_nat take_bit_nat_eq_self)
qed

text \<open>The integral digits: the scan goes on as long as the value before the last digit is at most 1024.\<close>

lemma cpu_quota_loop_whole:
  assumes "list_all isdigit w" "w \<noteq> []" "\<not> cs_dot s" "unat (cs_whole s) \<le> 10249"
  shows "cpu_quota_loop (w @ rest) s =
    (let before = unat (cs_whole s) * 10 ^ (length w - 1) + digits_val (butlast w);
         after = unat (cs_whole s) * 10 ^ length w + digits_val w in
     if before \<le> 1024
     then cpu_quota_loop rest (s\<lparr>cs_digit := True, cs_whole := word_of_nat after\<rparr>)
     else None)"
  using assms
proof (induction w arbitrary: s)
  case (Cons c w)
  let ?n = "unat (cs_whole s)" and ?d = "of_char c - 48 :: nat"
  let ?s = "s\<lparr>cs_digit := True, cs_whole := cs_whole s * 10 + word_of_nat ?d\<rparr>"
  have c: "isdigit c" "c \<noteq> CHR ''.''" and w: "list_all isdigit w" "\<not> cs_dot s"
    using Cons.prems digit_not_dot by auto
  have step: "unat (cs_whole ?s) = ?n * 10 + ?d"
    using unat_scan_step [of "cs_whole s" c] c(1) Cons.prems(4) by simp
  have "?n * 10 + ?d < 2 ^ 64" using Cons.prems(4) of_char_digit [OF c(1)] by simp
  with step have next_whole: "cs_whole s * 10 + word_of_nat ?d = word_of_nat (?n * 10 + ?d)"
    by (simp add: word_unat_eq_iff unsigned_of_nat take_bit_nat_eq_self)
  have le: "1024 < cs_whole s \<longleftrightarrow> \<not> ?n \<le> 1024" by (simp add: word_less_nat_alt not_le)
  have dv: "digits_val (c # u) = ?d * 10 ^ length u + digits_val u" for u
    using digits_val_append [of "[c]" u] by (simp add: digits_val_single)
  show ?case
  proof (cases "w = []")
    case True
    then show ?thesis using c w le next_whole by (simp add: digits_val_single)
  next
    case False
    obtain k where k: "length w = Suc k" using False by (cases w) auto
    have bl: "butlast (c # w) = c # butlast w" using False by simp
    show ?thesis
    proof (cases "?n \<le> 1024")
      case True
      have "unat (cs_whole ?s) \<le> 10249" using True of_char_digit [OF c(1)] step by simp
      then have "cpu_quota_loop (w @ rest) ?s =
        (if (?n * 10 + ?d) * 10 ^ (length w - 1) + digits_val (butlast w) \<le> 1024
         then cpu_quota_loop rest (?s\<lparr>cs_digit := True,
           cs_whole := word_of_nat ((?n * 10 + ?d) * 10 ^ length w + digits_val w)\<rparr>) else None)"
        using Cons.IH [OF w(1) False, of ?s] w(2) step by (simp add: Let_def)
      then show ?thesis using True c w le unfolding bl by (simp add: dv k algebra_simps)
    next
      case False
      have "?n * 1 \<le> ?n * 10 ^ Suc k" by (rule mult_le_mono2) simp
      then have "1024 < ?n * 10 ^ Suc k" using False by linarith
      then show ?thesis using False c w le by (simp add: Let_def k)
    qed
  qed
qed simp

text \<open>The fractional digits: at most six of them, read exactly.\<close>

lemma cpu_quota_loop_fraction:
  assumes "list_all isdigit f" "cs_dot s" "unat (cs_scale s) = 10 ^ j" "j \<le> 6"
    and "unat (cs_fraction s) < 10 ^ j"
  shows "cpu_quota_loop f s =
    (if j + length f \<le> 6 then
       Some (s\<lparr>cs_digit := cs_digit s \<or> f \<noteq> [],
               cs_fraction := word_of_nat (unat (cs_fraction s) * 10 ^ length f + digits_val f),
               cs_scale := word_of_nat (10 ^ (j + length f))\<rparr>)
     else None)"
  using assms
proof (induction f arbitrary: s j)
  case Nil
  have "word_of_nat (unat (cs_scale s)) = cs_scale s" by simp
  then have "word_of_nat (10 ^ j) = cs_scale s" unfolding Nil.prems(3) .
  then show ?case using Nil by simp
next
  case (Cons c f)
  let ?n = "unat (cs_fraction s)" and ?d = "of_char c - 48 :: nat"
  let ?s = "s\<lparr>cs_digit := True, cs_fraction := cs_fraction s * 10 + word_of_nat ?d,
               cs_scale := cs_scale s * 10\<rparr>"
  have c: "isdigit c" "c \<noteq> CHR ''.''" and f: "list_all isdigit f" "cs_dot s"
    using Cons.prems digit_not_dot by auto
  have scale: "cs_scale s < 1000000 \<longleftrightarrow> j < 6"
    using Cons.prems(3,4) power_strict_increasing_iff [of "10 :: nat" j 6]
    by (simp add: word_less_nat_alt del: power_strict_increasing_iff)
  show ?case
  proof (cases "j < 6")
    case False
    then show ?thesis using c f scale by simp
  next
    case True
    have le6: "(10 :: nat) ^ j \<le> 1000000"
      using Cons.prems(4) power_increasing [of j 6 "10 :: nat"] by simp
    then have n: "?n \<le> 1000000" using Cons.prems(5) by simp
    have frac: "unat (cs_fraction ?s) = ?n * 10 + ?d"
      using unat_scan_step [OF n c(1)] by simp
    have scl: "unat (cs_scale ?s) = 10 ^ Suc j"
      using Cons.prems(3) le6 by (simp add: unat_word_ariths)
    have bound: "unat (cs_fraction ?s) < 10 ^ Suc j"
      using frac of_char_digit [OF c(1)] Cons.prems(5) by simp
    have dv: "digits_val (c # f) = ?d * 10 ^ length f + digits_val f"
      using digits_val_append [of "[c]" f] by (simp add: digits_val_single)
    have "cpu_quota_loop f ?s =
      (if Suc j + length f \<le> 6 then
         Some (?s\<lparr>cs_digit := True,
                  cs_fraction := word_of_nat ((?n * 10 + ?d) * 10 ^ length f + digits_val f),
                  cs_scale := word_of_nat (10 ^ (Suc j + length f))\<rparr>) else None)"
      using Cons.IH [OF f(1) _ scl _ bound] True f(2) frac by simp
    then show ?thesis using c f scale True by (simp add: dv algebra_simps)
  qed
qed

lemma cpu_quota_loop_bad_whole:
  assumes "\<not> list_all isdigit w" "CHR ''.'' \<notin> set w" "\<not> cs_dot s"
  shows "cpu_quota_loop (w @ rest) s = None"
  using assms by (induction w arbitrary: s) auto

lemma cpu_quota_loop_bad_fraction:
  assumes "\<not> list_all isdigit f" "cs_dot s"
  shows "cpu_quota_loop f s = None"
  using assms by (induction f arbitrary: s) auto

lemma cpu_quota_result_exact:
  assumes "unat (cs_scale s) = 10 ^ k" "k \<le> 6" "unat (cs_fraction s) < 10 ^ k"
  defines "m \<equiv> unat (cs_whole s) * 10 ^ 6 + unat (cs_fraction s) * 10 ^ (6 - k)"
  shows "map_option unat (cpu_quota_result s) =
    (if cs_digit s \<and> m \<le> 1024 * 10 ^ 6 \<and> 0 < m div 10 then Some (m div 10) else None)"
proof (cases "unat (cs_whole s) \<le> 1024")
  case False
  then have "\<not> m \<le> 1024 * 10 ^ 6" by (simp add: m_def)
  then show ?thesis using False by (simp add: cpu_quota_result_def word_less_nat_alt)
next
  case True
  define x where "x = cs_whole s * 1000000 + (cs_fraction s * 1000000) div cs_scale s"
  have k6: "(10 :: nat) ^ 6 = 10 ^ (6 - k) * 10 ^ k" using assms(2) by (simp flip: power_add)
  have f: "unat (cs_fraction s) < 1000000"
    using assms(3) power_increasing [OF assms(2), of "10 :: nat"] by simp
  have "unat ((cs_fraction s * 1000000) div cs_scale s) = unat (cs_fraction s) * 10 ^ 6 div 10 ^ k"
    using f assms(1) by (simp add: unat_div unat_word_ariths)
  also have "\<dots> = unat (cs_fraction s) * 10 ^ (6 - k)" unfolding k6 by simp
  finally have div: "unat ((cs_fraction s * 1000000) div cs_scale s) = unat (cs_fraction s) * 10 ^ (6 - k)" .
  have "unat (cs_fraction s) * 10 ^ (6 - k) < 10 ^ k * 10 ^ (6 - k)" using assms(3) by simp
  also have "\<dots> = 1000000" using k6 by (simp add: mult.commute)
  finally have "unat (cs_fraction s) * 10 ^ (6 - k) < 1000000" .
  then have x: "unat x = m" and m: "m < 2000000000"
    using True by (simp_all add: m_def x_def unat_word_ariths(1,2) div)
  have quota: "unat ((x * 100000) div 1000000) = m div 10"
    using m x by (simp add: unat_div unat_word_ariths(2))
  have conds: "1024 < cs_whole s \<longleftrightarrow> False" "x = 0 \<longleftrightarrow> m = 0"
    "1024 * 1000000 < x \<longleftrightarrow> \<not> m \<le> 1024 * 10 ^ 6" "0 < (x * 100000) div 1000000 \<longleftrightarrow> 0 < m div 10"
    using True unfolding word_unat_eq_iff word_less_nat_alt quota x by (simp_all add: not_le)
  show ?thesis unfolding cpu_quota_result_def Let_def x_def [symmetric] conds
    by (auto simp: quota)
qed

lemma cpu_quota_loop_digits:
  assumes "list_all isdigit w"
  shows "cpu_quota_loop (w @ rest)
      \<lparr>cs_whole = 0, cs_fraction = 0, cs_scale = 1, cs_digit = False, cs_dot = False\<rparr> =
    (if digits_val (butlast w) \<le> 1024
     then cpu_quota_loop rest \<lparr>cs_whole = word_of_nat (digits_val w), cs_fraction = 0, cs_scale = 1,
                                cs_digit = (w \<noteq> []), cs_dot = False\<rparr>
     else None)"
  using assms cpu_quota_loop_whole [of w] by (cases "w = []") (simp_all add: Let_def)

lemma digits_val_butlast:
  assumes "list_all isdigit w"
  shows "digits_val (butlast w) * 10 \<le> digits_val w" "digits_val w \<le> digits_val (butlast w) * 10 + 9"
  using assms by (cases w rule: rev_cases; simp add: digits_val_snoc of_char_digit)+

text \<open>The two shapes of an accepted input, with and without a decimal point.\<close>

lemma cpu_quota_decimal:
  assumes "list_all isdigit w" and "s = w \<and> f = [] \<or> s = w @ CHR ''.'' # f" and "list_all isdigit f"
  shows "map_option unat (mc_parse_cpu_quota (Some s)) =
    (if w @ f \<noteq> [] \<and> length f \<le> 6 \<and> decimal_micros w f \<le> 1024 * 10 ^ 6 \<and> 0 < decimal_micros w f div 10
     then Some (decimal_micros w f div 10) else None)"
proof (cases "digits_val (butlast w) \<le> 1024")
  case False
  then have "\<not> decimal_micros w f \<le> 1024 * 10 ^ 6"
    using digits_val_butlast(1) [OF assms(1)] by (simp add: decimal_micros_def)
  then show ?thesis using False assms(2) cpu_quota_loop_digits [OF assms(1)]
    cpu_quota_loop_digits [OF assms(1), of "[]"] by auto
next
  case True
  let ?final = "\<lambda>dot. \<lparr>cs_whole = word_of_nat (digits_val w), cs_fraction = word_of_nat (digits_val f),
    cs_scale = word_of_nat (10 ^ length f), cs_digit = (w @ f \<noteq> []), cs_dot = dot\<rparr>"
  have whole: "unat (word_of_nat (digits_val w) :: u64) = digits_val w"
    using True digits_val_butlast(2) [OF assms(1)] by simp
  have fraction: "cpu_quota_loop f \<lparr>cs_whole = word_of_nat (digits_val w), cs_fraction = 0, cs_scale = 1,
      cs_digit = (w \<noteq> []), cs_dot = True\<rparr> = (if length f \<le> 6 then Some (?final True) else None)"
    using cpu_quota_loop_fraction [OF assms(3), where j = 0] by simp
  have finish: "map_option unat (cpu_quota_result (?final dot)) =
    (if w @ f \<noteq> [] \<and> decimal_micros w f \<le> 1024 * 10 ^ 6 \<and> 0 < decimal_micros w f div 10
     then Some (decimal_micros w f div 10) else None)" if "length f \<le> 6" for dot
  proof -
    have "(10 :: nat) ^ length f \<le> 1000000" using power_increasing [OF that, of "10 :: nat"] by simp
    then have "unat (word_of_nat (10 ^ length f) :: u64) = 10 ^ length f"
      "unat (word_of_nat (digits_val f) :: u64) = digits_val f"
      using digits_val_less [OF assms(3)] by (simp_all del: of_nat_power)
    then show ?thesis
      using cpu_quota_result_exact [of "?final dot" "length f"] that digits_val_less [OF assms(3)]
      by (simp add: whole decimal_micros_def)
  qed
  from assms(2) show ?thesis
  proof
    assume s: "s = w \<and> f = []"
    then have "mc_parse_cpu_quota (Some s) = (if w = [] then None else cpu_quota_result (?final False))"
      using True cpu_quota_loop_digits [OF assms(1), of "[]"] by simp
    then show ?thesis using finish [of False] s
      by (cases "w = []") (auto simp del: mc_parse_cpu_quota.simps split: if_splits)
  next
    assume s: "s = w @ CHR ''.'' # f"
    then have "mc_parse_cpu_quota (Some s) = (if length f \<le> 6 then cpu_quota_result (?final True) else None)"
      using True cpu_quota_loop_digits [OF assms(1), of "CHR ''.'' # f"] fraction by (cases "length f \<le> 6") simp_all
    then show ?thesis using finish [of True] by (auto simp del: mc_parse_cpu_quota.simps)
  qed
qed

lemma cpu_quota_result_bounds:
  assumes "cpu_quota_result s = Some q"
  shows "1 \<le> unat q \<and> unat q \<le> 102400000"
proof -
  define x where "x = cs_whole s * 1000000 + (cs_fraction s * 1000000) div cs_scale s"
  have x: "x \<le> 1024 * 1000000" "q = (x * 100000) div 1000000" "0 < q"
    using assms by (auto simp: cpu_quota_result_def Let_def x_def [symmetric] not_less split: if_splits)
  have "unat x \<le> 1024000000" using x(1) by (simp add: word_le_nat_alt)
  then have "unat q \<le> 102400000" unfolding x(2) by (simp add: unat_div unat_word_ariths(2))
  then show ?thesis using x(3) by (simp add: word_gt_0 Suc_le_eq unat_gt_0)
qed

lemma parse_cpu_quota_bounds:
  "mc_parse_cpu_quota v = Some q \<Longrightarrow> 1 \<le> unat q \<and> unat q \<le> 102400000"
  by (cases v) (auto split: if_splits option.splits dest: cpu_quota_result_bounds)

text \<open>
  A CPU count is accepted exactly when it is a decimal number with at most six fractional
  digits, of at least \<open>0.00001\<close> and at most 1024 CPUs, and the quota is then the exact value
  rounded down to microseconds per 100000-microsecond period: neither the digit loop nor the scaling
  wraps around, for inputs of any length.
\<close>

theorem cpu_quota_exact: "map_option unat (mc_parse_cpu_quota (Some s)) = exact_cpu_quota s"
proof -
  let ?start = "\<lparr>cs_whole = 0, cs_fraction = 0, cs_scale = 1, cs_digit = False, cs_dot = False\<rparr>"
  obtain w f where wf: "split_decimal s = (w, f)" by fastforce
  have w: "CHR ''.'' \<notin> set w" using wf by (auto simp: split_decimal_def dest: set_takeWhileD)
  have s: "s = w \<and> f = [] \<or> s = w @ CHR ''.'' # f"
    using wf by (cases rule: split_at_sep [of "CHR ''.''" s]) (auto simp: split_decimal_def takeWhile_sep takeWhile_nosep)
  show ?thesis
  proof (cases "list_all isdigit w")
    case False
    then have "cpu_quota_loop s ?start = None"
      using s cpu_quota_loop_bad_whole [OF False w, of ?start]
        cpu_quota_loop_bad_whole [OF False w, of ?start "[]"] by auto
    then show ?thesis using False by (simp add: exact_cpu_quota_def wf)
  next
    case True
    show ?thesis
    proof (cases "list_all isdigit f")
      case f: True
      show ?thesis using cpu_quota_decimal [OF True s f] True f
        by (simp add: exact_cpu_quota_def wf Let_def del: mc_parse_cpu_quota.simps)
    next
      case False
      then have "cpu_quota_loop s ?start = None"
        using s True by (auto simp: cpu_quota_loop_digits cpu_quota_loop_bad_fraction)
      then show ?thesis using False by (simp add: exact_cpu_quota_def wf)
    qed
  qed
qed

end
