(* ===== verification/MC_Runtime.thy ===== *)
theory MC_Runtime
  imports MC_Error
begin

text \<open>
  The data of \<open>include/minicontainer/runtime.h\<close>: published ports, mounts and the configuration of a
  container. A pointer that may be NULL is an \<open>option\<close>; an array with its length is a list; a C integer
  used as a truth value is a \<open>bool\<close>. The enum of mount types keeps the other values a C enum can hold,
  since configurations are read back from files.
\<close>

record mc_publish =
  host_ipv4 :: u32
  host_port :: u16
  container_port :: u16
  protocol :: u8

datatype mc_mount_type = MC_MOUNT_BIND | MC_MOUNT_TMPFS | MC_MOUNT_OTHER int

fun mount_type_value :: "mc_mount_type \<Rightarrow> int" where
  "mount_type_value MC_MOUNT_BIND = 1"
| "mount_type_value MC_MOUNT_TMPFS = 2"
| "mount_type_value (MC_MOUNT_OTHER n) = n"

definition mount_type_of :: "int \<Rightarrow> mc_mount_type" where
  "mount_type_of n = (if n = 1 then MC_MOUNT_BIND else if n = 2 then MC_MOUNT_TMPFS else MC_MOUNT_OTHER n)"

record mc_mount =
  mnt_type :: mc_mount_type
  mnt_source :: "string option"
  mnt_target :: "string option"
  mnt_size :: u64
  mnt_readonly :: bool

text \<open>All-zero records, as \<open>calloc\<close> and \<open>memset\<close> leave them.\<close>

definition zero_mount :: mc_mount where
  "zero_mount = \<lparr>mnt_type = MC_MOUNT_OTHER 0, mnt_source = None, mnt_target = None,
                    mnt_size = 0, mnt_readonly = False\<rparr>"

record mc_run_config =
  cfg_id :: "string option"
  cfg_name :: "string option"
  cfg_rootfs :: "string option"
  cfg_hostname :: "string option"
  cfg_workdir :: "string option"
  cfg_user :: u32
  cfg_group :: u32
  cfg_environment :: "string list"
  cfg_detach :: bool
  cfg_ready_fd :: int
  cfg_memory_max :: u64
  cfg_swap_max :: u64
  cfg_cpu_quota :: u64
  cfg_pids_max :: u64
  cfg_capability_mask :: u64
  cfg_readonly_root :: bool
  cfg_mounts :: "mc_mount list"
  cfg_seccomp_denies :: "string list"
  cfg_network_bridge :: bool
  cfg_ipv4_host :: u32
  cfg_publishes :: "mc_publish list"
  cfg_command :: "string list option"

definition zero_publish :: mc_publish where
  "zero_publish = \<lparr>host_ipv4 = 0, host_port = 0, container_port = 0, protocol = 0\<rparr>"

definition zero_config :: mc_run_config where
  "zero_config =
     \<lparr>cfg_id = None, cfg_name = None, cfg_rootfs = None, cfg_hostname = None, cfg_workdir = None,
      cfg_user = 0, cfg_group = 0, cfg_environment = [], cfg_detach = False, cfg_ready_fd = 0,
      cfg_memory_max = 0, cfg_swap_max = 0, cfg_cpu_quota = 0, cfg_pids_max = 0,
      cfg_capability_mask = 0, cfg_readonly_root = False, cfg_mounts = [], cfg_seccomp_denies = [],
      cfg_network_bridge = False, cfg_ipv4_host = 0, cfg_publishes = [], cfg_command = None\<rparr>"

definition IPPROTO_TCP :: u8 where "IPPROTO_TCP = 6"
definition IPPROTO_UDP :: u8 where "IPPROTO_UDP = 17"

lemma mount_type_of_value [simp]:
  "mount_type_of (mount_type_value t) = t \<longleftrightarrow> t \<notin> {MC_MOUNT_OTHER 1, MC_MOUNT_OTHER 2}"
  by (cases t) (auto simp: mount_type_of_def)

lemma mount_type_value_of [simp]: "mount_type_value (mount_type_of n) = n"
  by (simp add: mount_type_of_def)

end
