(* ===== verification/MC_Json.thy ===== *)
theory MC_Json
  imports MC_Prelude "HOL-Library.Countable"
begin

text \<open>
  The json-c interface the program uses. A \<open>json_object *\<close> is a tree; the NULL pointer, which json-c
  also uses for the JSON value \<open>null\<close> and for a failed parse, is \<open>JNull\<close>. Serialising, parsing and the
  coercing getters belong to json-c and are a parameter of the model (the record \<open>jsonc\<close>); what the
  program relies on is the predicate \<open>jsonc_ok\<close>: a well-formed tree survives being printed and parsed,
  parsing yields well-formed trees,
  and each getter returns the payload of a value of its own type. \<open>jsonc_ref\<close> is an instance.
\<close>

section \<open>Trees\<close>

datatype json =
    JNull
  | JBool bool
  | JInt int
  | JDouble string
  | JString string
  | JArray "json list"
  | JObject "(string \<times> json) list"

text \<open>\<open>json_object_object_get_ex\<close>: no value for a missing key or a tree that is not an object.\<close>

definition json_object_get :: "json \<Rightarrow> string \<Rightarrow> json option" where
  "json_object_get j key = (case j of JObject kvs \<Rightarrow> map_of kvs key | _ \<Rightarrow> None)"

text \<open>\<open>json_object_object_add\<close> replaces the value of an existing key in place.\<close>

fun assoc_put :: "string \<Rightarrow> 'v \<Rightarrow> (string \<times> 'v) list \<Rightarrow> (string \<times> 'v) list" where
  "assoc_put k v [] = [(k, v)]"
| "assoc_put k v ((k', v') # kvs) = (if k' = k then (k, v) # kvs else (k', v') # assoc_put k v kvs)"

definition json_object_put :: "json \<Rightarrow> string \<Rightarrow> json \<Rightarrow> json" where
  "json_object_put j key v = (case j of JObject kvs \<Rightarrow> JObject (assoc_put key v kvs) | _ \<Rightarrow> j)"

definition json_array_items :: "json \<Rightarrow> json list option" where
  "json_array_items j = (case j of JArray xs \<Rightarrow> Some xs | _ \<Rightarrow> None)"

section \<open>Well-formed trees\<close>

text \<open>What json-c can build: distinct keys, numbers in the 64-bit ranges, and the nesting its
  tokener accepts.\<close>

fun json_depth :: "json \<Rightarrow> nat" where
  "json_depth (JArray xs) = Suc (foldr max (map json_depth xs) 0)"
| "json_depth (JObject kvs) = Suc (foldr max (map (json_depth \<circ> snd) kvs) 0)"
| "json_depth _ = 0"

fun json_wf :: "json \<Rightarrow> bool" where
  "json_wf (JInt n) \<longleftrightarrow> - (2 ^ 63) \<le> n \<and> n < 2 ^ 64"
| "json_wf (JArray xs) \<longleftrightarrow> list_all json_wf xs"
| "json_wf (JObject kvs) \<longleftrightarrow> distinct (map fst kvs) \<and> list_all (json_wf \<circ> snd) kvs"
| "json_wf _ \<longleftrightarrow> True"

section \<open>The library as a parameter\<close>

record jsonc =
  jc_print :: "json \<Rightarrow> string"
  jc_print_plain :: "json \<Rightarrow> string"
  jc_parse :: "string \<Rightarrow> json"
  jc_string :: "json \<Rightarrow> string option"
  jc_int :: "json \<Rightarrow> int"
  jc_int64 :: "json \<Rightarrow> int"
  jc_uint64 :: "json \<Rightarrow> u64"
  jc_boolean :: "json \<Rightarrow> bool"

definition jsonc_ok :: "jsonc \<Rightarrow> bool" where
  "jsonc_ok J \<longleftrightarrow>
     (\<forall>j. json_wf j \<and> json_depth j < 32 \<longrightarrow> jc_parse J (jc_print J j) = j \<and> jc_parse J (jc_print_plain J j) = j) \<and>
     (\<forall>s. json_wf (jc_parse J s) \<and> json_depth (jc_parse J s) < 32) \<and>
     (\<forall>s. jc_string J (JString s) = Some s) \<and> jc_string J JNull = None \<and>
     (\<forall>n. - (2 ^ 31) \<le> n \<and> n < 2 ^ 31 \<longrightarrow> jc_int J (JInt n) = n) \<and>
     (\<forall>n. - (2 ^ 63) \<le> n \<and> n < 2 ^ 63 \<longrightarrow> jc_int64 J (JInt n) = n) \<and>
     (\<forall>n. 0 \<le> n \<and> n < 2 ^ 64 \<longrightarrow> jc_uint64 J (JInt n) = word_of_int n) \<and>
     (\<forall>b. jc_boolean J (JBool b) = b)"

instance json :: countable
  by countable_datatype

definition jsonc_ref :: jsonc where
  "jsonc_ref =
     \<lparr>jc_print = (\<lambda>j. replicate (to_nat j) CHR ''1''), jc_print_plain = (\<lambda>j. replicate (to_nat j) CHR ''1''),
      jc_parse = (\<lambda>s. let j = from_nat (length s) in if json_wf j \<and> json_depth j < 32 then j else JNull),
      jc_string = (\<lambda>j. case j of JString s \<Rightarrow> Some s | _ \<Rightarrow> None),
      jc_int = (\<lambda>j. case j of JInt n \<Rightarrow> n | _ \<Rightarrow> 0),
      jc_int64 = (\<lambda>j. case j of JInt n \<Rightarrow> n | _ \<Rightarrow> 0),
      jc_uint64 = (\<lambda>j. case j of JInt n \<Rightarrow> word_of_int n | _ \<Rightarrow> 0),
      jc_boolean = (\<lambda>j. case j of JBool b \<Rightarrow> b | _ \<Rightarrow> False)\<rparr>"

text \<open>An instance with executable getters, for evaluated examples.\<close>

definition example_jsonc :: jsonc where
  "example_jsonc =
     \<lparr>jc_print = (\<lambda>_. []), jc_print_plain = (\<lambda>_. []), jc_parse = (\<lambda>_. JNull),
      jc_string = (\<lambda>j. case j of JString s \<Rightarrow> Some s | _ \<Rightarrow> None),
      jc_int = (\<lambda>j. case j of JInt n \<Rightarrow> n | _ \<Rightarrow> 0), jc_int64 = (\<lambda>j. case j of JInt n \<Rightarrow> n | _ \<Rightarrow> 0),
      jc_uint64 = (\<lambda>j. case j of JInt n \<Rightarrow> word_of_int n | _ \<Rightarrow> 0),
      jc_boolean = (\<lambda>j. case j of JBool b \<Rightarrow> b | _ \<Rightarrow> False)\<rparr>"

section \<open>Lemmas\<close>

lemma jsonc_ref_ok: "jsonc_ok jsonc_ref"
  by (auto simp: jsonc_ok_def jsonc_ref_def Let_def)

lemma jsonc_ok_parse: "jsonc_ok J \<Longrightarrow> json_wf j \<Longrightarrow> json_depth j < 32 \<Longrightarrow> jc_parse J (jc_print J j) = j"
  and jsonc_ok_parse_plain: "jsonc_ok J \<Longrightarrow> json_wf j \<Longrightarrow> json_depth j < 32 \<Longrightarrow> jc_parse J (jc_print_plain J j) = j"
  and jsonc_ok_parsed: "jsonc_ok J \<Longrightarrow> json_wf (jc_parse J t) \<and> json_depth (jc_parse J t) < 32"
  and jsonc_ok_string [simp]: "jsonc_ok J \<Longrightarrow> jc_string J (JString s) = Some s"
  and jsonc_ok_null [simp]: "jsonc_ok J \<Longrightarrow> jc_string J JNull = None"
  and jsonc_ok_int [simp]: "jsonc_ok J \<Longrightarrow> - (2 ^ 31) \<le> n \<Longrightarrow> n < 2 ^ 31 \<Longrightarrow> jc_int J (JInt n) = n"
  and jsonc_ok_int64 [simp]: "jsonc_ok J \<Longrightarrow> - (2 ^ 63) \<le> n \<Longrightarrow> n < 2 ^ 63 \<Longrightarrow> jc_int64 J (JInt n) = n"
  and jsonc_ok_uint64 [simp]: "jsonc_ok J \<Longrightarrow> 0 \<le> n \<Longrightarrow> n < 2 ^ 64 \<Longrightarrow> jc_uint64 J (JInt n) = word_of_int n"
  and jsonc_ok_boolean [simp]: "jsonc_ok J \<Longrightarrow> jc_boolean J (JBool b) = b"
  by (simp_all add: jsonc_ok_def)

lemma map_of_assoc_put: "map_of (assoc_put k v kvs) = (map_of kvs)(k \<mapsto> v)"
  by (induction kvs) auto

lemma keys_assoc_put: "fst ` set (assoc_put k v kvs) = insert k (fst ` set kvs)"
  using dom_map_of_conv_image_fst [of "assoc_put k v kvs"]
  by (simp add: map_of_assoc_put dom_map_of_conv_image_fst)

lemma distinct_assoc_put: "distinct (map fst kvs) \<Longrightarrow> distinct (map fst (assoc_put k v kvs))"
proof (induction kvs)
  case (Cons a kvs)
  have "fst a \<notin> set (map fst (assoc_put k v kvs))" if "fst a \<noteq> k"
    using Cons.prems that keys_assoc_put [of k v kvs] by auto
  then show ?case using Cons by (cases a) (auto simp: keys_assoc_put)
qed simp

lemma json_object_get_put [simp]:
  "json_object_get (json_object_put (JObject kvs) k v) k' =
     (if k' = k then Some v else json_object_get (JObject kvs) k')"
  by (simp add: json_object_get_def json_object_put_def map_of_assoc_put)

text \<open>Adding a scalar to a document keeps it well-formed.\<close>

lemma json_wf_put:
  "json_wf (JObject kvs) \<Longrightarrow> json_wf v \<Longrightarrow> json_wf (JObject (assoc_put k v kvs))"
proof -
  have "list_all (json_wf \<circ> snd) kvs \<Longrightarrow> json_wf v \<Longrightarrow> list_all (json_wf \<circ> snd) (assoc_put k v kvs)"
    by (induction kvs) auto
  then show "json_wf (JObject kvs) \<Longrightarrow> json_wf v \<Longrightarrow> json_wf (JObject (assoc_put k v kvs))"
    by (simp add: distinct_assoc_put)
qed

lemma json_depth_put: "json_depth (JObject (assoc_put k v kvs)) \<le> max (Suc (json_depth v)) (json_depth (JObject kvs))"
proof -
  have "foldr max (map (json_depth \<circ> snd) (assoc_put k v kvs)) 0 \<le> max (json_depth v) (foldr max (map (json_depth \<circ> snd) kvs) 0)"
    by (induction kvs) auto
  then show ?thesis by simp
qed

lemma foldr_max_less: "foldr max (xs :: nat list) 0 < n \<longleftrightarrow> 0 < n \<and> (\<forall>x \<in> set xs. x < n)"
  by (induction xs) auto

end
