(* ===== verification/MC_Mount.thy ===== *)
theory MC_Mount
  imports MC_Runtime MC_Resource MC_Json MC_Validate
begin

text \<open>
  \<open>src/util/mount.c\<close>: the \<open>--mount\<close> options. What the host answers (\<open>getenv\<close>, the policy file read
  through json-c, \<open>realpath\<close>, \<open>stat\<close>) is the record \<open>mount_env\<close>. The lemmas relate the \<open>..\<close> scan of
  \<open>valid_target\<close> to the components of the path, state what an accepted bind or tmpfs mount is, and
  show that the textual form the launcher writes parses back to the mount.
\<close>

section \<open>Model\<close>

record mount_env =
  me_getenv :: "string \<Rightarrow> string option"
  me_from_file :: "string \<Rightarrow> json"
  me_realpath :: "string \<Rightarrow> string option"
  me_is_directory :: "string \<Rightarrow> bool"

text \<open>The loop over the occurrences of \<open>..\<close>; the result says whether the loop returns 0.
  \<open>component\<close> is the pointer's remaining text, a suffix of \<open>target\<close>.\<close>

function dotdot_loop :: "string \<Rightarrow> string \<Rightarrow> bool" where
  "dotdot_loop target component =
     (case strstr component ''..'' of
        None \<Rightarrow> False
      | Some c \<Rightarrow>
          let at = length target - length c in
          if (at = 0 \<or> target ! (at - 1) = CHR ''/'') \<and> (drop 2 c = [] \<or> hd (drop 2 c) = CHR ''/'')
          then True
          else dotdot_loop target (drop 2 c))"
  by pat_completeness auto
termination
proof (relation "measure (\<lambda>(t, c). length c)")
  fix target component c at
  assume "strstr component ''..'' = Some c"
  then show "((target, drop 2 c), target, component) \<in> measure (\<lambda>(t, c). length c)"
    by (auto dest!: strstr_first)
qed simp

declare dotdot_loop.simps [simp del]

definition forbidden_targets :: "string list" where
  "forbidden_targets = [''/proc'', ''/sys'', ''/dev'', ''/run/minicontainer'', ''/var/lib/minicontainer'']"

definition under_path :: "string \<Rightarrow> string \<Rightarrow> bool" where
  "under_path path parent \<longleftrightarrow>
     strncmp_eq path parent (length parent) \<and>
     (drop (length parent) path = [] \<or> hd (drop (length parent) path) = CHR ''/'')"

definition valid_target :: "string \<Rightarrow> bool" where
  "valid_target target \<longleftrightarrow>
     (case target of
        c # d # _ \<Rightarrow> c = CHR ''/'' \<and> length target < PATH_MAX \<and> \<not> dotdot_loop target target \<and>
          list_all (\<lambda>f. \<not> (strncmp_eq target f (length f) \<and>
                          (drop (length f) target = [] \<or> hd (drop (length f) target) = CHR ''/'')))
            forbidden_targets
      | _ \<Rightarrow> False)"

definition bind_allowed :: "jsonc \<Rightarrow> mount_env \<Rightarrow> string \<Rightarrow> bool" where
  "bind_allowed J env source =
     (let config_path = (case me_getenv env ''MC_CONFIG_PATH'' of
            Some (c # cs) \<Rightarrow> c # cs | _ \<Rightarrow> ''/etc/minicontainer/config.json'');
          root = me_from_file env config_path in
      case json_object_get root ''allowed_bind_sources'' of
        Some (JArray allowed) \<Rightarrow>
          list_ex (\<lambda>e. case jc_string J e of
              None \<Rightarrow> False
            | Some entry \<Rightarrow> (case me_realpath env entry of
                  None \<Rightarrow> False | Some resolved \<Rightarrow> under_path source resolved)) allowed
      | _ \<Rightarrow> False)"

definition mc_mount_free :: "mc_mount \<Rightarrow> mc_mount" where
  "mc_mount_free mount = zero_mount"

definition parse_bind_error :: "string option \<Rightarrow> mc_error" where
  "parse_bind_error value = mk_error MC_EXIT_USAGE EINVAL ''parse-bind'' value
     ''bind must be an allowlisted directory SOURCE:TARGET[:ro|rw]''"

text \<open>Cutting a string at the first \<open>:\<close>.\<close>

definition cut_colon :: "string \<Rightarrow> string \<times> string option" where
  "cut_colon s = (takeWhile (\<lambda>c. c \<noteq> CHR '':'') s,
     case strchr s CHR '':'' of None \<Rightarrow> None | Some r \<Rightarrow> Some (tl r))"

fun mc_parse_bind_mount ::
  "jsonc \<Rightarrow> mount_env \<Rightarrow> string option \<Rightarrow> mc_mount \<Rightarrow> mc_error + mc_mount" where
  "mc_parse_bind_mount J env None mount = Inl (parse_bind_error None)"
| "mc_parse_bind_mount J env (Some value) mount =
     (case cut_colon value of
        (_, None) \<Rightarrow> Inl (parse_bind_error (Some value))
      | (copy, Some rest) \<Rightarrow>
        (case cut_colon rest of (separator, mode) \<Rightarrow>
          if copy = [] \<or> hd copy \<noteq> CHR ''/'' \<or> \<not> valid_target separator \<or>
             (mode \<noteq> None \<and> mode \<noteq> Some ''ro'' \<and> mode \<noteq> Some ''rw'')
          then Inl (parse_bind_error (Some value))
          else case me_realpath env copy of
            None \<Rightarrow> Inl (parse_bind_error (Some value))
          | Some resolved \<Rightarrow>
              if \<not> me_is_directory env resolved \<or> \<not> bind_allowed J env resolved
              then Inl (parse_bind_error (Some value))
              else Inr (mount\<lparr>mnt_type := MC_MOUNT_BIND, mnt_source := Some resolved,
                              mnt_target := Some separator, mnt_readonly := (mode = Some ''ro'')\<rparr>)))"

definition parse_tmpfs_error :: "string option \<Rightarrow> mc_error" where
  "parse_tmpfs_error value = mk_error MC_EXIT_USAGE EINVAL ''parse-tmpfs'' value
     ''tmpfs must be TARGET[:SIZE] with an absolute safe target''"

text \<open>\<open>strchr (copy + 1, ':')\<close> skips the first character. For the empty string the C code inspects
  the byte behind the terminator; whatever it holds, \<open>valid_target\<close> then rejects the empty target.\<close>

fun mc_parse_tmpfs_mount :: "string option \<Rightarrow> mc_mount \<Rightarrow> mc_error + mc_mount" where
  "mc_parse_tmpfs_mount None mount = Inl (parse_tmpfs_error None)"
| "mc_parse_tmpfs_mount (Some value) mount =
     (let (rest, separator) = cut_colon (drop 1 value);
          copy = take 1 value @ rest;
          parsed = (case separator of
              None \<Rightarrow> Some (64 * 1024 * 1024)
            | Some text \<Rightarrow> (case mc_parse_bytes (Some text) of
                None \<Rightarrow> None | Some b \<Rightarrow> if b > 1073741824 then None else Some b)) in
      case parsed of
        None \<Rightarrow> Inl (parse_tmpfs_error (Some value))
      | Some n \<Rightarrow>
          if \<not> valid_target copy then Inl (parse_tmpfs_error (Some value))
          else Inr (mount\<lparr>mnt_type := MC_MOUNT_TMPFS, mnt_target := Some copy, mnt_size := n\<rparr>))"

section \<open>The \<open>..\<close> scan\<close>

text \<open>A text holds \<open>w\<close> as a component: delimited on both sides by slashes or the text's ends.\<close>

definition delimited :: "char \<Rightarrow> string \<Rightarrow> string \<Rightarrow> string \<Rightarrow> bool" where
  "delimited c pre w s \<longleftrightarrow> (\<exists>a b. s = a @ w @ b \<and> (pre @ a = [] \<or> last (pre @ a) = c) \<and> (b = [] \<or> hd b = c))"

lemma delimited_strsplit: "c \<notin> set w \<Longrightarrow> w \<in> set (strsplit c s) \<longleftrightarrow> delimited c [] w s"
proof (induction s rule: length_induct)
  case (1 s)
  show ?case
  proof (cases rule: split_at_sep [of c s])
    case 1
    have "w \<in> set (strsplit c s) \<longleftrightarrow> w = s" using 1 by (simp add: strsplit_nosep)
    also have "\<dots> \<longleftrightarrow> delimited c [] w s"
    proof
      assume "w = s"
      then show "delimited c [] w s" unfolding delimited_def by (intro exI [of _ "[]"]) simp
    next
      assume "delimited c [] w s"
      then obtain a b where "s = a @ w @ b" "a = [] \<or> last a = c" "b = [] \<or> hd b = c"
        by (auto simp: delimited_def)
      then show "w = s" using 1 by (metis UnI1 UnI2 append.right_neutral append_Nil hd_in_set last_in_set set_append)
    qed
    finally show ?thesis .
  next
    case (2 p q)
    have "w \<in> set (strsplit c s) \<longleftrightarrow> w = p \<or> delimited c [] w q"
      using 2 "1.IH" "1.prems" by (simp add: strsplit_word)
    also have "\<dots> \<longleftrightarrow> delimited c [] w s"
    proof
      assume "w = p \<or> delimited c [] w q"
      then show "delimited c [] w s"
      proof
        assume "w = p"
        then show ?thesis unfolding delimited_def 2(1) by (intro exI [of _ "[]"] exI [of _ "c # q"]) simp
      next
        assume "delimited c [] w q"
        then obtain a b where "q = a @ w @ b" "a = [] \<or> last a = c" "b = [] \<or> hd b = c"
          by (auto simp: delimited_def)
        then show ?thesis unfolding delimited_def 2(1) by (intro exI [of _ "p @ c # a"] exI [of _ b]) auto
      qed
    next
      assume "delimited c [] w s"
      then obtain a b where ab: "s = a @ w @ b" "a = [] \<or> last a = c" "b = [] \<or> hd b = c"
        by (auto simp: delimited_def)
      show "w = p \<or> delimited c [] w q"
      proof (cases "a = []")
        case True
        then have "w @ b = p @ c # q" using ab 2 by simp
        then have "w = p"
          using ab(3) "1.prems" 2(2) by (cases b) (auto dest: split_sep_unique)
        then show ?thesis ..
      next
        case False
        then obtain a' where a': "a = a' @ [c]" using ab(2) by (metis append_butlast_last_id)
        then have "p @ c # q = a' @ c # (w @ b)" using ab 2 by simp
        then obtain a'' where "q = a'' @ w @ b" "a' = p \<and> a'' = [] \<or> a'' \<noteq> [] \<and> last a'' = c"
          using 2(2) by (auto simp: append_eq_append_conv2 Cons_eq_append_conv append_eq_Cons_conv)
        then show ?thesis using ab(3) unfolding delimited_def by (intro disjI2 exI [of _ a''] exI [of _ b]) auto
      qed
    qed
    finally show ?thesis .
  qed
qed

text \<open>Once the first occurrence of \<open>..\<close> is not a component, the search may go on behind it.\<close>

lemma delimited_skip:
  assumes first: "\<forall>a' b'. s = a' @ ''..'' @ b' \<longrightarrow> length a \<le> length a'" and s: "s = a @ ''..'' @ b"
    and no: "\<not> ((pre @ a = [] \<or> last (pre @ a) = CHR ''/'') \<and> (b = [] \<or> hd b = CHR ''/''))"
  shows "delimited CHR ''/'' pre ''..'' s \<longleftrightarrow> delimited CHR ''/'' (pre @ a @ ''..'') ''..'' b"
proof
  assume "delimited CHR ''/'' pre ''..'' s"
  then obtain a' b' where ab: "s = a' @ ''..'' @ b'" "pre @ a' = [] \<or> last (pre @ a') = CHR ''/''"
      "b' = [] \<or> hd b' = CHR ''/''" by (auto simp: delimited_def)
  have le: "length a \<le> length a'" using first ab(1) by blast
  then obtain u where u: "a' = a @ u"
    using ab(1) s by (metis append_eq_append_conv_if append_take_drop_id)
  have rest: "''..'' @ b = u @ ''..'' @ b'" using ab(1) s u by simp
  have "u \<noteq> []" using rest no ab u by auto
  moreover have "u \<noteq> [CHR ''.'']" using ab(2) u by auto
  ultimately obtain v where v: "u = ''..'' @ v" using rest by (cases u; cases "tl u") auto
  then have "b = v @ ''..'' @ b'" "pre @ a @ ''..'' @ v = pre @ a'" using rest u by simp_all
  then show "delimited CHR ''/'' (pre @ a @ ''..'') ''..'' b"
    using ab unfolding delimited_def by (intro exI [of _ v] exI [of _ b']) simp
next
  assume "delimited CHR ''/'' (pre @ a @ ''..'') ''..'' b"
  then obtain v b' where "b = v @ ''..'' @ b'" "last (pre @ a @ ''..'' @ v) = CHR ''/''"
      "b' = [] \<or> hd b' = CHR ''/''" by (auto simp: delimited_def)
  then show "delimited CHR ''/'' pre ''..'' s"
    using s unfolding delimited_def by (intro exI [of _ "a @ ''..'' @ v"] exI [of _ b']) simp
qed

lemma nth_before_suffix:
  "length xs = 0 \<or> (xs @ ys) ! (length xs - 1) = c \<longleftrightarrow> xs = [] \<or> last xs = c"
  by (cases "xs = []") (simp_all add: last_conv_nth nth_append)

lemma dotdot_loop_delimited: "dotdot_loop (pre @ s) s \<longleftrightarrow> delimited CHR ''/'' pre ''..'' s"
proof (induction s arbitrary: pre rule: length_induct)
  case (1 s)
  show ?case
  proof (cases "strstr s ''..''")
    case None
    then have "\<not> sublist ''..'' s" using strstr_sublist [of s "''..''"] by simp
    then have "\<not> delimited CHR ''/'' pre ''..'' s" by (auto simp: delimited_def sublist_def)
    then show ?thesis using None by (simp add: dotdot_loop.simps)
  next
    case (Some r)
    then obtain a b where ab: "s = a @ ''..'' @ b" "r = ''..'' @ b"
      and first: "\<forall>a' b'. s = a' @ ''..'' @ b' \<longrightarrow> length a \<le> length a'" by (auto dest: strstr_first)
    let ?hit = "(pre @ a = [] \<or> last (pre @ a) = CHR ''/'') \<and> (b = [] \<or> hd b = CHR ''/'')"
    have at: "length (pre @ s) - length r = length (pre @ a)" using ab by simp
    have prev: "(length (pre @ a) = 0 \<or> (pre @ s) ! (length (pre @ a) - 1) = CHR ''/'') \<longleftrightarrow>
        pre @ a = [] \<or> last (pre @ a) = CHR ''/''"
      using nth_before_suffix [of "pre @ a" "''..'' @ b"] unfolding ab(1) append_assoc .
    have "dotdot_loop (pre @ s) s \<longleftrightarrow> ?hit \<or> dotdot_loop (pre @ s) b"
      unfolding dotdot_loop.simps [of "pre @ s" s] Some option.case Let_def at prev by (auto simp: ab(2))
    moreover have "dotdot_loop (pre @ s) b \<longleftrightarrow> delimited CHR ''/'' (pre @ a @ ''..'') ''..'' b"
      using "1.IH" [rule_format, of b "pre @ a @ ''..''"] ab(1) by simp
    moreover have "?hit \<Longrightarrow> delimited CHR ''/'' pre ''..'' s" using ab(1) by (auto simp: delimited_def)
    ultimately show ?thesis using delimited_skip [OF first ab(1), of pre] by blast
  qed
qed

lemma dotdot_loop_iff: "dotdot_loop target target \<longleftrightarrow> ''..'' \<in> set (path_components target)"
  using dotdot_loop_delimited [of "[]" target]
  by (simp add: path_components_def delimited_strsplit)

lemma under_path_iff: "under_path path parent \<longleftrightarrow> path = parent \<or> prefix (parent @ ''/'') path"
proof
  assume u: "under_path path parent"
  define rest where "rest = drop (length parent) path"
  have "take (length parent) path = parent" using u by (simp add: under_path_def strncmp_eq_def)
  then have p: "path = parent @ rest" unfolding rest_def by (metis append_take_drop_id)
  show "path = parent \<or> prefix (parent @ ''/'') path"
    using u p by (cases rest) (auto simp: under_path_def strncmp_eq_def)
qed (auto simp: under_path_def strncmp_eq_def prefix_def)

lemma valid_target_alt:
  "valid_target target \<longleftrightarrow>
     (case target of c # d # _ \<Rightarrow> c = CHR ''/'' | _ \<Rightarrow> False) \<and> length target < PATH_MAX \<and>
     ''..'' \<notin> set (path_components target) \<and> list_all (\<lambda>f. \<not> under_path target f) forbidden_targets"
  by (auto simp: valid_target_def dotdot_loop_iff under_path_def split: list.splits)

section \<open>Properties\<close>

text \<open>
  A mount target is accepted exactly when it is an absolute path other than the root, shorter
  than \<open>PATH_MAX\<close>, none of whose slash-separated components is \<open>..\<close>, and it neither is one of the five
  protected paths nor starts with one of them followed by a slash. In particular the substring scan
  for \<open>..\<close>, which jumps over two characters at a time, misses no component and rejects no other
  name with dots.
\<close>

theorem valid_target_iff:
  "valid_target t \<longleftrightarrow>
     prefix ''/'' t \<and> t \<noteq> ''/'' \<and> length t < 4096 \<and> ''..'' \<notin> set (path_components t) \<and>
     \<not> (\<exists>p. p \<in> set forbidden_targets \<and> (t = p \<or> prefix (p @ ''/'') t))"
  by (auto simp: valid_target_alt under_path_iff list_all_iff split: list.splits)

text \<open>
  The check on protected targets works on the text and not on the path: a doubled slash or a
  \<open>.\<close> component in front of a protected name gets through.
\<close>

theorem valid_target_alias: "valid_target ''//proc'' \<and> valid_target ''/./sys'' \<and> \<not> valid_target ''/proc''"
  by code_simp

lemma bind_allowed_under:
  assumes "bind_allowed J env source"
  obtains entry parent where "me_realpath env entry = Some parent"
    "source = parent \<or> prefix (parent @ ''/'') source"
  using assms by (auto simp: bind_allowed_def Let_def under_path_iff list_ex_iff split: option.splits json.splits)

lemma parse_bind_mount_Inr:
  assumes "mc_parse_bind_mount J env value mount = Inr m"
  obtains src tgt mode resolved where
    "value = Some (src @ CHR '':'' # tgt @ (case mode of None \<Rightarrow> '''' | Some md \<Rightarrow> CHR '':'' # md))"
    "CHR '':'' \<notin> set src" "CHR '':'' \<notin> set tgt" "mode \<in> {None, Some ''ro'', Some ''rw''}"
    "prefix ''/'' src" "valid_target tgt" "me_realpath env src = Some resolved"
    "me_is_directory env resolved" "bind_allowed J env resolved"
    "m = mount\<lparr>mnt_type := MC_MOUNT_BIND, mnt_source := Some resolved, mnt_target := Some tgt,
               mnt_readonly := (mode = Some ''ro'')\<rparr>"
proof -
  obtain v where v: "value = Some v" using assms by (cases "value") auto
  obtain src rest where sr: "cut_colon v = (src, Some rest)"
    using assms v by (auto split: prod.splits option.splits)
  obtain tgt mode where tm: "cut_colon rest = (tgt, mode)" by fastforce
  have cut: "s = a @ (case r of None \<Rightarrow> '''' | Some u \<Rightarrow> CHR '':'' # u) \<and> CHR '':'' \<notin> set a"
    if "cut_colon s = (a, r)" for s a r
    using that by (cases rule: split_at_sep [of "CHR '':''" s])
      (auto simp: cut_colon_def strchr_eq takeWhile_seps)
  show thesis
    using that [of src tgt mode] assms cut [OF sr] cut [OF tm] v sr tm
    by (cases src) (auto split: if_splits option.splits)
qed


definition example_mount_env :: mount_env where
  "example_mount_env =
     \<lparr>me_getenv = (\<lambda>_. None),
      me_from_file = (\<lambda>p. if p = ''/etc/minicontainer/config.json''
                       then JObject [(''allowed_bind_sources'', JArray [JString ''/srv''])] else JNull),
      me_realpath = Some, me_is_directory = (\<lambda>_. True)\<rparr>"


section \<open>Round trips\<close>

lemma cut_colon_sep [simp]: "CHR '':'' \<notin> set a \<Longrightarrow> cut_colon (a @ CHR '':'' # b) = (a, Some b)"
  by (simp add: cut_colon_def strchr_eq takeWhile_seps)

lemma cut_colon_nosep [simp]: "CHR '':'' \<notin> set a \<Longrightarrow> cut_colon a = (a, None)"
  by (simp add: cut_colon_def strchr_eq takeWhile_seps)

lemma parse_bind_mount_roundtrip:
  assumes "CHR '':'' \<notin> set src" "CHR '':'' \<notin> set tgt" "prefix ''/'' src" "valid_target tgt"
    and "me_realpath env src = Some src" "me_is_directory env src" "bind_allowed J env src"
  shows "mc_parse_bind_mount J env
      (Some (src @ '':'' @ tgt @ '':'' @ (if ro then ''ro'' else ''rw''))) zero_mount =
    Inr \<lparr>mnt_type = MC_MOUNT_BIND, mnt_source = Some src, mnt_target = Some tgt, mnt_size = 0,
         mnt_readonly = ro\<rparr>"
  using assms by (cases ro) (auto simp: zero_mount_def prefix_def)

lemma valid_target_abs: "valid_target t \<Longrightarrow> \<exists>d u. t = CHR ''/'' # d # u"
  by (auto simp: valid_target_def split: list.splits)

lemma valid_target_length: "valid_target t \<Longrightarrow> length t < 4096"
  by (auto simp: valid_target_def split: list.splits)

lemma colon_not_digit: "CHR '':'' \<notin> set (show_nat n)"
  using show_nat_digits [of "CHR '':''" n] by (auto simp: isdigit_def)

lemma parse_tmpfs_mount_roundtrip:
  assumes "CHR '':'' \<notin> set tgt" "valid_target tgt" "0 < unat n" "unat n \<le> 1073741824"
  shows "mc_parse_tmpfs_mount (Some (tgt @ '':'' @ show_nat (unat n))) zero_mount =
    Inr \<lparr>mnt_type = MC_MOUNT_TMPFS, mnt_source = None, mnt_target = Some tgt, mnt_size = n,
         mnt_readonly = False\<rparr>"
proof -
  obtain t where t: "tgt = CHR ''/'' # t" using valid_target_abs [OF assms(2)] by auto
  have "cut_colon (drop 1 (tgt @ '':'' @ show_nat (unat n))) = (t, Some (show_nat (unat n)))"
    using assms(1) t by simp
  moreover have "\<not> (1073741824 :: u64) < n" using assms(4) by (simp add: word_less_nat_alt)
  ultimately show ?thesis
    using assms t parse_bytes_show_nat [OF assms(3)] by (simp add: zero_mount_def del: mc_parse_bytes.simps)
qed

text \<open>What an accepted tmpfs option is.\<close>

lemma parse_tmpfs_mount_Inr:
  assumes "mc_parse_tmpfs_mount (Some v) zero_mount = Inr m"
  obtains tgt n where "m = \<lparr>mnt_type = MC_MOUNT_TMPFS, mnt_source = None, mnt_target = Some tgt,
      mnt_size = n, mnt_readonly = False\<rparr>"
    "valid_target tgt" "CHR '':'' \<notin> set tgt" "0 < unat n" "unat n \<le> 1073741824"
proof -
  obtain rest sep where cut: "cut_colon (drop 1 v) = (rest, sep)" by fastforce
  let ?tgt = "take 1 v @ rest"
  have valid: "valid_target ?tgt" using assms cut by (auto simp: Let_def split: option.splits if_splits)
  have "CHR '':'' \<notin> set rest"
    using cut by (auto simp: cut_colon_def dest: set_takeWhileD)
  moreover have "CHR '':'' \<notin> set (take 1 v)" using valid_target_abs [OF valid] by (cases v) auto
  ultimately have colon: "CHR '':'' \<notin> set ?tgt" by simp
  obtain n where n: "m = zero_mount\<lparr>mnt_type := MC_MOUNT_TMPFS, mnt_target := Some ?tgt, mnt_size := n\<rparr>"
    and cases: "n = 64 * 1024 * 1024 \<or> (\<exists>t. mc_parse_bytes (Some t) = Some n) \<and> \<not> n > 1073741824"
    using assms cut by (auto simp: Let_def simp del: mc_parse_bytes.simps split: option.splits if_splits)
  have "0 < unat n \<and> unat n \<le> 1073741824"
    using cases by (auto simp: not_less word_le_nat_alt simp del: mc_parse_bytes.simps dest: parse_bytes_pos)
  then show thesis using that [of ?tgt n] n valid colon by (simp add: zero_mount_def)
qed

end
