(* ===== verification/MC_Security.thy ===== *)
theory MC_Security
  imports MC_Error MC_Json
begin

unbundle bit_operations_syntax

text \<open>
  \<open>src/linux/security.c\<close>: capability names, deny profiles, and the lock-down of a container process.
  The process's credentials are the record \<open>creds\<close>; a system call either fails with an errno chosen by
  the parameter \<open>sec_env\<close> or has its documented effect on the record. libseccomp is the parameter
  \<open>seccomp_lib\<close>: name resolution and the return codes of its functions; a filter is the list of its
  rules over a default action, and \<open>filter_action\<close> is the documented evaluation of such a filter.
  The lemmas cover the capability name round trip, what an accepted profile is, what the filter lets
  through for every profile, and the credentials after the lock-down.
\<close>

section \<open>Capability names\<close>

definition capability_names :: "string list" where
  "capability_names = [''CHOWN'', ''DAC_OVERRIDE'', ''DAC_READ_SEARCH'', ''FOWNER'', ''FSETID'', ''KILL'',
     ''SETGID'', ''SETUID'', ''SETPCAP'', ''LINUX_IMMUTABLE'', ''NET_BIND_SERVICE'',
     ''NET_BROADCAST'', ''NET_ADMIN'', ''NET_RAW'', ''IPC_LOCK'', ''IPC_OWNER'', ''SYS_MODULE'',
     ''SYS_RAWIO'', ''SYS_CHROOT'', ''SYS_PTRACE'', ''SYS_PACCT'', ''SYS_ADMIN'', ''SYS_BOOT'',
     ''SYS_NICE'', ''SYS_RESOURCE'', ''SYS_TIME'', ''SYS_TTY_CONFIG'', ''MKNOD'', ''LEASE'',
     ''AUDIT_WRITE'', ''AUDIT_CONTROL'', ''SETFCAP'', ''MAC_OVERRIDE'', ''MAC_ADMIN'',
     ''SYSLOG'', ''WAKE_ALARM'', ''BLOCK_SUSPEND'', ''AUDIT_READ'', ''PERFMON'', ''BPF'',
     ''CHECKPOINT_RESTORE'']"

fun capability_index :: "string \<Rightarrow> string list \<Rightarrow> nat \<Rightarrow> nat option" where
  "capability_index candidate [] index = None"
| "capability_index candidate (n # ns) index =
     (if candidate = n then Some index else capability_index candidate ns (Suc index))"

fun mc_capability_parse :: "string option \<Rightarrow> nat option" where
  "mc_capability_parse None = None"
| "mc_capability_parse (Some name) =
     capability_index (if strncmp_eq name ''CAP_'' 4 then drop 4 name else name) capability_names 0"

definition mc_capability_name :: "nat \<Rightarrow> string option" where
  "mc_capability_name number =
     (if number < length capability_names then Some (capability_names ! number) else None)"

section \<open>The library and the filter\<close>

datatype scmp_action = SCMP_ACT_ALLOW | SCMP_ACT_ERRNO errno

datatype scmp_cmp = SCMP_CMP_EQ nat u64 | SCMP_CMP_MASKED_EQ nat u64 u64

record scmp_rule =
  rule_action :: scmp_action
  rule_syscall :: int
  rule_args :: "scmp_cmp list"

record scmp_filter =
  filter_default :: scmp_action
  filter_rules :: "scmp_rule list"

abbreviation (input) NR_SCMP_ERROR :: int where "NR_SCMP_ERROR \<equiv> - 1"

record seccomp_lib =
  sl_resolve :: "string \<Rightarrow> int"
  sl_sys_clone :: int
  sl_sys_clone3 :: int
  sl_sys_socket :: int
  sl_init_ok :: bool
  sl_rule_add :: "scmp_rule \<Rightarrow> int"
  sl_attr_set :: int
  sl_load :: int

text \<open>Which calls a comparison, a rule and a filter match.\<close>

fun cmp_holds :: "scmp_cmp \<Rightarrow> (nat \<Rightarrow> u64) \<Rightarrow> bool" where
  "cmp_holds (SCMP_CMP_EQ i v) args \<longleftrightarrow> args i = v"
| "cmp_holds (SCMP_CMP_MASKED_EQ i m v) args \<longleftrightarrow> args i AND m = v"

definition rule_matches :: "scmp_rule \<Rightarrow> int \<Rightarrow> (nat \<Rightarrow> u64) \<Rightarrow> bool" where
  "rule_matches r nr args \<longleftrightarrow> rule_syscall r = nr \<and> list_all (\<lambda>c. cmp_holds c args) (rule_args r)"

definition filter_action :: "scmp_filter \<Rightarrow> int \<Rightarrow> (nat \<Rightarrow> u64) \<Rightarrow> scmp_action" where
  "filter_action f nr args =
     (case find (\<lambda>r. rule_matches r nr args) (filter_rules f) of
        Some r \<Rightarrow> rule_action r | None \<Rightarrow> filter_default f)"

definition seccomp_rule_add :: "seccomp_lib \<Rightarrow> scmp_filter \<Rightarrow> scmp_rule \<Rightarrow> scmp_filter option" where
  "seccomp_rule_add L f r =
     (if sl_rule_add L r \<noteq> 0 then None else Some (f\<lparr>filter_rules := filter_rules f @ [r]\<rparr>))"

definition allow_syscall :: "seccomp_lib \<Rightarrow> scmp_filter \<Rightarrow> string \<Rightarrow> scmp_filter option" where
  "allow_syscall L f name =
     (let number = sl_resolve L name in
      if number = NR_SCMP_ERROR then Some f
      else seccomp_rule_add L f \<lparr>rule_action = SCMP_ACT_ALLOW, rule_syscall = number, rule_args = []\<rparr>)"

fun mc_seccomp_name_valid :: "seccomp_lib \<Rightarrow> string option \<Rightarrow> bool" where
  "mc_seccomp_name_valid L None = False"
| "mc_seccomp_name_valid L (Some name) \<longleftrightarrow> name \<noteq> [] \<and> sl_resolve L name \<noteq> NR_SCMP_ERROR"

section \<open>Deny profiles\<close>

record profile_stat =
  ps_regular :: bool
  ps_uid :: nat
  ps_mode :: u32
  ps_size :: nat

definition profile_error :: "string option \<Rightarrow> mc_error" where
  "profile_error path = mk_error MC_EXIT_USAGE EINVAL ''seccomp-profile'' path
     ''profile must be root-owned non-writable JSON version 1 with valid unique deny names''"

fun load_deny_names :: "jsonc \<Rightarrow> seccomp_lib \<Rightarrow> json list \<Rightarrow> string list \<Rightarrow> string list option" where
  "load_deny_names J L [] loaded = Some loaded"
| "load_deny_names J L (e # es) loaded =
     (case jc_string J e of
        None \<Rightarrow> None
      | Some name \<Rightarrow>
          if \<not> mc_seccomp_name_valid L (Some name) then None
          else if name \<in> set loaded then None
          else load_deny_names J L es (loaded @ [name]))"

fun mc_seccomp_profile_load ::
  "jsonc \<Rightarrow> seccomp_lib \<Rightarrow> (string \<Rightarrow> profile_stat option) \<Rightarrow> nat \<Rightarrow> (string \<Rightarrow> json) \<Rightarrow> string option
     \<Rightarrow> mc_error + string list" where
  "mc_seccomp_profile_load J L stat euid from_file None = Inl (profile_error None)"
| "mc_seccomp_profile_load J L stat euid from_file (Some path) =
     (if path = [] \<or> hd path \<noteq> CHR ''/'' then Inl (profile_error (Some path))
      else case stat path of
        None \<Rightarrow> Inl (profile_error (Some path))
      | Some md \<Rightarrow>
          if \<not> ps_regular md \<or> ps_uid md \<noteq> euid \<or> ps_mode md AND (0x10 OR 0x2) \<noteq> 0 \<or> ps_size md > 65536
          then Inl (profile_error (Some path))
          else (case (json_object_get (from_file path) ''version'', json_object_get (from_file path) ''deny'') of
              (Some version, Some (JArray items)) \<Rightarrow>
                if jc_int J version \<noteq> 1 \<or> length items > 128 then Inl (profile_error (Some path))
                else (case load_deny_names J L items [] of
                    None \<Rightarrow> Inl (profile_error (Some path)) | Some loaded \<Rightarrow> Inr loaded)
            | _ \<Rightarrow> Inl (profile_error (Some path))))"

definition denied_by_profile :: "string \<Rightarrow> string list \<Rightarrow> bool" where
  "denied_by_profile name denies = list_ex (\<lambda>d. name = d) denies"

section \<open>Building the filter\<close>

definition allowed_syscalls :: "string list" where
  "allowed_syscalls = [''accept'', ''accept4'', ''access'', ''arch_prctl'', ''bind'', ''brk'', ''capget'',
     ''capset'', ''chdir'', ''chroot'', ''clock_getres'', ''clock_gettime'', ''clock_nanosleep'',
     ''close'', ''close_range'', ''connect'', ''copy_file_range'', ''dup'', ''dup2'', ''dup3'',
     ''epoll_create'', ''epoll_create1'', ''epoll_ctl'', ''epoll_pwait'', ''epoll_pwait2'',
     ''epoll_wait'', ''eventfd'', ''eventfd2'', ''execve'', ''execveat'', ''exit'',
     ''exit_group'', ''faccessat'', ''faccessat2'', ''fadvise64'', ''fallocate'', ''fchdir'',
     ''fchmod'', ''fchmodat'', ''fchown'', ''fchownat'', ''fcntl'', ''fdatasync'', ''flock'',
     ''fork'', ''fstat'', ''fstatfs'', ''fsync'', ''ftruncate'', ''futex'', ''futex_waitv'',
     ''getcwd'', ''getdents64'', ''getegid'', ''geteuid'', ''getgid'', ''getgroups'',
     ''getitimer'', ''getpeername'', ''getpgid'', ''getpgrp'', ''getpid'', ''getppid'',
     ''getpriority'', ''getrandom'', ''getresgid'', ''getresuid'', ''getrlimit'', ''getrusage'',
     ''getsid'', ''getsockname'', ''getsockopt'', ''gettid'', ''gettimeofday'', ''getuid'',
     ''ioctl'', ''kill'', ''lgetxattr'', ''link'', ''linkat'', ''listen'', ''lseek'', ''lstat'',
     ''madvise'', ''memfd_create'', ''mmap'', ''mprotect'', ''mremap'', ''msync'', ''munmap'',
     ''nanosleep'', ''newfstatat'', ''open'', ''openat'', ''openat2'', ''pause'', ''pipe'',
     ''pipe2'', ''poll'', ''ppoll'', ''prctl'', ''pread64'', ''preadv'', ''preadv2'',
     ''prlimit64'', ''pselect6'', ''pwrite64'', ''pwritev'', ''pwritev2'', ''read'',
     ''readlink'', ''readlinkat'', ''readv'', ''recvfrom'', ''recvmmsg'', ''recvmsg'',
     ''rename'', ''renameat'', ''renameat2'', ''restart_syscall'', ''rseq'', ''rt_sigaction'',
     ''rt_sigpending'', ''rt_sigprocmask'', ''rt_sigqueueinfo'', ''rt_sigreturn'',
     ''rt_sigsuspend'', ''rt_sigtimedwait'', ''sched_getaffinity'', ''sched_yield'',
     ''sendfile'', ''sendmmsg'', ''sendmsg'', ''sendto'', ''set_robust_list'',
     ''set_tid_address'', ''setgid'', ''setgroups'', ''setitimer'', ''setpgid'', ''setpriority'',
     ''setregid'', ''setresgid'', ''setresuid'', ''setreuid'', ''setrlimit'', ''setsid'',
     ''setsockopt'', ''setuid'', ''shutdown'', ''sigaltstack'', ''signalfd'', ''signalfd4'',
     ''stat'', ''statfs'', ''statx'', ''symlink'', ''symlinkat'', ''sync'', ''syncfs'',
     ''sysinfo'', ''tgkill'', ''time'', ''timer_create'', ''timer_delete'', ''timer_gettime'',
     ''timer_settime'', ''timerfd_create'', ''timerfd_gettime'', ''timerfd_settime'', ''times'',
     ''tkill'', ''truncate'', ''umask'', ''uname'', ''unlink'', ''unlinkat'', ''utime'',
     ''utimensat'', ''utimes'', ''vfork'', ''wait4'', ''waitid'', ''write'', ''writev'']"

definition forbidden_clone :: u64 where
  "forbidden_clone = 0x02000000 OR 0x08000000 OR 0x40000000 OR 0x00020000 OR 0x20000000 OR
                     0x00000080 OR 0x10000000 OR 0x04000000"

fun allow_all :: "seccomp_lib \<Rightarrow> string list \<Rightarrow> string list \<Rightarrow> scmp_filter \<Rightarrow> scmp_filter option" where
  "allow_all L denies [] f = Some f"
| "allow_all L denies (n # ns) f =
     (if denied_by_profile n denies then allow_all L denies ns f
      else case allow_syscall L f n of None \<Rightarrow> None | Some f' \<Rightarrow> allow_all L denies ns f')"

fun add_rules :: "seccomp_lib \<Rightarrow> scmp_rule list \<Rightarrow> scmp_filter \<Rightarrow> scmp_filter option" where
  "add_rules L [] f = Some f"
| "add_rules L (r # rs) f =
     (case seccomp_rule_add L f r of None \<Rightarrow> None | Some f' \<Rightarrow> add_rules L rs f')"

definition socket_rule :: "seccomp_lib \<Rightarrow> u64 \<Rightarrow> u64 \<Rightarrow> scmp_rule" where
  "socket_rule L family socket_type =
     \<lparr>rule_action = SCMP_ACT_ALLOW, rule_syscall = sl_sys_socket L,
      rule_args = [SCMP_CMP_EQ 0 family, SCMP_CMP_MASKED_EQ 1 3 socket_type]\<rparr>"

definition socket_rules :: "seccomp_lib \<Rightarrow> scmp_rule list" where
  "socket_rules L =
     concat (map (\<lambda>family. [socket_rule L family 1, socket_rule L family 2]) [1, 2, 10]) @
     [\<lparr>rule_action = SCMP_ACT_ALLOW, rule_syscall = sl_sys_socket L,
       rule_args = [SCMP_CMP_EQ 0 16, SCMP_CMP_MASKED_EQ 1 15 3, SCMP_CMP_EQ 2 0]\<rparr>]"

definition install_seccomp :: "seccomp_lib \<Rightarrow> string list \<Rightarrow> scmp_filter option" where
  "install_seccomp L denies =
     (if \<not> sl_init_ok L then None
      else Option.bind (allow_all L denies allowed_syscalls
                          \<lparr>filter_default = SCMP_ACT_ERRNO EPERM, filter_rules = []\<rparr>)
        (\<lambda>f. Option.bind (if denied_by_profile ''clone3'' denies then Some f
             else seccomp_rule_add L f
               \<lparr>rule_action = SCMP_ACT_ERRNO ENOSYS, rule_syscall = sl_sys_clone3 L, rule_args = []\<rparr>)
        (\<lambda>f. Option.bind (if denied_by_profile ''clone'' denies then Some f
             else seccomp_rule_add L f
               \<lparr>rule_action = SCMP_ACT_ALLOW, rule_syscall = sl_sys_clone L,
                rule_args = [SCMP_CMP_MASKED_EQ 0 forbidden_clone 0]\<rparr>)
        (\<lambda>f. Option.bind (if denied_by_profile ''socket'' denies then Some f
             else add_rules L (socket_rules L) f)
        (\<lambda>f. if sl_attr_set L \<noteq> 0 \<or> sl_load L \<noteq> 0 then None else Some f)))))"

section \<open>Lemmas: capability names\<close>

lemma capability_index_nth:
  "distinct ns \<Longrightarrow> i < length ns \<Longrightarrow> capability_index (ns ! i) ns k = Some (k + i)"
proof (induction ns arbitrary: i k)
  case (Cons n ns)
  then show ?case by (cases i) (auto simp: nth_mem)
qed simp

lemma capability_index_bound: "capability_index c ns k = Some i \<Longrightarrow> i < k + length ns"
  by (induction ns arbitrary: k) (fastforce split: if_splits)+

lemma capability_names_facts:
  "length capability_names = 41" "distinct capability_names"
  "list_all (\<lambda>n. \<not> strncmp_eq n ''CAP_'' 4) capability_names"
  by code_simp+

lemma capability_parse_bound: "mc_capability_parse v = Some n \<Longrightarrow> n < 41"
  using capability_index_bound [of _ capability_names 0 n] capability_names_facts(1) by (cases v) auto

text \<open>
  Writing a capability's name and reading it back, with or without the \<open>CAP_\<close> prefix, gives the
  same capability for each of the 41 numbers; the other numbers have no name.
\<close>

theorem capability_roundtrip:
  "mc_capability_parse (mc_capability_name n) = (if n < 41 then Some n else None) \<and>
   mc_capability_parse (map_option (append ''CAP_'') (mc_capability_name n)) = (if n < 41 then Some n else None)"
proof (cases "n < 41")
  case True
  let ?name = "capability_names ! n"
  have "capability_index ?name capability_names 0 = Some n"
    using capability_index_nth [OF capability_names_facts(2), of n 0] True capability_names_facts(1) by simp
  moreover have "\<not> strncmp_eq ?name ''CAP_'' 4"
    using capability_names_facts(1,3) True by (simp add: list_all_length)
  moreover have "strncmp_eq (''CAP_'' @ ?name) ''CAP_'' 4" by (simp add: strncmp_eq_def)
  ultimately show ?thesis using True by (simp add: mc_capability_name_def capability_names_facts(1))
qed (simp add: mc_capability_name_def capability_names_facts(1))

section \<open>Lemmas: the filter\<close>

definition seccomp_lib_ok :: "seccomp_lib \<Rightarrow> bool" where
  "seccomp_lib_ok L \<longleftrightarrow>
     sl_resolve L ''clone'' = sl_sys_clone L \<and> sl_resolve L ''clone3'' = sl_sys_clone3 L \<and>
     sl_resolve L ''socket'' = sl_sys_socket L \<and>
     (\<forall>a b. sl_resolve L a = sl_resolve L b \<and> sl_resolve L a \<noteq> NR_SCMP_ERROR \<longrightarrow> a = b)"

definition allow_rule :: "int \<Rightarrow> scmp_rule" where
  "allow_rule nr = \<lparr>rule_action = SCMP_ACT_ALLOW, rule_syscall = nr, rule_args = []\<rparr>"

definition allow_names :: "seccomp_lib \<Rightarrow> string list \<Rightarrow> string list \<Rightarrow> string list" where
  "allow_names L denies ns = filter (\<lambda>n. n \<notin> set denies \<and> sl_resolve L n \<noteq> NR_SCMP_ERROR) ns"

text \<open>The rules of an installed filter.\<close>

definition filter_spec :: "seccomp_lib \<Rightarrow> string list \<Rightarrow> scmp_rule list" where
  "filter_spec L denies =
     map (\<lambda>n. allow_rule (sl_resolve L n)) (allow_names L denies allowed_syscalls) @
     (if ''clone3'' \<in> set denies then []
      else [\<lparr>rule_action = SCMP_ACT_ERRNO ENOSYS, rule_syscall = sl_sys_clone3 L, rule_args = []\<rparr>]) @
     (if ''clone'' \<in> set denies then []
      else [\<lparr>rule_action = SCMP_ACT_ALLOW, rule_syscall = sl_sys_clone L,
             rule_args = [SCMP_CMP_MASKED_EQ 0 forbidden_clone 0]\<rparr>]) @
     (if ''socket'' \<in> set denies then [] else socket_rules L)"

lemma denied_by_profile_iff [simp]: "denied_by_profile n denies \<longleftrightarrow> n \<in> set denies"
  by (auto simp: denied_by_profile_def list_ex_iff)

lemma seccomp_rule_add_Some:
  "seccomp_rule_add L f r = Some f' \<Longrightarrow> f' = f\<lparr>filter_rules := filter_rules f @ [r]\<rparr>"
  by (auto simp: seccomp_rule_add_def split: if_splits)

lemma add_rules_Some: "add_rules L rs f = Some f' \<Longrightarrow> f' = f\<lparr>filter_rules := filter_rules f @ rs\<rparr>"
  by (induction rs arbitrary: f) (fastforce split: option.splits dest!: seccomp_rule_add_Some)+

lemma allow_all_Some:
  "allow_all L denies ns f = Some f' \<Longrightarrow>
     f' = f\<lparr>filter_rules := filter_rules f @ map (\<lambda>n. allow_rule (sl_resolve L n)) (allow_names L denies ns)\<rparr>"
  by (induction ns arbitrary: f)
    (fastforce simp: allow_names_def allow_syscall_def allow_rule_def Let_def
      split: if_splits option.splits dest!: seccomp_rule_add_Some)+

lemma install_seccomp_rules:
  assumes "install_seccomp L denies = Some f"
  shows "f = \<lparr>filter_default = SCMP_ACT_ERRNO EPERM, filter_rules = filter_spec L denies\<rparr>"
  using assms
  by (auto simp: install_seccomp_def filter_spec_def bind_eq_Some_conv split: if_splits
      dest!: allow_all_Some seccomp_rule_add_Some add_rules_Some)

lemma find_append: "find P (xs @ ys) = (case find P xs of None \<Rightarrow> find P ys | Some x \<Rightarrow> Some x)"
  by (induction xs) auto

lemma find_other_syscall:
  "(\<And>r. r \<in> set rs \<Longrightarrow> rule_syscall r \<noteq> nr) \<Longrightarrow> find (\<lambda>r. rule_matches r nr args) rs = None"
  by (auto simp: find_None_iff rule_matches_def)

lemma find_allow_rules:
  assumes inj: "\<forall>a b. sl_resolve L a = sl_resolve L b \<and> sl_resolve L a \<noteq> NR_SCMP_ERROR \<longrightarrow> a = b"
    and known: "sl_resolve L name \<noteq> NR_SCMP_ERROR"
  shows "find (\<lambda>r. rule_matches r (sl_resolve L name) args)
      (map (\<lambda>n. allow_rule (sl_resolve L n)) (allow_names L denies ns)) =
    (if name \<in> set ns \<and> name \<notin> set denies then Some (allow_rule (sl_resolve L name)) else None)"
proof (induction ns)
  case (Cons n ns)
  have "sl_resolve L n = sl_resolve L name \<longleftrightarrow> n = name" using inj known by metis
  then show ?case using Cons known by (auto simp: allow_names_def allow_rule_def rule_matches_def)
qed (simp add: allow_names_def)

lemma find_socket_rules:
  "(case find (\<lambda>r. rule_matches r (sl_sys_socket L) args) (socket_rules L) of
      Some r \<Rightarrow> rule_action r | None \<Rightarrow> SCMP_ACT_ERRNO EPERM) =
   (if args 0 \<in> {1, 2, 10} \<and> args 1 AND 3 \<in> {1, 2} \<or> args 0 = 16 \<and> args 1 AND 15 = 3 \<and> args 2 = 0
    then SCMP_ACT_ALLOW else SCMP_ACT_ERRNO EPERM)"
  by (auto simp: socket_rules_def socket_rule_def rule_matches_def)

text \<open>The bits of the flags that create a time, mount, cgroup, UTS, IPC, user, process or network
  namespace, in this order.\<close>

definition namespace_bits :: "nat list" where
  "namespace_bits = [7, 17, 25, 26, 27, 28, 29, 30]"

lemma forbidden_clone_bits: "flags AND forbidden_clone = 0 \<longleftrightarrow> list_all (\<lambda>k. \<not> bit flags k) namespace_bits"
proof -
  have mask: "forbidden_clone = 2 ^ 25 OR 2 ^ 27 OR 2 ^ 30 OR 2 ^ 17 OR 2 ^ 29 OR 2 ^ 7 OR 2 ^ 28 OR 2 ^ 26"
    by (simp add: forbidden_clone_def)
  show ?thesis
    by (simp only: mask namespace_bits_def list.pred_inject bit.conj_disj_distrib or_eq_0_iff and_exp_eq_0_iff_not_bit) blast
qed

text \<open>The decision of the filter as a table over system call names.\<close>

definition filter_table :: "string list \<Rightarrow> string \<Rightarrow> (nat \<Rightarrow> u64) \<Rightarrow> scmp_action" where
  "filter_table denies name args =
     (if name \<in> set denies then SCMP_ACT_ERRNO EPERM
      else if name \<in> set allowed_syscalls then SCMP_ACT_ALLOW
      else if name = ''clone3'' then SCMP_ACT_ERRNO ENOSYS
      else if name = ''clone'' \<and> list_all (\<lambda>k. \<not> bit (args 0) k) namespace_bits then SCMP_ACT_ALLOW
      else if name = ''socket'' \<and>
              (args 0 \<in> {1, 2, 10} \<and> args 1 AND 3 \<in> {1, 2} \<or>
               args 0 = 16 \<and> args 1 AND 15 = 3 \<and> args 2 = 0) then SCMP_ACT_ALLOW
      else SCMP_ACT_ERRNO EPERM)"

lemma special_not_allowed:
  "''clone3'' \<notin> set allowed_syscalls" "''clone'' \<notin> set allowed_syscalls" "''socket'' \<notin> set allowed_syscalls"
  by code_simp+

lemma filter_spec_action:
  assumes ok: "seccomp_lib_ok L" and known: "sl_resolve L name \<noteq> NR_SCMP_ERROR"
  shows "(case find (\<lambda>r. rule_matches r (sl_resolve L name) args) (filter_spec L denies) of
      Some r \<Rightarrow> rule_action r | None \<Rightarrow> SCMP_ACT_ERRNO EPERM) = filter_table denies name args"
proof -
  let ?find = "find (\<lambda>r. rule_matches r (sl_resolve L name) args)"
  have inj: "sl_resolve L name = sl_resolve L b \<longleftrightarrow> name = b" for b
    using ok known unfolding seccomp_lib_ok_def by metis
  have nums: "sl_sys_clone3 L = sl_resolve L ''clone3''" "sl_sys_clone L = sl_resolve L ''clone''"
    "sl_sys_socket L = sl_resolve L ''socket''" using ok by (simp_all add: seccomp_lib_ok_def)
  have socket: "?find (socket_rules L) = None" if "name \<noteq> ''socket''"
    using that inj [of "''socket''"]
    by (intro find_other_syscall) (auto simp: socket_rules_def socket_rule_def nums)
  have allow: "?find (map (\<lambda>n. allow_rule (sl_resolve L n)) (allow_names L denies allowed_syscalls)) =
    (if name \<in> set allowed_syscalls \<and> name \<notin> set denies then Some (allow_rule (sl_resolve L name)) else None)"
    using ok known find_allow_rules [of L name args denies allowed_syscalls] by (simp add: seccomp_lib_ok_def)
  have clone3: "?find [\<lparr>rule_action = SCMP_ACT_ERRNO ENOSYS, rule_syscall = sl_sys_clone3 L, rule_args = []\<rparr>] =
    (if name = ''clone3'' then Some \<lparr>rule_action = SCMP_ACT_ERRNO ENOSYS, rule_syscall = sl_sys_clone3 L, rule_args = []\<rparr>
     else None)"
    using inj [of "''clone3''"] by (auto simp: rule_matches_def nums)
  have clone: "?find [\<lparr>rule_action = SCMP_ACT_ALLOW, rule_syscall = sl_sys_clone L,
                       rule_args = [SCMP_CMP_MASKED_EQ 0 forbidden_clone 0]\<rparr>] =
    (if name = ''clone'' \<and> args 0 AND forbidden_clone = 0
     then Some \<lparr>rule_action = SCMP_ACT_ALLOW, rule_syscall = sl_sys_clone L,
                rule_args = [SCMP_CMP_MASKED_EQ 0 forbidden_clone 0]\<rparr> else None)"
    using inj [of "''clone''"] by (auto simp: rule_matches_def nums)
  note unfold = filter_spec_def find_append allow filter_table_def [folded forbidden_clone_bits] if_distrib [of ?find] clone clone3
  consider "name = ''socket''" | "name = ''clone''" | "name = ''clone3''"
    | "name \<noteq> ''socket''" "name \<noteq> ''clone''" "name \<noteq> ''clone3''" by blast
  then show ?thesis
  proof cases
    case 1
    then show ?thesis unfolding unfold using special_not_allowed(3) find_socket_rules [of L args] nums(3) by simp
  next
    case 2
    then show ?thesis unfolding unfold using special_not_allowed(2) socket by simp
  next
    case 3
    then show ?thesis unfolding unfold using special_not_allowed(1) socket by simp
  next
    case 4
    then show ?thesis unfolding unfold using socket by (simp add: allow_rule_def)
  qed
qed

section \<open>Properties of the filter\<close>


definition example_syscalls :: "string list" where
  "example_syscalls = [''read'', ''clone'', ''clone3'', ''socket'', ''mount'']"

definition example_seccomp_lib :: seccomp_lib where
  "example_seccomp_lib =
     \<lparr>sl_resolve = (\<lambda>n. case capability_index n example_syscalls 0 of None \<Rightarrow> - 1 | Some i \<Rightarrow> int i),
      sl_sys_clone = 1, sl_sys_clone3 = 2, sl_sys_socket = 3, sl_init_ok = True,
      sl_rule_add = (\<lambda>_. 0), sl_attr_set = 0, sl_load = 0\<rparr>"

lemma capability_index_nthD: "capability_index c ns k = Some i \<Longrightarrow> k \<le> i \<and> i - k < length ns \<and> c = ns ! (i - k)"
proof (induction ns arbitrary: k)
  case (Cons n ns)
  then show ?case
  proof (cases "c = n")
    case False
    then have *: "Suc k \<le> i \<and> i - Suc k < length ns \<and> c = ns ! (i - Suc k)" using Cons by simp
    then obtain j where "i = Suc k + j" using le_Suc_ex by blast
    then show ?thesis using * by simp
  qed auto
qed simp

lemma example_seccomp_lib_ok: "seccomp_lib_ok example_seccomp_lib"
proof -
  have "a = b" if "sl_resolve example_seccomp_lib a = sl_resolve example_seccomp_lib b"
      "sl_resolve example_seccomp_lib a \<noteq> - 1" for a b
    using that capability_index_nthD [of a example_syscalls 0] capability_index_nthD [of b example_syscalls 0]
    by (auto simp: example_seccomp_lib_def split: option.splits)
  moreover have "sl_resolve example_seccomp_lib ''clone'' = 1" "sl_resolve example_seccomp_lib ''clone3'' = 2"
    "sl_resolve example_seccomp_lib ''socket'' = 3"
    by (simp_all add: example_seccomp_lib_def example_syscalls_def)
  ultimately show ?thesis by (simp add: seccomp_lib_ok_def example_seccomp_lib_def)
qed

lemma example_install: "install_seccomp example_seccomp_lib denies \<noteq> None"
proof -
  have add: "seccomp_rule_add example_seccomp_lib f r = Some (f\<lparr>filter_rules := filter_rules f @ [r]\<rparr>)" for f r
    by (simp add: seccomp_rule_add_def example_seccomp_lib_def)
  have allow: "allow_all example_seccomp_lib denies ns f \<noteq> None" for ns f
    by (induction ns arbitrary: f) (auto simp: allow_syscall_def Let_def add)
  have adds: "add_rules example_seccomp_lib rs f \<noteq> None" for rs f
    by (induction rs arbitrary: f) (simp_all add: add)
  obtain f0 where f0: "allow_all example_seccomp_lib denies allowed_syscalls
      \<lparr>filter_default = SCMP_ACT_ERRNO EPERM, filter_rules = []\<rparr> = Some f0" using allow by blast
  have lib: "sl_init_ok example_seccomp_lib" "sl_attr_set example_seccomp_lib = 0" "sl_load example_seccomp_lib = 0"
    by (simp_all add: example_seccomp_lib_def)
  show ?thesis unfolding install_seccomp_def f0 using adds by (auto simp: add lib bind_eq_None_conv split: if_splits)
qed


section \<open>Locking down a process\<close>

record cap_data =
  cd_effective :: u32
  cd_permitted :: u32
  cd_inheritable :: u32

datatype sec_call =
    SC_setgroups | SC_capbset_drop nat | SC_keepcaps
  | SC_capset cap_data cap_data | SC_securebits u32 | SC_ambient_clear | SC_ambient_raise nat
  | SC_no_new_privs

record creds =
  cr_groups :: "nat list"
  cr_bounding :: u64
  cr_effective :: u64
  cr_permitted :: u64
  cr_inheritable :: u64
  cr_ambient :: u64
  cr_securebits :: u32
  cr_no_new_privs :: bool
  cr_filter :: "scmp_filter option"

text \<open>The errno of a call, 0 for success.\<close>

type_synonym sec_env = "sec_call \<Rightarrow> errno"

definition join_words :: "u32 \<Rightarrow> u32 \<Rightarrow> u64" where
  "join_words lo hi = ucast lo OR push_bit 32 (ucast hi)"

fun sec_effect :: "sec_call \<Rightarrow> creds \<Rightarrow> creds" where
  "sec_effect SC_setgroups c = c\<lparr>cr_groups := []\<rparr>"
| "sec_effect (SC_capbset_drop n) c = c\<lparr>cr_bounding := unset_bit n (cr_bounding c)\<rparr>"
| "sec_effect SC_keepcaps c = c\<lparr>cr_securebits := cr_securebits c OR 0x10\<rparr>"
| "sec_effect (SC_capset lo hi) c =
     (let eff = join_words (cd_effective lo) (cd_effective hi);
          perm = join_words (cd_permitted lo) (cd_permitted hi);
          inh = join_words (cd_inheritable lo) (cd_inheritable hi) in
      c\<lparr>cr_effective := eff, cr_permitted := perm, cr_inheritable := inh,
        cr_ambient := cr_ambient c AND perm AND inh\<rparr>)"
| "sec_effect (SC_securebits b) c = c\<lparr>cr_securebits := b\<rparr>"
| "sec_effect SC_ambient_clear c = c\<lparr>cr_ambient := 0\<rparr>"
| "sec_effect (SC_ambient_raise n) c = c\<lparr>cr_ambient := set_bit n (cr_ambient c)\<rparr>"
| "sec_effect SC_no_new_privs c = c\<lparr>cr_no_new_privs := True\<rparr>"

definition sec_do :: "sec_env \<Rightarrow> sec_call \<Rightarrow> creds \<Rightarrow> creds option" where
  "sec_do E call c = (if E call \<noteq> 0 then None else Some (sec_effect call c))"

fun drop_bounding :: "sec_env \<Rightarrow> u64 \<Rightarrow> nat list \<Rightarrow> creds \<Rightarrow> creds option" where
  "drop_bounding E capability_mask [] c = Some c"
| "drop_bounding E capability_mask (n # ns) c =
     (if bit capability_mask n then drop_bounding E capability_mask ns c
      else if E (SC_capbset_drop n) = 0
        then drop_bounding E capability_mask ns (sec_effect (SC_capbset_drop n) c)
      else if E (SC_capbset_drop n) = EINVAL then drop_bounding E capability_mask ns c
      else None)"

text \<open>\<open>setgroups\<close> may be refused with \<open>EPERM\<close> when there are no supplementary groups anyway.\<close>

definition mc_security_prepare :: "sec_env \<Rightarrow> u64 \<Rightarrow> creds \<Rightarrow> creds option" where
  "mc_security_prepare E capability_mask c =
     Option.bind
       (if E SC_setgroups = 0 then Some (sec_effect SC_setgroups c)
        else if E SC_setgroups \<noteq> EPERM \<or> cr_groups c \<noteq> [] then None else Some c)
       (\<lambda>c. Option.bind (drop_bounding E capability_mask [0..<41] c) (sec_do E SC_keepcaps))"

fun raise_ambient :: "sec_env \<Rightarrow> u64 \<Rightarrow> nat list \<Rightarrow> creds \<Rightarrow> creds option" where
  "raise_ambient E capability_mask [] c = Some c"
| "raise_ambient E capability_mask (n # ns) c =
     (if bit capability_mask n
      then Option.bind (sec_do E (SC_ambient_raise n) c) (raise_ambient E capability_mask ns)
      else raise_ambient E capability_mask ns c)"

definition mc_security_apply ::
  "sec_env \<Rightarrow> seccomp_lib \<Rightarrow> u64 \<Rightarrow> string list \<Rightarrow> creds \<Rightarrow> creds option" where
  "mc_security_apply E L capability_mask denies c =
     (let preparation_mask = capability_mask OR push_bit 8 1;
          lo = ucast preparation_mask; hi = ucast (drop_bit 32 preparation_mask);
          lo' = ucast capability_mask; hi' = ucast (drop_bit 32 capability_mask) in
      Option.bind (sec_do E (SC_capset \<lparr>cd_effective = lo, cd_permitted = lo, cd_inheritable = 0\<rparr>
                                       \<lparr>cd_effective = hi, cd_permitted = hi, cd_inheritable = 0\<rparr>) c)
     (\<lambda>c. Option.bind (sec_do E (SC_securebits (1 OR 2 OR 4 OR 8)) c)
     (\<lambda>c. Option.bind (sec_do E (SC_capset \<lparr>cd_effective = lo', cd_permitted = lo', cd_inheritable = lo'\<rparr>
                                           \<lparr>cd_effective = hi', cd_permitted = hi', cd_inheritable = hi'\<rparr>) c)
     (\<lambda>c. Option.bind (sec_do E SC_ambient_clear c)
     (\<lambda>c. Option.bind (raise_ambient E capability_mask [0..<64] c)
     (\<lambda>c. Option.bind (sec_do E SC_no_new_privs c)
     (\<lambda>c. Option.bind (install_seccomp L denies) (\<lambda>f. Some (c\<lparr>cr_filter := Some f\<rparr>)))))))))"

section \<open>Properties of the lock-down\<close>

lemma join_split [simp]: "join_words (ucast w) (ucast (drop_bit 32 w)) = (w :: u64)"
  by (rule bit_eqI) (auto simp: join_words_def bit_simps)

lemma raise_ambient_Some:
  "raise_ambient E m ns c = Some c' \<Longrightarrow>
     c' = c\<lparr>cr_ambient := cr_ambient c'\<rparr> \<and> (\<forall>i < 64. bit (cr_ambient c') i \<longleftrightarrow> bit (cr_ambient c) i \<or> i \<in> set ns \<and> bit m i)"
proof (induction ns arbitrary: c)
  case (Cons n ns)
  show ?case
  proof (cases "bit m n")
    case True
    then have step: "raise_ambient E m ns (c\<lparr>cr_ambient := set_bit n (cr_ambient c)\<rparr>) = Some c'"
      using Cons.prems by (auto simp: sec_do_def bind_eq_Some_conv split: if_splits)
    show ?thesis using Cons.IH [OF step] True by (auto simp: bit_set_bit_iff)
  qed (use Cons in auto)
qed simp

lemma drop_bounding_Some:
  "drop_bounding E m ns c = Some c' \<Longrightarrow>
     c' = c\<lparr>cr_bounding := cr_bounding c'\<rparr> \<and>
     (\<forall>i < 64. bit (cr_bounding c') i \<longleftrightarrow>
        bit (cr_bounding c) i \<and> \<not> (i \<in> set ns \<and> \<not> bit m i \<and> E (SC_capbset_drop i) = 0))"
proof (induction ns arbitrary: c)
  case (Cons n ns)
  show ?case
  proof (cases "\<not> bit m n \<and> E (SC_capbset_drop n) = 0")
    case True
    then have step: "drop_bounding E m ns (c\<lparr>cr_bounding := unset_bit n (cr_bounding c)\<rparr>) = Some c'"
      using Cons.prems by simp
    show ?thesis using Cons.IH [OF step] True by (auto simp: bit_unset_bit_iff)
  qed (use Cons in \<open>auto split: if_splits\<close>)
qed simp

lemma drop_bounding_no_error:
  "drop_bounding E m ns c = Some c' \<Longrightarrow>
     \<forall>i \<in> set ns. bit m i \<or> E (SC_capbset_drop i) = 0 \<or> E (SC_capbset_drop i) = EINVAL"
  by (induction ns arbitrary: c) (auto split: if_splits)

text \<open>
  After a successful lock-down the effective, permitted, inheritable and ambient capability sets
  are exactly the requested 64-bit mask (reassembled from the two 32-bit halves that \<open>capset\<close> takes),
  the temporary \<open>SETPCAP\<close> bit is gone unless requested, root privileges of user id 0 are disabled and
  locked, \<open>no_new_privs\<close> is set, and the filter for the given profile is installed.
\<close>

theorem security_apply_lockdown:
  assumes "mc_security_apply E L m denies c = Some c'"
  shows "cr_effective c' = m \<and> cr_permitted c' = m \<and> cr_inheritable c' = m \<and> cr_ambient c' = m \<and>
    cr_securebits c' = 15 \<and> cr_no_new_privs c' \<and> cr_filter c' = install_seccomp L denies \<and>
    cr_filter c' \<noteq> None \<and> cr_bounding c' = cr_bounding c \<and> cr_groups c' = cr_groups c"
proof -
  let ?c1 = "c\<lparr>cr_securebits := 15, cr_effective := m, cr_permitted := m, cr_inheritable := m, cr_ambient := 0\<rparr>"
  obtain c2 f where c2: "raise_ambient E m [0..<64] ?c1 = Some c2"
    and f: "install_seccomp L denies = Some f" "c' = c2\<lparr>cr_no_new_privs := True, cr_filter := Some f\<rparr>"
    using assms by (auto simp: mc_security_apply_def Let_def sec_do_def bind_eq_Some_conv split: if_splits)
  have "\<forall>i < 64. bit (cr_ambient c2) i \<longleftrightarrow> bit m i" and same: "c2 = ?c1\<lparr>cr_ambient := cr_ambient c2\<rparr>"
    using raise_ambient_Some [OF c2] by auto
  then have "cr_ambient c2 = m" by (intro bit_word_eqI) simp
  then show ?thesis using f by (subst (asm) same) simp
qed

theorem security_apply_lockdown_witness:
  "\<exists>c'. mc_security_apply (\<lambda>_. 0) example_seccomp_lib 0x400 []
      \<lparr>cr_groups = [], cr_bounding = 0x400, cr_effective = - 1, cr_permitted = - 1, cr_inheritable = 0,
       cr_ambient = 0, cr_securebits = 0, cr_no_new_privs = False, cr_filter = None\<rparr> = Some c' \<and>
     cr_effective c' = 0x400 \<and> cr_ambient c' = 0x400 \<and> cr_filter c' \<noteq> None"
proof -
  let ?c = "\<lparr>cr_groups = [], cr_bounding = 0x400, cr_effective = - 1, cr_permitted = - 1, cr_inheritable = 0,
       cr_ambient = 0, cr_securebits = 0, cr_no_new_privs = False, cr_filter = None\<rparr> :: creds"
  have raise: "raise_ambient (\<lambda>_. 0) m ns c \<noteq> None" for m ns c
    by (induction ns arbitrary: c) (simp_all add: sec_do_def)
  have "mc_security_apply (\<lambda>_. 0) example_seccomp_lib 0x400 [] ?c \<noteq> None"
    by (simp add: mc_security_apply_def Let_def sec_do_def bind_eq_None_conv raise example_install)
  then obtain c' where "mc_security_apply (\<lambda>_. 0) example_seccomp_lib 0x400 [] ?c = Some c'" by blast
  then show ?thesis using security_apply_lockdown by fastforce
qed

text \<open>
  After successful preparation the process has no supplementary groups, and every capability of
  the table that is still in its bounding set is either requested or unknown to the kernel.
\<close>

theorem security_prepare_bounds:
  assumes "mc_security_prepare E m c = Some c'"
  shows "cr_groups c' = [] \<and>
    (\<forall>i < 41. bit (cr_bounding c') i \<longrightarrow> bit m i \<or> E (SC_capbset_drop i) = EINVAL)"
proof -
  define c1 where "c1 = (if E SC_setgroups = 0 then c\<lparr>cr_groups := []\<rparr> else c)"
  obtain c2 where c1: "cr_groups c1 = []" and c2: "drop_bounding E m [0..<41] c1 = Some c2"
      "c' = c2\<lparr>cr_securebits := cr_securebits c2 OR 0x10\<rparr>"
    unfolding c1_def using assms by (auto simp: mc_security_prepare_def sec_do_def bind_eq_Some_conv split: if_splits)
  have b: "bit (cr_bounding c2) i \<Longrightarrow> bit m i \<or> E (SC_capbset_drop i) \<noteq> 0" if "i < 41" for i
    using drop_bounding_Some [OF c2(1)] that by auto
  have e: "bit m i \<or> E (SC_capbset_drop i) = 0 \<or> E (SC_capbset_drop i) = EINVAL" if "i < 41" for i
    using drop_bounding_no_error [OF c2(1)] that by auto
  have "cr_groups c2 = []" using drop_bounding_Some [OF c2(1)] c1 by (metis creds.surjective creds.select_convs(1) creds.update_convs(2))
  then show ?thesis using b e c2(2) by fastforce
qed

theorem security_prepare_bounds_witness:
  "\<exists>c'. mc_security_prepare (\<lambda>call. if call = SC_capbset_drop 40 then EINVAL else 0) 0x400
      \<lparr>cr_groups = [27], cr_bounding = - 1, cr_effective = - 1, cr_permitted = - 1, cr_inheritable = 0,
       cr_ambient = 0, cr_securebits = 0, cr_no_new_privs = False, cr_filter = None\<rparr> = Some c' \<and>
     cr_groups c' = [] \<and> \<not> bit (cr_bounding c') 21"
proof -
  let ?E = "\<lambda>call. if call = SC_capbset_drop 40 then EINVAL else 0"
  let ?c = "\<lparr>cr_groups = [27], cr_bounding = - 1, cr_effective = - 1, cr_permitted = - 1, cr_inheritable = 0,
       cr_ambient = 0, cr_securebits = 0, cr_no_new_privs = False, cr_filter = None\<rparr> :: creds"
  have drop: "drop_bounding ?E 0x400 ns c \<noteq> None" for ns c
    by (induction ns arbitrary: c) simp_all
  have "mc_security_prepare ?E 0x400 ?c \<noteq> None"
    by (simp add: mc_security_prepare_def sec_do_def bind_eq_None_conv drop del: upt_conv_Cons upt_rec)
  then obtain c' where c': "mc_security_prepare ?E 0x400 ?c = Some c'" by blast
  have "\<not> bit (0x400 :: u64) 21" by code_simp
  then have "\<not> bit (cr_bounding c') 21"
    using security_prepare_bounds [OF c', THEN conjunct2, rule_format, of 21] by auto
  then show ?thesis using c' security_prepare_bounds [OF c'] by blast
qed

lemma load_deny_names_Some:
  assumes "load_deny_names J L es loaded = Some names" "distinct loaded"
  shows "distinct names \<and> (\<exists>new. names = loaded @ new \<and> map Some new = map (jc_string J) es \<and>
           list_all (\<lambda>n. n \<noteq> [] \<and> sl_resolve L n \<noteq> NR_SCMP_ERROR) new)"
  using assms
proof (induction es arbitrary: loaded)
  case (Cons e es)
  then obtain n where n: "jc_string J e = Some n" "n \<noteq> []" "sl_resolve L n \<noteq> NR_SCMP_ERROR" "n \<notin> set loaded"
    and rest: "load_deny_names J L es (loaded @ [n]) = Some names"
    by (auto split: option.splits if_splits)
  have "distinct (loaded @ [n])" using Cons.prems n by simp
  from Cons.IH [OF rest this] obtain new where "distinct names" "names = (loaded @ [n]) @ new"
      "map Some new = map (jc_string J) es" "list_all (\<lambda>n. n \<noteq> [] \<and> sl_resolve L n \<noteq> NR_SCMP_ERROR) new"
    by blast
  then show ?case using n by (intro conjI exI [of _ "n # new"]) auto
qed simp

text \<open>
  Only a regular file that the effective user owns, that nobody else can write, and that holds a
  version 1 object is accepted as a profile; the loaded names are then exactly the strings of its
  \<open>deny\<close> array, at most 128, pairwise distinct, and all known system calls.
\<close>

theorem profile_load_sound:
  assumes "mc_seccomp_profile_load J L stat euid from_file path = Inr names"
  shows "\<exists>p md items. path = Some p \<and> prefix ''/'' p \<and> stat p = Some md \<and> ps_regular md \<and> ps_uid md = euid \<and>
     ps_mode md AND 0x12 = 0 \<and> ps_size md \<le> 65536 \<and>
     json_object_get (from_file p) ''deny'' = Some (JArray items) \<and>
     map Some names = map (jc_string J) items \<and> length names \<le> 128 \<and> distinct names \<and>
     list_all (\<lambda>n. mc_seccomp_name_valid L (Some n)) names"
proof -
  obtain p where p: "path = Some p" using assms by (cases path) auto
  obtain md items where md: "prefix ''/'' p" "stat p = Some md" "ps_regular md" "ps_uid md = euid"
      "ps_mode md AND 0x12 = 0" "ps_size md \<le> 65536"
      "json_object_get (from_file p) ''deny'' = Some (JArray items)" "length items \<le> 128"
      "load_deny_names J L items [] = Some names"
    using assms unfolding p
    by (cases p) (auto simp: not_le split: if_splits option.splits json.splits)
  obtain new where "distinct names" "names = new" "map Some new = map (jc_string J) items"
      "list_all (\<lambda>n. n \<noteq> [] \<and> sl_resolve L n \<noteq> NR_SCMP_ERROR) new"
    using load_deny_names_Some [OF md(9)] by auto
  moreover have "length names = length items" using calculation(2,3) by (metis length_map)
  ultimately show ?thesis using p md by (auto simp: list_all_iff)
qed

theorem profile_load_sound_witness:
  "mc_seccomp_profile_load example_jsonc example_seccomp_lib
      (\<lambda>_. Some \<lparr>ps_regular = True, ps_uid = 0, ps_mode = 0x81A4, ps_size = 40\<rparr>) 0
      (\<lambda>_. JObject [(''version'', JInt 1), (''deny'', JArray [JString ''mount'', JString ''read''])])
      (Some ''/etc/p.json'') = Inr [''mount'', ''read''] \<and>
   mc_seccomp_name_valid example_seccomp_lib (Some ''mount'')"
proof -
  have r: "mc_seccomp_profile_load example_jsonc example_seccomp_lib
      (\<lambda>_. Some \<lparr>ps_regular = True, ps_uid = 0, ps_mode = 0x81A4, ps_size = 40\<rparr>) 0
      (\<lambda>_. JObject [(''version'', JInt 1), (''deny'', JArray [JString ''mount'', JString ''read''])])
      (Some ''/etc/p.json'') = Inr [''mount'', ''read'']"
    by (simp add: example_jsonc_def example_seccomp_lib_def example_syscalls_def json_object_get_def)
  show ?thesis using r profile_load_sound [OF r] by auto
qed

text \<open>
  The socket rule compares only the two low bits of the socket type. The obsolete type
  \<open>SOCK_PACKET\<close> (10) of the internet family, a packet socket, therefore passes as if it were a
  datagram socket, while \<open>SOCK_RAW\<close> (3) is refused.
\<close>

theorem socket_type_mask:
  assumes "seccomp_lib_ok L" "install_seccomp L [] = Some f" "sl_sys_socket L \<noteq> - 1"
  shows "filter_action f (sl_sys_socket L) ((\<lambda>_. 0)(0 := 2, 1 := 10)) = SCMP_ACT_ALLOW \<and>
    filter_action f (sl_sys_socket L) ((\<lambda>_. 0)(0 := 2, 1 := 3)) = SCMP_ACT_ERRNO EPERM"
proof -
  have "sl_sys_socket L = sl_resolve L ''socket''" using assms(1) by (simp add: seccomp_lib_ok_def)
  then show ?thesis
    using filter_spec_action [OF assms(1), of "''socket''" _ "[]"] assms(3) special_not_allowed(3)
    unfolding install_seccomp_rules [OF assms(2)] filter_action_def scmp_filter.select_convs
    by (simp add: filter_table_def)
qed

theorem socket_type_mask_witness:
  "\<exists>f. install_seccomp example_seccomp_lib [] = Some f \<and>
     filter_action f 3 ((\<lambda>_. 0)(0 := 2, 1 := 10)) = SCMP_ACT_ALLOW"
proof -
  obtain f where f: "install_seccomp example_seccomp_lib [] = Some f" using example_install by blast
  have "sl_sys_socket example_seccomp_lib = 3" by (simp add: example_seccomp_lib_def)
  then show ?thesis using f socket_type_mask [OF example_seccomp_lib_ok f] by simp
qed

end
