(* ===== verification/MC_Publish.thy ===== *)
theory MC_Publish
  imports MC_Runtime
begin

text \<open>
  \<open>src/network/parse.c\<close>: the \<open>--publish ADDRESS:PORT:PORT/PROTOCOL\<close> option. The conversions of the
  \<open>sscanf\<close> format are those of the prelude; \<open>inet_pton4\<close> is the C library's loop for dotted quads,
  which refuses octets above 255, leading zeros and anything but four octets. The lemmas show that
  every valid publication is read back from its textual form and what an accepted option satisfies.
\<close>

section \<open>Dotted quads\<close>

text \<open>The state is the finished octets, the value of the current one and whether it has a digit.\<close>

fun inet_pton_loop :: "string \<Rightarrow> nat list \<Rightarrow> nat \<Rightarrow> bool \<Rightarrow> nat list option" where
  "inet_pton_loop [] octets cur saw_digit =
     (if length octets + (if saw_digit then 1 else 0) < 4 then None
      else Some (if saw_digit then octets @ [cur] else octets))"
| "inet_pton_loop (ch # src) octets cur saw_digit =
     (if isdigit ch then
        (let new = cur * 10 + (of_char ch - 48) in
         if saw_digit \<and> cur = 0 then None
         else if new > 255 then None
         else if \<not> saw_digit \<and> length octets \<ge> 4 then None
         else inet_pton_loop src octets new True)
      else if ch = CHR ''.'' \<and> saw_digit then
        (if length octets + 1 = 4 then None else inet_pton_loop src (octets @ [cur]) 0 False)
      else None)"

definition ipv4_word :: "nat list \<Rightarrow> u32" where
  "ipv4_word octets = foldl (\<lambda>w o'. w * 256 + word_of_nat o') 0 octets"

text \<open>\<open>inet_pton\<close> followed by \<open>ntohl\<close>.\<close>

definition inet_pton4 :: "string \<Rightarrow> u32 option" where
  "inet_pton4 src = map_option ipv4_word (inet_pton_loop src [] 0 False)"

section \<open>The option\<close>

definition address_char :: "char \<Rightarrow> bool" where
  "address_char c \<longleftrightarrow> isdigit c \<or> c = CHR ''.''"

text \<open>The \<open>sscanf\<close> call when it assigns exactly four of its five conversions.\<close>

definition scan_publish :: "string \<Rightarrow> (string \<times> u32 \<times> u32 \<times> string) option" where
  "scan_publish value =
     Option.bind (scan_set 15 address_char value) (\<lambda>(address_text, s).
     Option.bind (scan_lit CHR '':'' s) (\<lambda>s.
     Option.bind (scan_uint s) (\<lambda>(host_port, s).
     Option.bind (scan_lit CHR '':'' s) (\<lambda>s.
     Option.bind (scan_uint s) (\<lambda>(container_port, s).
     Option.bind (scan_lit CHR ''/'' s) (\<lambda>s.
     Option.bind (scan_set 3 islower s) (\<lambda>(protocol_text, s).
       if s \<noteq> [] then None else Some (address_text, host_port, container_port, protocol_text))))))))"

fun mc_parse_publish :: "string option \<Rightarrow> mc_publish option" where
  "mc_parse_publish None = None"
| "mc_parse_publish (Some value) =
     (case scan_publish value of
        None \<Rightarrow> None
      | Some (address_text, hport, cport, protocol_text) \<Rightarrow>
        (case inet_pton4 address_text of
           None \<Rightarrow> None
         | Some address \<Rightarrow>
             if hport = 0 \<or> hport > 65535 \<or> cport = 0 \<or> cport > 65535 then None
             else if protocol_text = ''tcp'' then
               Some \<lparr>host_ipv4 = address, host_port = ucast hport, container_port = ucast cport,
                     protocol = IPPROTO_TCP\<rparr>
             else if protocol_text = ''udp'' then
               Some \<lparr>host_ipv4 = address, host_port = ucast hport, container_port = ucast cport,
                     protocol = IPPROTO_UDP\<rparr>
             else None))"

section \<open>The textual form\<close>

definition ipv4_octets :: "u32 \<Rightarrow> nat list" where
  "ipv4_octets w = [unat w div 2 ^ 24, unat w div 2 ^ 16 mod 256, unat w div 2 ^ 8 mod 256, unat w mod 256]"

fun join_dots :: "nat list \<Rightarrow> string" where
  "join_dots [] = []"
| "join_dots [n] = show_nat n"
| "join_dots (n # ns) = show_nat n @ CHR ''.'' # join_dots ns"

definition show_ipv4 :: "u32 \<Rightarrow> string" where
  "show_ipv4 w = join_dots (ipv4_octets w)"

definition show_publish :: "mc_publish \<Rightarrow> string" where
  "show_publish p =
     show_ipv4 (host_ipv4 p) @ CHR '':'' # show_nat (unat (host_port p)) @
     CHR '':'' # show_nat (unat (container_port p)) @
     CHR ''/'' # (if protocol p = IPPROTO_TCP then ''tcp'' else ''udp'')"

definition valid_publish :: "mc_publish \<Rightarrow> bool" where
  "valid_publish p \<longleftrightarrow> host_port p \<noteq> 0 \<and> container_port p \<noteq> 0 \<and> protocol p \<in> {IPPROTO_TCP, IPPROTO_UDP}"

section \<open>Lemmas\<close>

text \<open>The digits of one octet.\<close>

lemma show_nat_small: "n < 10 \<Longrightarrow> show_nat n = [digit_char n]"
  by (subst show_nat.simps) simp

lemma show_nat_big: "\<not> n < 10 \<Longrightarrow> show_nat n = show_nat (n div 10) @ [digit_char (n mod 10)]"
  by (subst show_nat.simps) simp

lemma inet_pton_digit:
  assumes "d < 10" "saw \<longrightarrow> cur \<noteq> 0" "cur * 10 + d \<le> 255" "saw \<or> length octets < 4"
  shows "inet_pton_loop (digit_char d # src) octets cur saw = inet_pton_loop src octets (cur * 10 + d) True"
  using assms by (auto simp: of_digit_char Let_def)

lemma inet_pton_octet:
  assumes "length octets < 4"
  shows "n \<le> 255 \<Longrightarrow> inet_pton_loop (show_nat n @ src) octets 0 False = inet_pton_loop src octets n True"
proof (induction n arbitrary: src rule: show_nat.induct)
  case (1 n)
  show ?case
  proof (cases "n < 10")
    case True
    then show ?thesis using assms inet_pton_digit [of n False 0 octets src] by (simp add: show_nat_small)
  next
    case False
    have "inet_pton_loop (show_nat (n div 10) @ digit_char (n mod 10) # src) octets 0 False =
        inet_pton_loop (digit_char (n mod 10) # src) octets (n div 10) True"
      using "1.IH" [OF False] "1.prems" by simp
    also have "\<dots> = inet_pton_loop src octets n True"
      using inet_pton_digit [of "n mod 10" True "n div 10" octets src] "1.prems" False
      by (simp add: div_greater_zero_iff del: inet_pton_loop.simps)
    finally show ?thesis using False by (simp add: show_nat_big)
  qed
qed

lemma inet_pton_dot:
  "length octets < 3 \<Longrightarrow> inet_pton_loop (CHR ''.'' # src) octets n True = inet_pton_loop src (octets @ [n]) 0 False"
  by (simp add: isdigit_def)

lemma inet_pton_quad:
  assumes "a \<le> 255" "b \<le> 255" "c \<le> 255" "d \<le> 255"
  shows "inet_pton_loop (join_dots [a, b, c, d]) [] 0 False = Some [a, b, c, d]"
  using assms inet_pton_octet [of "[a, b, c]" d "[]"]
  by (simp add: inet_pton_octet inet_pton_dot del: inet_pton_loop.simps(2))

lemma div_256_step: "x div k mod 256 + 256 * (x div (k * 256)) = (x :: nat) div k"
  by (simp add: div_mult2_eq)

lemma ipv4_word_octets [simp]: "ipv4_word (ipv4_octets w) = w"
proof -
  let ?x = "unat w"
  have "ipv4_word (ipv4_octets w) =
    word_of_nat (((?x div 2 ^ 24 * 256 + ?x div 2 ^ 16 mod 256) * 256 + ?x div 2 ^ 8 mod 256) * 256 + ?x mod 256)"
    by (simp add: ipv4_word_def ipv4_octets_def)
  also have "?x div 2 ^ 24 * 256 + ?x div 2 ^ 16 mod 256 = ?x div 2 ^ 16"
    using div_256_step [of ?x "2 ^ 16"] by simp
  also have "?x div 2 ^ 16 * 256 + ?x div 2 ^ 8 mod 256 = ?x div 2 ^ 8"
    using div_256_step [of ?x "2 ^ 8"] by simp
  also have "?x div 2 ^ 8 * 256 + ?x mod 256 = ?x" by simp
  finally show ?thesis by simp
qed

lemma ipv4_octets_bound: "list_all (\<lambda>n. n \<le> 255) (ipv4_octets w)"
  using unat_u32_less [of w] by (simp add: ipv4_octets_def less_mult_imp_div_less less_Suc_eq_le [symmetric])

lemma inet_pton4_show [simp]: "inet_pton4 (show_ipv4 w) = Some w"
proof -
  obtain a b c d where abcd: "ipv4_octets w = [a, b, c, d]" by (simp add: ipv4_octets_def)
  have "inet_pton_loop (show_ipv4 w) [] 0 False = Some (ipv4_octets w)"
    using ipv4_octets_bound [of w] inet_pton_quad [of a b c d] by (simp add: show_ipv4_def abcd)
  then show ?thesis by (simp add: inet_pton4_def)
qed

lemma address_char_show: "list_all address_char (show_ipv4 w)"
  using show_nat_digits
  by (auto simp: show_ipv4_def ipv4_octets_def list_all_iff address_char_def)

lemma length_show_ipv4: "length (show_ipv4 w) \<le> 15" "show_ipv4 w \<noteq> []"
proof -
  obtain a b c d where abcd: "ipv4_octets w = [a, b, c, d]" by (simp add: ipv4_octets_def)
  have "length (show_nat n) \<le> 3" if "n \<in> set (ipv4_octets w)" for n
    using that ipv4_octets_bound [of w] by (intro length_show_nat) (auto simp: list_all_iff)
  then have "length (show_nat a) \<le> 3" "length (show_nat b) \<le> 3" "length (show_nat c) \<le> 3" "length (show_nat d) \<le> 3"
    by (simp_all add: abcd)
  then show "length (show_ipv4 w) \<le> 15" "show_ipv4 w \<noteq> []" by (simp_all add: show_ipv4_def abcd)
qed

lemma scan_set_all:
  assumes "list_all p s" "s \<noteq> []" "length s \<le> n" "r = [] \<or> \<not> p (hd r)"
  shows "scan_set n p (s @ r) = Some (s, r)"
proof -
  have "takeWhile p (take n (s @ r)) = s"
    using assms by (cases r; cases "n - length s") (auto simp: list_all_iff takeWhile_append)
  then show ?thesis using assms(2) by (simp add: scan_set_def Let_def)
qed

lemma scan_lit_Cons [simp]: "scan_lit c (c # s) = Some s"
  by (simp add: scan_lit_def)

lemma u16_as_u32: "unat (p :: u16) < 2 ^ 32" "(word_of_nat (unat p) :: u32) = ucast p"
  using unat_u16_less [of p] by (simp_all add: unsigned_ucast_eq)

lemma scan_publish_show:
  "scan_publish (show_publish p) =
     Some (show_ipv4 (host_ipv4 p), ucast (host_port p), ucast (container_port p),
           if protocol p = IPPROTO_TCP then ''tcp'' else ''udp'')"
proof -
  let ?proto = "if protocol p = IPPROTO_TCP then ''tcp'' else ''udp''"
  have colon: "\<not> address_char CHR '':''" by (simp add: address_char_def isdigit_def)
  have start: "nondigit_start (CHR '':'' # r)" "nondigit_start (CHR ''/'' # r)" for r
    by (simp_all add: nondigit_start_def isdigit_def)
  have port: "scan_uint (show_nat (unat q) @ r) = Some (ucast q, r)" if "nondigit_start r" for q :: u16 and r
    using scan_uint_show_nat [of "unat q" r] u16_as_u32 [of q] that by simp
  have "scan_set 15 address_char (show_ipv4 w @ CHR '':'' # r) = Some (show_ipv4 w, CHR '':'' # r)" for w r
    using scan_set_all [of address_char "show_ipv4 w" 15 "CHR '':'' # r"] address_char_show length_show_ipv4 colon
    by simp
  moreover have "scan_set 3 islower ?proto = Some (?proto, [])"
    using scan_set_all [of islower ?proto 3 "[]"] by (simp add: islower_def)
  ultimately show ?thesis
    using port start by (simp add: scan_publish_def show_publish_def)
qed

section \<open>Properties\<close>

text \<open>
  Every publication with nonzero ports and the TCP or UDP protocol is read back unchanged from
  its textual form, for all \<open>2 ^ 32\<close> addresses and all ports.
\<close>

theorem publish_roundtrip:
  assumes "valid_publish p"
  shows "mc_parse_publish (Some (show_publish p)) = Some p"
proof -
  have u: "unat (ucast q :: u32) = unat q" for q :: u16
    using unat_u16_less [of q] by (simp add: unsigned_ucast_eq take_bit_nat_eq_self)
  have port: "\<not> 65535 < (ucast q :: u32)" "(ucast (ucast q :: u32) :: u16) = q"
    "(ucast q :: u32) = 0 \<longleftrightarrow> q = 0" for q :: u16
    using unat_u16_less [of q]
    by (simp_all add: word_less_nat_alt word_unat_eq_iff u unsigned_ucast_eq [where 'a = nat and 'b = 32]
        take_bit_nat_eq_self)
  show ?thesis using assms
    by (auto simp: scan_publish_show port valid_publish_def IPPROTO_TCP_def IPPROTO_UDP_def)
qed

theorem publish_roundtrip_witness:
  "show_publish \<lparr>host_ipv4 = 0x7F000001, host_port = 8080, container_port = 80, protocol = 17\<rparr> =
     ''127.0.0.1:8080:80/udp'' \<and>
   mc_parse_publish (Some ''127.0.0.1:8080:80/udp'') =
     Some \<lparr>host_ipv4 = 0x7F000001, host_port = 8080, container_port = 80, protocol = 17\<rparr>"
proof -
  let ?p = "\<lparr>host_ipv4 = 0x7F000001, host_port = 8080, container_port = 80, protocol = 17\<rparr> :: mc_publish"
  have s: "show_publish ?p = ''127.0.0.1:8080:80/udp''" by code_simp
  have "valid_publish ?p" by (simp add: valid_publish_def IPPROTO_UDP_def)
  from publish_roundtrip [OF this] show ?thesis unfolding s by simp
qed

lemma parse_publish_valid:
  assumes "mc_parse_publish v = Some p"
  shows "valid_publish p"
proof -
  have port: "(ucast q :: u16) \<noteq> 0" if "q \<noteq> 0" "\<not> 65535 < q" for q :: u32
  proof -
    have "unat q \<le> 65535" using that(2) by (simp add: word_less_nat_alt)
    then have "unat (ucast q :: u16) = unat q" by (simp add: unsigned_ucast_eq take_bit_nat_eq_self)
    then show ?thesis using that(1) by (metis unat_eq_0)
  qed
  show ?thesis using assms port
    by (cases v) (auto simp: valid_publish_def split: option.splits prod.splits if_splits)
qed

text \<open>
  The range check on the ports sees them modulo \<open>2 ^ 32\<close>: a host port of 4294967376 is taken
  for port 80.
\<close>

theorem publish_port_wraps:
  "mc_parse_publish (Some ''127.0.0.1:4294967376:80/tcp'') =
     Some \<lparr>host_ipv4 = 0x7F000001, host_port = 80, container_port = 80, protocol = 6\<rparr>"
  by code_simp

end
