(* ===== verification/MC_Launch.thy ===== *)
theory MC_Launch
  imports MC_Runtime MC_Security MC_Mount MC_Publish
begin

text \<open>
  \<open>src/runtime/launch.c\<close>: how the client starts the shim process. The argument vector is a list of
  slots, a NULL slot being \<open>None\<close>, and \<open>execv\<close> passes the slots before the first NULL. What the kernel
  answers is the record \<open>launch_env\<close>; the retry loops around \<open>read\<close> and \<open>waitpid\<close> run over the list of
  results the calls give and have no result (\<open>None\<close>) when that list ends before the loop does.
  The lemmas bound the vector by its allocation and cover every outcome of the wait.
\<close>

section \<open>Locating the shim\<close>

record launch_env =
  le_getenv :: "string \<Rightarrow> string option"
  le_access :: "string \<Rightarrow> bool"
  le_readlink :: "errno + string"
  le_pipe :: "errno + int"
  le_log_dir :: string
  le_mkdir :: "string \<Rightarrow> mc_error option"
  le_open_log :: errno
  le_open_null :: errno
  le_fork :: errno
  le_read :: "(errno + string) list"

definition installed_shim :: string where
  "installed_shim = ''/usr/libexec/minicontainer/minicontainer-shim''"

definition shim_path :: "launch_env \<Rightarrow> mc_error + string" where
  "shim_path E =
     (case le_getenv E ''MC_SHIM_PATH'' of
        Some (c # cs) \<Rightarrow>
          if length (c # cs) \<ge> PATH_MAX
          then Inl (mk_error MC_EXIT_USAGE ENAMETOOLONG ''launch-shim'' (Some (c # cs)) ''shim path is too long'')
          else Inr (snprintf_buf PATH_MAX (c # cs))
      | _ \<Rightarrow>
          if le_access E installed_shim then Inr (snprintf_buf PATH_MAX installed_shim)
          else (case le_readlink E of
              Inl e \<Rightarrow> Inl (mk_error MC_EXIT_INTERNAL e ''launch-shim'' (Some ''/proc/self/exe'')
                              ''cannot locate the shim'')
            | Inr text \<Rightarrow>
                let output = take (PATH_MAX - 1) text in
                (case strrchr output CHR ''/'' of
                   None \<Rightarrow> Inl (mk_error MC_EXIT_INTERNAL 0 ''launch-shim'' (Some output)
                                  ''executable path has no directory'')
                 | Some slash \<Rightarrow>
                     let directory = take (length output - length slash + 1) output in
                     Inr (directory @ snprintf_buf (PATH_MAX - length directory) ''minicontainer-shim''))))"

section \<open>The argument vector\<close>

definition user_value :: "mc_run_config \<Rightarrow> string" where
  "user_value c = snprintf_buf 32 (show_nat (unat (cfg_user c)) @ '':'' @ show_nat (unat (cfg_group c)))"

definition environment_arguments :: "mc_run_config \<Rightarrow> string option list" where
  "environment_arguments c = concat (map (\<lambda>e. [Some ''--env'', Some e]) (cfg_environment c))"

definition limit_arguments :: "mc_run_config \<Rightarrow> string option list" where
  "limit_arguments c =
     [Some ''--memory'', Some (snprintf_buf 32 (show_nat (unat (cfg_memory_max c)))),
      Some ''--memory-swap'', Some (snprintf_buf 32 (show_nat (unat (cfg_swap_max c)))),
      Some ''--cpu-quota'', Some (snprintf_buf 32 (show_nat (unat (cfg_cpu_quota c)))),
      Some ''--pids-limit'', Some (snprintf_buf 32 (show_nat (unat (cfg_pids_max c)))),
      Some ''--network'', Some (if cfg_network_bridge c then ''bridge'' else ''none''),
      Some ''--ipv4-host'', Some (snprintf_buf 32 (show_nat (unat (cfg_ipv4_host c))))]"

definition publish_value :: "mc_publish \<Rightarrow> string" where
  "publish_value p =
     snprintf_buf 64 (show_nat (unat (host_ipv4 p)) @ '','' @ show_nat (unat (host_port p)) @ '','' @
                      show_nat (unat (container_port p)) @ '','' @ show_nat (unat (protocol p)))"

definition publish_arguments :: "mc_run_config \<Rightarrow> string option list" where
  "publish_arguments c = concat (map (\<lambda>p. [Some ''--publish'', Some (publish_value p)]) (cfg_publishes c))"

definition capability_arguments :: "mc_run_config \<Rightarrow> string option list" where
  "capability_arguments c =
     concat (map (\<lambda>index. if bit (cfg_capability_mask c) index
                          then [Some ''--cap-add'', mc_capability_name index] else []) [0..<64])"

text \<open>\<open>printf\<close> writes a NULL string argument as \<open>(null)\<close>.\<close>

definition printf_string :: "string option \<Rightarrow> string" where
  "printf_string s = (case s of None \<Rightarrow> ''(null)'' | Some t \<Rightarrow> t)"

definition mount_arguments :: "mc_run_config \<Rightarrow> string option list" where
  "mount_arguments c =
     concat (map (\<lambda>m.
       if mnt_type m = MC_MOUNT_BIND
       then [Some ''--bind'',
             Some (snprintf_buf 8192 (printf_string (mnt_source m) @ '':'' @ printf_string (mnt_target m) @ '':'' @
                                      (if mnt_readonly m then ''ro'' else ''rw'')))]
       else [Some ''--tmpfs'',
             Some (snprintf_buf 8192 (printf_string (mnt_target m) @ '':'' @ show_nat (unat (mnt_size m))))])
       (cfg_mounts c))"

definition deny_arguments :: "mc_run_config \<Rightarrow> string option list" where
  "deny_arguments c = concat (map (\<lambda>d. [Some ''--seccomp-deny'', Some d]) (cfg_seccomp_denies c))"

definition shim_arguments :: "mc_run_config \<Rightarrow> string \<Rightarrow> int \<Rightarrow> string option list" where
  "shim_arguments c path ready_descriptor =
     [Some path, Some ''--id'', cfg_id c, Some ''--rootfs'', cfg_rootfs c, Some ''--hostname'', cfg_hostname c,
      Some ''--workdir'', cfg_workdir c, Some ''--user'', Some (user_value c)] @
     environment_arguments c @ limit_arguments c @ publish_arguments c @ capability_arguments c @
     (if cfg_readonly_root c then [Some ''--read-only''] else []) @
     mount_arguments c @ deny_arguments c @
     (if cfg_detach c
      then [Some ''--detach'', Some ''--ready-fd'', Some (snprintf_buf 32 (show_int ready_descriptor))] else []) @
     [Some ''--''] @ map Some (case cfg_command c of None \<Rightarrow> [] | Some cmd \<Rightarrow> cmd)"

text \<open>The number of slots that \<open>calloc\<close> reserves, the terminating NULL included.\<close>

definition argument_capacity :: "mc_run_config \<Rightarrow> nat" where
  "argument_capacity c =
     length (case cfg_command c of None \<Rightarrow> [] | Some cmd \<Rightarrow> cmd) + 111 + length (cfg_environment c) * 2 +
     length (cfg_publishes c) * 2 + length (cfg_mounts c) * 2 + length (cfg_seccomp_denies c) * 2"

definition exec_argv :: "string option list \<Rightarrow> string list" where
  "exec_argv slots = map the (takeWhile (\<lambda>a. a \<noteq> None) slots)"

section \<open>Launching and waiting\<close>

datatype wait_status = WIFEXITED nat | WIFSIGNALED nat | WOTHER

text \<open>The results of \<open>waitpid\<close>, retried on \<open>EINTR\<close>.\<close>

fun wait_shim :: "string \<Rightarrow> (errno + wait_status) list \<Rightarrow> (mc_error + int) option" where
  "wait_shim path [] = None"
| "wait_shim path (Inl e # rs) =
     (if e = EINTR then wait_shim path rs
      else Some (Inl (mk_error MC_EXIT_RUNTIME e ''launch-shim'' (Some path) ''cannot wait for shim'')))"
| "wait_shim path (Inr status # rs) =
     Some (Inr (case status of
        WIFEXITED n \<Rightarrow> int n
      | WIFSIGNALED n \<Rightarrow> 128 + int n
      | WOTHER \<Rightarrow> exit_value MC_EXIT_RUNTIME))"

fun read_ready :: "(errno + string) list \<Rightarrow> (errno + string) option" where
  "read_ready [] = None"
| "read_ready (Inl e # rs) = (if e = EINTR then read_ready rs else Some (Inl e))"
| "read_ready (Inr s # rs) = Some (Inr s)"

text \<open>The streams of a detached container.\<close>

definition open_detached :: "launch_env \<Rightarrow> mc_run_config \<Rightarrow> mc_error + int" where
  "open_detached E c =
     (case le_pipe E of
        Inl e \<Rightarrow> Inl (mk_error MC_EXIT_RUNTIME e ''launch-shim'' (cfg_id c) ''cannot create readiness channel'')
      | Inr descriptor \<Rightarrow>
          let log_directory = snprintf_buf PATH_MAX (le_log_dir E @ ''/'' @ printf_string (cfg_id c));
              log_path = snprintf_buf PATH_MAX (log_directory @ ''/container.log'') in
          (case le_mkdir E log_directory of
             Some err \<Rightarrow> Inl err
           | None \<Rightarrow>
               if le_open_log E \<noteq> 0 \<or> le_open_null E \<noteq> 0
               then Inl (mk_error MC_EXIT_RUNTIME (if le_open_null E \<noteq> 0 then le_open_null E else le_open_log E)
                           ''launch-shim'' (Some log_path) ''cannot open detached standard streams'')
               else Inr descriptor))"

text \<open>The whole call. The first component is the argument vector the child executes, if any.\<close>

definition mc_launch_shim ::
  "launch_env \<Rightarrow> mc_run_config \<Rightarrow> (errno + wait_status) list
     \<Rightarrow> string list option \<times> (mc_error + int) option" where
  "mc_launch_shim E c waits =
     (case shim_path E of
        Inl err \<Rightarrow> (None, Some (Inl err))
      | Inr path \<Rightarrow>
          (case (if cfg_detach c then open_detached E c else Inr (- 1)) of
             Inl err \<Rightarrow> (None, Some (Inl err))
           | Inr descriptor \<Rightarrow>
               if le_fork E \<noteq> 0
               then (None, Some (Inl (mk_error MC_EXIT_RUNTIME (le_fork E) ''launch-shim'' (Some path)
                                        ''cannot execute shim'')))
               else (Some (exec_argv (shim_arguments c path descriptor)),
                 if cfg_detach c then
                   (case read_ready (le_read E) of
                      None \<Rightarrow> None
                    | Some r \<Rightarrow>
                        if r = Inr ''1'' then Some (Inr 0)
                        else Some (Inl (mk_error MC_EXIT_RUNTIME 0 ''launch-shim'' (cfg_id c)
                               ''detached container failed before reaching running state'')))
                 else wait_shim path waits)))"

section \<open>Lemmas\<close>

lemma length_concat_pairs: "(\<And>x. length (f x) = 2) \<Longrightarrow> length (concat (map f xs)) = length xs * 2"
  by (induction xs) simp_all

lemma mask_bit_bound:
  assumes "m < (2 :: u64) ^ 41" "bit m i"
  shows "i < 41"
proof (rule ccontr)
  assume "\<not> i < 41"
  have "unat m < 2 ^ 41" using assms(1) by (simp add: word_less_nat_alt)
  then have "take_bit 41 m = m" by (simp add: word_unat_eq_iff unsigned_take_bit_eq take_bit_nat_eq_self)
  then have "bit (take_bit 41 m) i" using assms(2) by simp
  then show False using \<open>\<not> i < 41\<close> by (simp add: bit_take_bit_iff)
qed

text \<open>Only the 41 named capabilities contribute arguments.\<close>

lemma named_arguments:
  assumes "\<forall>i \<in> set xs. mc_capability_name i = Some (g i)" "\<forall>i \<in> set ys. \<not> bit m i"
  shows "concat (map (\<lambda>i. if bit m i then [a, mc_capability_name i] else []) (xs @ ys)) =
    concat (map (\<lambda>i. if bit m i then [a, Some (g i)] else []) xs)"
proof -
  have "concat (map (\<lambda>i. if bit m i then [a, mc_capability_name i] else []) ys) = []"
    using assms(2) by (induction ys) auto
  moreover have "concat (map (\<lambda>i. if bit m i then [a, mc_capability_name i] else []) xs) =
      concat (map (\<lambda>i. if bit m i then [a, Some (g i)] else []) xs)"
    using assms(1) by (induction xs) auto
  ultimately show ?thesis by simp
qed

lemma capability_arguments_named:
  assumes "cfg_capability_mask c < 2 ^ 41"
  shows "capability_arguments c =
    concat (map (\<lambda>i. if bit (cfg_capability_mask c) i
                     then [Some ''--cap-add'', Some (capability_names ! i)] else []) [0..<41])"
proof -
  have upt: "[0..<64] = [0..<41] @ [41..<64]" using upt_add_eq_append [of 0 41 23] by simp
  show ?thesis unfolding capability_arguments_def upt
  proof (rule named_arguments)
    show "\<forall>i\<in>set [0..<41]. mc_capability_name i = Some (capability_names ! i)"
      by (auto simp: mc_capability_name_def capability_names_facts(1))
    show "\<forall>i\<in>set [41..<64]. \<not> bit (cfg_capability_mask c) i"
      using mask_bit_bound [OF assms] by fastforce
  qed
qed

lemma length_concat_le: "(\<And>x. length (f x) \<le> 2) \<Longrightarrow> length (concat (map f xs)) \<le> length xs * 2"
proof (induction xs)
  case (Cons x xs)
  have "length (f x) \<le> 2" by (rule Cons.prems)
  moreover have "length (concat (map f xs)) \<le> length xs * 2" by (rule Cons.IH) (rule Cons.prems)
  ultimately show ?case by simp
qed simp

text \<open>
  C40: For every configuration whose capabilities are among the 41 named ones, the argument vector
  with its terminating NULL fits into the slots that were allocated for it.
\<close>

theorem argv_fits:
  assumes "cfg_capability_mask c < 2 ^ 41"
  shows "length (shim_arguments c path descriptor) + 1 \<le> argument_capacity c"
proof -
  have "length (capability_arguments c) \<le> length [0..<41] * 2"
    unfolding capability_arguments_named [OF assms] by (rule length_concat_le) simp
  then show ?thesis
    by (simp add: shim_arguments_def argument_capacity_def environment_arguments_def limit_arguments_def
        publish_arguments_def mount_arguments_def deny_arguments_def length_concat_pairs)
qed

theorem argv_fits_witness:
  "length (shim_arguments (zero_config\<lparr>cfg_capability_mask := 2 ^ 41 - 1, cfg_readonly_root := True,
     cfg_detach := True, cfg_command := Some [''sh'']\<rparr>) ''/shim'' 3) + 1 \<le> 112"
proof -
  have "cfg_capability_mask (zero_config\<lparr>cfg_capability_mask := 2 ^ 41 - 1, cfg_readonly_root := True,
     cfg_detach := True, cfg_command := Some [''sh'']\<rparr>) < 2 ^ 41" by (simp add: word_less_nat_alt)
  from argv_fits [OF this] show ?thesis by (simp add: argument_capacity_def zero_config_def)
qed

text \<open>
  Waiting for the shim passes its exit status through: an exit code is returned as is, death by
  signal \<open>n\<close> becomes \<open>128 + n\<close>, and interruptions of the wait, however many, change nothing.
\<close>

theorem wait_shim_status:
  "wait_shim path (replicate k (Inl EINTR) @ Inr (WIFEXITED n) # rs) = Some (Inr (int n)) \<and>
   wait_shim path (replicate k (Inl EINTR) @ Inr (WIFSIGNALED n) # rs) = Some (Inr (128 + int n)) \<and>
   wait_shim path (replicate k (Inl EINTR)) = None"
  by (induction k) simp_all

end
