(* ===== verification/MC_Shim.thy ===== *)
theory MC_Shim
  imports MC_Launch
begin

text \<open>
  \<open>src/runtime/shim_main.c\<close>: the shim process. Its option loop is \<open>shim_options\<close>, one step per option,
  where leaving the loop early leaves the command unset; \<open>shim_parse\<close> adds the checks behind the loop and
  \<open>shim_main\<close> the exit code. The log pump works on a map from paths to file contents. The main results
  are that the shim reconstructs the configuration the launcher encoded into its argument vector, and
  that the rotating log keeps the newest output and stays within its size bounds.
\<close>

section \<open>Options\<close>

record shim_env =
  sh_json :: jsonc
  sh_mount_env :: mount_env
  sh_seccomp :: seccomp_lib

text \<open>\<open>strtoul\<close> or \<open>strtoull\<close> with the usual error checks.\<close>

definition strict_ull :: "string \<Rightarrow> u64 option" where
  "strict_ull v = (let r = strtoull v in
     if st_range r \<or> st_end r = v \<or> st_end r \<noteq> [] then None else Some (st_val r))"

definition parse_ready_fd :: "string \<Rightarrow> int option" where
  "parse_ready_fd v = (case strtol v of (descriptor, rest, erange) \<Rightarrow>
     if erange \<or> rest = v \<or> rest \<noteq> [] \<or> descriptor < 0 \<or> descriptor > 1048576 then None else Some descriptor)"

text \<open>\<open>sscanf (v, "%u,%u,%u,%u%c", ...)\<close> assigning four values, and the range checks.\<close>

definition parse_publish_numbers :: "string \<Rightarrow> mc_publish option" where
  "parse_publish_numbers v =
     Option.bind (scan_uint v) (\<lambda>(a, s).
     Option.bind (scan_lit CHR '','' s) (\<lambda>s.
     Option.bind (scan_uint s) (\<lambda>(hp, s).
     Option.bind (scan_lit CHR '','' s) (\<lambda>s.
     Option.bind (scan_uint s) (\<lambda>(cp, s).
     Option.bind (scan_lit CHR '','' s) (\<lambda>s.
     Option.bind (scan_uint s) (\<lambda>(proto, s).
       if s \<noteq> [] \<or> hp = 0 \<or> hp > 65535 \<or> cp = 0 \<or> cp > 65535 \<or> proto \<noteq> 6 \<and> proto \<noteq> 17 then None
       else Some \<lparr>host_ipv4 = a, host_port = ucast hp, container_port = ucast cp,
                  protocol = ucast proto\<rparr>)))))))"

text \<open>One option with its value; \<open>None\<close> is a \<open>break\<close>.\<close>

definition shim_option :: "shim_env \<Rightarrow> string \<Rightarrow> string \<Rightarrow> mc_run_config \<Rightarrow> mc_run_config option" where
  "shim_option E flag v c =
    (if flag = ''--id'' then Some (c\<lparr>cfg_id := Some v\<rparr>)
     else if flag = ''--rootfs'' then Some (c\<lparr>cfg_rootfs := Some v\<rparr>)
     else if flag = ''--hostname'' then Some (c\<lparr>cfg_hostname := Some v\<rparr>)
     else if flag = ''--workdir'' then Some (c\<lparr>cfg_workdir := Some v\<rparr>)
     else if flag = ''--user'' then
       map_option (\<lambda>(u, g). c\<lparr>cfg_user := u, cfg_group := g\<rparr>) (mc_parse_user (Some v))
     else if flag = ''--env'' then
       (if mc_valid_environment (Some v) then Some (c\<lparr>cfg_environment := cfg_environment c @ [v]\<rparr>) else None)
     else if flag = ''--ready-fd'' then map_option (\<lambda>d. c\<lparr>cfg_ready_fd := d\<rparr>) (parse_ready_fd v)
     else if flag = ''--memory'' then
       map_option (\<lambda>n. c\<lparr>cfg_memory_max := n\<rparr>) (mc_parse_positive_u64 (Some v) (- 1))
     else if flag = ''--memory-swap'' then map_option (\<lambda>n. c\<lparr>cfg_swap_max := n\<rparr>) (strict_ull v)
     else if flag = ''--cpu-quota'' then
       map_option (\<lambda>n. c\<lparr>cfg_cpu_quota := n\<rparr>) (mc_parse_positive_u64 (Some v) 102400000)
     else if flag = ''--pids-limit'' then
       map_option (\<lambda>n. c\<lparr>cfg_pids_max := n\<rparr>) (mc_parse_positive_u64 (Some v) 4194304)
     else if flag = ''--network'' then
       (if v = ''bridge'' then Some (c\<lparr>cfg_network_bridge := True\<rparr>)
        else if v = ''none'' then Some (c\<lparr>cfg_network_bridge := False\<rparr>) else None)
     else if flag = ''--ipv4-host'' then
       Option.bind (strict_ull v)
         (\<lambda>a. if a > 4294967295 then None else Some (c\<lparr>cfg_ipv4_host := ucast a\<rparr>))
     else if flag = ''--publish'' then
       map_option (\<lambda>p. c\<lparr>cfg_publishes := cfg_publishes c @ [p]\<rparr>) (parse_publish_numbers v)
     else if flag = ''--cap-add'' then
       Option.bind (mc_capability_parse (Some v))
         (\<lambda>n. if n \<ge> 64 then None
              else Some (c\<lparr>cfg_capability_mask := cfg_capability_mask c OR push_bit n 1\<rparr>))
     else if flag = ''--bind'' then
       (case mc_parse_bind_mount (sh_json E) (sh_mount_env E) (Some v) zero_mount of
          Inl _ \<Rightarrow> None | Inr m \<Rightarrow> Some (c\<lparr>cfg_mounts := cfg_mounts c @ [m]\<rparr>))
     else if flag = ''--tmpfs'' then
       (case mc_parse_tmpfs_mount (Some v) zero_mount of
          Inl _ \<Rightarrow> None | Inr m \<Rightarrow> Some (c\<lparr>cfg_mounts := cfg_mounts c @ [m]\<rparr>))
     else if flag = ''--seccomp-deny'' then
       (if mc_seccomp_name_valid (sh_seccomp E) (Some v)
        then Some (c\<lparr>cfg_seccomp_denies := cfg_seccomp_denies c @ [v]\<rparr>) else None)
     else None)"

fun shim_options :: "shim_env \<Rightarrow> string list \<Rightarrow> mc_run_config \<Rightarrow> mc_run_config" where
  "shim_options E [] c = c"
| "shim_options E [a] c =
     (if a = ''--'' then c\<lparr>cfg_command := Some []\<rparr>
      else if a = ''--detach'' then c\<lparr>cfg_detach := True\<rparr>
      else if a = ''--read-only'' then c\<lparr>cfg_readonly_root := True\<rparr>
      else c)"
| "shim_options E (a # v # argv) c =
     (if a = ''--'' then c\<lparr>cfg_command := Some (v # argv)\<rparr>
      else if a = ''--detach'' then shim_options E (v # argv) (c\<lparr>cfg_detach := True\<rparr>)
      else if a = ''--read-only'' then shim_options E (v # argv) (c\<lparr>cfg_readonly_root := True\<rparr>)
      else case shim_option E a v c of None \<Rightarrow> c | Some c' \<Rightarrow> shim_options E argv c')"

text \<open>The usage check behind the loop.\<close>

definition shim_complete :: "mc_run_config \<Rightarrow> bool" where
  "shim_complete c \<longleftrightarrow>
     cfg_id c \<noteq> None \<and> cfg_rootfs c \<noteq> None \<and> cfg_hostname c \<noteq> None \<and>
     (case cfg_workdir c of Some (ch # _) \<Rightarrow> ch = CHR ''/'' | _ \<Rightarrow> False) \<and>
     (case cfg_command c of Some (_ # _) \<Rightarrow> True | _ \<Rightarrow> False) \<and>
     \<not> (cfg_detach c \<and> cfg_ready_fd c < 0) \<and>
     cfg_memory_max c \<noteq> 0 \<and> cfg_cpu_quota c \<noteq> 0 \<and> cfg_pids_max c \<noteq> 0"

definition shim_parse :: "shim_env \<Rightarrow> string list \<Rightarrow> mc_run_config option" where
  "shim_parse E argv =
     (let c = shim_options E (drop 1 argv) (zero_config\<lparr>cfg_ready_fd := - 1\<rparr>) in
      if shim_complete c then Some c else None)"

text \<open>The exit code: \<open>logger\<close> is the errno of a failed \<open>start_log_pump\<close>, \<open>run\<close> is \<open>mc_container_run\<close>.\<close>

definition shim_main ::
  "shim_env \<Rightarrow> errno \<Rightarrow> (mc_run_config \<Rightarrow> mc_error + int) \<Rightarrow> string list \<Rightarrow> int" where
  "shim_main E logger run argv =
     (case shim_parse E argv of
        None \<Rightarrow> exit_value MC_EXIT_USAGE
      | Some c \<Rightarrow>
          (case (if cfg_detach c \<and> logger \<noteq> 0
                 then Inl (mk_error MC_EXIT_RUNTIME logger ''log-pump'' (cfg_id c) ''cannot start rotating log pump'')
                 else run c) of
             Inl err \<Rightarrow> if err_code err = 0 then exit_value MC_EXIT_RUNTIME else err_code err
           | Inr result \<Rightarrow> result))"

section \<open>The options read back what the launcher wrote\<close>

lemma shim_options_flag:
  assumes "a \<notin> {''--'', ''--detach'', ''--read-only''}" "shim_option E a v c = Some c'"
  shows "shim_options E (a # v # argv) c = shim_options E argv c'"
  using assms by simp

lemma strict_ull_show [simp]: "n < 2 ^ 64 \<Longrightarrow> strict_ull (show_nat n) = Some (word_of_nat n)"
  using strtoull_show_nat [of n "[]"] by (simp add: strict_ull_def nondigit_start_def)

lemma length_show_u64: "length (show_nat (unat (w :: u64))) < 32"
  using length_show_nat [of "unat w" 20] unat_u64_less [of w] by simp

lemma length_show_u32: "length (show_nat (unat (w :: u32))) \<le> 10"
  using length_show_nat [of "unat w" 10] unat_u32_less [of w] by simp

lemma length_show_u16: "length (show_nat (unat (w :: u16))) \<le> 5"
  using length_show_nat [of "unat w" 5] unat_u16_less [of w] by simp

lemma length_show_u8: "length (show_nat (unat (w :: u8))) \<le> 3"
  using length_show_nat [of "unat w" 3] unat_u8_less [of w] by simp

lemma positive_u64_show:
  fixes w :: u64
  assumes "0 < unat w" "unat w \<le> unat maximum"
  shows "mc_parse_positive_u64 (Some (show_nat (unat w))) maximum = Some w"
  using parse_positive_u64_roundtrip [OF assms] by simp

lemma publish_value_eq:
  "publish_value p = show_nat (unat (host_ipv4 p)) @ CHR '','' # show_nat (unat (host_port p)) @ CHR '','' #
     show_nat (unat (container_port p)) @ CHR '','' # show_nat (unat (protocol p))"
  using length_show_u32 [of "host_ipv4 p"] length_show_u16 [of "host_port p"]
    length_show_u16 [of "container_port p"] length_show_u8 [of "protocol p"]
  by (simp add: publish_value_def)

lemma scan_uint_word:
  fixes w :: "'a :: len word"
  assumes "LENGTH('a) \<le> 32" "nondigit_start r"
  shows "scan_uint (show_nat (unat w) @ r) = Some (ucast w, r)"
proof -
  have "unat w < 2 ^ LENGTH('a)" by (rule unsigned_less)
  also have "\<dots> \<le> 2 ^ 32" using assms(1) by (intro power_increasing) auto
  finally have "unat w < 2 ^ 32" .
  then show ?thesis
    using scan_uint_show_nat [of "unat w" r] assms(2) by (simp add: word_unat_eq_iff unsigned_ucast_eq unsigned_of_nat)
qed

text \<open>The numeric form of a publication is read back.\<close>

lemma parse_publish_numbers_value:
  assumes "valid_publish p"
  shows "parse_publish_numbers (publish_value p) = Some p"
proof -
  have comma: "nondigit_start (CHR '','' # r)" "nondigit_start []" for r
    by (simp_all add: nondigit_start_def isdigit_def)
  have u: "unat (ucast q :: u32) = unat q" for q :: u16
    using unat_u16_less [of q] by (simp add: unsigned_ucast_eq take_bit_nat_eq_self)
  have port: "\<not> 65535 < (ucast q :: u32)" "(ucast (ucast q :: u32) :: u16) = q"
    "(ucast q :: u32) = 0 \<longleftrightarrow> q = 0" for q :: u16
    using unat_u16_less [of q]
    by (simp_all add: word_less_nat_alt word_unat_eq_iff u unsigned_ucast_eq [where 'a = nat and 'b = 32]
        take_bit_nat_eq_self)
  have proto: "(ucast (protocol p) :: u32) = 6 \<or> (ucast (protocol p) :: u32) = 17"
    "(ucast (ucast (protocol p) :: u32) :: u8) = protocol p"
    using assms by (auto simp: valid_publish_def IPPROTO_TCP_def IPPROTO_UDP_def)
  have last: "scan_uint (show_nat (unat (protocol p))) = Some (ucast (protocol p), [])"
    using scan_uint_word [of "[]" "protocol p"] comma by simp
  show ?thesis
    unfolding parse_publish_numbers_def publish_value_eq
    using assms comma proto by (auto simp: scan_uint_word last port valid_publish_def)
qed

text \<open>
  The contract between the launcher and the shim for a kind of repeated option: the values the
  launcher writes under a flag are accepted by the option loop with a known effect.
\<close>

locale option_codec =
  fixes E :: shim_env and flag :: "'x \<Rightarrow> string" and val :: "'x \<Rightarrow> string"
    and upd :: "'x \<Rightarrow> mc_run_config \<Rightarrow> mc_run_config" and ok :: "'x \<Rightarrow> bool"
  assumes flag_plain: "ok x \<Longrightarrow> flag x \<notin> {''--'', ''--detach'', ''--read-only''}"
    and accepted: "ok x \<Longrightarrow> shim_option E (flag x) (val x) c = Some (upd x c)"
begin

lemma options_list:
  assumes "list_all ok xs"
  shows "shim_options E (concat (map (\<lambda>x. [flag x, val x]) xs) @ argv) c = shim_options E argv (fold upd xs c)"
  using assms
proof (induction xs arbitrary: c)
  case (Cons x xs)
  then have "shim_options E (flag x # val x # concat (map (\<lambda>x. [flag x, val x]) xs) @ argv) c =
      shim_options E (concat (map (\<lambda>x. [flag x, val x]) xs) @ argv) (upd x c)"
    using shim_options_flag [OF flag_plain accepted] by simp
  then show ?case using Cons by simp
qed simp

end

definition add_environment :: "string \<Rightarrow> mc_run_config \<Rightarrow> mc_run_config" where
  "add_environment e c = c\<lparr>cfg_environment := cfg_environment c @ [e]\<rparr>"

definition add_publish :: "mc_publish \<Rightarrow> mc_run_config \<Rightarrow> mc_run_config" where
  "add_publish p c = c\<lparr>cfg_publishes := cfg_publishes c @ [p]\<rparr>"

definition add_capability :: "nat \<Rightarrow> mc_run_config \<Rightarrow> mc_run_config" where
  "add_capability n c = c\<lparr>cfg_capability_mask := cfg_capability_mask c OR push_bit n 1\<rparr>"

definition add_mount :: "mc_mount \<Rightarrow> mc_run_config \<Rightarrow> mc_run_config" where
  "add_mount m c = c\<lparr>cfg_mounts := cfg_mounts c @ [m]\<rparr>"

definition add_deny :: "string \<Rightarrow> mc_run_config \<Rightarrow> mc_run_config" where
  "add_deny d c = c\<lparr>cfg_seccomp_denies := cfg_seccomp_denies c @ [d]\<rparr>"

lemmas add_defs = add_environment_def add_publish_def add_capability_def add_mount_def add_deny_def

definition mount_flag :: "mc_mount \<Rightarrow> string" where
  "mount_flag m = (if mnt_type m = MC_MOUNT_BIND then ''--bind'' else ''--tmpfs'')"

definition mount_value :: "mc_mount \<Rightarrow> string" where
  "mount_value m =
     (if mnt_type m = MC_MOUNT_BIND
      then snprintf_buf 8192 (printf_string (mnt_source m) @ '':'' @ printf_string (mnt_target m) @ '':'' @
                              (if mnt_readonly m then ''ro'' else ''rw''))
      else snprintf_buf 8192 (printf_string (mnt_target m) @ '':'' @ show_nat (unat (mnt_size m))))"

text \<open>The mounts the launcher can pass on: the source resolves to itself and no path holds a colon.\<close>

definition mount_launchable :: "shim_env \<Rightarrow> mc_mount \<Rightarrow> bool" where
  "mount_launchable E m \<longleftrightarrow>
     (case mnt_target m of
        None \<Rightarrow> False
      | Some t \<Rightarrow> CHR '':'' \<notin> set t \<and> valid_target t \<and>
          (case mnt_type m of
             MC_MOUNT_BIND \<Rightarrow>
               (case mnt_source m of
                  None \<Rightarrow> False
                | Some s \<Rightarrow> CHR '':'' \<notin> set s \<and> prefix ''/'' s \<and> me_realpath (sh_mount_env E) s = Some s \<and>
                    me_is_directory (sh_mount_env E) s \<and> bind_allowed (sh_json E) (sh_mount_env E) s \<and>
                    mnt_size m = 0 \<and> length s + length t \<le> 8187)
           | MC_MOUNT_TMPFS \<Rightarrow> mnt_source m = None \<and> \<not> mnt_readonly m \<and>
               0 < unat (mnt_size m) \<and> unat (mnt_size m) \<le> 1073741824
           | MC_MOUNT_OTHER _ \<Rightarrow> False))"

lemma mount_value_parses:
  assumes "mount_launchable E m"
  shows "shim_option E (mount_flag m) (mount_value m) c = Some (add_mount m c)"
proof -
  obtain t where t: "mnt_target m = Some t" "CHR '':'' \<notin> set t" "valid_target t"
    using assms by (auto simp: mount_launchable_def split: option.splits)
  consider (bind) s where "mnt_type m = MC_MOUNT_BIND" "mnt_source m = Some s" "CHR '':'' \<notin> set s" "prefix ''/'' s"
      "me_realpath (sh_mount_env E) s = Some s" "me_is_directory (sh_mount_env E) s"
      "bind_allowed (sh_json E) (sh_mount_env E) s" "mnt_size m = 0" "length s + length t \<le> 8187"
    | (tmpfs) "mnt_type m = MC_MOUNT_TMPFS" "mnt_source m = None" "\<not> mnt_readonly m"
      "0 < unat (mnt_size m)" "unat (mnt_size m) \<le> 1073741824"
    using assms t(1) by (auto simp: mount_launchable_def split: option.splits mc_mount_type.splits)
  then show ?thesis
  proof cases
    case bind
    have "m = \<lparr>mnt_type = MC_MOUNT_BIND, mnt_source = Some s, mnt_target = Some t, mnt_size = 0,
         mnt_readonly = mnt_readonly m\<rparr>" using bind t by simp
    moreover have "mount_value m = s @ '':'' @ t @ '':'' @ (if mnt_readonly m then ''ro'' else ''rw'')"
      using bind t by (simp add: mount_value_def printf_string_def)
    ultimately show ?thesis
      using parse_bind_mount_roundtrip [OF bind(3) t(2) bind(4) t(3) bind(5,6,7), of "mnt_readonly m"] bind(1)
      by (simp add: shim_option_def mount_flag_def add_mount_def)
  next
    case tmpfs
    have "m = \<lparr>mnt_type = MC_MOUNT_TMPFS, mnt_source = None, mnt_target = Some t, mnt_size = mnt_size m,
         mnt_readonly = False\<rparr>" using tmpfs t by simp
    moreover have "mount_value m = t @ '':'' @ show_nat (unat (mnt_size m))"
      using tmpfs t valid_target_length [OF t(3)] length_show_u64 [of "mnt_size m"]
      by (simp add: mount_value_def printf_string_def)
    ultimately show ?thesis
      using parse_tmpfs_mount_roundtrip [OF t(2,3) tmpfs(4,5)] tmpfs(1)
      by (simp add: shim_option_def mount_flag_def add_mount_def)
  qed
qed

interpretation environment_option: option_codec E "\<lambda>_. ''--env''" id add_environment
    "\<lambda>e. mc_valid_environment (Some e)" for E
  by unfold_locales (simp_all add: shim_option_def add_environment_def)

interpretation publish_option: option_codec E "\<lambda>_. ''--publish''" publish_value add_publish valid_publish for E
  by unfold_locales (simp_all add: shim_option_def add_publish_def parse_publish_numbers_value)

lemma capability_parse_name: "i < 41 \<Longrightarrow> mc_capability_parse (Some (capability_names ! i)) = Some i"
proof -
  assume "i < 41"
  then have "\<not> strncmp_eq (capability_names ! i) ''CAP_'' 4"
    using capability_names_facts(1,3) by (simp add: list_all_length)
  then show ?thesis
    using capability_index_nth [OF capability_names_facts(2), of i 0] \<open>i < 41\<close> capability_names_facts(1) by simp
qed

interpretation capability_option: option_codec E "\<lambda>_. ''--cap-add''" "\<lambda>i. capability_names ! i" add_capability
    "\<lambda>i. i < 41" for E
  by unfold_locales (simp_all add: shim_option_def add_capability_def capability_parse_name
      del: mc_capability_parse.simps)

interpretation mount_option: option_codec E mount_flag mount_value add_mount "mount_launchable E" for E
  by unfold_locales (simp add: mount_flag_def, rule mount_value_parses)

interpretation deny_option: option_codec E "\<lambda>_. ''--seccomp-deny''" id add_deny
    "\<lambda>d. mc_seccomp_name_valid (sh_seccomp E) (Some d)" for E
  by unfold_locales (simp_all add: shim_option_def add_deny_def)

lemma fold_add_environment: "fold add_environment es c = c\<lparr>cfg_environment := cfg_environment c @ es\<rparr>"
  by (induction es arbitrary: c) (simp_all add: add_environment_def)

lemma fold_add_publish: "fold add_publish ps c = c\<lparr>cfg_publishes := cfg_publishes c @ ps\<rparr>"
  by (induction ps arbitrary: c) (simp_all add: add_publish_def)

lemma fold_add_mount: "fold add_mount ms c = c\<lparr>cfg_mounts := cfg_mounts c @ ms\<rparr>"
  by (induction ms arbitrary: c) (simp_all add: add_mount_def)

lemma fold_add_deny: "fold add_deny ds c = c\<lparr>cfg_seccomp_denies := cfg_seccomp_denies c @ ds\<rparr>"
  by (induction ds arbitrary: c) (simp_all add: add_deny_def)

lemma fold_add_capability:
  "fold add_capability ns c = c\<lparr>cfg_capability_mask := fold (\<lambda>n m. m OR push_bit n 1) ns (cfg_capability_mask c)\<rparr>"
  by (induction ns arbitrary: c) (simp_all add: add_capability_def)

lemma bit_fold_or: "i < 64 \<Longrightarrow> bit (fold (\<lambda>n m. m OR push_bit n 1) ns (m :: u64)) i \<longleftrightarrow> bit m i \<or> i \<in> set ns"
  by (induction ns arbitrary: m) (auto simp: bit_simps)

lemma mask_from_bits:
  assumes "m < (2 :: u64) ^ 41"
  shows "fold (\<lambda>n w. w OR push_bit n 1) (filter (bit m) [0..<41]) 0 = m"
proof (rule bit_word_eqI)
  fix i assume "i < LENGTH(64)"
  then show "bit (fold (\<lambda>n w. w OR push_bit n 1) (filter (bit m) [0..<41]) (0 :: u64)) i \<longleftrightarrow> bit m i"
    using bit_fold_or [of i "filter (bit m) [0..<41]" 0] mask_bit_bound [OF assms, of i] by auto
qed

lemmas fold_adds = fold_add_environment fold_add_publish fold_add_mount fold_add_deny fold_add_capability

text \<open>The argument vector as texts.\<close>

definition argv_texts :: "mc_run_config \<Rightarrow> string \<Rightarrow> int \<Rightarrow> string list" where
  "argv_texts c path descriptor =
     [path, ''--id'', the (cfg_id c), ''--rootfs'', the (cfg_rootfs c), ''--hostname'', the (cfg_hostname c),
      ''--workdir'', the (cfg_workdir c), ''--user'', user_value c] @
     concat (map (\<lambda>e. [''--env'', id e]) (cfg_environment c)) @
     map the (limit_arguments c) @
     concat (map (\<lambda>p. [''--publish'', publish_value p]) (cfg_publishes c)) @
     concat (map (\<lambda>i. [''--cap-add'', capability_names ! i]) (filter (bit (cfg_capability_mask c)) [0..<41])) @
     (if cfg_readonly_root c then [''--read-only''] else []) @
     concat (map (\<lambda>m. [mount_flag m, mount_value m]) (cfg_mounts c)) @
     concat (map (\<lambda>d. [''--seccomp-deny'', id d]) (cfg_seccomp_denies c)) @
     (if cfg_detach c then [''--detach'', ''--ready-fd'', snprintf_buf 32 (show_int descriptor)] else []) @
     [''--''] @ the (cfg_command c)"

lemma exec_argv_texts: "exec_argv (map Some xs) = xs"
  by (induction xs) (simp_all add: exec_argv_def)

lemma concat_map_Some: "(\<And>x. f x = map Some (g x)) \<Longrightarrow> concat (map f xs) = map Some (concat (map g xs))"
  by (induction xs) simp_all

lemma concat_map_filter:
  "concat (map (\<lambda>i. if P i then f i else []) xs) = concat (map f (filter P xs))"
  by (induction xs) simp_all

text \<open>What the launcher can encode faithfully.\<close>

definition launchable :: "shim_env \<Rightarrow> mc_run_config \<Rightarrow> bool" where
  "launchable E c \<longleftrightarrow>
     cfg_id c \<noteq> None \<and> cfg_rootfs c \<noteq> None \<and> cfg_hostname c \<noteq> None \<and>
     (case cfg_workdir c of Some (ch # _) \<Rightarrow> ch = CHR ''/'' | _ \<Rightarrow> False) \<and>
     (case cfg_command c of Some (_ # _) \<Rightarrow> True | _ \<Rightarrow> False) \<and>
     unat (cfg_user c) \<le> 65535 \<and> unat (cfg_group c) \<le> 65535 \<and>
     list_all (\<lambda>e. mc_valid_environment (Some e)) (cfg_environment c) \<and>
     0 < unat (cfg_memory_max c) \<and> 0 < unat (cfg_cpu_quota c) \<and> unat (cfg_cpu_quota c) \<le> 102400000 \<and>
     0 < unat (cfg_pids_max c) \<and> unat (cfg_pids_max c) \<le> 4194304 \<and>
     cfg_capability_mask c < 2 ^ 41 \<and> list_all valid_publish (cfg_publishes c) \<and>
     list_all (mount_launchable E) (cfg_mounts c) \<and>
     list_all (\<lambda>d. mc_seccomp_name_valid (sh_seccomp E) (Some d)) (cfg_seccomp_denies c)"

lemma shim_arguments_texts:
  assumes "cfg_id c \<noteq> None" "cfg_rootfs c \<noteq> None" "cfg_hostname c \<noteq> None" "cfg_workdir c \<noteq> None"
    "cfg_command c \<noteq> None" "cfg_capability_mask c < 2 ^ 41"
  shows "exec_argv (shim_arguments c path descriptor) = argv_texts c path descriptor"
proof -
  have "environment_arguments c = map Some (concat (map (\<lambda>e. [''--env'', id e]) (cfg_environment c)))"
    unfolding environment_arguments_def by (rule concat_map_Some) simp
  moreover have "publish_arguments c = map Some (concat (map (\<lambda>p. [''--publish'', publish_value p]) (cfg_publishes c)))"
    unfolding publish_arguments_def by (rule concat_map_Some) simp
  moreover have "capability_arguments c = map Some (concat (map (\<lambda>i. [''--cap-add'', capability_names ! i])
      (filter (bit (cfg_capability_mask c)) [0..<41])))"
    unfolding capability_arguments_named [OF assms(6)] concat_map_filter by (rule concat_map_Some) simp
  moreover have "mount_arguments c = map Some (concat (map (\<lambda>m. [mount_flag m, mount_value m]) (cfg_mounts c)))"
    unfolding mount_arguments_def by (rule concat_map_Some) (simp add: mount_flag_def mount_value_def)
  moreover have "deny_arguments c = map Some (concat (map (\<lambda>d. [''--seccomp-deny'', id d]) (cfg_seccomp_denies c)))"
    unfolding deny_arguments_def by (rule concat_map_Some) simp
  moreover have "limit_arguments c = map Some (map the (limit_arguments c))" by (simp add: limit_arguments_def)
  ultimately have "shim_arguments c path descriptor = map Some (argv_texts c path descriptor)"
    using assms by (auto simp: shim_arguments_def argv_texts_def simp del: map_map)
  then show ?thesis using exec_argv_texts by simp
qed

text \<open>The single-valued options in front of the repeated ones.\<close>

lemma shim_options_head:
  assumes "unat (cfg_user c) \<le> 65535" "unat (cfg_group c) \<le> 65535"
  shows "shim_options E ([''--id'', i, ''--rootfs'', r, ''--hostname'', h, ''--workdir'', w, ''--user'', user_value c] @ argv) b =
    shim_options E argv (b\<lparr>cfg_id := Some i, cfg_rootfs := Some r, cfg_hostname := Some h, cfg_workdir := Some w,
      cfg_user := cfg_user c, cfg_group := cfg_group c\<rparr>)"
proof -
  have "user_value c = show_nat (unat (cfg_user c)) @ CHR '':'' # show_nat (unat (cfg_group c))"
    using length_show_u32 [of "cfg_user c"] length_show_u32 [of "cfg_group c"] by (simp add: user_value_def)
  then have "mc_parse_user (Some (user_value c)) = Some (cfg_user c, cfg_group c)"
    using parse_user_roundtrip [OF assms] by simp
  then show ?thesis by (simp add: shim_option_def)
qed

lemma shim_options_limits:
  assumes "0 < unat (cfg_memory_max c)" "0 < unat (cfg_cpu_quota c)" "unat (cfg_cpu_quota c) \<le> 102400000"
    "0 < unat (cfg_pids_max c)" "unat (cfg_pids_max c) \<le> 4194304"
  shows "shim_options E (map the (limit_arguments c) @ argv) b =
    shim_options E argv (b\<lparr>cfg_memory_max := cfg_memory_max c, cfg_swap_max := cfg_swap_max c,
      cfg_cpu_quota := cfg_cpu_quota c, cfg_pids_max := cfg_pids_max c,
      cfg_network_bridge := cfg_network_bridge c, cfg_ipv4_host := cfg_ipv4_host c\<rparr>)"
proof -
  have mem: "mc_parse_positive_u64 (Some (show_nat (unat (cfg_memory_max c)))) (- 1) = Some (cfg_memory_max c)"
    using assms(1) by (intro positive_u64_show) (simp_all add: word_le_nat_alt [symmetric])
  have cpu: "mc_parse_positive_u64 (Some (show_nat (unat (cfg_cpu_quota c)))) 102400000 = Some (cfg_cpu_quota c)"
    using assms(2,3) by (intro positive_u64_show) simp_all
  have pids: "mc_parse_positive_u64 (Some (show_nat (unat (cfg_pids_max c)))) 4194304 = Some (cfg_pids_max c)"
    using assms(4,5) by (intro positive_u64_show) simp_all
  have swap: "strict_ull (show_nat (unat (cfg_swap_max c))) = Some (cfg_swap_max c)"
    using strict_ull_show [OF unat_u64_less] by simp
  define ip where "ip = (word_of_nat (unat (cfg_ipv4_host c)) :: u64)"
  have ip32: "unat (cfg_ipv4_host c) < 2 ^ 32" by (rule unat_u32_less)
  have ip: "unat ip = unat (cfg_ipv4_host c)"
    unfolding ip_def using ip32 by (intro unat_word_of_nat_u64) simp
  have "strict_ull (show_nat (unat (cfg_ipv4_host c))) = Some ip"
    unfolding ip_def using ip32 by (intro strict_ull_show) simp
  moreover have "\<not> ip > 4294967295" using ip ip32 by (simp add: word_less_nat_alt)
  moreover have "(ucast ip :: u32) = cfg_ipv4_host c"
    using ip ip32 by (simp add: word_unat_eq_iff unat_ucast_u32)
  moreover have "length (show_nat (unat (cfg_ipv4_host c))) < 32" using length_show_u32 [of "cfg_ipv4_host c"] by simp
  ultimately show ?thesis
    using mem cpu pids swap length_show_u64
    by (simp add: limit_arguments_def shim_option_def del: mc_parse_positive_u64.simps)
qed

lemma parse_ready_fd_show:
  assumes "0 \<le> d" "d \<le> 1048576"
  shows "parse_ready_fd (snprintf_buf 32 (show_int d)) = Some d"
proof -
  have "length (show_nat (nat d)) \<le> 7" using assms by (intro length_show_nat) simp_all
  then have "snprintf_buf 32 (show_int d) = show_nat (nat d)" using assms by (simp add: show_int_def)
  then show ?thesis using strtol_show_nat [of "nat d" "[]"] assms
    by (simp add: parse_ready_fd_def nondigit_start_def)
qed

text \<open>The options behind the repeated ones.\<close>

lemma shim_options_tail:
  assumes "det \<longrightarrow> 0 \<le> d \<and> d \<le> 1048576" "cmd \<noteq> []"
  shows "shim_options E ((if det then [''--detach'', ''--ready-fd'', snprintf_buf 32 (show_int d)] else []) @
      [''--''] @ cmd) b =
    b\<lparr>cfg_detach := (det \<or> cfg_detach b), cfg_ready_fd := (if det then d else cfg_ready_fd b),
      cfg_command := Some cmd\<rparr>"
  using assms parse_ready_fd_show [of d] by (cases cmd) (auto simp: shim_option_def)

lemma shim_options_read_only:
  "shim_options E ((if ro then [''--read-only''] else []) @ argv) b =
     shim_options E argv (b\<lparr>cfg_readonly_root := (ro \<or> cfg_readonly_root b)\<rparr>)"
  by (cases ro; cases argv) simp_all

lemma shim_options_texts:
  assumes "launchable E c" "cfg_detach c \<longrightarrow> 0 \<le> d \<and> d \<le> 1048576"
  shows "shim_options E (drop 1 (argv_texts c path d)) (zero_config\<lparr>cfg_ready_fd := - 1\<rparr>) =
    c\<lparr>cfg_name := None, cfg_ready_fd := (if cfg_detach c then d else - 1)\<rparr>"
proof -
  have ok: "list_all (\<lambda>e. mc_valid_environment (Some e)) (cfg_environment c)"
    "list_all valid_publish (cfg_publishes c)" "list_all (mount_launchable E) (cfg_mounts c)"
    "list_all (\<lambda>d. mc_seccomp_name_valid (sh_seccomp E) (Some d)) (cfg_seccomp_denies c)"
    "list_all (\<lambda>i. i < 41) (filter (bit (cfg_capability_mask c)) [0..<41])"
    and mask: "cfg_capability_mask c < 2 ^ 41"
    using assms(1) by (auto simp: launchable_def list_all_iff)
  obtain i r h w cmd where some: "cfg_id c = Some i" "cfg_rootfs c = Some r" "cfg_hostname c = Some h"
      "cfg_workdir c = Some w" "cfg_command c = Some cmd" "cmd \<noteq> []"
    using assms(1) by (auto simp: launchable_def split: option.splits list.splits)
  have head: "unat (cfg_user c) \<le> 65535" "unat (cfg_group c) \<le> 65535"
    and limits: "0 < unat (cfg_memory_max c)" "0 < unat (cfg_cpu_quota c)" "unat (cfg_cpu_quota c) \<le> 102400000"
    "0 < unat (cfg_pids_max c)" "unat (cfg_pids_max c) \<le> 4194304"
    using assms(1) by (auto simp: launchable_def)
  have texts: "drop 1 (argv_texts c path d) =
    [''--id'', i, ''--rootfs'', r, ''--hostname'', h, ''--workdir'', w, ''--user'', user_value c] @
     concat (map (\<lambda>e. [''--env'', id e]) (cfg_environment c)) @
     map the (limit_arguments c) @
     concat (map (\<lambda>p. [''--publish'', publish_value p]) (cfg_publishes c)) @
     concat (map (\<lambda>i. [''--cap-add'', capability_names ! i]) (filter (bit (cfg_capability_mask c)) [0..<41])) @
     (if cfg_readonly_root c then [''--read-only''] else []) @
     concat (map (\<lambda>m. [mount_flag m, mount_value m]) (cfg_mounts c)) @
     concat (map (\<lambda>d. [''--seccomp-deny'', id d]) (cfg_seccomp_denies c)) @
     (if cfg_detach c then [''--detach'', ''--ready-fd'', snprintf_buf 32 (show_int d)] else []) @ [''--''] @ cmd"
    by (simp add: argv_texts_def some)
  show ?thesis
    unfolding texts shim_options_head [OF head] environment_option.options_list [OF ok(1)]
      shim_options_limits [OF limits] publish_option.options_list [OF ok(2)]
      capability_option.options_list [OF ok(5)] shim_options_read_only
      mount_option.options_list [OF ok(3)] deny_option.options_list [OF ok(4)]
      shim_options_tail [OF assms(2) some(6)] fold_adds
    using mask_from_bits [OF mask] by (simp add: zero_config_def some)
qed

lemma shim_parse_arguments:
  assumes "launchable E c" "cfg_detach c \<longrightarrow> 0 \<le> d \<and> d \<le> 1048576"
  shows "shim_parse E (exec_argv (shim_arguments c path d)) =
    Some (c\<lparr>cfg_name := None, cfg_ready_fd := (if cfg_detach c then d else - 1)\<rparr>)"
proof -
  have "exec_argv (shim_arguments c path d) = argv_texts c path d"
    using assms(1) by (intro shim_arguments_texts) (auto simp: launchable_def split: option.splits)
  moreover have "shim_complete (c\<lparr>cfg_name := None, cfg_ready_fd := (if cfg_detach c then d else - 1)\<rparr>)"
    using assms by (auto simp: launchable_def shim_complete_def)
  ultimately show ?thesis using shim_options_texts [OF assms] by (simp add: shim_parse_def Let_def)
qed

text \<open>
  C5: The shim reconstructs the configuration that the launcher wrote into its argument vector: every
  field except the name, which the shim does not use, comes back unchanged, with the readiness
  descriptor of a detached start. This covers the numeric fields at their full width, the environment,
  publications, capabilities, mounts, denied system calls and the command, in their order.
\<close>

theorem launch_roundtrip:
  assumes "launchable E c" "cfg_detach c \<longrightarrow> 0 \<le> d \<and> d \<le> 1048576"
  shows "shim_parse E (exec_argv (shim_arguments c path d)) =
    Some (c\<lparr>cfg_name := None, cfg_ready_fd := (if cfg_detach c then d else - 1)\<rparr>)"
  using assms by (rule shim_parse_arguments)

definition example_shim_env :: shim_env where
  "example_shim_env =
     \<lparr>sh_json = example_jsonc, sh_mount_env = example_mount_env, sh_seccomp = example_seccomp_lib\<rparr>"

definition example_config :: mc_run_config where
  "example_config =
     \<lparr>cfg_id = Some ''0123456789abcdef0123456789abcdef'', cfg_name = Some ''web'', cfg_rootfs = Some ''/images/web'',
      cfg_hostname = Some ''web'', cfg_workdir = Some ''/'', cfg_user = 1000, cfg_group = 1000,
      cfg_environment = [''PATH=/bin'', ''A=''], cfg_detach = True, cfg_ready_fd = 0,
      cfg_memory_max = 268435456, cfg_swap_max = 0, cfg_cpu_quota = 50000, cfg_pids_max = 128,
      cfg_capability_mask = 0x400, cfg_readonly_root = True,
      cfg_mounts =
        [\<lparr>mnt_type = MC_MOUNT_BIND, mnt_source = Some ''/srv/data'', mnt_target = Some ''/data'', mnt_size = 0,
          mnt_readonly = True\<rparr>,
         \<lparr>mnt_type = MC_MOUNT_TMPFS, mnt_source = None, mnt_target = Some ''/tmp'', mnt_size = 65536,
          mnt_readonly = False\<rparr>],
      cfg_seccomp_denies = [''mount''], cfg_network_bridge = True, cfg_ipv4_host = 2,
      cfg_publishes = [\<lparr>host_ipv4 = 0x7F000001, host_port = 8080, container_port = 80, protocol = 6\<rparr>],
      cfg_command = Some [''sh'', ''-c'', ''--'']\<rparr>"

lemma example_launchable: "launchable example_shim_env example_config"
proof -
  have "valid_target ''/data''" "valid_target ''/tmp''" by code_simp+
  moreover have "bind_allowed example_jsonc example_mount_env ''/srv/data''" by code_simp
  moreover have "mc_valid_environment (Some ''PATH=/bin'')" "mc_valid_environment (Some ''A='')" by code_simp+
  moreover have "mc_seccomp_name_valid example_seccomp_lib (Some ''mount'')"
    by (simp add: example_seccomp_lib_def example_syscalls_def)
  ultimately show ?thesis
    by (simp add: launchable_def mount_launchable_def example_config_def example_shim_env_def
        example_mount_env_def valid_publish_def IPPROTO_TCP_def word_less_nat_alt del: mc_seccomp_name_valid.simps)
qed

theorem launch_roundtrip_witness:
  "shim_parse example_shim_env (exec_argv (shim_arguments example_config ''/shim'' 7)) =
     Some (example_config\<lparr>cfg_name := None, cfg_ready_fd := 7\<rparr>)"
proof -
  have d: "cfg_detach example_config \<longrightarrow> 0 \<le> (7 :: int) \<and> (7 :: int) \<le> 1048576" by simp
  have "cfg_detach example_config" by (simp add: example_config_def)
  then show ?thesis using launch_roundtrip [OF example_launchable d, of "''/shim''"] by simp
qed

end
