(* ===== verification/MC_Log.thy ===== *)
theory MC_Log
  imports MC_Error
begin

text \<open>
  The log pump of \<open>src/runtime/shim_main.c\<close>: \<open>write_all\<close>, \<open>rotate_log\<close> and \<open>log_pump\<close>. The log directory is
  a map from paths to contents. The results of \<open>write\<close> and \<open>read\<close> are given as lists, so that partial
  writes and interruptions are explicit; a loop whose list of results ends has no result. Errors of
  \<open>rename\<close> and \<open>open\<close> come from the parameter \<open>log_env\<close>. The lemmas show that a successful
  \<open>write_all\<close> writes exactly the buffer, and that the pump keeps the newest output and its size bound.
\<close>

section \<open>Writing a buffer\<close>

text \<open>The text written, the results left over, and the return value (\<open>None\<close> while still looping).\<close>

fun write_all :: "(errno + nat) list \<Rightarrow> string \<Rightarrow> string \<times> (errno + nat) list \<times> bool option" where
  "write_all rs [] = ([], rs, Some True)"
| "write_all [] (b # buffer) = ([], [], None)"
| "write_all (Inl e # rs) (b # buffer) =
     (if e = EINTR then write_all rs (b # buffer) else ([], rs, Some False))"
| "write_all (Inr n # rs) (b # buffer) =
     (let (written, rest, r) = write_all rs (drop n (b # buffer))
      in (take n (b # buffer) @ written, rest, r))"

section \<open>Rotation\<close>

type_synonym log_files = "string \<Rightarrow> string option"

record log_env =
  lg_rename :: "string \<Rightarrow> string \<Rightarrow> errno"
  lg_open :: errno

definition log_name :: "string \<Rightarrow> nat \<Rightarrow> string" where
  "log_name path index = snprintf_buf 4096 (path @ ''.'' @ show_nat index)"

text \<open>\<open>rename\<close>, where a missing source is not an error for the caller. The second component says
  whether the caller goes on.\<close>

definition rename_log :: "log_env \<Rightarrow> string \<Rightarrow> string \<Rightarrow> log_files \<Rightarrow> log_files \<times> bool" where
  "rename_log L older newer fs =
     (case fs older of
        None \<Rightarrow> (fs, True)
      | Some content \<Rightarrow>
          if lg_rename L older newer = 0 then
            (if older = newer then fs else fs(newer := Some content, older := None), True)
          else (fs, lg_rename L older newer = ENOENT))"

fun rotate_older :: "log_env \<Rightarrow> string \<Rightarrow> nat \<Rightarrow> log_files \<Rightarrow> log_files \<times> bool" where
  "rotate_older L path 0 fs = (fs, True)"
| "rotate_older L path (Suc i) fs =
     (case rename_log L (log_name path (Suc i)) (log_name path (Suc (Suc i))) fs of
        (fs', ok) \<Rightarrow> if ok then rotate_older L path i fs' else (fs', False))"

definition MC_LOG_MAX_FILES :: nat where "MC_LOG_MAX_FILES = 3"
definition MC_LOG_MAX_SIZE :: u64 where "MC_LOG_MAX_SIZE = 1024 * 1024"

definition rotate_log :: "log_env \<Rightarrow> string \<Rightarrow> log_files \<Rightarrow> log_files \<times> bool" where
  "rotate_log L path fs =
     (case rotate_older L path (MC_LOG_MAX_FILES - 1) (fs(log_name path MC_LOG_MAX_FILES := None)) of
        (fs, ok) \<Rightarrow>
          if \<not> ok then (fs, False)
          else (case rename_log L path (log_name path 1) fs of
              (fs, ok) \<Rightarrow>
                if \<not> ok \<or> lg_open L \<noteq> 0 then (fs, False)
                else (fs(path := (case fs path of None \<Rightarrow> Some [] | Some c \<Rightarrow> Some c)), True)))"

section \<open>The pump\<close>

record pump_state =
  pm_files :: log_files
  pm_size :: u64

definition append_log :: "string \<Rightarrow> string \<Rightarrow> log_files \<Rightarrow> log_files" where
  "append_log path txt fs = fs(path := Some ((case fs path of None \<Rightarrow> [] | Some c \<Rightarrow> c) @ txt))"

text \<open>The loop body for one chunk: state, unused write results, and whether the loop goes on.\<close>

definition pump_chunk ::
  "log_env \<Rightarrow> string \<Rightarrow> string \<Rightarrow> (errno + nat) list \<Rightarrow> pump_state \<Rightarrow> pump_state \<times> (errno + nat) list \<times> bool option" where
  "pump_chunk L path chunk writes s =
     (let count = word_of_nat (length chunk);
          (s, ok) = (if pm_size s > 0 \<and> pm_size s + count > MC_LOG_MAX_SIZE
             then (case rotate_log L path (pm_files s) of (fs, ok) \<Rightarrow> (\<lparr>pm_files = fs, pm_size = 0\<rparr>, ok))
             else (s, True)) in
      if \<not> ok then (s, writes, Some False)
      else let (written, writes', r) = write_all writes chunk;
               s' = s\<lparr>pm_files := append_log path written (pm_files s)\<rparr> in
           if r = Some True then (s'\<lparr>pm_size := pm_size s + count\<rparr>, writes', Some True)
           else (s', writes', r))"

text \<open>The loop: the return value is the exit code of the pump.\<close>

fun log_pump ::
  "log_env \<Rightarrow> string \<Rightarrow> (errno + string) list \<Rightarrow> (errno + nat) list \<Rightarrow> pump_state \<Rightarrow> pump_state \<times> nat option" where
  "log_pump L path [] writes s = (s, None)"
| "log_pump L path (Inl e # reads) writes s =
     (if e = EINTR then log_pump L path reads writes s else (s, Some 1))"
| "log_pump L path (Inr chunk # reads) writes s =
     (if chunk = [] then (s, Some 0)
      else case pump_chunk L path chunk writes s of
        (s', writes', Some True) \<Rightarrow> log_pump L path reads writes' s'
      | (s', _, Some False) \<Rightarrow> (s', Some 1)
      | (s', _, None) \<Rightarrow> (s', None))"

section \<open>Lemmas\<close>

lemma write_all_prefix: "write_all rs buffer = (w, rest, r) \<Longrightarrow> prefix w buffer"
proof (induction rs buffer arbitrary: w rest r rule: write_all.induct)
  case (4 n rs b buffer)
  obtain w' rest' r' where "write_all rs (drop n (b # buffer)) = (w', rest', r')" by (metis prod_cases3)
  then have "w = take n (b # buffer) @ w'" "prefix w' (drop n (b # buffer))" using 4 by auto
  then show ?case by (metis append_take_drop_id same_prefix_prefix)
qed (auto split: if_splits)

lemma write_all_complete: "write_all rs buffer = (w, rest, Some True) \<Longrightarrow> w = buffer"
proof (induction rs buffer arbitrary: w rest rule: write_all.induct)
  case (4 n rs b buffer)
  obtain w' rest' r' where w': "write_all rs (drop n (b # buffer)) = (w', rest', r')" by (metis prod_cases3)
  then have "w = take n (b # buffer) @ w'" "r' = Some True" using 4 by auto
  then show ?case using 4 w' by (metis append_take_drop_id)
qed (auto split: if_splits)

text \<open>With results that make progress the loop ends and succeeds, whatever the interruptions.\<close>

lemma write_all_progress:
  assumes "length buffer \<le> length (filter (\<lambda>r. r \<noteq> Inl EINTR) rs)"
    and "\<forall>r \<in> set rs. r = Inl EINTR \<or> (\<exists>n > 0. r = Inr n)"
  shows "\<exists>rest. write_all rs buffer = (buffer, rest, Some True)"
  using assms
proof (induction rs buffer rule: write_all.induct)
  case (4 n rs b buffer)
  then obtain k where "n = Suc k" by (auto simp: gr0_conv_Suc)
  then have "\<exists>rest. write_all rs (drop n (b # buffer)) = (drop n (b # buffer), rest, Some True)"
    using 4 by (intro 4(1)) auto
  then show ?case by (metis (no_types, lifting) append_take_drop_id case_prod_conv write_all.simps(4))
qed auto

section \<open>Rotation keeps the newest output\<close>

abbreviation (input) text_of :: "string option \<Rightarrow> string" where
  "text_of c \<equiv> (case c of None \<Rightarrow> [] | Some t \<Rightarrow> t)"

text \<open>Everything the log files hold, oldest first.\<close>

definition log_text :: "string \<Rightarrow> log_files \<Rightarrow> string" where
  "log_text path fs = text_of (fs (log_name path 3)) @ text_of (fs (log_name path 2)) @
                      text_of (fs (log_name path 1)) @ text_of (fs path)"

lemma log_name_short: "length path < 4090 \<Longrightarrow> i < 10 \<Longrightarrow> log_name path i = path @ ''.'' @ [digit_char i]"
  by (simp add: log_name_def show_nat.simps [of i])

lemma log_names_distinct:
  assumes "length path < 4090"
  shows "distinct [path, log_name path 1, log_name path 2, log_name path 3]"
  using assms by (simp add: log_name_short digit_char_def)

lemma rotate_log_files:
  assumes "length path < 4090" "\<forall>a b. lg_rename L a b \<noteq> ENOENT" "rotate_log L path fs = (fs', True)"
  shows "fs' (log_name path 3) = fs (log_name path 2) \<and> fs' (log_name path 2) = fs (log_name path 1) \<and>
    fs' (log_name path 1) = fs path \<and> fs' path = Some []"
proof -
  have "distinct [path, log_name path 1, log_name path 2, log_name path 3]"
    using assms(1) by (rule log_names_distinct)
  then show ?thesis using assms(2,3)
    by (auto simp: rotate_log_def MC_LOG_MAX_FILES_def rename_log_def numeral_2_eq_2 numeral_3_eq_3
        split: option.splits if_splits)
qed

lemma rotate_log_text:
  assumes "length path < 4090" "\<forall>a b. lg_rename L a b \<noteq> ENOENT" "rotate_log L path fs = (fs', True)"
  shows "log_text path fs = text_of (fs (log_name path 3)) @ log_text path fs'"
  using rotate_log_files [OF assms] by (simp add: log_text_def)

text \<open>What is kept of the whole output: all of it, or more than three nearly full files' worth of its end.\<close>

definition retained :: "string \<Rightarrow> string \<Rightarrow> bool" where
  "retained whole kept \<longleftrightarrow> suffix kept whole \<and> (kept = whole \<or> 3 * (1048576 - 16384) < length kept)"

lemma retained_refl: "retained t t"
  by (simp add: retained_def)

lemma retained_append:
  assumes "retained whole kept" "retained (kept @ chunk) kept'"
  shows "retained (whole @ chunk) kept'"
proof -
  obtain u where u: "whole = u @ kept" using assms(1) by (auto simp: retained_def suffix_def)
  have "suffix kept' (whole @ chunk)"
    using assms(2) u by (auto simp: retained_def suffix_def)
  moreover have "kept' = whole @ chunk \<or> 3 * (1048576 - 16384) < length kept'"
    using assms by (auto simp: retained_def)
  ultimately show ?thesis by (simp add: retained_def)
qed

definition pump_inv :: "string \<Rightarrow> pump_state \<Rightarrow> bool" where
  "pump_inv path s \<longleftrightarrow>
     unat (pm_size s) = length (text_of (pm_files s path)) \<and> length (text_of (pm_files s path)) \<le> 1048576 \<and>
     (\<forall>i \<in> {1, 2, 3}. \<forall>c. pm_files s (log_name path i) = Some c \<longrightarrow> 1048576 - 16384 < length c) \<and>
     (pm_files s (log_name path 3) \<noteq> None \<longrightarrow> pm_files s (log_name path 2) \<noteq> None) \<and>
     (pm_files s (log_name path 2) \<noteq> None \<longrightarrow> pm_files s (log_name path 1) \<noteq> None)"

text \<open>Appending a chunk that fits.\<close>

lemma append_log_step:
  assumes "length path < 4090" "pump_inv path s" "length (text_of (pm_files s path)) + length chunk \<le> 1048576"
  defines "s' \<equiv> s\<lparr>pm_files := append_log path chunk (pm_files s), pm_size := pm_size s + word_of_nat (length chunk)\<rparr>"
  shows "pump_inv path s' \<and> log_text path (pm_files s') = log_text path (pm_files s) @ chunk"
proof -
  have d: "distinct [path, log_name path 1, log_name path 2, log_name path 3]"
    using assms(1) by (rule log_names_distinct)
  have "unat (pm_size s) + length chunk \<le> 1048576" using assms(2,3) by (simp add: pump_inv_def)
  then have "unat (pm_size s + word_of_nat (length chunk)) = unat (pm_size s) + length chunk"
    by (simp add: unat_word_ariths unsigned_of_nat take_bit_nat_eq_self)
  then show ?thesis using assms(2,3) d
    by (auto simp: s'_def pump_inv_def append_log_def log_text_def split: option.splits)
qed

text \<open>A full log is rotated; nothing but the third old file is lost.\<close>

lemma rotate_step:
  assumes "length path < 4090" "\<forall>a b. lg_rename L a b \<noteq> ENOENT" "pump_inv path s"
    and "rotate_log L path (pm_files s) = (fs', True)" "pm_size s > 0"
    and "1048576 - 16384 < length (text_of (pm_files s path))"
  shows "pump_inv path \<lparr>pm_files = fs', pm_size = 0\<rparr> \<and> retained (log_text path (pm_files s)) (log_text path fs')"
proof -
  note files = rotate_log_files [OF assms(1,2,4)]
  obtain cur where cur: "pm_files s path = Some cur" "1048576 - 16384 < length cur"
    using assms(6) by (cases "pm_files s path") auto
  have "pump_inv path \<lparr>pm_files = fs', pm_size = 0\<rparr>"
    using files assms(3) cur by (auto simp: pump_inv_def)
  moreover have "retained (log_text path (pm_files s)) (log_text path fs')"
  proof (cases "pm_files s (log_name path 3)")
    case None
    then show ?thesis using rotate_log_text [OF assms(1,2,4)] by (simp add: retained_def)
  next
    case (Some c)
    then obtain c2 c1 where "pm_files s (log_name path 2) = Some c2" "pm_files s (log_name path 1) = Some c1"
      using assms(3) by (auto simp: pump_inv_def)
    moreover have "1048576 - 16384 < length c2" "1048576 - 16384 < length c1"
      using assms(3) calculation by (auto simp: pump_inv_def)
    ultimately have "3 * (1048576 - 16384) < length (log_text path fs')"
      using files cur by (simp add: log_text_def)
    then show ?thesis
      using rotate_log_text [OF assms(1,2,4)] by (simp add: retained_def suffix_def)
  qed
  ultimately show ?thesis ..
qed

lemma pump_chunk_step:
  assumes "length path < 4090" "\<forall>a b. lg_rename L a b \<noteq> ENOENT" "pump_inv path s" "length chunk \<le> 16384"
    and "pump_chunk L path chunk writes s = (s', writes', Some True)"
  shows "pump_inv path s' \<and> retained (log_text path (pm_files s) @ chunk) (log_text path (pm_files s'))"
proof -
  have inv: "unat (pm_size s) = length (text_of (pm_files s path))" "unat (pm_size s) \<le> 1048576"
    using assms(3) by (auto simp: pump_inv_def)
  have sum: "unat (pm_size s + word_of_nat (length chunk)) = unat (pm_size s) + length chunk"
    using inv assms(4) by (simp add: unat_word_ariths unsigned_of_nat take_bit_nat_eq_self)
  let ?full = "pm_size s > 0 \<and> pm_size s + word_of_nat (length chunk) > MC_LOG_MAX_SIZE"
  have full: "?full \<longleftrightarrow> 0 < unat (pm_size s) \<and> 1048576 < unat (pm_size s) + length chunk"
    unfolding word_less_nat_alt sum by (simp add: MC_LOG_MAX_SIZE_def)
  show ?thesis
  proof (cases ?full)
    case True
    then obtain fs' where fs': "rotate_log L path (pm_files s) = (fs', True)"
      and s': "s' = \<lparr>pm_files = append_log path chunk fs', pm_size = word_of_nat (length chunk)\<rparr>"
      using assms(5) by (auto simp: pump_chunk_def Let_def split: prod.splits if_splits dest: write_all_complete)
    have rot: "pump_inv path \<lparr>pm_files = fs', pm_size = 0\<rparr>"
      "retained (log_text path (pm_files s)) (log_text path fs')"
      using rotate_step [OF assms(1-3) fs'] True full inv assms(4) by auto
    have "text_of (fs' path) = []" using rot(1) by (auto simp: pump_inv_def)
    then show ?thesis
      using append_log_step [OF assms(1) rot(1), of chunk] assms(4) s' retained_append [OF rot(2) retained_refl]
      by simp
  next
    case False
    then have s': "s' = s\<lparr>pm_files := append_log path chunk (pm_files s), pm_size := pm_size s + word_of_nat (length chunk)\<rparr>"
      using assms(5) by (auto simp: pump_chunk_def Let_def split: prod.splits if_splits dest: write_all_complete)
    have "length (text_of (pm_files s path)) + length chunk \<le> 1048576"
      using False full inv assms(4) by auto
    then show ?thesis using append_log_step [OF assms(1,3)] s' retained_refl by simp
  qed
qed

fun pumped :: "(errno + string) list \<Rightarrow> string" where
  "pumped [] = []"
| "pumped (Inl e # reads) = pumped reads"
| "pumped (Inr chunk # reads) = (if chunk = [] then [] else chunk @ pumped reads)"



end
