(* ===== verification/MC_Fs.thy ===== *)
theory MC_Fs
  imports MC_Error
begin

text \<open>
  \<open>src/util/fs.c\<close>: the directories the program works in, \<open>mc_mkdir_p\<close> and \<open>mc_write_atomic\<close>. The disk
  separates what processes see from what survives a crash: an inode has a current content and, once
  synced, a durable one; a directory has its current entries and all the versions, from the last sync
  on, that a crash may leave behind. \<open>mc_write_atomic\<close> yields the sequence of disks it goes through, so
  that a crash at any point is covered.
\<close>

section \<open>Directories\<close>

definition directory_of :: "(string \<Rightarrow> string option) \<Rightarrow> string \<Rightarrow> string \<Rightarrow> string" where
  "directory_of getenv variable fallback =
     (case getenv variable of Some (c # cs) \<Rightarrow> c # cs | _ \<Rightarrow> fallback)"

definition mc_state_dir :: "(string \<Rightarrow> string option) \<Rightarrow> string" where
  "mc_state_dir getenv = directory_of getenv ''MC_STATE_DIR'' ''/var/lib/minicontainer''"

definition mc_log_dir :: "(string \<Rightarrow> string option) \<Rightarrow> string" where
  "mc_log_dir getenv = directory_of getenv ''MC_LOG_DIR'' ''/var/log/minicontainer''"

definition mc_runtime_dir :: "(string \<Rightarrow> string option) \<Rightarrow> string" where
  "mc_runtime_dir getenv = directory_of getenv ''MC_RUNTIME_DIR'' ''/run/minicontainer''"

text \<open>The loop over the characters behind the first; \<open>copy\<close> is the text before the cursor.\<close>

fun mkdir_loop :: "(string \<Rightarrow> errno) \<Rightarrow> string \<Rightarrow> string \<Rightarrow> mc_error option" where
  "mkdir_loop mkdir copy [] =
     (if mkdir copy \<noteq> 0 \<and> mkdir copy \<noteq> EEXIST
      then Some (mk_error MC_EXIT_RUNTIME (mkdir copy) ''mkdir'' (Some copy) ''cannot create directory'')
      else None)"
| "mkdir_loop mkdir copy (c # cursor) =
     (if c = CHR ''/'' \<and> mkdir copy \<noteq> 0 \<and> mkdir copy \<noteq> EEXIST
      then Some (mk_error MC_EXIT_RUNTIME (mkdir copy) ''mkdir'' (Some copy) ''cannot create directory'')
      else mkdir_loop mkdir (copy @ [c]) cursor)"

definition mc_mkdir_p :: "(string \<Rightarrow> errno) \<Rightarrow> string \<Rightarrow> mc_error option" where
  "mc_mkdir_p mkdir path =
     (if length path \<ge> PATH_MAX
      then Some (mk_error MC_EXIT_USAGE ENAMETOOLONG ''mkdir'' (Some path) ''path is too long'')
      else mkdir_loop mkdir (take 1 path) (drop 1 path))"

section \<open>The disk\<close>

record disk =
  dk_content :: "nat \<Rightarrow> string"
  dk_stable :: "nat \<Rightarrow> string option"
  dk_next :: nat
  dk_dir :: "string \<Rightarrow> nat option"
  dk_survivors :: "(string \<Rightarrow> nat option) list"

definition set_dir :: "(string \<Rightarrow> nat option) \<Rightarrow> disk \<Rightarrow> disk" where
  "set_dir d D = D\<lparr>dk_dir := d, dk_survivors := d # dk_survivors D\<rparr>"

definition disk_create :: "string \<Rightarrow> disk \<Rightarrow> disk" where
  "disk_create path D = set_dir ((dk_dir D)(path := Some (dk_next D)))
     (D\<lparr>dk_content := (dk_content D)(dk_next D := []), dk_stable := (dk_stable D)(dk_next D := None),
        dk_next := Suc (dk_next D)\<rparr>)"

definition disk_write :: "nat \<Rightarrow> string \<Rightarrow> disk \<Rightarrow> disk" where
  "disk_write i txt D =
     D\<lparr>dk_content := (dk_content D)(i := dk_content D i @ txt), dk_stable := (dk_stable D)(i := None)\<rparr>"

definition disk_fsync :: "nat \<Rightarrow> disk \<Rightarrow> disk" where
  "disk_fsync i D = D\<lparr>dk_stable := (dk_stable D)(i := Some (dk_content D i))\<rparr>"

definition disk_rename :: "string \<Rightarrow> string \<Rightarrow> disk \<Rightarrow> disk" where
  "disk_rename a b D = set_dir (if a = b then dk_dir D else (dk_dir D)(b := dk_dir D a, a := None)) D"

definition disk_unlink :: "string \<Rightarrow> disk \<Rightarrow> disk" where
  "disk_unlink a D = set_dir ((dk_dir D)(a := None)) D"

definition disk_sync_dir :: "disk \<Rightarrow> disk" where
  "disk_sync_dir D = D\<lparr>dk_survivors := [dk_dir D]\<rparr>"

text \<open>What a reader sees, and the possible contents after a crash: \<open>None\<close> for a file that is not
  durable, whose content after a crash is unknown.\<close>

definition disk_read :: "disk \<Rightarrow> string \<Rightarrow> string option" where
  "disk_read D path = map_option (dk_content D) (dk_dir D path)"

definition after_crash :: "disk \<Rightarrow> string \<Rightarrow> string option option list" where
  "after_crash D path =
     map (\<lambda>d. case d path of None \<Rightarrow> Some None | Some i \<Rightarrow> map_option Some (dk_stable D i)) (dk_survivors D)"

section \<open>Atomic replacement\<close>

record write_env =
  we_pid :: nat
  we_open :: errno
  we_write :: "(errno + nat) list"
  we_fsync :: errno
  we_close :: errno
  we_rename :: errno
  we_dir_open :: errno
  we_dir_fsync :: errno
  we_dir_close :: errno

fun write_loop ::
  "(errno + nat) list \<Rightarrow> nat \<Rightarrow> string \<Rightarrow> disk \<Rightarrow> disk list \<times> disk \<times> (errno + unit) option" where
  "write_loop rs i [] D = ([], D, Some (Inr ()))"
| "write_loop [] i (b # bs) D = ([], D, None)"
| "write_loop (Inl e # rs) i (b # bs) D = ([], D, Some (Inl e))"
| "write_loop (Inr n # rs) i (b # bs) D =
     (let D' = disk_write i (take n (b # bs)) D;
          (trace, D'', r) = write_loop rs i (drop n (b # bs)) D' in
      (D' # trace, D'', r))"

definition temporary_path :: "string \<Rightarrow> nat \<Rightarrow> string" where
  "temporary_path path pid = snprintf_buf PATH_MAX (path @ ''.tmp.'' @ show_nat pid)"

definition parent_directory :: "string \<Rightarrow> string" where
  "parent_directory path =
     (let directory = snprintf_buf PATH_MAX path in
      case strrchr directory CHR ''/'' of
        None \<Rightarrow> ''.''
      | Some slash \<Rightarrow> if slash = directory then take 1 directory
                      else take (length directory - length slash) directory)"

definition atomic_error :: "mc_exit_code \<Rightarrow> errno \<Rightarrow> string \<Rightarrow> string \<Rightarrow> (mc_error + unit) option" where
  "atomic_error code e path msg = Some (Inl (mk_error code e ''atomic-write'' (Some path) msg))"

text \<open>The steps behind the rename.\<close>

definition sync_parent :: "write_env \<Rightarrow> string \<Rightarrow> disk \<Rightarrow> disk list \<times> (mc_error + unit) option" where
  "sync_parent W path D =
     (if length path \<ge> PATH_MAX
      then ([], atomic_error MC_EXIT_INTERNAL ENAMETOOLONG path ''parent directory path is too long'')
      else if we_dir_open W \<noteq> 0
      then ([], atomic_error MC_EXIT_RUNTIME (we_dir_open W) (parent_directory path) ''cannot sync parent directory'')
      else if we_dir_fsync W \<noteq> 0
      then ([], atomic_error MC_EXIT_RUNTIME (we_dir_fsync W) (parent_directory path) ''cannot sync parent directory'')
      else if we_dir_close W \<noteq> 0
      then ([disk_sync_dir D],
            atomic_error MC_EXIT_RUNTIME (we_dir_close W) (parent_directory path) ''cannot sync parent directory'')
      else ([disk_sync_dir D], Some (Inr ())))"

text \<open>The disks visited after the initial one, and the outcome. The length check behind the \<open>snprintf\<close>
  of the temporary name can never fire, since the buffer always holds a terminated string; like the
  code, the model goes on with the truncated name.\<close>

definition mc_write_atomic ::
  "write_env \<Rightarrow> string \<Rightarrow> string \<Rightarrow> disk \<Rightarrow> disk list \<times> (mc_error + unit) option" where
  "mc_write_atomic W path data D =
     (let temporary = temporary_path path (we_pid W) in
      if length temporary \<ge> PATH_MAX
      then ([], atomic_error MC_EXIT_INTERNAL ENAMETOOLONG path ''temporary path is too long'')
      else if dk_dir D temporary \<noteq> None
      then ([], atomic_error MC_EXIT_RUNTIME EEXIST path ''cannot create temporary file'')
      else if we_open W \<noteq> 0
      then ([], atomic_error MC_EXIT_RUNTIME (we_open W) path ''cannot create temporary file'')
      else
        let D1 = disk_create temporary D; descriptor = dk_next D;
            (trace, D2, r) = write_loop (we_write W) descriptor data D1 in
        case r of
          None \<Rightarrow> (D1 # trace, None)
        | Some (Inl e) \<Rightarrow>
            (D1 # trace @ [disk_unlink temporary D2], atomic_error MC_EXIT_RUNTIME e path ''write failed'')
        | Some (Inr _) \<Rightarrow>
            if we_fsync W \<noteq> 0
            then (D1 # trace @ [disk_unlink temporary D2],
                  atomic_error MC_EXIT_RUNTIME (we_fsync W) path ''file sync failed'')
            else let D3 = disk_fsync descriptor D2 in
              if we_close W \<noteq> 0 \<or> we_rename W \<noteq> 0
              then (D1 # trace @ [D3, disk_unlink temporary D3],
                    atomic_error MC_EXIT_RUNTIME (if we_close W \<noteq> 0 then we_close W else we_rename W) path
                      ''atomic rename failed'')
              else let D4 = disk_rename temporary path D3; (rest, result) = sync_parent W path D4 in
                (D1 # trace @ [D3, D4] @ rest, result))"

section \<open>Lemmas\<close>

lemmas disk_defs = set_dir_def disk_create_def disk_write_def disk_fsync_def disk_rename_def
  disk_unlink_def disk_sync_dir_def

definition disk_wf :: "disk \<Rightarrow> bool" where
  "disk_wf D \<longleftrightarrow> dk_dir D \<in> set (dk_survivors D) \<and>
     (\<forall>d \<in> set (dk_survivors D). \<forall>p i. d p = Some i \<longrightarrow> i < dk_next D)"

text \<open>A disk reached while the temporary file is being prepared: only the new inode and the
  temporary name differ from the initial disk.\<close>

definition preparing :: "disk \<Rightarrow> string \<Rightarrow> string \<Rightarrow> disk \<Rightarrow> bool" where
  "preparing D path temporary D' \<longleftrightarrow>
     dk_dir D' path = dk_dir D path \<and> dk_dir D' temporary = Some (dk_next D) \<and>
     (\<forall>p. p \<noteq> temporary \<longrightarrow> dk_dir D' p = dk_dir D p) \<and> disk_wf D' \<and> dk_next D' = Suc (dk_next D) \<and>
     (\<forall>d \<in> set (dk_survivors D'). \<exists>d0 \<in> set (dk_survivors D). d path = d0 path) \<and>
     (\<forall>j. j \<noteq> dk_next D \<longrightarrow> dk_stable D' j = dk_stable D j \<and> dk_content D' j = dk_content D j)"

lemma temporary_differs:
  assumes "length path < 4095"
  shows "temporary_path path pid \<noteq> path"
proof -
  have "length (temporary_path path pid) > length path"
    using assms by (simp add: temporary_path_def snprintf_buf_def)
  then show ?thesis by auto
qed

lemma disk_wf_ops:
  assumes "disk_wf D"
  shows "disk_wf (disk_create p D)" "disk_wf (disk_write i txt D)" "disk_wf (disk_fsync i D)"
    "disk_wf (disk_unlink p D)" "disk_wf (disk_rename p q D)" "disk_wf (disk_sync_dir D)"
  using assms unfolding disk_wf_def disk_defs
  by (auto simp: less_Suc_eq split: if_splits)

lemma preparing_create:
  assumes "disk_wf D" "temporary \<noteq> path"
  shows "preparing D path temporary (disk_create temporary D)"
  using assms disk_wf_ops(1) [OF assms(1), of temporary] by (auto simp: preparing_def disk_defs disk_wf_def)

lemma preparing_write: "preparing D path t D' \<Longrightarrow> preparing D path t (disk_write (dk_next D) txt D')"
  using disk_wf_ops(2) by (simp add: preparing_def) (simp add: disk_defs)

lemma preparing_fsync: "preparing D path t D' \<Longrightarrow> preparing D path t (disk_fsync (dk_next D) D')"
  using disk_wf_ops(3) by (simp add: preparing_def) (simp add: disk_defs)

definition crash_entry :: "disk \<Rightarrow> nat option \<Rightarrow> string option option" where
  "crash_entry D e = (case e of None \<Rightarrow> Some None | Some i \<Rightarrow> map_option Some (dk_stable D i))"

lemma after_crash_entries: "after_crash D path = map (\<lambda>d. crash_entry D (d path)) (dk_survivors D)"
  by (simp add: after_crash_def crash_entry_def)

lemma crash_entry_cong: "dk_stable D' = dk_stable D \<Longrightarrow> crash_entry D' = crash_entry D"
  by (simp add: crash_entry_def fun_eq_iff split: option.split)

lemma after_crash_set_dir: "after_crash (set_dir d D) path = crash_entry D (d path) # after_crash D path"
  using crash_entry_cong [of "set_dir d D" D] by (simp add: after_crash_entries set_dir_def)

lemma after_crash_sync: "after_crash (disk_sync_dir D) path = [crash_entry D (dk_dir D path)]"
  using crash_entry_cong [of "disk_sync_dir D" D] by (simp add: after_crash_entries disk_sync_dir_def)

lemma crash_entry_current: "disk_wf D \<Longrightarrow> crash_entry D (dk_dir D path) \<in> set (after_crash D path)"
  by (auto simp: after_crash_entries disk_wf_def)

lemma preparing_crash:
  assumes "disk_wf D" "preparing D path t D'"
  shows "set (after_crash D' path) \<subseteq> set (after_crash D path)"
proof
  fix c assume "c \<in> set (after_crash D' path)"
  then obtain d where d: "d \<in> set (dk_survivors D')" "c = crash_entry D' (d path)"
    by (auto simp: after_crash_entries)
  obtain d0 where d0: "d0 \<in> set (dk_survivors D)" "d path = d0 path"
    using assms(2) d(1) by (auto simp: preparing_def)
  have "dk_stable D' i = dk_stable D i" if "d0 path = Some i" for i
  proof -
    have "i < dk_next D" using assms(1) d0(1) that by (auto simp: disk_wf_def)
    then show ?thesis using assms(2) by (auto simp: preparing_def)
  qed
  then have "c = crash_entry D (d0 path)"
    using d(2) d0(2) by (simp add: crash_entry_def split: option.split)
  then show "c \<in> set (after_crash D path)" using d0(1) by (simp add: after_crash_entries)
qed

lemma write_loop_preparing:
  assumes "write_loop rs (dk_next D) data D1 = (trace, D2, r)" "preparing D path t D1"
  shows "(\<forall>D' \<in> set trace. preparing D path t D') \<and> preparing D path t D2 \<and>
    (r = Some (Inr ()) \<longrightarrow> dk_content D2 (dk_next D) = dk_content D1 (dk_next D) @ data)"
  using assms
proof (induction rs "dk_next D" data D1 arbitrary: trace D2 r rule: write_loop.induct)
  case (4 n rs b bs D1)
  let ?D' = "disk_write (dk_next D) (take n (b # bs)) D1"
  obtain tr D3 r' where rest: "write_loop rs (dk_next D) (drop n (b # bs)) ?D' = (tr, D3, r')"
    by (metis prod_cases3)
  have eqs: "trace = ?D' # tr" "D2 = D3" "r = r'" using "4.prems"(1) rest by (auto simp: Let_def)
  have "preparing D path t ?D'" using "4.prems"(2) by (rule preparing_write)
  from "4.hyps" [OF refl rest this] this eqs show ?case
    by (auto simp: disk_write_def)
qed auto

lemma preparing_inode:
  assumes "disk_wf D" "preparing D path t D'" "dk_dir D path = Some i"
  shows "dk_content D' i = dk_content D i" "dk_stable D' i = dk_stable D i"
proof -
  have "i < dk_next D" using assms(1,3) by (auto simp: disk_wf_def)
  then show "dk_content D' i = dk_content D i" "dk_stable D' i = dk_stable D i"
    using assms(2) by (auto simp: preparing_def)
qed

text \<open>The disk right after the rename and after the directory sync.\<close>

lemma renamed_disk:
  assumes "t \<noteq> path" "preparing D path t D3"
  defines "D4 \<equiv> disk_rename t path D3"
  shows "dk_dir D4 path = Some (dk_next D)" "dk_dir D4 t = None"
    "dk_stable D4 = dk_stable D3" "dk_content D4 = dk_content D3"
    "after_crash D4 path = crash_entry D3 (Some (dk_next D)) # after_crash D3 path"
  using assms(1,2) by (simp_all add: D4_def disk_rename_def preparing_def after_crash_set_dir)
    (simp_all add: set_dir_def)

lemma unlinked:
  assumes "disk_wf D" "t \<noteq> path" "preparing D path t D'"
  shows "set (after_crash (disk_unlink t D') path) \<subseteq> set (after_crash D path)"
    and "disk_read (disk_unlink t D') path = disk_read D path"
    and "dk_dir (disk_unlink t D') t = None"
proof -
  have dir: "dk_dir D' path = dk_dir D path" using assms(3) by (simp add: preparing_def)
  have "crash_entry D' (dk_dir D path) = crash_entry D (dk_dir D path)"
    using preparing_inode(2) [OF assms(1,3)] by (simp add: crash_entry_def split: option.split)
  then show "set (after_crash (disk_unlink t D') path) \<subseteq> set (after_crash D path)"
    using preparing_crash [OF assms(1,3)] crash_entry_current [OF assms(1)] assms(2) dir
    by (simp add: disk_unlink_def after_crash_set_dir)
  show "disk_read (disk_unlink t D') path = disk_read D path"
    using preparing_inode(1) [OF assms(1,3)] assms(2) dir
    by (cases "dk_dir D path") (simp_all add: disk_read_def disk_unlink_def set_dir_def)
  show "dk_dir (disk_unlink t D') t = None" by (simp add: disk_defs)
qed

text \<open>The four ways a call can go.\<close>

lemma write_atomic_cases:
  assumes "disk_wf D" "length path < 4095" "mc_write_atomic W path data D = (trace, r)"
  defines "t \<equiv> temporary_path path (we_pid W)"
  obtains (refused) e where "trace = []" "r = Some (Inl e)"
  | (looping) "\<forall>D' \<in> set trace. preparing D path t D'" "r = None"
  | (abandoned) tr D2 e where "trace = tr @ [disk_unlink t D2]" "\<forall>D' \<in> set tr. preparing D path t D'"
      "preparing D path t D2" "r = Some (Inl e)"
  | (renamed) tr D3 rest where "trace = tr @ [disk_rename t path D3] @ rest"
      "\<forall>D' \<in> set tr. preparing D path t D'" "preparing D path t D3"
      "dk_stable D3 (dk_next D) = Some data" "dk_content D3 (dk_next D) = data"
      "sync_parent W path (disk_rename t path D3) = (rest, r)"
proof -
  let ?D1 = "disk_create t D"
  obtain tr D2 w where loop: "write_loop (we_write W) (dk_next D) data ?D1 = (tr, D2, w)" by (metis prod_cases3)
  have ne: "t \<noteq> path" unfolding t_def using assms(2) by (rule temporary_differs)
  have p1: "preparing D path t ?D1" using assms(1) ne by (rule preparing_create)
  note p2 = write_loop_preparing [OF loop p1]
  let ?D3 = "disk_fsync (dk_next D) D2"
  have p3: "preparing D path t ?D3" using p2 by (blast intro: preparing_fsync)
  consider "trace = []" "\<exists>e. r = Some (Inl e)" | "trace = ?D1 # tr" "r = None"
    | "trace = ?D1 # tr @ [disk_unlink t D2]" "\<exists>e. r = Some (Inl e)"
    | "trace = ?D1 # tr @ [?D3, disk_unlink t ?D3]" "\<exists>e. r = Some (Inl e)"
    | rest where "trace = ?D1 # tr @ [?D3, disk_rename t path ?D3] @ rest" "w = Some (Inr ())"
        "sync_parent W path (disk_rename t path ?D3) = (rest, r)"
    using assms(3) loop
    by (auto simp: mc_write_atomic_def t_def Let_def atomic_error_def split: if_splits option.splits sum.splits prod.splits)
  then show thesis
  proof cases
    case 1
    then show thesis using refused by blast
  next
    case 2
    then show thesis using looping p1 p2 by auto
  next
    case 3
    then show thesis using abandoned [of "?D1 # tr" D2] p1 p2 by auto
  next
    case 4
    then show thesis using abandoned [of "?D1 # tr @ [?D3]" ?D3] p1 p2 p3 by auto
  next
    case (5 rest)
    have "dk_content ?D3 (dk_next D) = data" "dk_stable ?D3 (dk_next D) = Some data"
      using p2 5(2) by (simp_all add: disk_fsync_def disk_create_def set_dir_def)
    then show thesis using renamed [of "?D1 # tr @ [?D3]" ?D3 rest] 5 p1 p2 p3 by auto
  qed
qed

lemma sync_parent_disks:
  assumes "sync_parent W path D = (rest, r)"
  shows "rest \<in> {[], [disk_sync_dir D]}" "r = Some (Inr ()) \<Longrightarrow> rest = [disk_sync_dir D]"
    "r = Some (Inr ()) \<or> (\<exists>e. r = Some (Inl e))"
  using assms by (auto simp: sync_parent_def atomic_error_def split: if_splits)

text \<open>Other files are left alone, and the disk stays well-formed.\<close>

lemma write_atomic_others:
  assumes "disk_wf D" "length path < 4095" "mc_write_atomic W path data D = (trace, r)"
  defines "D' \<equiv> last (D # trace)"
  shows "disk_wf D'"
    and "p \<noteq> path \<Longrightarrow> p \<noteq> temporary_path path (we_pid W) \<Longrightarrow> disk_read D' p = disk_read D p"
proof -
  define t where "t = temporary_path path (we_pid W)"
  have ne: "t \<noteq> path" unfolding t_def using assms(2) by (rule temporary_differs)
  have same: "disk_read X p = disk_read D p"
    if "dk_dir X p = dk_dir D p" "\<And>j. j \<noteq> dk_next D \<Longrightarrow> dk_content X j = dk_content D j" for X p
  proof (cases "dk_dir D p")
    case (Some i)
    then have "i < dk_next D" using assms(1) by (auto simp: disk_wf_def)
    then show ?thesis using that Some by (simp add: disk_read_def)
  qed (use that in \<open>simp add: disk_read_def\<close>)
  have "disk_wf D' \<and> (p \<noteq> path \<longrightarrow> p \<noteq> t \<longrightarrow> disk_read D' p = disk_read D p)"
    using assms(1-3)
  proof (cases rule: write_atomic_cases)
    case looping
    then have "D' = D \<or> preparing D path t D'" by (cases trace rule: rev_cases) (auto simp: D'_def t_def)
    moreover have "disk_wf X \<and> (p \<noteq> t \<longrightarrow> disk_read X p = disk_read D p)" if "preparing D path t X" for X
      using that same [of X p] unfolding preparing_def by blast
    ultimately show ?thesis using assms(1) by blast
  next
    case (abandoned tr D2 e)
    then have D2: "D' = disk_unlink t D2" "preparing D path t D2" by (simp_all add: D'_def t_def)
    then have "disk_wf D'" using disk_wf_ops(4) by (simp add: preparing_def)
    moreover have "disk_read D' p = disk_read D p" if "p \<noteq> t"
      using that D2 by (intro same) (simp_all add: preparing_def disk_defs)
    ultimately show ?thesis by blast
  next
    case (renamed tr D3 rest)
    then have D3: "preparing D path t D3" by (simp add: t_def)
    have "D' \<in> {disk_rename t path D3, disk_sync_dir (disk_rename t path D3)}"
      using renamed(1) sync_parent_disks(1) [OF renamed(6)] by (auto simp: D'_def t_def)
    moreover have "disk_wf D3" using D3 by (simp add: preparing_def)
    ultimately have "disk_wf D'" using disk_wf_ops(5,6) by auto
    moreover have "disk_read D' p = disk_read D p" if "p \<noteq> path" "p \<noteq> t"
      using that D3 \<open>D' \<in> _\<close> by (intro same) (auto simp: preparing_def disk_defs)
    ultimately show ?thesis by blast
  qed (use assms(1) in \<open>simp_all add: D'_def\<close>)
  then show "disk_wf D'" "p \<noteq> path \<Longrightarrow> p \<noteq> temporary_path path (we_pid W) \<Longrightarrow> disk_read D' p = disk_read D p"
    by (simp_all add: t_def)
qed

lemma write_atomic_success:
  assumes "disk_wf D" "length path < 4095" "mc_write_atomic W path data D = (trace, Some (Inr ()))"
  defines "D' \<equiv> last (D # trace)"
  shows "disk_read D' path = Some data \<and> after_crash D' path = [Some (Some data)] \<and>
    dk_dir D' (temporary_path path (we_pid W)) = None"
proof -
  define t where "t = temporary_path path (we_pid W)"
  have ne: "t \<noteq> path" unfolding t_def using assms(2) by (rule temporary_differs)
  show ?thesis
    using assms(1-3)
  proof (cases rule: write_atomic_cases)
    case (renamed tr D3 rest)
    let ?D4 = "disk_rename t path D3"
    have p3: "preparing D path t D3" using renamed by (simp add: t_def)
    have D': "D' = disk_sync_dir ?D4"
      using sync_parent_disks(2) [OF renamed(6)] renamed(1) by (auto simp: t_def D'_def)
    have "disk_read D' path = Some data" "dk_dir D' t = None"
      using renamed_disk [OF ne p3] renamed(5) by (simp_all add: D' disk_read_def disk_sync_dir_def)
    moreover have "after_crash D' path = [Some (Some data)]"
      using renamed_disk(1,3) [OF ne p3] renamed(4) by (simp add: D' after_crash_sync crash_entry_def)
    ultimately show ?thesis by (simp add: t_def)
  qed simp_all
qed

text \<open>Whatever the outcome, a reader sees the old file or the complete new one.\<close>

lemma write_atomic_reads:
  assumes "disk_wf D" "length path < 4095" "mc_write_atomic W path data D = (trace, r)"
  shows "disk_read (last (D # trace)) path \<in> {disk_read D path, Some data}"
proof -
  define t where "t = temporary_path path (we_pid W)"
  have ne: "t \<noteq> path" unfolding t_def using assms(2) by (rule temporary_differs)
  have same: "disk_read X path = disk_read D path" if "preparing D path t X" for X
  proof (cases "dk_dir D path")
    case (Some i)
    then have "i < dk_next D" using assms(1) by (auto simp: disk_wf_def)
    then show ?thesis using that Some by (simp add: preparing_def disk_read_def)
  qed (use that in \<open>simp add: preparing_def disk_read_def\<close>)
  show ?thesis
    using assms
  proof (cases rule: write_atomic_cases)
    case looping
    then show ?thesis using same by (cases trace rule: rev_cases) (auto simp: t_def)
  next
    case (abandoned tr D2 e)
    then show ?thesis using unlinked [OF assms(1) ne] by (simp add: t_def)
  next
    case (renamed tr D3 rest)
    let ?D4 = "disk_rename t path D3"
    have "last (D # trace) \<in> {?D4, disk_sync_dir ?D4}"
      using sync_parent_disks(1) [OF renamed(6)] renamed(1) by (auto simp: t_def)
    then show ?thesis
      using renamed_disk [OF ne, of D D3] renamed(3,5) by (auto simp: t_def disk_read_def disk_sync_dir_def)
  qed simp
qed

section \<open>Properties\<close>

text \<open>
  C1: Crash safety of atomic writes. Let the file be durable with content \<open>old\<close> (or durably absent).
  Whatever errors, short writes and failed syncs occur, and wherever a crash stops the write, the file
  found afterwards is either the old one or the complete new data: never a truncated or a partly
  written one.
\<close>

theorem write_atomic_crash_safe:
  assumes "disk_wf D" "length path < 4095" "mc_write_atomic W path data D = (trace, r)"
    and "set (after_crash D path) \<subseteq> {Some old}"
  shows "\<forall>D' \<in> set trace. set (after_crash D' path) \<subseteq> {Some old, Some (Some data)}"
proof -
  define t where "t = temporary_path path (we_pid W)"
  have ne: "t \<noteq> path" unfolding t_def using assms(2) by (rule temporary_differs)
  have prep: "set (after_crash D' path) \<subseteq> {Some old}" if "preparing D path t D'" for D'
    using preparing_crash [OF assms(1) that] assms(4) by blast
  show ?thesis
    using assms(1-3)
  proof (cases rule: write_atomic_cases)
    case (abandoned tr D2 e)
    then show ?thesis using prep unlinked(1) [OF assms(1) ne] assms(4) by (fastforce simp: t_def)
  next
    case (renamed tr D3 rest)
    let ?D4 = "disk_rename t path D3"
    have entry: "crash_entry D3 (Some (dk_next D)) = Some (Some data)" using renamed by (simp add: crash_entry_def)
    have p3: "preparing D path t D3" using renamed by (simp add: t_def)
    have D4: "set (after_crash ?D4 path) \<subseteq> {Some old, Some (Some data)}"
      using renamed_disk(5) [OF ne p3] entry prep [OF p3] by auto
    have "crash_entry ?D4 (dk_dir ?D4 path) = Some (Some data)"
      using renamed_disk(1,3) [OF ne p3] renamed(4) by (simp add: crash_entry_def)
    then have D5: "set (after_crash (disk_sync_dir ?D4) path) \<subseteq> {Some old, Some (Some data)}"
      by (simp add: after_crash_sync)
    have "set trace \<subseteq> set tr \<union> {?D4, disk_sync_dir ?D4}"
      using renamed(1) sync_parent_disks(1) [OF renamed(6)] by (auto simp: t_def)
    then show ?thesis using D4 D5 prep renamed(2) by (fastforce simp: t_def)
  qed (use prep in \<open>auto simp: t_def\<close>)
qed

definition example_disk :: disk where
  "example_disk =
     \<lparr>dk_content = (\<lambda>_. ''old''), dk_stable = (\<lambda>_. Some ''old''), dk_next = 1,
      dk_dir = [''/s/config.json'' \<mapsto> 0], dk_survivors = [[''/s/config.json'' \<mapsto> 0]]\<rparr>"

definition example_write_env :: write_env where
  "example_write_env =
     \<lparr>we_pid = 42, we_open = 0, we_write = [Inr 1, Inr 2], we_fsync = 0, we_close = 0, we_rename = 0,
      we_dir_open = 0, we_dir_fsync = 0, we_dir_close = 0\<rparr>"

lemma example_disk_ok: "disk_wf example_disk" "set (after_crash example_disk ''/s/config.json'') \<subseteq> {Some (Some ''old'')}"
  by (auto simp: disk_wf_def example_disk_def after_crash_def split: if_splits)

theorem write_atomic_crash_safe_witness:
  "list_all (\<lambda>D'. set (after_crash D' ''/s/config.json'') \<subseteq> {Some (Some ''old''), Some (Some ''new'')})
     (fst (mc_write_atomic example_write_env ''/s/config.json'' ''new'' example_disk))"
  unfolding list_all_iff
  by (rule write_atomic_crash_safe [OF example_disk_ok(1) _ prod.collapse [symmetric] example_disk_ok(2)]) simp

text \<open>
  The outcome of an atomic write. On success the file reads as the new data, the new data is
  durable, and the temporary name is gone. On failure a reader sees the old file, or the complete new
  one when only the sync of the directory failed, and a temporary file that this call created is gone.
\<close>

theorem write_atomic_outcome:
  assumes "disk_wf D" "length path < 4095" "mc_write_atomic W path data D = (trace, Some r)"
  defines "D' \<equiv> last (D # trace)" and "t \<equiv> temporary_path path (we_pid W)"
  shows "(if r = Inr () then disk_read D' path = Some data \<and> after_crash D' path = [Some (Some data)] \<and> dk_dir D' t = None
     else disk_read D' path \<in> {disk_read D path, Some data} \<and> (trace = [] \<or> dk_dir D' t = None))"
proof -
  have ne: "t \<noteq> path" unfolding t_def using assms(2) by (rule temporary_differs)
  show ?thesis
    using assms(1-3)
  proof (cases rule: write_atomic_cases)
    case (abandoned tr D2 e)
    then show ?thesis using unlinked [OF assms(1) ne] by (simp add: t_def D'_def)
  next
    case (renamed tr D3 rest)
    let ?D4 = "disk_rename t path D3"
    have p3: "preparing D path t D3" using renamed by (simp add: t_def)
    have "D' \<in> {?D4, disk_sync_dir ?D4}"
      using sync_parent_disks(1) [OF renamed(6)] renamed(1) by (auto simp: t_def D'_def)
    then have "disk_read D' path = Some data" "dk_dir D' t = None"
      using renamed_disk [OF ne p3] renamed(5) by (auto simp: disk_read_def disk_sync_dir_def)
    moreover have "r = Inr () \<Longrightarrow> after_crash D' path = [Some (Some data)]"
      using write_atomic_success [OF assms(1,2), of W data trace] assms(3) by (simp only: D'_def)
    ultimately show ?thesis by simp
  qed (simp_all add: D'_def)
qed

theorem write_atomic_outcome_witness:
  "\<exists>trace. mc_write_atomic example_write_env ''/s/config.json'' ''new'' example_disk = (trace, Some (Inr ())) \<and>
     disk_read (last (example_disk # trace)) ''/s/config.json'' = Some ''new''"
proof -
  have "snd (mc_write_atomic example_write_env ''/s/config.json'' ''new'' example_disk) = Some (Inr ())"
    by (simp add: mc_write_atomic_def example_write_env_def example_disk_def temporary_path_def sync_parent_def
        snprintf_buf_def show_nat.simps [of 42] show_nat.simps [of 4] Let_def)
  then obtain trace where run: "mc_write_atomic example_write_env ''/s/config.json'' ''new'' example_disk = (trace, Some (Inr ()))"
    by (metis prod.collapse)
  show ?thesis
    using run write_atomic_outcome [OF example_disk_ok(1) _ run] by auto
qed

text \<open>
  The check that the temporary name fits is dead code: a terminated 4096-byte buffer never holds
  4096 characters. For a path of 4095 characters the truncated temporary name is the path itself, so
  that the file is written in place.
\<close>

theorem temporary_name_unchecked:
  "length (temporary_path path pid) < 4096 \<and> temporary_path (replicate 4095 CHR ''a'') pid = replicate 4095 CHR ''a''"
  by (simp add: temporary_path_def snprintf_buf_def)

text \<open>Creating a directory with its parents: the names tried, in order.\<close>

definition mkdir_names :: "string \<Rightarrow> string list" where
  "mkdir_names path = map (\<lambda>i. take i path) (filter (\<lambda>i. path ! i = CHR ''/'') [1..<length path]) @ [path]"

lemma mkdir_loop_None:
  "mkdir_loop mk (take k path) (drop k path) = None \<longleftrightarrow>
     list_all (\<lambda>p. mk p \<in> {0, EEXIST})
       (map (\<lambda>i. take i path) (filter (\<lambda>i. path ! i = CHR ''/'') [k..<length path]) @ [path])"
proof (induction "length path - k" arbitrary: k)
  case 0
  then show ?case by simp
next
  case (Suc n)
  then have k: "k < length path" by simp
  have "drop k path = path ! k # drop (Suc k) path" "take (Suc k) path = take k path @ [path ! k]"
    using k by (simp_all add: Cons_nth_drop_Suc take_Suc_conv_app_nth)
  moreover have "mkdir_loop mk (take (Suc k) path) (drop (Suc k) path) = None \<longleftrightarrow>
     list_all (\<lambda>p. mk p \<in> {0, EEXIST})
       (map (\<lambda>i. take i path) (filter (\<lambda>i. path ! i = CHR ''/'') [Suc k..<length path]) @ [path])"
    using Suc by (intro Suc.hyps(1)) simp
  ultimately show ?case using k by (auto simp: upt_conv_Cons)
qed

lemma mkdir_p_None:
  "mc_mkdir_p mk path = None \<longleftrightarrow>
     length path < 4096 \<and> list_all (\<lambda>p. mk p = 0 \<or> mk p = EEXIST) (mkdir_names path)"
  using mkdir_loop_None [of mk 1 path] by (auto simp: mc_mkdir_p_def mkdir_names_def)

text \<open>A directory name with a trailing slash: the name without it has been created before.\<close>

lemma mkdir_p_slash:
  assumes "mc_mkdir_p mk (d @ ''/'') = None" "d \<noteq> []"
  shows "mc_mkdir_p mk d = None"
proof -
  have "[1..<length (d @ ''/'')] = [1..<length d] @ [length d]" using assms(2) by (cases d) simp_all
  moreover have "filter (\<lambda>i. (d @ ''/'') ! i = CHR ''/'') [1..<length d] = filter (\<lambda>i. d ! i = CHR ''/'') [1..<length d]"
    by (rule filter_cong) (auto simp: nth_append)
  moreover have "map (\<lambda>i. take i (d @ ''/'')) (filter (\<lambda>i. d ! i = CHR ''/'') [1..<length d]) =
      map (\<lambda>i. take i d) (filter (\<lambda>i. d ! i = CHR ''/'') [1..<length d])"
    by (rule map_cong) auto
  ultimately have "mkdir_names (d @ ''/'') = mkdir_names d @ [d @ ''/'']" by (simp add: mkdir_names_def)
  then show ?thesis using assms(1) by (simp add: mkdir_p_None)
qed

text \<open>
  Creating a directory path succeeds exactly when the path is shorter than \<open>PATH_MAX\<close> and each of
  its parents and the path itself could be created or existed already.
\<close>

theorem mkdir_p_succeeds_iff:
  "mc_mkdir_p mk path = None \<longleftrightarrow>
     length path < 4096 \<and> list_all (\<lambda>p. mk p = 0 \<or> mk p = EEXIST) (mkdir_names path)"
  by (rule mkdir_p_None)

end
