(* ===== verification/MC_Ident.thy ===== *)
theory MC_Ident
  imports MC_Error MC_Validate
begin

text \<open>
  \<open>src/util/id.c\<close> and \<open>src/util/subid.c\<close>: container identifiers and the subordinate id ranges. The bytes
  that \<open>getrandom\<close> delivers are a list of results; the subordinate id files are given by their contents.
  The lemmas show that an identifier is 32 lower-case hexadecimal digits that determine the random
  bytes, and that an accepted id range does not leave the 32-bit range.
\<close>

section \<open>Identifiers\<close>

definition hex_digit :: "nat \<Rightarrow> char" where
  "hex_digit n = (if n < 10 then char_of (48 + n) else char_of (87 + n))"

definition hex_byte :: "u8 \<Rightarrow> string" where
  "hex_byte b = [hex_digit (unat b div 16), hex_digit (unat b mod 16)]"

fun receive_bytes :: "(errno + u8 list) list \<Rightarrow> u8 list \<Rightarrow> (mc_error + u8 list) option" where
  "receive_bytes results received =
     (if length received \<ge> 16 then Some (Inr received)
      else case results of
        [] \<Rightarrow> None
      | Inl e # rest \<Rightarrow>
          if e = EINTR then receive_bytes rest received
          else Some (Inl (mk_error MC_EXIT_INTERNAL e ''generate-id'' (Some ''getrandom'')
                            ''cannot obtain cryptographic randomness''))
      | Inr bytes # rest \<Rightarrow> receive_bytes rest (received @ take (16 - length received) bytes))"

declare receive_bytes.simps [simp del]

definition mc_generate_id :: "(errno + u8 list) list \<Rightarrow> (mc_error + string) option" where
  "mc_generate_id results =
     map_option (\<lambda>r. case r of Inl e \<Rightarrow> Inl e | Inr bytes \<Rightarrow> Inr (concat (map hex_byte bytes)))
       (receive_bytes results [])"

section \<open>Subordinate ids\<close>

text \<open>\<open>fgets\<close> with a 512-byte buffer: up to 511 characters, ending behind a newline.\<close>

function fgets_lines :: "string \<Rightarrow> string list" where
  "fgets_lines s =
     (if s = [] then []
      else let n = length (takeWhile (\<lambda>c. of_char c \<noteq> (10 :: nat)) s);
               m = min 511 (Suc n) in
        take m s # fgets_lines (drop m s))"
  by pat_completeness auto
termination
  by (relation "measure length") auto

declare fgets_lines.simps [simp del]

definition scan_ulong :: "string \<Rightarrow> (u64 \<times> string) option" where
  "scan_ulong s = (let r = strtoull s in if st_end r = s then None else Some (st_val r, st_end r))"

definition subid_entry :: "string \<Rightarrow> (string \<times> u64 \<times> u64) option" where
  "subid_entry line =
     Option.bind (scan_set 127 (\<lambda>c. c \<noteq> CHR '':'') line) (\<lambda>(owner, s).
     Option.bind (scan_lit CHR '':'' s) (\<lambda>s.
     Option.bind (scan_ulong s) (\<lambda>(parsed_start, s).
     Option.bind (scan_lit CHR '':'' s) (\<lambda>s.
     Option.bind (scan_ulong s) (\<lambda>(count, s). Some (owner, parsed_start, count))))))"

definition MAX_START :: u64 where
  "MAX_START = 4294967295 - 65535"

fun search_subids :: "string list \<Rightarrow> u32 option" where
  "search_subids [] = None"
| "search_subids (line # lines) =
     (case subid_entry line of
        Some (owner, parsed_start, count) \<Rightarrow>
          if owner = ''minicontainer'' \<and> count \<ge> 65536 \<and> parsed_start \<le> MAX_START
          then Some (ucast parsed_start) else search_subids lines
      | None \<Rightarrow> search_subids lines)"

definition read_start ::
  "(string \<Rightarrow> string option) \<Rightarrow> (string \<Rightarrow> errno + string) \<Rightarrow> string \<Rightarrow> string \<Rightarrow> errno + u32" where
  "read_start getenv file_text environment_name file =
     (case getenv environment_name of
        Some (c # cs) \<Rightarrow>
          let r = strtoull (c # cs) in
          if st_end r = c # cs \<or> st_end r \<noteq> [] \<or> st_val r > MAX_START then Inl EINVAL
          else Inr (ucast (st_val r))
      | _ \<Rightarrow>
          (case file_text file of
             Inl e \<Rightarrow> Inl e
           | Inr txt \<Rightarrow> (case search_subids (fgets_lines txt) of None \<Rightarrow> Inl ENOENT | Some w \<Rightarrow> Inr w)))"

definition mc_subid_range ::
  "(string \<Rightarrow> string option) \<Rightarrow> (string \<Rightarrow> errno + string) \<Rightarrow> mc_error + u32 \<times> u32" where
  "mc_subid_range getenv file_text =
     (let fail = (\<lambda>e. Inl (mk_error MC_EXIT_PREREQUISITE e ''subordinate-ids'' (Some ''minicontainer'')
                           ''a dedicated 65536-ID UID/GID range is required'')) in
      case read_start getenv file_text ''MC_SUBUID_START'' ''/etc/subuid'' of
        Inl e \<Rightarrow> fail e
      | Inr u \<Rightarrow> (case read_start getenv file_text ''MC_SUBGID_START'' ''/etc/subgid'' of
            Inl e \<Rightarrow> fail e | Inr g \<Rightarrow> Inr (u, g)))"

section \<open>Lemmas\<close>

definition lower_hex :: "char \<Rightarrow> bool" where
  "lower_hex c \<longleftrightarrow> isdigit c \<or> 97 \<le> (of_char c :: nat) \<and> (of_char c :: nat) \<le> 102"

lemma hex_digit_lower: "n < 16 \<Longrightarrow> lower_hex (hex_digit n)"
  by (auto simp: hex_digit_def lower_hex_def isdigit_def)

definition hex_value :: "char \<Rightarrow> nat" where
  "hex_value c = (if isdigit c then of_char c - 48 else of_char c - 87)"

lemma hex_value_digit: "n < 16 \<Longrightarrow> hex_value (hex_digit n) = n"
  by (auto simp: hex_digit_def hex_value_def isdigit_def)

fun unhex :: "string \<Rightarrow> u8 list" where
  "unhex (a # b # s) = word_of_nat (hex_value a * 16 + hex_value b) # unhex s"
| "unhex _ = []"

lemma unat_byte_digits: "unat (b :: u8) div 16 < 16" "unat b mod 16 < 16"
  using unat_u8_less [of b] by auto

lemma unhex_hex: "unhex (concat (map hex_byte bytes)) = bytes"
  by (induction bytes) (simp_all add: hex_byte_def hex_value_digit unat_byte_digits)

lemma receive_bytes_length: "receive_bytes results received = Some (Inr bytes) \<Longrightarrow> length received \<le> 16 \<Longrightarrow> length bytes = 16"
proof (induction results received rule: receive_bytes.induct)
  case (1 results received)
  show ?case
  proof (cases "length received \<ge> 16")
    case True
    then show ?thesis using "1.prems" by (simp add: receive_bytes.simps)
  next
    case False
    then show ?thesis using 1
      by (subst (asm) (3) receive_bytes.simps) (auto split: list.splits sum.splits if_splits)
  qed
qed

lemma lower_hex_name: "lower_hex c \<Longrightarrow> (islower c \<or> isdigit c) \<and> c \<noteq> CHR ''.''"
  by (auto simp: lower_hex_def ctype_defs)

lemma hex_bytes_lower: "list_all lower_hex (concat (map hex_byte bytes))"
  by (induction bytes) (simp_all add: hex_byte_def hex_digit_lower unat_byte_digits)

lemma length_hex_bytes: "length (concat (map hex_byte bytes)) = 2 * length bytes"
  by (induction bytes) (simp_all add: hex_byte_def)

text \<open>
  A generated identifier consists of 32 lower-case hexadecimal digits, is a valid container name,
  and determines the 16 random bytes it was made from, so that two identifiers agree only if the
  random bytes do. Short and interrupted reads of randomness leave no byte uninitialised.
\<close>

theorem generate_id_format:
  assumes "mc_generate_id results = Some (Inr i)"
  shows "length i = 32 \<and> list_all lower_hex i \<and> mc_valid_name (Some i) \<and>
    length (unhex i) = 16 \<and> concat (map hex_byte (unhex i)) = i"
proof -
  obtain bytes where bytes: "receive_bytes results [] = Some (Inr bytes)" "i = concat (map hex_byte bytes)"
    using assms by (auto simp: mc_generate_id_def map_option_case split: option.splits sum.splits)
  have len: "length bytes = 16" using receive_bytes_length [OF bytes(1)] by simp
  have chars: "\<forall>c \<in> set i. (islower c \<or> isdigit c) \<and> c \<noteq> CHR ''.''"
    using hex_bytes_lower [of bytes] lower_hex_name by (auto simp: bytes(2) list_all_iff)
  have "\<not> sublist ''..'' i" using chars set_mono_sublist [of "''..''" i] by auto
  moreover have "length i = 32" using len length_hex_bytes [of bytes] by (simp add: bytes(2))
  moreover from this have "i \<noteq> []" by auto
  ultimately have "mc_valid_name (Some i)"
    using chars hd_in_set [of i] unfolding valid_name_iff by auto
  then show ?thesis using len hex_bytes_lower length_hex_bytes [of bytes] by (simp add: bytes(2) unhex_hex)
qed

theorem generate_id_format_witness:
  "mc_generate_id [Inl EINTR, Inr [0, 255], Inr (replicate 20 0xA7)] =
     Some (Inr ''00ffa7a7a7a7a7a7a7a7a7a7a7a7a7a7'') \<and>
   mc_valid_name (Some ''00ffa7a7a7a7a7a7a7a7a7a7a7a7a7a7'')"
proof -
  have r: "mc_generate_id [Inl EINTR, Inr [0, 255], Inr (replicate 20 0xA7)] =
     Some (Inr ''00ffa7a7a7a7a7a7a7a7a7a7a7a7a7a7'')" by code_simp
  show ?thesis using r generate_id_format [OF r] by blast
qed

lemma start_bound:
  assumes "w \<le> MAX_START"
  shows "unat (ucast w :: u32) \<le> 4294901760"
proof -
  have "unat w \<le> 4294901760" using assms by (simp add: word_le_nat_alt MAX_START_def)
  then show ?thesis using unat_ucast_u32 [of w] by simp
qed

lemma search_subids_bound: "search_subids lines = Some w \<Longrightarrow> unat w + 65536 \<le> 2 ^ 32"
  by (induction lines) (auto simp: start_bound split: option.splits if_splits)

lemma read_start_bound: "read_start getenv file_text name file = Inr w \<Longrightarrow> unat w + 65536 \<le> 2 ^ 32"
  by (auto simp: read_start_def Let_def not_less start_bound split: option.splits list.splits
      if_splits sum.splits dest: search_subids_bound)

text \<open>
  The user and group id ranges the runtime uses, 65536 ids from the configured start, lie within
  the 32-bit ids, whether they come from the environment or from the subordinate id files.
\<close>

theorem subid_range_fits:
  assumes "mc_subid_range getenv file_text = Inr (u, g)"
  shows "unat u + 65536 \<le> 2 ^ 32 \<and> unat g + 65536 \<le> 2 ^ 32"
  using assms by (auto simp: mc_subid_range_def Let_def split: sum.splits dest: read_start_bound)

theorem subid_range_fits_witness:
  "mc_subid_range (\<lambda>n. if n = ''MC_SUBGID_START'' then Some ''200000'' else None)
      (\<lambda>_. Inr (''nick:100:65536'' @ CHR 0x0A # ''minicontainer:100000:65536'' @ [CHR 0x0A])) =
     Inr (100000, 200000) \<and> unat (200000 :: u32) + 65536 \<le> 2 ^ 32"
proof -
  have r: "mc_subid_range (\<lambda>n. if n = ''MC_SUBGID_START'' then Some ''200000'' else None)
      (\<lambda>_. Inr (''nick:100:65536'' @ CHR 0x0A # ''minicontainer:100000:65536'' @ [CHR 0x0A])) =
     Inr (100000, 200000)" by code_simp
  show ?thesis using r subid_range_fits [OF r] by blast
qed

end
