(* ===== verification/MC_Config.thy ===== *)
theory MC_Config
  imports MC_Runtime MC_Json MC_Publish
begin

text \<open>
  The stored configuration of \<open>src/state/store.c\<close>: \<open>config_json\<close> writes a configuration as a JSON tree,
  \<open>load_arrays\<close> and the body of \<open>mc_state_load_config\<close> read it back. The elements of the arrays are
  encodings in the sense of the locale \<open>codec\<close>; the main result is that loading the stored document
  gives the configuration that was saved.
\<close>

section \<open>Writing\<close>

record build_info =
  bi_now :: u64
  bi_version :: string
  bi_commit :: string

definition publish_json :: "mc_publish \<Rightarrow> json" where
  "publish_json p =
     JObject [(''host_ipv4'', JInt (uint (host_ipv4 p))), (''host_port'', JInt (uint (host_port p))),
              (''container_port'', JInt (uint (container_port p))), (''protocol'', JInt (uint (protocol p)))]"

definition mount_json :: "mc_mount \<Rightarrow> json" where
  "mount_json m =
     JObject ([(''type'', JInt (mount_type_value (mnt_type m)))] @
              (case mnt_source m of None \<Rightarrow> [] | Some s \<Rightarrow> [(''source'', JString s)]) @
              [(''target'', JString (the (mnt_target m))), (''size'', JInt (uint (mnt_size m))),
               (''readonly'', JBool (mnt_readonly m))])"

definition image_digest :: "string \<Rightarrow> string option" where
  "image_digest rootfs =
     (case strstr rootfs ''/sha256/'' of
        None \<Rightarrow> None
      | Some r \<Rightarrow> let digest = drop 8 r in if length digest \<ge> 64 then Some (take 64 digest) else None)"

definition config_json :: "build_info \<Rightarrow> mc_run_config \<Rightarrow> string \<Rightarrow> json" where
  "config_json B c img =
     JObject ([(''schema_version'', JInt 1), (''id'', JString (the (cfg_id c)))] @
       (case cfg_name c of None \<Rightarrow> [] | Some n \<Rightarrow> [(''name'', JString n)]) @
       [(''image'', JString img)] @
       (case image_digest (the (cfg_rootfs c)) of None \<Rightarrow> [] | Some d \<Rightarrow> [(''image_digest'', JString d)]) @
       [(''rootfs'', JString (the (cfg_rootfs c))), (''hostname'', JString (the (cfg_hostname c))),
        (''workdir'', JString (the (cfg_workdir c))), (''user'', JInt (uint (cfg_user c))),
        (''group'', JInt (uint (cfg_group c))), (''capability_mask'', JInt (uint (cfg_capability_mask c))),
        (''readonly_root'', JBool (cfg_readonly_root c)),
        (''network_mode'', JString (if cfg_network_bridge c then ''bridge'' else ''none'')),
        (''ipv4_host'', JInt (uint (cfg_ipv4_host c))),
        (''publishes'', JArray (map publish_json (cfg_publishes c))),
        (''mounts'', JArray (map mount_json (cfg_mounts c))),
        (''seccomp_denies'', JArray (map JString (cfg_seccomp_denies c))),
        (''created_at_unix_ns'', JInt (uint (bi_now B))), (''build_version'', JString (bi_version B)),
        (''git_commit'', JString (bi_commit B)),
        (''resources'',
          JObject [(''memory_max'', JInt (uint (cfg_memory_max c))), (''swap_max'', JInt (uint (cfg_swap_max c))),
                   (''cpu_quota'', JInt (uint (cfg_cpu_quota c))), (''pids_max'', JInt (uint (cfg_pids_max c)))]),
        (''environment'', JArray (map JString (cfg_environment c))),
        (''command'', JArray (map JString (the (cfg_command c))))])"

section \<open>Reading\<close>

definition copy_string :: "json \<Rightarrow> string \<Rightarrow> string option" where
  "copy_string root key = (case json_object_get root key of Some (JString s) \<Rightarrow> Some s | _ \<Rightarrow> None)"

definition json_get_array :: "json \<Rightarrow> string \<Rightarrow> json list option" where
  "json_get_array root key = Option.bind (json_object_get root key) json_array_items"

definition load_publish :: "jsonc \<Rightarrow> json \<Rightarrow> mc_publish option" where
  "load_publish J j =
     Option.bind (json_object_get j ''host_ipv4'') (\<lambda>a.
     Option.bind (json_object_get j ''host_port'') (\<lambda>hp.
     Option.bind (json_object_get j ''container_port'') (\<lambda>cp.
     Option.bind (json_object_get j ''protocol'') (\<lambda>pr.
       Some \<lparr>host_ipv4 = word_of_int (jc_int64 J a), host_port = word_of_int (jc_int J hp),
             container_port = word_of_int (jc_int J cp), protocol = word_of_int (jc_int J pr)\<rparr>))))"

definition load_mount :: "jsonc \<Rightarrow> json \<Rightarrow> mc_mount option" where
  "load_mount J j =
     Option.bind (json_object_get j ''type'') (\<lambda>t.
     Option.bind (json_object_get j ''size'') (\<lambda>n.
     Option.bind (json_object_get j ''readonly'') (\<lambda>r.
       let m = \<lparr>mnt_type = mount_type_of (jc_int J t), mnt_source = copy_string j ''source'',
                mnt_target = copy_string j ''target'', mnt_size = jc_uint64 J n, mnt_readonly = jc_boolean J r\<rparr> in
       if mnt_target m = None \<or> mnt_type m = MC_MOUNT_BIND \<and> mnt_source m = None then None else Some m)))"

text \<open>The arrays; a document without mounts ends the loading there. A null string in the environment
  or the command, which the C code would hand to \<open>strdup\<close>, counts as a failure.\<close>

definition load_arrays :: "jsonc \<Rightarrow> json \<Rightarrow> mc_run_config \<Rightarrow> mc_run_config option" where
  "load_arrays J root c =
     Option.bind (json_get_array root ''environment'') (\<lambda>env_items.
     Option.bind (those (map (jc_string J) env_items)) (\<lambda>environment.
     Option.bind (json_get_array root ''command'') (\<lambda>cmd_items.
     Option.bind (those (map (jc_string J) cmd_items)) (\<lambda>command.
     if command = [] then None
     else
     Option.bind (json_get_array root ''publishes'') (\<lambda>pub_items.
     Option.bind (those (map (load_publish J) pub_items)) (\<lambda>publishes.
     let c = c\<lparr>cfg_environment := environment, cfg_command := Some command, cfg_publishes := publishes\<rparr> in
     case json_object_get root ''mounts'' of
       None \<Rightarrow> Some c
     | Some array \<Rightarrow>
         Option.bind (json_array_items array) (\<lambda>mount_items.
         Option.bind (those (map (load_mount J) mount_items)) (\<lambda>mounts.
         let c = c\<lparr>cfg_mounts := mounts\<rparr> in
         case json_object_get root ''seccomp_denies'' of
           None \<Rightarrow> Some c
         | Some array \<Rightarrow>
             Option.bind (json_array_items array) (\<lambda>deny_items.
             Option.bind (those (map (jc_string J) deny_items)) (\<lambda>denies.
             Some (c\<lparr>cfg_seccomp_denies := denies\<rparr>)))))))))))"

definition load_config_json :: "jsonc \<Rightarrow> json \<Rightarrow> (mc_run_config \<times> string) option" where
  "load_config_json J root =
     (let c = zero_config\<lparr>cfg_ready_fd := - 1, cfg_id := copy_string root ''id'', cfg_name := copy_string root ''name'',
          cfg_rootfs := copy_string root ''rootfs'', cfg_hostname := copy_string root ''hostname'',
          cfg_workdir := copy_string root ''workdir''\<rparr> in
      Option.bind (json_object_get root ''image'') (\<lambda>image.
      Option.bind (json_object_get root ''user'') (\<lambda>user.
      Option.bind (json_object_get root ''group'') (\<lambda>group.
      let c = c\<lparr>cfg_user := word_of_int (jc_int64 J user), cfg_group := word_of_int (jc_int64 J group)\<rparr>;
          c = (case json_object_get root ''capability_mask'' of
                 None \<Rightarrow> c | Some v \<Rightarrow> c\<lparr>cfg_capability_mask := jc_uint64 J v\<rparr>);
          c = (case json_object_get root ''readonly_root'' of
                 None \<Rightarrow> c | Some v \<Rightarrow> c\<lparr>cfg_readonly_root := jc_boolean J v\<rparr>) in
      Option.bind (json_object_get root ''network_mode'') (\<lambda>mode.
      Option.bind (json_object_get root ''ipv4_host'') (\<lambda>ip.
      Option.bind (json_object_get root ''resources'') (\<lambda>resources.
      Option.bind (json_object_get resources ''memory_max'') (\<lambda>mem.
      Option.bind (json_object_get resources ''swap_max'') (\<lambda>swap.
      Option.bind (json_object_get resources ''cpu_quota'') (\<lambda>cpu.
      Option.bind (json_object_get resources ''pids_max'') (\<lambda>pids.
      let c = c\<lparr>cfg_network_bridge := (jc_string J mode = Some ''bridge''),
                cfg_ipv4_host := word_of_int (jc_int64 J ip), cfg_memory_max := jc_uint64 J mem,
                cfg_swap_max := jc_uint64 J swap, cfg_cpu_quota := jc_uint64 J cpu, cfg_pids_max := jc_uint64 J pids\<rparr> in
      if cfg_id c = None \<or> cfg_rootfs c = None \<or> cfg_hostname c = None \<or> cfg_workdir c = None then None
      else map_option (\<lambda>c. (c, snprintf_buf PATH_MAX (case jc_string J image of None \<Rightarrow> ''(null)'' | Some s \<Rightarrow> s)))
             (load_arrays J root c))))))))))))"

section \<open>The elements of the arrays\<close>

definition mount_storable :: "mc_mount \<Rightarrow> bool" where
  "mount_storable m \<longleftrightarrow>
     mnt_target m \<noteq> None \<and> (mnt_type m = MC_MOUNT_BIND \<longrightarrow> mnt_source m \<noteq> None) \<and>
     mnt_type m \<in> {MC_MOUNT_BIND, MC_MOUNT_TMPFS}"

lemma uint_u64_bound: "0 \<le> uint (w :: u64)" "uint (w :: u64) < 2 ^ 64"
  using uint_bounded [of w] by simp_all

lemma uint_ge_neg: "n \<le> 0 \<Longrightarrow> n \<le> uint w"
  using uint_ge_0 [of w] by linarith

lemma uint_u32_bound: "uint (w :: u32) < 2 ^ 32" "uint (w :: u32) < 2 ^ 63"
  using uint_bounded [of w] by simp_all

lemma uint_u16_bound: "uint (w :: u16) < 2 ^ 16" "uint (w :: u16) < 2 ^ 31"
  using uint_bounded [of w] by simp_all

lemma uint_u8_bound: "uint (w :: u8) < 2 ^ 8" "uint (w :: u8) < 2 ^ 31"
  using uint_bounded [of w] by simp_all

lemma getters [simp]:
  assumes "jsonc_ok J"
  shows "jc_uint64 J (JInt (uint (a :: u64))) = a" "jc_int64 J (JInt (uint (b :: u32))) = uint b"
    "jc_int J (JInt (uint (c :: u16))) = uint c" "jc_int J (JInt (uint (d :: u8))) = uint d"
    "jc_int J (JInt (mount_type_value MC_MOUNT_BIND)) = 1" "jc_int J (JInt (mount_type_value MC_MOUNT_TMPFS)) = 2"
proof -
  show "jc_int64 J (JInt (uint b)) = uint b"
    by (rule jsonc_ok_int64 [OF assms uint_ge_neg uint_u32_bound(2)]) simp
  show "jc_int J (JInt (uint c)) = uint c"
    by (rule jsonc_ok_int [OF assms uint_ge_neg uint_u16_bound(2)]) simp
  show "jc_int J (JInt (uint d)) = uint d"
    by (rule jsonc_ok_int [OF assms uint_ge_neg uint_u8_bound(2)]) simp
qed (use assms uint_u64_bound [of a] in simp_all)

lemma json_object_get_Object [simp]: "json_object_get (JObject kvs) k = map_of kvs k"
  by (simp add: json_object_get_def)

interpretation string_json: codec JString "jc_string J" "\<lambda>_. jsonc_ok J" for J
  by unfold_locales simp

interpretation publish_json: codec publish_json "load_publish J" "\<lambda>_. jsonc_ok J" for J
  by unfold_locales (simp add: publish_json_def load_publish_def)

interpretation mount_json: codec mount_json "load_mount J" "\<lambda>m. jsonc_ok J \<and> mount_storable m" for J
proof unfold_locales
  fix m :: mc_mount
  assume m: "jsonc_ok J \<and> mount_storable m"
  then have "mount_type_of (jc_int J (JInt (mount_type_value (mnt_type m)))) = mnt_type m"
    by (auto simp: mount_storable_def mount_type_of_def)
  then show "load_mount J (mount_json m) = Some m"
    using m by (cases "mnt_source m") (auto simp: mount_json_def load_mount_def copy_string_def mount_storable_def)
qed

lemma those_strings: "jsonc_ok J \<Longrightarrow> those (map (jc_string J \<circ> JString) xs) = Some xs"
  using string_json.list_dec_enc [of J xs] by (simp add: o_def list_all_iff)

lemma those_publishes: "jsonc_ok J \<Longrightarrow> those (map (load_publish J \<circ> publish_json) ps) = Some ps"
  using publish_json.list_dec_enc [of J ps] by (simp add: o_def list_all_iff)

lemma those_mounts:
  "jsonc_ok J \<Longrightarrow> list_all mount_storable ms \<Longrightarrow> those (map (load_mount J \<circ> mount_json) ms) = Some ms"
  using mount_json.list_dec_enc [of J ms] by (simp add: o_def list_all_iff)

section \<open>The document is well-formed\<close>

lemma json_wf_int [simp]:
  "json_wf (JInt (uint (a :: u64)))" "json_wf (JInt (uint (b :: u32)))"
  "json_wf (JInt (uint (c :: u16)))" "json_wf (JInt (uint (d :: u8)))"
  using uint_u64_bound [of a] uint_u32_bound [of b] uint_u16_bound [of c] uint_u8_bound [of d]
  by (simp_all add: order_trans [OF _ uint_ge_0])

lemma json_wf_publish: "json_wf (publish_json p)" "json_depth (publish_json p) = 1"
  by (simp_all add: publish_json_def del: json_wf.simps(1))

lemma json_wf_mount:
  assumes "mount_storable m"
  shows "json_wf (mount_json m)" "json_depth (mount_json m) = 1"
proof -
  have "json_wf (JInt (mount_type_value (mnt_type m)))" using assms by (auto simp: mount_storable_def)
  then show "json_wf (mount_json m)" "json_depth (mount_json m) = 1"
    by (cases "mnt_source m"; simp add: mount_json_def del: json_wf.simps(1))+
qed

definition config_storable :: "mc_run_config \<Rightarrow> bool" where
  "config_storable c \<longleftrightarrow>
     cfg_id c \<noteq> None \<and> cfg_rootfs c \<noteq> None \<and> cfg_hostname c \<noteq> None \<and> cfg_workdir c \<noteq> None \<and>
     (case cfg_command c of Some (_ # _) \<Rightarrow> True | _ \<Rightarrow> False) \<and> list_all mount_storable (cfg_mounts c)"

lemma json_wf_arrays:
  "json_wf (JArray (map JString xs))" "json_wf (JArray (map publish_json ps))"
  "list_all mount_storable ms \<Longrightarrow> json_wf (JArray (map mount_json ms))"
  "json_depth (JArray (map JString xs)) \<le> 2" "json_depth (JArray (map publish_json ps)) \<le> 2"
  "list_all mount_storable ms \<Longrightarrow> json_depth (JArray (map mount_json ms)) \<le> 2"
proof -
  show "json_depth (JArray (map JString xs)) \<le> 2" by (induction xs) simp_all
  show "json_depth (JArray (map publish_json ps)) \<le> 2" by (induction ps) (simp_all add: json_wf_publish)
  show "list_all mount_storable ms \<Longrightarrow> json_depth (JArray (map mount_json ms)) \<le> 2"
    by (induction ms) (simp_all add: json_wf_mount)
qed (auto simp: list_all_iff json_wf_publish json_wf_mount)

lemma config_json_wf:
  assumes "list_all mount_storable (cfg_mounts c)"
  shows "json_wf (config_json B c img)" "json_depth (config_json B c img) < 32"
proof -
  note arrays = json_wf_arrays(1,2) json_wf_arrays(3) [OF assms]
  have one: "json_wf (JInt 1)" by simp
  show "json_wf (config_json B c img)"
    using arrays one by (cases "cfg_name c"; cases "image_digest (the (cfg_rootfs c))")
      (simp_all add: config_json_def del: json_wf.simps(1,2))
  have "json_depth (JArray (map JString xs)) < 31" for xs using json_wf_arrays(4) [of xs] by simp
  moreover have "json_depth (JArray (map publish_json (cfg_publishes c))) < 31"
    using json_wf_arrays(5) [of "cfg_publishes c"] by simp
  moreover have "json_depth (JArray (map mount_json (cfg_mounts c))) < 31"
    using json_wf_arrays(6) [OF assms] by simp
  ultimately show "json_depth (config_json B c img) < 32"
    by (cases "cfg_name c"; cases "image_digest (the (cfg_rootfs c))")
      (simp_all add: config_json_def del: json_depth.simps(1))
qed

lemma config_json_gets:
  "json_object_get (config_json B c img) ''id'' = Some (JString (the (cfg_id c)))"
  "json_object_get (config_json B c img) ''name'' = map_option JString (cfg_name c)"
  "json_object_get (config_json B c img) ''image'' = Some (JString img)"
  "json_object_get (config_json B c img) ''rootfs'' = Some (JString (the (cfg_rootfs c)))"
  "json_object_get (config_json B c img) ''hostname'' = Some (JString (the (cfg_hostname c)))"
  "json_object_get (config_json B c img) ''workdir'' = Some (JString (the (cfg_workdir c)))"
  "json_object_get (config_json B c img) ''user'' = Some (JInt (uint (cfg_user c)))"
  "json_object_get (config_json B c img) ''group'' = Some (JInt (uint (cfg_group c)))"
  "json_object_get (config_json B c img) ''capability_mask'' = Some (JInt (uint (cfg_capability_mask c)))"
  "json_object_get (config_json B c img) ''readonly_root'' = Some (JBool (cfg_readonly_root c))"
  "json_object_get (config_json B c img) ''network_mode'' =
     Some (JString (if cfg_network_bridge c then ''bridge'' else ''none''))"
  "json_object_get (config_json B c img) ''ipv4_host'' = Some (JInt (uint (cfg_ipv4_host c)))"
  "json_object_get (config_json B c img) ''publishes'' = Some (JArray (map publish_json (cfg_publishes c)))"
  "json_object_get (config_json B c img) ''mounts'' = Some (JArray (map mount_json (cfg_mounts c)))"
  "json_object_get (config_json B c img) ''seccomp_denies'' = Some (JArray (map JString (cfg_seccomp_denies c)))"
  "json_object_get (config_json B c img) ''environment'' = Some (JArray (map JString (cfg_environment c)))"
  "json_object_get (config_json B c img) ''command'' = Some (JArray (map JString (the (cfg_command c))))"
  "json_object_get (config_json B c img) ''resources'' = Some
     (JObject [(''memory_max'', JInt (uint (cfg_memory_max c))), (''swap_max'', JInt (uint (cfg_swap_max c))),
               (''cpu_quota'', JInt (uint (cfg_cpu_quota c))), (''pids_max'', JInt (uint (cfg_pids_max c)))])"
  by (cases "cfg_name c"; cases "image_digest (the (cfg_rootfs c))"; simp add: config_json_def)+

lemma load_arrays_config_json:
  assumes "jsonc_ok J" "config_storable c"
  shows "load_arrays J (config_json B c img) b =
    Some (b\<lparr>cfg_environment := cfg_environment c, cfg_command := cfg_command c, cfg_publishes := cfg_publishes c,
            cfg_mounts := cfg_mounts c, cfg_seccomp_denies := cfg_seccomp_denies c\<rparr>)"
proof -
  obtain x xs where "cfg_command c = Some (x # xs)" using assms(2) by (auto simp: config_storable_def split: option.splits list.splits)
  moreover have "list_all mount_storable (cfg_mounts c)" using assms(2) by (simp add: config_storable_def)
  ultimately show ?thesis
    using assms(1) those_strings [OF assms(1), of "cfg_environment c"] those_strings [OF assms(1), of "x # xs"]
      those_strings [OF assms(1), of "cfg_seccomp_denies c"] those_publishes [OF assms(1), of "cfg_publishes c"]
      those_mounts [OF assms(1), of "cfg_mounts c"]
    by (simp add: load_arrays_def json_get_array_def json_array_items_def config_json_gets)
qed

lemma load_config_json_roundtrip:
  assumes "jsonc_ok J" "config_storable c"
  shows "load_config_json J (config_json B c img) =
    Some (c\<lparr>cfg_detach := False, cfg_ready_fd := - 1\<rparr>, snprintf_buf PATH_MAX img)"
proof -
  obtain i r h w where some: "cfg_id c = Some i" "cfg_rootfs c = Some r" "cfg_hostname c = Some h" "cfg_workdir c = Some w"
    using assms(2) by (auto simp: config_storable_def)
  show ?thesis
    using assms(1) some
    by (cases "cfg_name c")
      (simp_all add: load_config_json_def config_json_gets copy_string_def Let_def
        load_arrays_config_json [OF assms] zero_config_def)
qed

text \<open>
  C12: Configurations survive storage. For every configuration with an identifier, root file system,
  host name, working directory, a non-empty command and complete mounts, reading the stored document
  gives the configuration back, field by field and at full width, except for the two fields that
  belong to one start (detaching and the readiness descriptor); the image text is cut to \<open>PATH_MAX\<close>.
\<close>

theorem config_roundtrip:
  assumes "jsonc_ok J" "config_storable c"
  shows "load_config_json J (jc_parse J (jc_print J (config_json B c img))) =
    Some (c\<lparr>cfg_detach := False, cfg_ready_fd := - 1\<rparr>, snprintf_buf PATH_MAX img)"
proof -
  have "list_all mount_storable (cfg_mounts c)" using assms(2) by (simp add: config_storable_def)
  then have "jc_parse J (jc_print J (config_json B c img)) = config_json B c img"
    using jsonc_ok_parse [OF assms(1)] config_json_wf by blast
  then show ?thesis using load_config_json_roundtrip [OF assms] by simp
qed

definition example_stored :: mc_run_config where
  "example_stored =
     zero_config\<lparr>cfg_id := Some ''0123456789abcdef0123456789abcdef'', cfg_name := Some ''web'',
       cfg_rootfs := Some ''/images/web'', cfg_hostname := Some ''web'', cfg_workdir := Some ''/'',
       cfg_memory_max := - 1, cfg_ipv4_host := 0x0A2C0002, cfg_network_bridge := True,
       cfg_mounts := [\<lparr>mnt_type = MC_MOUNT_TMPFS, mnt_source = None, mnt_target = Some ''/tmp'', mnt_size = 65536,
                       mnt_readonly = False\<rparr>],
       cfg_publishes := [\<lparr>host_ipv4 = 0, host_port = 8080, container_port = 80, protocol = 6\<rparr>],
       cfg_command := Some [''sh'']\<rparr>"

lemma example_storable: "config_storable example_stored"
  by (simp add: config_storable_def example_stored_def mount_storable_def)

theorem config_roundtrip_witness:
  "load_config_json jsonc_ref (jc_parse jsonc_ref (jc_print jsonc_ref
      (config_json \<lparr>bi_now = 0, bi_version = ''1'', bi_commit = ''c''\<rparr> example_stored ''web''))) =
     Some (example_stored\<lparr>cfg_detach := False, cfg_ready_fd := - 1\<rparr>, ''web'')"
  using config_roundtrip [OF jsonc_ref_ok example_storable, of _ "''web''"] by simp

end
