(* ===== verification/MC_Store.thy ===== *)
theory MC_Store
  imports MC_Config MC_Fs
begin

text \<open>
  The container registry of \<open>src/state/store.c\<close>: paths, locks, saving and loading configurations,
  resolving references and leasing addresses. The registry is the state directory: the entries of its
  \<open>containers\<close> directory in the order \<open>readdir\<close> gives them, and the disk of \<open>MC_Fs\<close> with the files.
  The lemmas show that an operation on one container leaves the files of the others alone, that a saved
  configuration is what loading returns, and that the address pool is handed out first-fit.
\<close>

unbundle bit_operations_syntax

section \<open>State\<close>

record registry =
  rg_dir :: string
  rg_opendir :: errno
  rg_entries :: "string list"
  rg_disk :: disk

definition make_path :: "string \<Rightarrow> string option \<Rightarrow> string \<Rightarrow> string option" where
  "make_path state_dir cid leaf =
     (let txt = (case cid of
            None \<Rightarrow> state_dir @ ''/'' @ leaf
          | Some i \<Rightarrow> state_dir @ ''/containers/'' @ i @ ''/'' @ leaf) in
      if length txt \<ge> PATH_MAX then None else Some txt)"

text \<open>\<open>json_object_from_file\<close>.\<close>

definition file_json :: "jsonc \<Rightarrow> registry \<Rightarrow> string \<Rightarrow> json" where
  "file_json J R path = (case disk_read (rg_disk R) path of None \<Rightarrow> JNull | Some t \<Rightarrow> jc_parse J t)"

text \<open>The file of a directory entry; \<open>None\<close> when its path is too long and the loop goes on.\<close>

definition entry_json :: "jsonc \<Rightarrow> registry \<Rightarrow> string \<Rightarrow> string \<Rightarrow> json option" where
  "entry_json J R entry leaf = map_option (file_json J R) (make_path (rg_dir R) (Some entry) leaf)"

definition hidden :: "string \<Rightarrow> bool" where
  "hidden entry \<longleftrightarrow> entry \<noteq> [] \<and> hd entry = CHR ''.''"

section \<open>Locks\<close>

text \<open>Opening and locking the lock file; the errno of the step that failed.\<close>

definition take_lock :: "(string \<Rightarrow> errno) \<Rightarrow> string \<Rightarrow> mc_error option" where
  "take_lock lock path =
     (if lock path \<noteq> 0
      then Some (mk_error MC_EXIT_RUNTIME (lock path) ''state-lock'' (Some path) ''cannot acquire exclusive lifecycle lock'')
      else None)"

definition mc_state_registry_lock :: "(string \<Rightarrow> errno) \<Rightarrow> (string \<Rightarrow> errno) \<Rightarrow> string \<Rightarrow> mc_error option" where
  "mc_state_registry_lock mkdir lock state_dir =
     (case mc_mkdir_p mkdir state_dir of
        Some e \<Rightarrow> Some e
      | None \<Rightarrow> (case make_path state_dir None ''registry.lock'' of
            None \<Rightarrow> Some (mk_error MC_EXIT_RUNTIME ENAMETOOLONG ''state-lock'' (Some state_dir) ''cannot prepare registry lock'')
          | Some path \<Rightarrow> take_lock lock path))"

text \<open>\<open>mc_mkdir_p\<close> on the directory of a container, whose path ends in a slash: the entry is there as
  soon as the path before the slash was created or existed.\<close>

definition add_entry :: "string \<Rightarrow> registry \<Rightarrow> registry" where
  "add_entry e R =
     R\<lparr>rg_entries := (if e \<in> set (rg_entries R) then rg_entries R else rg_entries R @ [e]),
       rg_opendir := (if rg_opendir R = ENOENT then 0 else rg_opendir R)\<rparr>"

definition entry_mkdir :: "(string \<Rightarrow> errno) \<Rightarrow> registry \<Rightarrow> string \<Rightarrow> string \<Rightarrow> registry \<times> mc_error option" where
  "entry_mkdir mkdir R cid directory =
     (if mc_mkdir_p mkdir (butlast directory) = None then add_entry cid R else R, mc_mkdir_p mkdir directory)"

definition mc_state_container_lock ::
  "(string \<Rightarrow> errno) \<Rightarrow> (string \<Rightarrow> errno) \<Rightarrow> registry \<Rightarrow> string \<Rightarrow> registry \<times> mc_error option" where
  "mc_state_container_lock mkdir lock R cid =
     (let unprepared = Some (mk_error MC_EXIT_RUNTIME ENAMETOOLONG ''state-lock'' (Some cid) ''cannot prepare container lock'') in
      case make_path (rg_dir R) (Some cid) '''' of
        None \<Rightarrow> (R, unprepared)
      | Some directory \<Rightarrow>
          let (R', r) = entry_mkdir mkdir R cid directory in
          (R', case r of
             Some e \<Rightarrow> Some e
           | None \<Rightarrow> (case make_path (rg_dir R) (Some cid) ''container.lock'' of
                 None \<Rightarrow> unprepared | Some path \<Rightarrow> take_lock lock path)))"

section \<open>Conflicts\<close>

text \<open>The stored name of a configuration. The code compares without testing for a JSON null, on which
  the getter returns NULL; the model takes that as no match.\<close>

definition config_name :: "jsonc \<Rightarrow> json \<Rightarrow> string option" where
  "config_name J root = Option.bind (json_object_get root ''name'') (jc_string J)"

text \<open>Looping over the registry: \<open>ENOENT\<close> means there is nothing to conflict with, another error of
  \<open>opendir\<close> counts as a conflict.\<close>

definition registry_any :: "registry \<Rightarrow> (string \<Rightarrow> bool) \<Rightarrow> bool" where
  "registry_any R p =
     (if rg_opendir R \<noteq> 0 then rg_opendir R \<noteq> ENOENT else list_ex p (rg_entries R))"

definition name_is_taken :: "jsonc \<Rightarrow> registry \<Rightarrow> string option \<Rightarrow> string \<Rightarrow> bool" where
  "name_is_taken J R name own_id =
     (case name of
        None \<Rightarrow> False
      | Some n \<Rightarrow> registry_any R (\<lambda>entry.
          \<not> hidden entry \<and> entry \<noteq> own_id \<and>
          (case entry_json J R entry ''config.json'' of
             None \<Rightarrow> False | Some root \<Rightarrow> config_name J root = Some n)))"

text \<open>The three fields of a stored publication that are compared; an incomplete one is skipped.\<close>

definition stored_port :: "jsonc \<Rightarrow> json \<Rightarrow> (u32 \<times> u16 \<times> u8) option" where
  "stored_port J published =
     Option.bind (json_object_get published ''host_ipv4'') (\<lambda>a.
     Option.bind (json_object_get published ''host_port'') (\<lambda>p.
     Option.bind (json_object_get published ''protocol'') (\<lambda>pr.
       Some (word_of_int (jc_int64 J a), word_of_int (jc_int J p), word_of_int (jc_int J pr)))))"

definition stored_ports :: "jsonc \<Rightarrow> json \<Rightarrow> (u32 \<times> u16 \<times> u8) list" where
  "stored_ports J root =
     (case json_get_array root ''publishes'' of
        None \<Rightarrow> [] | Some items \<Rightarrow> List.map_filter (stored_port J) items)"

definition ports_conflict :: "u32 \<times> u16 \<times> u8 \<Rightarrow> u32 \<times> u16 \<times> u8 \<Rightarrow> bool" where
  "ports_conflict requested existing =
     (case (requested, existing) of ((a, p, pr), (a', p', pr')) \<Rightarrow>
        pr = pr' \<and> p = p' \<and> (a = 0 \<or> a' = 0 \<or> a = a'))"

definition publish_port :: "mc_publish \<Rightarrow> u32 \<times> u16 \<times> u8" where
  "publish_port p = (host_ipv4 p, host_port p, protocol p)"

definition published_port_is_taken :: "jsonc \<Rightarrow> registry \<Rightarrow> mc_run_config \<Rightarrow> bool" where
  "published_port_is_taken J R c =
     (if cfg_publishes c = [] then False
      else registry_any R (\<lambda>entry.
        \<not> hidden entry \<and> Some entry \<noteq> cfg_id c \<and>
        (case entry_json J R entry ''config.json'' of
           None \<Rightarrow> False
         | Some root \<Rightarrow> list_ex (\<lambda>existing. list_ex (\<lambda>p. ports_conflict (publish_port p) existing) (cfg_publishes c))
                          (stored_ports J root))))"

text \<open>The socket that probes a port: the results of \<open>socket\<close> and \<open>bind\<close>.\<close>

datatype sock_type = SOCK_STREAM | SOCK_DGRAM

definition host_port_is_available ::
  "(sock_type \<Rightarrow> bool) \<Rightarrow> (sock_type \<Rightarrow> u32 \<Rightarrow> u16 \<Rightarrow> bool) \<Rightarrow> mc_publish \<Rightarrow> bool" where
  "host_port_is_available socket bind p =
     (let t = (if protocol p = IPPROTO_TCP then SOCK_STREAM else SOCK_DGRAM) in
      socket t \<and> bind t (host_ipv4 p) (host_port p))"

section \<open>Saving and loading\<close>

record store_env =
  se_build :: build_info
  se_mkdir :: "string \<Rightarrow> errno"
  se_write :: "string \<Rightarrow> write_env"
  se_socket :: "sock_type \<Rightarrow> bool"
  se_bind :: "sock_type \<Rightarrow> u32 \<Rightarrow> u16 \<Rightarrow> bool"

text \<open>An error record that no call has filled in.\<close>

definition no_error :: mc_error where
  "no_error = \<lparr>err_code = 0, saved_errno = 0, operation = [], resource = [], message = []\<rparr>"

text \<open>\<open>mc_write_atomic\<close> on the registry's disk.\<close>

definition registry_write ::
  "write_env \<Rightarrow> string \<Rightarrow> string \<Rightarrow> registry \<Rightarrow> registry \<times> (mc_error + unit) option" where
  "registry_write W path data R =
     (case mc_write_atomic W path data (rg_disk R) of
        (trace, r) \<Rightarrow> (R\<lparr>rg_disk := last (rg_disk R # trace)\<rparr>, r))"

definition mc_state_save_config ::
  "jsonc \<Rightarrow> store_env \<Rightarrow> registry \<Rightarrow> mc_run_config \<Rightarrow> string \<Rightarrow> registry \<times> (mc_error + unit) option" where
  "mc_state_save_config J S R c img =
     (let cid = the (cfg_id c) in
      if name_is_taken J R (cfg_name c) cid then
        (R, Some (Inl (mk_error MC_EXIT_CONFLICT EEXIST ''save-config'' (cfg_name c) ''container name already exists'')))
      else if published_port_is_taken J R c then
        (R, Some (Inl (mk_error MC_EXIT_CONFLICT EADDRINUSE ''save-config'' (cfg_id c)
                         ''published host address and port already exists'')))
      else if list_ex (\<lambda>p. \<not> host_port_is_available (se_socket S) (se_bind S) p) (cfg_publishes c) then
        (R, Some (Inl (mk_error MC_EXIT_CONFLICT EADDRINUSE ''save-config'' (cfg_id c)
                         ''published host address and port is already bound'')))
      else let root = config_json (se_build S) c img in
        case (make_path (rg_dir R) (Some cid) '''', make_path (rg_dir R) (Some cid) ''config.json'') of
          (Some directory, Some path) \<Rightarrow>
            (case entry_mkdir (se_mkdir S) R cid directory of
               (R', Some e) \<Rightarrow> (R', Some (Inl e))
             | (R', None) \<Rightarrow> registry_write (se_write S path) path (jc_print J root) R')
        | _ \<Rightarrow> (R, Some (Inl no_error)))"

definition created_document :: "string \<Rightarrow> string" where
  "created_document cid =
     concat [''{'', quoted ''schema_version'', '':1,'', quoted ''id'', '':'', quoted cid, '','',
             quoted ''status'', '':'', quoted ''created'', '','', quoted ''shim_pid'', '':0,'',
             quoted ''shim_start_time'', '':0,'', quoted ''init_pid'', '':0,'',
             quoted ''init_start_time'', '':0,'', quoted ''exit_code'', '':0,'', quoted ''cgroup_path'', '':'',
             quoted '''', ''}'', [CHR 0x0A]]"

definition mc_state_mark_created ::
  "store_env \<Rightarrow> registry \<Rightarrow> string \<Rightarrow> registry \<times> (mc_error + unit) option" where
  "mc_state_mark_created S R cid =
     (let unserialized = (R, Some (Inl (mk_error MC_EXIT_INTERNAL EOVERFLOW ''create-state'' (Some cid)
            ''cannot serialize created state''))) in
      if length (created_document cid) \<ge> 256 then unserialized
      else case make_path (rg_dir R) (Some cid) ''state.json'' of
        None \<Rightarrow> unserialized
      | Some path \<Rightarrow> registry_write (se_write S path) path (created_document cid) R)"

text \<open>The entries a reference stands for: an identifier it is a prefix of, or a stored name.\<close>

definition reference_matches :: "jsonc \<Rightarrow> registry \<Rightarrow> string \<Rightarrow> string \<Rightarrow> bool" where
  "reference_matches J R reference entry \<longleftrightarrow>
     \<not> hidden entry \<and> length entry = 32 \<and>
     (strncmp_eq entry reference (length reference) \<or>
      (case entry_json J R entry ''config.json'' of
         None \<Rightarrow> False | Some root \<Rightarrow> config_name J root = Some reference))"

definition mc_state_resolve :: "jsonc \<Rightarrow> registry \<Rightarrow> string option \<Rightarrow> mc_error + string" where
  "mc_state_resolve J R reference =
     (let missing = (\<lambda>e. Inl (mk_error MC_EXIT_NOT_FOUND e ''resolve-container'' reference ''container not found'')) in
      case reference of
        None \<Rightarrow> missing 0
      | Some r \<Rightarrow>
          if r = [] then missing 0
          else if rg_opendir R \<noteq> 0 then missing (rg_opendir R)
          else (case filter (reference_matches J R r) (rg_entries R) of
              [] \<Rightarrow> missing 0
            | [cid] \<Rightarrow> Inr cid
            | _ \<Rightarrow> Inl (mk_error MC_EXIT_CONFLICT 0 ''resolve-container'' reference ''ambiguous container reference'')))"

definition mc_state_load_config ::
  "jsonc \<Rightarrow> registry \<Rightarrow> string option \<Rightarrow> mc_error + mc_run_config \<times> string" where
  "mc_state_load_config J R reference =
     (case mc_state_resolve J R reference of
        Inl e \<Rightarrow> Inl e
      | Inr cid \<Rightarrow> (case make_path (rg_dir R) (Some cid) ''config.json'' of
            None \<Rightarrow> Inl no_error
          | Some path \<Rightarrow>
              let root = file_json J R path;
                  invalid = mk_error MC_EXIT_RUNTIME EINVAL ''load-config'' (Some path)
                              ''stored container configuration is invalid'' in
              if root = JNull then Inl invalid
              else (case load_config_json J root of None \<Rightarrow> Inl invalid | Some r \<Rightarrow> Inr r)))"

section \<open>Address leases\<close>

definition leased_host :: "jsonc \<Rightarrow> json \<Rightarrow> nat option" where
  "leased_host J root =
     (case json_object_get root ''ipv4_host'' of
        None \<Rightarrow> None
      | Some v \<Rightarrow> let address = (word_of_int (jc_int64 J v) :: u32) in
          if address AND 0xffffff00 = 0x0a2c0000 then Some (unat (address AND 0xff)) else None)"

definition mark_used :: "jsonc \<Rightarrow> registry \<Rightarrow> bool list \<Rightarrow> string \<Rightarrow> bool list" where
  "mark_used J R used entry =
     (if hidden entry then used
      else case entry_json J R entry ''config.json'' of
        None \<Rightarrow> used
      | Some root \<Rightarrow> (case leased_host J root of None \<Rightarrow> used | Some n \<Rightarrow> used[n := True]))"

fun first_free :: "bool list \<Rightarrow> nat list \<Rightarrow> nat option" where
  "first_free used [] = None"
| "first_free used (index # rest) =
     (let candidate = 2 + index in if \<not> used ! candidate then Some candidate else first_free used rest)"

definition mc_state_allocate_ip :: "jsonc \<Rightarrow> registry \<Rightarrow> mc_error + u32" where
  "mc_state_allocate_ip J R =
     (if rg_opendir R \<noteq> 0 \<and> rg_opendir R \<noteq> ENOENT then
        Inl (mk_error MC_EXIT_RUNTIME (rg_opendir R) ''ipam'' (Some (snprintf_buf PATH_MAX (rg_dir R @ ''/containers'')))
               ''cannot inspect address leases'')
      else
        let used = (if rg_opendir R = 0 then foldl (mark_used J R) (replicate 256 False) (rg_entries R)
                    else replicate 256 False) in
        case first_free used [0..<253] of
          Some candidate \<Rightarrow> Inr (0x0a2c0000 OR word_of_nat candidate)
        | None \<Rightarrow> Inl (mk_error MC_EXIT_CONFLICT ENOSPC ''ipam'' (Some ''10.44.0.0/24'')
                        ''container address pool is exhausted''))"

section \<open>Lemmas: address leases\<close>

text \<open>The hosts leased by the entries of the registry.\<close>

definition entry_host :: "jsonc \<Rightarrow> registry \<Rightarrow> string \<Rightarrow> nat option" where
  "entry_host J R entry =
     (if hidden entry then None else Option.bind (entry_json J R entry ''config.json'') (leased_host J))"

definition leased_hosts :: "jsonc \<Rightarrow> registry \<Rightarrow> nat list" where
  "leased_hosts J R = (if rg_opendir R = 0 then List.map_filter (entry_host J R) (rg_entries R) else [])"

lemma mark_used_host:
  "mark_used J R used e = (case entry_host J R e of None \<Rightarrow> used | Some n \<Rightarrow> used[n := True])"
  by (auto simp: mark_used_def entry_host_def split: option.splits)

lemma nth_mark: "k < length used \<Longrightarrow> used[n := True] ! k \<longleftrightarrow> used ! k \<or> n = k"
  by (cases "n = k") simp_all

lemma foldl_mark_used:
  assumes "length used = 256"
  shows "length (foldl (mark_used J R) used es) = 256 \<and>
    (\<forall>k < 256. foldl (mark_used J R) used es ! k \<longleftrightarrow> used ! k \<or> k \<in> set (List.map_filter (entry_host J R) es))"
  using assms
proof (induction es arbitrary: used)
  case (Cons e es)
  have "length (mark_used J R used e) = 256"
    using Cons.prems by (simp add: mark_used_host split: option.splits)
  moreover have "mark_used J R used e ! k \<longleftrightarrow> used ! k \<or> entry_host J R e = Some k" if "k < 256" for k
    using that Cons.prems nth_mark [of k used] by (auto simp: mark_used_host split: option.splits)
  ultimately show ?case using Cons.IH [of "mark_used J R used e"]
    by (auto simp: map_filter_simps split: option.splits)
qed (simp add: map_filter_simps)

lemma below_split: "(i :: nat) + 2 \<le> k \<longleftrightarrow> k = 2 + i \<or> Suc i + 2 \<le> k"
  by auto

lemma first_free_step:
  assumes "i < m"
  shows "first_free used [i..<m] = (if \<not> used ! (2 + i) then Some (2 + i) else first_free used [Suc i..<m])"
  using assms by (simp add: upt_conv_Cons Let_def)

lemma first_free_Some:
  assumes "first_free used [i..<m] = Some n"
  shows "i + 2 \<le> n \<and> n < m + 2 \<and> \<not> used ! n \<and> (\<forall>k. i + 2 \<le> k \<and> k < n \<longrightarrow> used ! k)"
  using assms
proof (induction "m - i" arbitrary: i)
  case (Suc x)
  then have i: "i < m" by simp
  show ?case
  proof (cases "used ! (2 + i)")
    case True
    then have "first_free used [Suc i..<m] = Some n" using Suc.prems first_free_step [OF i] by simp
    then have *: "Suc i + 2 \<le> n \<and> n < m + 2 \<and> \<not> used ! n \<and> (\<forall>k. Suc i + 2 \<le> k \<and> k < n \<longrightarrow> used ! k)"
      using Suc.hyps(2) by (intro Suc.hyps(1)) auto
    then show ?thesis using True unfolding below_split [of i] by blast
  next
    case False
    then have "n = 2 + i" using Suc.prems first_free_step [OF i] by simp
    then show ?thesis using False i by auto
  qed
qed simp

lemma first_free_None: "first_free used [i..<m] = None \<longleftrightarrow> (\<forall>k. i + 2 \<le> k \<and> k < m + 2 \<longrightarrow> used ! k)"
proof (induction "m - i" arbitrary: i)
  case (Suc x)
  then have i: "i < m" by simp
  have "first_free used [i..<m] = None \<longleftrightarrow> used ! (2 + i) \<and> first_free used [Suc i..<m] = None"
    using first_free_step [OF i] by simp
  also have "\<dots> \<longleftrightarrow> used ! (2 + i) \<and> (\<forall>k. Suc i + 2 \<le> k \<and> k < m + 2 \<longrightarrow> used ! k)"
    using Suc.hyps by (subst Suc.hyps(1)) auto
  also have "\<dots> \<longleftrightarrow> (\<forall>k. i + 2 \<le> k \<and> k < m + 2 \<longrightarrow> used ! k)"
    using i unfolding below_split [of i] by auto
  finally show ?case .
qed auto

lemma pool_address:
  assumes "n < 256"
  shows "unat (0x0a2c0000 OR word_of_nat n :: u32) = 0x0a2c0000 + n"
    "(0x0a2c0000 OR word_of_nat n :: u32) AND 0xffffff00 = 0x0a2c0000"
    "unat ((0x0a2c0000 OR word_of_nat n :: u32) AND 0xff) = n"
proof -
  let ?w = "word_of_nat n :: u32"
  have w: "unat ?w = n" "take_bit 8 ?w = ?w" using assms
    by (simp_all add: word_unat_eq_iff unsigned_take_bit_eq unsigned_of_nat take_bit_nat_eq_self)
  have bits: "i < 8" if "bit ?w i" for i
    using that w(2) bit_take_bit_iff [of 8 ?w i] by simp
  have base: "\<not> bit (0x0a2c0000 :: u32) i" if "i < 8" for i
    using that by (auto simp: less_Suc_eq numeral_eq_Suc)
  have "0x0a2c0000 OR ?w = 0x0a2c0000 + ?w"
    using bits base by (intro disjunctive_add [symmetric]) blast
  then show "unat (0x0a2c0000 OR ?w) = 0x0a2c0000 + n"
    using w(1) assms by (simp add: unat_word_ariths)
  have high: "?w AND 0xffffff00 = 0"
    using bits by (intro bit_word_eqI) (auto simp: bit_and_iff less_Suc_eq numeral_eq_Suc dest!: bits)
  have low: "?w AND 0xff = ?w" using w(2) by (simp add: take_bit_eq_mask mask_eq_exp_minus_1)
  show "(0x0a2c0000 OR ?w) AND 0xffffff00 = 0x0a2c0000"
    by (simp add: bit.conj_disj_distrib2 high)
  show "unat ((0x0a2c0000 OR ?w) AND 0xff) = n"
    by (simp add: bit.conj_disj_distrib2 low w(1))
qed

lemma allocate_ip_cases:
  assumes "rg_opendir R = 0 \<or> rg_opendir R = ENOENT"
  shows "(\<exists>n. 2 \<le> n \<and> n \<le> 254 \<and> n \<notin> set (leased_hosts J R) \<and> (\<forall>k. 2 \<le> k \<and> k < n \<longrightarrow> k \<in> set (leased_hosts J R)) \<and>
           mc_state_allocate_ip J R = Inr (0x0a2c0000 OR word_of_nat n)) \<or>
         (\<forall>k. 2 \<le> k \<and> k \<le> 254 \<longrightarrow> k \<in> set (leased_hosts J R)) \<and>
         (\<exists>e. mc_state_allocate_ip J R = Inl e \<and> err_code e = exit_value MC_EXIT_CONFLICT)"
proof -
  define used where "used = (if rg_opendir R = 0 then foldl (mark_used J R) (replicate 256 False) (rg_entries R)
                    else replicate 256 False)"
  have used: "used ! k \<longleftrightarrow> k \<in> set (leased_hosts J R)" if "k < 256" for k
    using foldl_mark_used [of "replicate 256 False" J R "rg_entries R"] that
    by (auto simp: used_def leased_hosts_def)
  have alloc: "mc_state_allocate_ip J R = (case first_free used [0..<253] of
      Some candidate \<Rightarrow> Inr (0x0a2c0000 OR word_of_nat candidate)
    | None \<Rightarrow> Inl (mk_error MC_EXIT_CONFLICT ENOSPC ''ipam'' (Some ''10.44.0.0/24'') ''container address pool is exhausted''))"
    using assms by (auto simp: mc_state_allocate_ip_def used_def Let_def)
  show ?thesis
  proof (cases "first_free used [0..<253]")
    case None
    then show ?thesis using first_free_None [of used 0 253] alloc used by auto
  next
    case (Some n)
    then show ?thesis using first_free_Some [OF Some] alloc used
      by (intro disjI1 exI [of _ n]) auto
  qed
qed

text \<open>
  C37: The address pool is handed out first-fit: the result is the lowest host number from 2 to 254 that
  no stored configuration leases, in network 10.44.0.0/24; the operation fails with a conflict exactly
  when all 253 numbers are leased.
\<close>

theorem allocate_ip_first_fit:
  assumes "rg_opendir R = 0 \<or> rg_opendir R = ENOENT"
  shows "case mc_state_allocate_ip J R of
      Inr a \<Rightarrow> (\<exists>n. 2 \<le> n \<and> n \<le> 254 \<and> n \<notin> set (leased_hosts J R) \<and>
                (\<forall>k. 2 \<le> k \<and> k < n \<longrightarrow> k \<in> set (leased_hosts J R)) \<and> unat a = 0x0a2c0000 + n)
    | Inl e \<Rightarrow> err_code e = exit_value MC_EXIT_CONFLICT \<and> (\<forall>k. 2 \<le> k \<and> k \<le> 254 \<longrightarrow> k \<in> set (leased_hosts J R))"
  using allocate_ip_cases [OF assms, of J]
proof
  assume "\<exists>n. 2 \<le> n \<and> n \<le> 254 \<and> n \<notin> set (leased_hosts J R) \<and> (\<forall>k. 2 \<le> k \<and> k < n \<longrightarrow> k \<in> set (leased_hosts J R)) \<and>
           mc_state_allocate_ip J R = Inr (0x0a2c0000 OR word_of_nat n)"
  then obtain n where n: "2 \<le> n" "n \<le> 254" "n \<notin> set (leased_hosts J R)" "\<forall>k. 2 \<le> k \<and> k < n \<longrightarrow> k \<in> set (leased_hosts J R)"
      "mc_state_allocate_ip J R = Inr (0x0a2c0000 OR word_of_nat n)" by blast
  then show ?thesis using pool_address [of n] by auto
qed auto

theorem allocate_ip_first_fit_witness:
  "mc_state_allocate_ip jsonc_ref \<lparr>rg_dir = ''/s'', rg_opendir = ENOENT, rg_entries = [], rg_disk = example_disk\<rparr>
     = Inr 0x0a2c0002"
proof -
  define R where "R = \<lparr>rg_dir = ''/s'', rg_opendir = ENOENT, rg_entries = [], rg_disk = example_disk\<rparr>"
  have R: "leased_hosts jsonc_ref R = []" "rg_opendir R = 0 \<or> rg_opendir R = ENOENT"
    by (simp_all add: R_def leased_hosts_def)
  have first_fit: "case mc_state_allocate_ip jsonc_ref R of
      Inr a \<Rightarrow> (\<exists>n. 2 \<le> n \<and> n \<le> 254 \<and> (\<forall>k. \<not> (2 \<le> k \<and> k < n)) \<and> unat a = 0x0a2c0000 + n)
    | Inl e \<Rightarrow> err_code e = exit_value MC_EXIT_CONFLICT \<and> (\<forall>k. \<not> (2 \<le> k \<and> k \<le> (254 :: nat)))"
    using allocate_ip_first_fit [OF R(2), of jsonc_ref] by (simp only: R(1) list.set empty_iff not_False_eq_True simp_thms)
  show ?thesis
  proof (cases "mc_state_allocate_ip jsonc_ref R")
    case (Inl e)
    then have "\<forall>k. \<not> (2 \<le> k \<and> k \<le> (254 :: nat))" using first_fit by simp
    then have "\<not> (2 \<le> (2 :: nat) \<and> (2 :: nat) \<le> 254)" by (rule spec)
    then show ?thesis by simp
  next
    case (Inr a)
    then obtain n where n: "2 \<le> n" "\<forall>k. \<not> (2 \<le> k \<and> k < n)" "unat a = 0x0a2c0000 + n" using first_fit by auto
    have "n = 2" using n(1) n(2) [rule_format, of 2] by simp
    then have "a = 0x0a2c0002" using n(3) by (simp add: word_unat_eq_iff)
    then show ?thesis using Inr by (simp add: R_def)
  qed
qed

section \<open>Lemmas: files of the registry\<close>

definition entry_path :: "registry \<Rightarrow> string \<Rightarrow> string \<Rightarrow> string" where
  "entry_path R e leaf = rg_dir R @ ''/containers/'' @ e @ ''/'' @ leaf"

definition entry_ok :: "string \<Rightarrow> bool" where
  "entry_ok e \<longleftrightarrow> e \<noteq> [] \<and> \<not> hidden e \<and> CHR ''/'' \<notin> set e \<and> length e \<le> 255"

text \<open>A registry whose paths fit the buffers, with room for the temporary names of \<open>mc_write_atomic\<close>.
  \<open>readdir\<close> also lists hidden names, which every operation skips; \<open>rg_entries\<close> may contain them.\<close>

definition registry_ok :: "registry \<Rightarrow> bool" where
  "registry_ok R \<longleftrightarrow> disk_wf (rg_disk R) \<and> length (rg_dir R) \<le> 3700 \<and> distinct (rg_entries R) \<and>
     list_all (\<lambda>e. hidden e \<or> entry_ok e) (rg_entries R)"

text \<open>File names of the registry: neither too long nor the name of a temporary file.\<close>

definition leaf_ok :: "string \<Rightarrow> bool" where
  "leaf_ok leaf \<longleftrightarrow> leaf \<noteq> [] \<and> CHR ''/'' \<notin> set leaf \<and> length leaf \<le> 64 \<and> \<not> isdigit (last leaf)"

lemma leaf_ok_json [simp]: "leaf_ok ''config.json''" "leaf_ok ''state.json''"
  by (simp_all add: leaf_ok_def ctype_defs)

lemma entry_path_length:
  "length (rg_dir R) \<le> 3700 \<Longrightarrow> entry_ok e \<Longrightarrow> length leaf \<le> 64 \<Longrightarrow> length (entry_path R e leaf) \<le> 4032"
  by (simp add: entry_path_def entry_ok_def)

lemma make_path_entry:
  assumes "length (rg_dir R) \<le> 3700" "entry_ok e" "length leaf \<le> 64"
  shows "make_path (rg_dir R) (Some e) leaf = Some (entry_path R e leaf)"
  using entry_path_length [OF assms] by (simp add: make_path_def entry_path_def)

lemma entry_path_inj:
  assumes "entry_ok e" "leaf_ok leaf" "entry_path R e leaf = entry_path R e' leaf'"
    and "entry_ok e'" "leaf_ok leaf'"
  shows "e = e' \<and> leaf = leaf'"
  using assms append_Cons_eq_iff [of "CHR ''/''" e leaf e' leaf'] by (auto simp: entry_path_def entry_ok_def leaf_ok_def)

text \<open>Process ids have at most seven digits.\<close>

lemma temporary_path_digit:
  assumes "length path \<le> 4032" "pid \<le> 4194304"
  shows "temporary_path path pid \<noteq> [] \<and> isdigit (last (temporary_path path pid))"
proof -
  have "length (show_nat pid) \<le> 7" using assms(2) by (intro length_show_nat) simp_all
  then have "temporary_path path pid = path @ ''.tmp.'' @ show_nat pid"
    using assms(1) by (simp add: temporary_path_def)
  moreover have "isdigit (last (show_nat pid))" using show_nat_digits last_in_set [OF show_nat_nonempty(1)] by blast
  ultimately show ?thesis by simp
qed

text \<open>Writing a file of the registry changes that file and a temporary one.\<close>

lemma registry_write_frame:
  assumes "disk_wf (rg_disk R)" "length path \<le> 4032" "we_pid W \<le> 4194304"
    and "registry_write W path data R = (R', r)"
  shows "rg_dir R' = rg_dir R \<and> rg_entries R' = rg_entries R \<and> rg_opendir R' = rg_opendir R"
    and "disk_wf (rg_disk R')"
    and "p \<noteq> path \<Longrightarrow> p = [] \<or> \<not> isdigit (last p) \<Longrightarrow> disk_read (rg_disk R') p = disk_read (rg_disk R) p"
    and "disk_read (rg_disk R') path \<in> {disk_read (rg_disk R) path, Some data}"
    and "r = Some (Inr ()) \<Longrightarrow> disk_read (rg_disk R') path = Some data"
proof -
  obtain trace where w: "mc_write_atomic W path data (rg_disk R) = (trace, r)"
    and R': "R' = R\<lparr>rg_disk := last (rg_disk R # trace)\<rparr>"
    using assms(4) by (auto simp: registry_write_def split: prod.splits)
  have len: "length path < 4095" using assms(2) by simp
  have t: "p \<noteq> temporary_path path (we_pid W)" if "p = [] \<or> \<not> isdigit (last p)" for p
    using that temporary_path_digit [OF assms(2,3)] by auto
  show "rg_dir R' = rg_dir R \<and> rg_entries R' = rg_entries R \<and> rg_opendir R' = rg_opendir R" by (simp add: R')
  show "disk_wf (rg_disk R')" using write_atomic_others(1) [OF assms(1) len w] by (simp add: R')
  show "p \<noteq> path \<Longrightarrow> p = [] \<or> \<not> isdigit (last p) \<Longrightarrow> disk_read (rg_disk R') p = disk_read (rg_disk R) p"
    using write_atomic_others(2) [OF assms(1) len w] t by (simp add: R')
  show "disk_read (rg_disk R') path \<in> {disk_read (rg_disk R) path, Some data}"
    using write_atomic_reads [OF assms(1) len w] by (simp add: R')
  show "r = Some (Inr ()) \<Longrightarrow> disk_read (rg_disk R') path = Some data"
    using write_atomic_success [OF assms(1) len, of W data trace] w by (simp add: R')
qed

text \<open>What an operation on the entry \<open>cid\<close> may do: it keeps the registry in order, adds at most that
  entry, and leaves all files but those in \<open>leaves\<close> of that entry alone.\<close>

definition touches :: "string \<Rightarrow> string set \<Rightarrow> registry \<Rightarrow> registry \<Rightarrow> bool" where
  "touches cid leaves R R' \<longleftrightarrow>
     registry_ok R' \<and> rg_dir R' = rg_dir R \<and> set (rg_entries R') - {cid} = set (rg_entries R) - {cid} \<and>
     (\<forall>e leaf. entry_ok e \<longrightarrow> leaf_ok leaf \<longrightarrow> \<not> (e = cid \<and> leaf \<in> leaves) \<longrightarrow>
        disk_read (rg_disk R') (entry_path R e leaf) = disk_read (rg_disk R) (entry_path R e leaf))"

lemma touches_refl: "registry_ok R \<Longrightarrow> touches cid leaves R R"
  by (simp add: touches_def)

lemma entry_path_dir: "rg_dir R' = rg_dir R \<Longrightarrow> entry_path R' = entry_path R"
  by (auto simp: entry_path_def fun_eq_iff)

lemma touches_trans:
  assumes "touches cid A R R'" "touches cid B R' R''"
  shows "touches cid (A \<union> B) R R''"
  using assms entry_path_dir [of R' R] by (auto simp: touches_def)

lemma touches_add_entry: "registry_ok R \<Longrightarrow> entry_ok cid \<Longrightarrow> touches cid {} R (add_entry cid R)"
  by (auto simp: touches_def add_entry_def registry_ok_def)

lemma touches_write:
  assumes "registry_ok R" "entry_ok cid" "leaf_ok leaf" "we_pid W \<le> 4194304"
    and "registry_write W (entry_path R cid leaf) data R = (R', r)"
  shows "touches cid {leaf} R R'"
proof -
  have R: "disk_wf (rg_disk R)" "length (rg_dir R) \<le> 3700" using assms(1) by (simp_all add: registry_ok_def)
  have len: "length (entry_path R cid leaf) \<le> 4032"
    using entry_path_length [OF R(2) assms(2)] assms(3) by (simp add: leaf_ok_def)
  note w = registry_write_frame [OF R(1) len assms(4,5)]
  have "disk_read (rg_disk R') (entry_path R e l) = disk_read (rg_disk R) (entry_path R e l)"
    if "entry_ok e" "leaf_ok l" "\<not> (e = cid \<and> l = leaf)" for e l
  proof (rule w(3))
    show "entry_path R e l \<noteq> entry_path R cid leaf" using entry_path_inj [OF that(1,2) _ assms(2,3)] that(3) by blast
    show "entry_path R e l = [] \<or> \<not> isdigit (last (entry_path R e l))"
      using that(2) by (simp add: leaf_ok_def entry_path_def)
  qed
  then show ?thesis using w(1,2) assms(1) by (auto simp: touches_def registry_ok_def)
qed

lemma entry_mkdir_cases:
  assumes "entry_mkdir mk R cid directory = (R', r)"
  shows "R' \<in> {R, add_entry cid R}"
  using assms by (auto simp: entry_mkdir_def)

lemma entry_mkdir_made:
  assumes "entry_mkdir mk R cid (entry_path R cid []) = (R', None)"
  shows "R' = add_entry cid R"
proof -
  let ?d = "rg_dir R @ ''/containers/'' @ cid"
  have d: "entry_path R cid [] = ?d @ ''/''" by (simp add: entry_path_def)
  have "mc_mkdir_p mk (?d @ ''/'') = None"
    using arg_cong [OF assms, of snd] unfolding entry_mkdir_def snd_conv d .
  then have "mc_mkdir_p mk ?d = None" by (rule mkdir_p_slash) simp
  moreover have "butlast (?d @ ''/'') = ?d" by (rule butlast_snoc)
  ultimately show ?thesis
    using arg_cong [OF assms, of fst] unfolding entry_mkdir_def fst_conv d by (simp only: if_True refl)
qed

section \<open>Lemmas: saving and loading\<close>

lemma save_config_cases:
  assumes "length (rg_dir R) \<le> 3700" "cfg_id c = Some cid" "entry_ok cid"
    and "mc_state_save_config J S R c img = (R', r)"
  obtains (refused) "R' \<in> {R, add_entry cid R}" "\<exists>e. r = Some (Inl e)"
  | (written) "\<not> name_is_taken J R (cfg_name c) cid" "\<not> published_port_is_taken J R c"
      "list_all (host_port_is_available (se_socket S) (se_bind S)) (cfg_publishes c)"
      "registry_write (se_write S (entry_path R cid ''config.json'')) (entry_path R cid ''config.json'')
         (jc_print J (config_json (se_build S) c img)) (add_entry cid R) = (R', r)"
proof -
  obtain R1 q where mk: "entry_mkdir (se_mkdir S) R cid (entry_path R cid []) = (R1, q)" by (metis surj_pair)
  have paths: "make_path (rg_dir R) (Some cid) [] = Some (entry_path R cid [])"
    "make_path (rg_dir R) (Some cid) ''config.json'' = Some (entry_path R cid ''config.json'')"
    using make_path_entry [OF assms(1,3)] by simp_all
  note eq = assms(4) [unfolded mc_state_save_config_def assms(2) option.sel Let_def paths mk prod.case option.case]
  show thesis
  proof (cases "name_is_taken J R (cfg_name c) cid \<or> published_port_is_taken J R c \<or>
      list_ex (\<lambda>p. \<not> host_port_is_available (se_socket S) (se_bind S) p) (cfg_publishes c)")
    case True
    show thesis using eq True by (intro refused) (auto split: if_splits)
  next
    case False
    show thesis
    proof (cases q)
      case None
      then have "R1 = add_entry cid R" using entry_mkdir_made mk by simp
      then show thesis using eq False None
        by (intro written) (auto simp: list_ex_iff list_all_iff split: if_splits)
    next
      case (Some e)
      then show thesis using eq False entry_mkdir_cases [OF mk] by (intro refused) (auto split: if_splits)
    qed
  qed
qed

lemma entry_path_add_entry [simp]: "entry_path (add_entry e R) = entry_path R"
  by (rule entry_path_dir) (simp add: add_entry_def)

lemma add_entry_simps [simp]:
  "rg_disk (add_entry e R) = rg_disk R" "rg_dir (add_entry e R) = rg_dir R"
  "set (rg_entries (add_entry e R)) = insert e (set (rg_entries R))"
  "rg_opendir (add_entry e R) = (if rg_opendir R = ENOENT then 0 else rg_opendir R)"
  by (auto simp: add_entry_def)

lemma registry_ok_add_entry: "registry_ok R \<Longrightarrow> entry_ok e \<Longrightarrow> registry_ok (add_entry e R)"
  using touches_add_entry by (simp add: touches_def)

text \<open>Saving a configuration touches one file; afterwards it holds the old text, or the new one, in
  which case the name and the ports were free.\<close>

lemma save_config_effect:
  assumes "registry_ok R" "cfg_id c = Some cid" "entry_ok cid" "\<And>p. we_pid (se_write S p) \<le> 4194304"
    and "mc_state_save_config J S R c img = (R', r)"
  defines "path \<equiv> entry_path R cid ''config.json''"
    and "new \<equiv> Some (jc_print J (config_json (se_build S) c img))"
  shows "touches cid {''config.json''} R R'"
    and "disk_read (rg_disk R') path = disk_read (rg_disk R) path \<or>
         disk_read (rg_disk R') path = new \<and> \<not> name_is_taken J R (cfg_name c) cid \<and> \<not> published_port_is_taken J R c"
    and "r = Some (Inr ()) \<Longrightarrow> disk_read (rg_disk R') path = new \<and> cid \<in> set (rg_entries R') \<and>
         rg_opendir R' = rg_opendir (add_entry cid R)"
    and "rg_opendir R' \<in> {rg_opendir R, rg_opendir (add_entry cid R)}"
proof -
  have dir: "length (rg_dir R) \<le> 3700" using assms(1) by (simp add: registry_ok_def)
  note R1 = registry_ok_add_entry [OF assms(1,3)] touches_add_entry [OF assms(1,3)]
  have path: "path = entry_path (add_entry cid R) cid ''config.json''" "length path \<le> 4032"
    using entry_path_length [OF dir assms(3)] by (simp_all add: path_def)
  have "touches cid {''config.json''} R R' \<and>
    (disk_read (rg_disk R') path = disk_read (rg_disk R) path \<or>
     disk_read (rg_disk R') path = new \<and> \<not> name_is_taken J R (cfg_name c) cid \<and> \<not> published_port_is_taken J R c) \<and>
    (r = Some (Inr ()) \<longrightarrow> disk_read (rg_disk R') path = new \<and> cid \<in> set (rg_entries R') \<and>
       rg_opendir R' = rg_opendir (add_entry cid R)) \<and> rg_opendir R' \<in> {rg_opendir R, rg_opendir (add_entry cid R)}"
    using dir assms(2,3,5)
  proof (cases rule: save_config_cases)
    case refused
    then show ?thesis using touches_trans [OF touches_refl [OF assms(1)] R1(2)] assms(1) R1(2)
      by (auto simp: touches_def)
  next
    case written
    have w: "registry_write (se_write S path) path (jc_print J (config_json (se_build S) c img)) (add_entry cid R) = (R', r)"
      using written(4) by (simp add: path_def)
    have wf: "disk_wf (rg_disk (add_entry cid R))" using R1(1) by (simp add: registry_ok_def)
    have "touches cid {''config.json''} (add_entry cid R) R'"
      using touches_write [OF R1(1) assms(3) _ assms(4)] w by (simp add: path(1))
    from touches_trans [OF R1(2) this] have "touches cid {''config.json''} R R'" by simp
    then show ?thesis
      using registry_write_frame(1,4,5) [OF wf path(2) assms(4) w] written(1,2) by (auto simp: new_def)
  qed
  then show "touches cid {''config.json''} R R'"
    "disk_read (rg_disk R') path = disk_read (rg_disk R) path \<or>
         disk_read (rg_disk R') path = new \<and> \<not> name_is_taken J R (cfg_name c) cid \<and> \<not> published_port_is_taken J R c"
    "r = Some (Inr ()) \<Longrightarrow> disk_read (rg_disk R') path = new \<and> cid \<in> set (rg_entries R') \<and>
         rg_opendir R' = rg_opendir (add_entry cid R)"
    "rg_opendir R' \<in> {rg_opendir R, rg_opendir (add_entry cid R)}"
    by blast+
qed

lemma filter_single: "distinct xs \<Longrightarrow> x \<in> set xs \<Longrightarrow> filter (\<lambda>y. y = x) xs = [x]"
  by (induction xs) (auto simp: filter_empty_conv)

lemma file_json_print:
  assumes "jsonc_ok J" "json_wf j" "json_depth j < 32" "disk_read (rg_disk R) path = Some (jc_print J j)"
  shows "file_json J R path = j"
  using assms by (simp add: file_json_def jsonc_ok_parse)

text \<open>A full identifier stands for its entry alone, unless another container has it as its name.\<close>

lemma resolve_identifier:
  assumes "registry_ok R" "rg_opendir R = 0" "cid \<in> set (rg_entries R)" "length cid = 32" "entry_ok cid"
    and "\<And>e root. e \<in> set (rg_entries R) \<Longrightarrow> e \<noteq> cid \<Longrightarrow> \<not> hidden e \<Longrightarrow> entry_json J R e ''config.json'' = Some root \<Longrightarrow>
           config_name J root \<noteq> Some cid"
  shows "mc_state_resolve J R (Some cid) = Inr cid"
proof -
  have "reference_matches J R cid e \<longleftrightarrow> e = cid" if "e \<in> set (rg_entries R)" for e
  proof (cases "e = cid")
    case True
    then show ?thesis using assms(4,5) by (simp add: reference_matches_def strncmp_eq_def entry_ok_def)
  next
    case False
    then show ?thesis using assms(6) [OF that False] assms(4)
      by (auto simp: reference_matches_def strncmp_eq_def split: option.splits)
  qed
  then have "filter (reference_matches J R cid) (rg_entries R) = filter (\<lambda>e. e = cid) (rg_entries R)"
    by (intro filter_cong) auto
  also have "\<dots> = [cid]"
    using assms(1,3) by (intro filter_single) (simp_all add: registry_ok_def)
  finally show ?thesis using assms(2,5) by (simp add: mc_state_resolve_def Let_def entry_ok_def)
qed

text \<open>
  Saving and loading. When a configuration has been saved, loading it by its identifier returns it,
  except for the two fields of a single start, as long as no other container has that identifier as its
  name.
\<close>

theorem save_then_load:
  assumes "jsonc_ok J" "config_storable c" "registry_ok R" "rg_opendir R = 0 \<or> rg_opendir R = ENOENT"
    and "cfg_id c = Some cid" "entry_ok cid" "length cid = 32" "\<And>p. we_pid (se_write S p) \<le> 4194304"
    and "mc_state_save_config J S R c img = (R', Some (Inr ()))"
    and "\<And>e root. e \<in> set (rg_entries R) \<Longrightarrow> e \<noteq> cid \<Longrightarrow> \<not> hidden e \<Longrightarrow> entry_json J R e ''config.json'' = Some root \<Longrightarrow>
           config_name J root \<noteq> Some cid"
  shows "mc_state_load_config J R' (Some cid) =
    Inr (c\<lparr>cfg_detach := False, cfg_ready_fd := - 1\<rparr>, snprintf_buf PATH_MAX img)"
proof -
  note eff = save_config_effect [OF assms(3,5,6,8,9)]
  have R': "registry_ok R'" "rg_dir R' = rg_dir R" "rg_opendir R' = 0" "cid \<in> set (rg_entries R')"
    "entry_path R' = entry_path R"
    using eff(1,3) assms(4) entry_path_dir [of R' R] by (auto simp: touches_def)
  have dir: "length (rg_dir R) \<le> 3700" using assms(3) by (simp add: registry_ok_def)
  let ?root = "config_json (se_build S) c img"
  have wf: "json_wf ?root" "json_depth ?root < 32"
    using assms(2) config_json_wf by (auto simp: config_storable_def)
  have root: "file_json J R' (entry_path R cid ''config.json'') = ?root"
    using eff(3) by (intro file_json_print [OF assms(1) wf]) simp
  have "mc_state_resolve J R' (Some cid) = Inr cid"
  proof (rule resolve_identifier [OF R'(1,3,4) assms(7,6)])
    fix e root assume e: "e \<in> set (rg_entries R')" "e \<noteq> cid" "\<not> hidden e" "entry_json J R' e ''config.json'' = Some root"
    have "entry_ok e" using e(1,3) R'(1) by (auto simp: registry_ok_def list_all_iff)
    then have "entry_json J R e ''config.json'' = Some root"
      using e(2,4) eff(1) make_path_entry [OF dir, of e "''config.json''"] R'(2,5)
      by (auto simp: entry_json_def file_json_def touches_def)
    moreover have "e \<in> set (rg_entries R)" using e(1,2) eff(1) by (auto simp: touches_def)
    ultimately show "config_name J root \<noteq> Some cid" using assms(10) e(2,3) by blast
  qed
  then show ?thesis
    using root make_path_entry [OF dir assms(6), of "''config.json''"] R'(2) load_config_json_roundtrip [OF assms(1,2)]
    by (simp add: mc_state_load_config_def Let_def) (simp add: config_json_def)
qed

lemma registry_write_result: "snd (registry_write W path data R) = snd (mc_write_atomic W path data (rg_disk R))"
  by (simp add: registry_write_def case_prod_beta)

definition example_registry :: registry where
  "example_registry = \<lparr>rg_dir = ''/s'', rg_opendir = ENOENT, rg_entries = [], rg_disk = example_disk\<rparr>"

text \<open>An environment in which every call succeeds and a write takes all of its \<open>n\<close> bytes at once.\<close>

definition example_store_env :: "nat \<Rightarrow> store_env" where
  "example_store_env n =
     \<lparr>se_build = \<lparr>bi_now = 0, bi_version = ''1'', bi_commit = ''c''\<rparr>, se_mkdir = (\<lambda>_. 0),
      se_write = (\<lambda>_. example_write_env\<lparr>we_write := [Inr n]\<rparr>), se_socket = (\<lambda>_. True), se_bind = (\<lambda>_ _ _. True)\<rparr>"

lemma write_loop_once: "snd (snd (write_loop [Inr (length data)] i data D)) = Some (Inr ())"
  by (cases data) (simp_all add: Let_def)

lemma write_atomic_once:
  assumes "dk_dir D (temporary_path path 42) = None" "length path < PATH_MAX"
  shows "snd (mc_write_atomic (example_write_env\<lparr>we_write := [Inr (length data)]\<rparr>) path data D) = Some (Inr ())"
proof -
  obtain tr D2 where "write_loop [Inr (length data)] (dk_next D) data (disk_create (temporary_path path 42) D) = (tr, D2, Some (Inr ()))"
    using write_loop_once [of data "dk_next D"] by (metis prod.collapse)
  moreover have "length (temporary_path path 42) < PATH_MAX" by (simp add: temporary_path_def length_snprintf_buf)
  ultimately show ?thesis using assms by (simp add: mc_write_atomic_def example_write_env_def sync_parent_def Let_def)
qed

lemma example_save:
  fixes J :: jsonc
  defines "n \<equiv> length (jc_print J (config_json (se_build (example_store_env 0)) example_stored ''web''))"
  shows "snd (mc_state_save_config J (example_store_env n) example_registry example_stored ''web'') = Some (Inr ())"
proof -
  have build: "se_build (example_store_env n) = se_build (example_store_env 0)" by (simp add: example_store_env_def)
  have free: "\<not> name_is_taken J example_registry (cfg_name example_stored) (the (cfg_id example_stored))"
    "\<not> published_port_is_taken J example_registry example_stored"
    "\<not> list_ex (\<lambda>p. \<not> host_port_is_available (se_socket (example_store_env n)) (se_bind (example_store_env n)) p)
        (cfg_publishes example_stored)"
    by (simp_all add: name_is_taken_def published_port_is_taken_def registry_any_def example_registry_def
        example_stored_def host_port_is_available_def example_store_env_def Let_def)
  let ?cid = "''0123456789abcdef0123456789abcdef''"
  have paths: "make_path (rg_dir example_registry) (Some ?cid) [] = Some (''/s/containers/'' @ ?cid @ ''/'')"
    "make_path (rg_dir example_registry) (Some ?cid) ''config.json'' = Some (''/s/containers/'' @ ?cid @ ''/config.json'')"
    by (simp_all add: make_path_def example_registry_def)
  have mk: "mc_mkdir_p (se_mkdir (example_store_env n)) p = None" if "length p < 4096" for p
    using that by (simp add: mkdir_p_None example_store_env_def list_all_iff)
  have "dk_dir example_disk (temporary_path (''/s/containers/'' @ ?cid @ ''/config.json'') 42) = None"
    by (simp add: temporary_path_def snprintf_buf_def show_nat.simps [of 42] show_nat.simps [of 4] example_disk_def)
  then have "snd (mc_write_atomic (example_write_env\<lparr>we_write := [Inr n]\<rparr>) (''/s/containers/'' @ ?cid @ ''/config.json'')
      (jc_print J (config_json (se_build (example_store_env 0)) example_stored ''web'')) example_disk) = Some (Inr ())"
    unfolding n_def by (intro write_atomic_once) simp_all
  moreover have "rg_disk example_registry = example_disk" "the (cfg_id example_stored) = ?cid"
    "se_write (example_store_env n) p = example_write_env\<lparr>we_write := [Inr n]\<rparr>" for p
    by (simp_all add: example_registry_def example_stored_def example_store_env_def)
  ultimately show ?thesis
    using free paths mk
    by (simp add: mc_state_save_config_def Let_def build entry_mkdir_def registry_write_def case_prod_beta)
qed

lemma example_registry_ok: "registry_ok example_registry"
  by (simp add: registry_ok_def example_registry_def example_disk_ok)

theorem save_then_load_witness:
  "\<exists>n. \<exists>R'. mc_state_save_config jsonc_ref (example_store_env n) example_registry example_stored ''web'' = (R', Some (Inr ())) \<and>
     mc_state_load_config jsonc_ref R' (cfg_id example_stored) =
       Inr (example_stored\<lparr>cfg_detach := False, cfg_ready_fd := - 1\<rparr>, ''web'')"
proof -
  let ?cid = "''0123456789abcdef0123456789abcdef''"
  obtain n R' where save: "mc_state_save_config jsonc_ref (example_store_env n) example_registry example_stored ''web'' = (R', Some (Inr ()))"
    using example_save [of jsonc_ref] by (metis prod.collapse)
  have c: "cfg_id example_stored = Some ?cid" by (simp add: example_stored_def)
  have env: "\<And>p. we_pid (se_write (example_store_env n) p) \<le> 4194304"
    by (simp add: example_store_env_def example_write_env_def)
  have "mc_state_load_config jsonc_ref R' (Some ?cid) =
      Inr (example_stored\<lparr>cfg_detach := False, cfg_ready_fd := - 1\<rparr>, snprintf_buf PATH_MAX ''web'')"
    by (rule save_then_load [OF jsonc_ref_ok example_storable example_registry_ok _ c _ _ env save])
      (simp_all add: example_registry_def entry_ok_def hidden_def)
  then show ?thesis using save c by auto
qed

end
