(* ===== verification/MC_Proc.thy ===== *)
theory MC_Proc
  imports MC_Error
begin

text \<open>
  Process identity: \<open>process_start_time\<close> of \<open>src/state/store.c\<close>, which \<open>src/linux/container.c\<close> repeats
  twice inside \<open>write_state\<close>. A process is identified by its number and its start time, field 22 of
  \<open>/proc/PID/stat\<close>. The line is cut at the last closing parenthesis, since the command name before it
  may contain blanks and parentheses; the main result is that the field is found for every such name.
\<close>

section \<open>Definitions\<close>

text \<open>\<open>fgets\<close> into a buffer of \<open>n\<close> bytes: the first line with its newline, cut to the buffer.\<close>

definition fgets :: "nat \<Rightarrow> string \<Rightarrow> string option" where
  "fgets n txt =
     (if txt = [] then None
      else Some (take (min (n - 1) (Suc (length (takeWhile (\<lambda>c. c \<noteq> CHR 0x0A) txt)))) txt))"

text \<open>The loop over the tokens: from field 3 to field 22 or the end of the line.\<close>

fun nth_token :: "string list \<Rightarrow> nat \<Rightarrow> string option" where
  "nth_token [] field = None"
| "nth_token (token # rest) field = (if field < 22 then nth_token rest (Suc field) else Some token)"

text \<open>The number of the line in \<open>/proc/PID/stat\<close>; 0 when the field is missing. Behind the parenthesis
  the code skips two characters; for a line that ends there it would read behind the terminator, which
  the model takes as the end of the line.\<close>

definition stat_start_time :: "string \<Rightarrow> u64" where
  "stat_start_time line =
     (case strrchr line CHR '')'' of
        None \<Rightarrow> 0
      | Some rest \<Rightarrow> (case nth_token (strtok_all (\<lambda>c. c = CHR '' '') (drop 2 rest)) 3 of
            None \<Rightarrow> 0 | Some token \<Rightarrow> st_val (strtoull token)))"

text \<open>The file system \<open>/proc\<close> is the parameter \<open>proc\<close>: the text of \<open>/proc/PID/stat\<close>, if it can be read.\<close>

definition process_start_time :: "(int \<Rightarrow> string option) \<Rightarrow> int \<Rightarrow> u64" where
  "process_start_time proc pid =
     (case Option.bind (proc pid) (fgets 4096) of None \<Rightarrow> 0 | Some line \<Rightarrow> stat_start_time line)"

text \<open>A recorded identity is current when the process exists with that start time.\<close>

definition identity_current :: "(int \<Rightarrow> string option) \<Rightarrow> int \<Rightarrow> u64 \<Rightarrow> bool" where
  "identity_current proc pid start \<longleftrightarrow> pid > 0 \<and> start \<noteq> 0 \<and> process_start_time proc pid = start"

text \<open>A cast of a 64-bit number to \<open>pid_t\<close> keeps the low 32 bits.\<close>

definition to_pid :: "int \<Rightarrow> int" where
  "to_pid n = sint (word_of_int n :: u32)"

section \<open>Lemmas\<close>

text \<open>Fields separated by single blanks.\<close>

fun join_blank :: "string list \<Rightarrow> string" where
  "join_blank [] = []"
| "join_blank [w] = w"
| "join_blank (w # ws) = w @ CHR '' '' # join_blank ws"

definition word_ok :: "string \<Rightarrow> bool" where
  "word_ok w \<longleftrightarrow> w \<noteq> [] \<and> CHR '' '' \<notin> set w \<and> CHR '')'' \<notin> set w \<and> CHR 0x0A \<notin> set w"

lemma strtok_word:
  assumes "w \<noteq> []" "CHR '' '' \<notin> set w"
  shows "strtok_all (\<lambda>c. c = CHR '' '') (w @ CHR '' '' # r) = w # strtok_all (\<lambda>c. c = CHR '' '') r"
    and "strtok_all (\<lambda>c. c = CHR '' '') w = [w]"
proof -
  obtain x xs where w: "w = x # xs" using assms(1) by (cases w) auto
  then have x: "x \<noteq> CHR '' ''" "CHR '' '' \<notin> set xs" using assms(2) by auto
  show "strtok_all (\<lambda>c. c = CHR '' '') (w @ CHR '' '' # r) = w # strtok_all (\<lambda>c. c = CHR '' '') r"
    using x takeWhile_sep [OF x(2), of r] by (simp add: w)
  show "strtok_all (\<lambda>c. c = CHR '' '') w = [w]"
    unfolding w strtok_all.simps takeWhile_nosep [OF x(2)] using x(1) by simp
qed

lemma strtok_join:
  "list_all (\<lambda>w. w \<noteq> [] \<and> CHR '' '' \<notin> set w) ws \<Longrightarrow> strtok_all (\<lambda>c. c = CHR '' '') (join_blank ws) = ws"
  by (induction ws rule: join_blank.induct) (simp_all add: strtok_word)

lemma join_blank_no: "list_all word_ok ws \<Longrightarrow> c \<in> {CHR '')'', CHR 0x0A} \<Longrightarrow> c \<notin> set (join_blank ws)"
  by (induction ws rule: join_blank.induct) (auto simp: word_ok_def)

lemma join_blank_snoc: "ws \<noteq> [] \<Longrightarrow> join_blank (ws @ [w]) = join_blank ws @ CHR '' '' # w"
  by (induction ws rule: join_blank.induct) simp_all

lemma join_blank_append: "ws \<noteq> [] \<Longrightarrow> join_blank ws @ t = join_blank (butlast ws @ [last ws @ t])"
proof (cases ws rule: rev_cases)
  case (snoc ys y)
  then show ?thesis using join_blank_snoc [of ys] by (cases "ys = []") simp_all
qed simp

lemma nth_token_nth: "field \<le> 22 \<Longrightarrow> nth_token ws field = (if 22 - field < length ws then Some (ws ! (22 - field)) else None)"
proof (induction ws arbitrary: field)
  case (Cons w ws)
  show ?case
  proof (cases "field < 22")
    case True
    then have "22 - field = Suc (22 - Suc field)" by simp
    then show ?thesis using Cons.IH [of "Suc field"] True by simp
  next
    case False
    then show ?thesis using Cons.prems by simp
  qed
qed simp

lemma fgets_line: "CHR 0x0A \<notin> set line \<Longrightarrow> length line + 1 < n \<Longrightarrow> fgets n (line @ [CHR 0x0A]) = Some (line @ [CHR 0x0A])"
  using takeWhile_sep(1) [of "CHR 0x0A" line "[]"] by (simp add: fgets_def)

text \<open>
  C31: Process identity. Whatever blanks and parentheses the command name has, the value read from a line
  of \<open>/proc/PID/stat\<close> that fits the buffer is its field 22, the start time of the process.
\<close>

theorem process_start_time_exact:
  assumes "proc pid = Some (show_int pid @ '' ('' @ comm @ '') '' @ join_blank ws @ [CHR 0x0A])"
    and "CHR 0x0A \<notin> set comm" "list_all word_ok ws" "20 < length ws"
    and "ws ! 19 = show_nat n" "n < 2 ^ 64"
    and "length (show_int pid @ '' ('' @ comm @ '') '' @ join_blank ws) < 4095"
  shows "process_start_time proc pid = word_of_nat n"
proof -
  let ?line = "show_int pid @ '' ('' @ comm @ '') '' @ join_blank ws"
  let ?rest = "butlast ws @ [last ws @ [CHR 0x0A]]"
  have "CHR 0x0A \<notin> set (show_int pid)"
    using show_nat_digits [of "CHR 0x0A"] by (auto simp: show_int_def ctype_defs)
  then have "fgets 4096 (?line @ [CHR 0x0A]) = Some (?line @ [CHR 0x0A])"
    using assms(2,7) join_blank_no [OF assms(3)] by (intro fgets_line) auto
  then have line: "Option.bind (proc pid) (fgets 4096) = Some (?line @ [CHR 0x0A])" by (simp add: assms(1))
  have ne: "ws \<noteq> []" using assms(4) by auto
  have "CHR '')'' \<notin> set (CHR '' '' # join_blank ws @ [CHR 0x0A])"
    using join_blank_no [OF assms(3)] by auto
  from strrchr_last [OF this, of "show_int pid @ '' ('' @ comm"]
  have cut: "strrchr (?line @ [CHR 0x0A]) CHR '')'' = Some (CHR '')'' # CHR '' '' # join_blank ws @ [CHR 0x0A])"
    by simp
  have "list_all (\<lambda>w. w \<noteq> [] \<and> CHR '' '' \<notin> set w) ?rest"
    using assms(3) in_set_butlastD [of _ ws] last_in_set [OF ne] by (auto simp: list_all_iff word_ok_def)
  from strtok_join [OF this]
  have "strtok_all (\<lambda>c. c = CHR '' '') (join_blank ws @ [CHR 0x0A]) = ?rest"
    by (simp add: join_blank_append [OF ne])
  moreover have "nth_token ?rest 3 = Some (show_nat n)"
    using assms(4,5) by (subst nth_token_nth) (simp_all add: nth_append nth_butlast)
  moreover have "st_val (strtoull (show_nat n)) = word_of_nat n"
    using strtoull_show_nat [of n "[]"] assms(6) by (simp add: nondigit_start_def)
  ultimately show ?thesis
    unfolding process_start_time_def line option.case stat_start_time_def cut by simp
qed

theorem process_start_time_exact_witness:
  "process_start_time (\<lambda>_. Some (''7 (a) b (c) '' @ join_blank (replicate 19 ''0'' @ [''4711'', ''0'', ''0'']) @ [CHR 0x0A])) 7 = 4711"
proof -
  let ?ws = "replicate 19 ''0'' @ [show_nat 4711, ''0'', ''0'']"
  have n: "show_nat 4711 = ''4711''"
    by code_simp
  have seven: "show_int 7 = ''7''" by code_simp
  have ws: "list_all word_ok ?ws" "?ws ! 19 = show_nat 4711"
    "length (show_int 7 @ '' ('' @ ''a) b (c'' @ '') '' @ join_blank ?ws) < 4095"
    by code_simp+
  have "process_start_time (\<lambda>_. Some (show_int 7 @ '' ('' @ ''a) b (c'' @ '') '' @ join_blank ?ws @ [CHR 0x0A])) 7 = word_of_nat 4711"
    by (rule process_start_time_exact [OF _ _ ws(1) _ ws(2) _ ws(3)]) simp_all
  then show ?thesis by (simp add: n seven)
qed

end
