(* ===== verification/MC_Lifecycle.thy ===== *)
theory MC_Lifecycle
  imports MC_Store MC_Proc
begin

text \<open>
  Container states in \<open>src/state/store.c\<close>: reading the state of a container, signalling its shim through
  the control socket, listing, removing, and the reconciliation that turns containers whose shim is
  gone into stopped ones. What the operations do outside the registry is a list of effects. The main
  results are that reconciliation repairs exactly the stale entries and is idempotent, and that a shim
  is contacted only when its recorded identity is current.
\<close>

section \<open>Environment and effects\<close>

text \<open>The process table, the control socket, \<open>nftw\<close> (0, or an errno with the files removed before it)
  and the outcome of writing to \<open>cgroup.kill\<close> (opened, and written).\<close>

record life_env =
  lf_proc :: "int \<Rightarrow> string option"
  lf_runtime_dir :: string
  lf_log_dir :: string
  lf_errno :: errno
  lf_connect :: "string \<Rightarrow> errno"
  lf_send :: errno
  lf_recv :: "errno + string"
  lf_nftw :: "string \<Rightarrow> errno \<times> string list"
  lf_kill_open :: "string \<Rightarrow> bool"
  lf_kill_write :: "string \<Rightarrow> bool"
  lf_write :: "string \<Rightarrow> write_env"

datatype effect =
    Chmod string | RemoveTree string | Unlink string | Rmdir string
  | KillCgroup string | NetworkCleanup string | Output string | Warning string

section \<open>Reading states\<close>

text \<open>The getter's NULL for a JSON null, on which the code would crash, counts as no status.\<close>

definition state_status :: "jsonc \<Rightarrow> json \<Rightarrow> string option" where
  "state_status J root = Option.bind (json_object_get root ''status'') (jc_string J)"

definition mc_state_get_status :: "jsonc \<Rightarrow> life_env \<Rightarrow> registry \<Rightarrow> string \<Rightarrow> mc_error + string \<times> int" where
  "mc_state_get_status J E R cid =
     (let unavailable = Inl (mk_error MC_EXIT_NOT_FOUND (lf_errno E) ''read-state'' (Some cid)
                               ''container state is unavailable'') in
      case make_path (rg_dir R) (Some cid) ''state.json'' of
        None \<Rightarrow> unavailable
      | Some path \<Rightarrow>
          let root = file_json J R path in
          (case state_status J root of
             None \<Rightarrow> unavailable
           | Some stored \<Rightarrow>
               if length stored \<ge> 16
               then Inl (mk_error MC_EXIT_RUNTIME EINVAL ''read-state'' (Some cid) ''container status is invalid'')
               else Inr (stored, case json_object_get root ''shim_pid'' of None \<Rightarrow> 0 | Some v \<Rightarrow> to_pid (jc_int64 J v))))"

section \<open>Signals\<close>

definition signal_request :: "int \<Rightarrow> string" where
  "signal_request n =
     concat [''{'', quoted ''version'', '':1,'', quoted ''operation'', '':'', quoted ''signal'', '','',
             quoted ''signal'', '':'', show_int n, ''}'']"

text \<open>\<open>"ok":true\<close> in the answer of the shim.\<close>

definition ok_text :: string where
  "ok_text = quoted ''ok'' @ '':true''"

text \<open>The exchange on the control socket.\<close>

definition control_exchange :: "life_env \<Rightarrow> string \<Rightarrow> string \<Rightarrow> mc_error option" where
  "control_exchange E cid socket_path =
     (let failed = (\<lambda>e. Some (mk_error MC_EXIT_RUNTIME e ''signal-container'' (Some cid) ''shim control request failed'')) in
      if lf_connect E socket_path \<noteq> 0 then failed (lf_connect E socket_path)
      else if lf_send E \<noteq> 0 then failed (lf_send E)
      else case lf_recv E of
        Inl e \<Rightarrow> failed e
      | Inr response \<Rightarrow>
          if response = [] then failed (lf_errno E)
          else if strstr (take 255 response) ok_text = None
          then Some (mk_error MC_EXIT_RUNTIME EIO ''signal-container'' (Some cid) ''shim rejected control request'')
          else None)"

text \<open>The first component is the socket and the request that were used, if the shim was contacted.\<close>

definition mc_state_signal ::
  "jsonc \<Rightarrow> life_env \<Rightarrow> registry \<Rightarrow> string \<Rightarrow> int \<Rightarrow> (string \<times> string) option \<times> mc_error option" where
  "mc_state_signal J E R reference signal_number =
     (let not_running = (None, Some (mk_error MC_EXIT_CONFLICT ESRCH ''signal-container'' (Some reference)
                                       ''container is not running'')) in
      case mc_state_resolve J R (Some reference) of
        Inl _ \<Rightarrow> not_running
      | Inr cid \<Rightarrow> (case make_path (rg_dir R) (Some cid) ''state.json'' of
            None \<Rightarrow> not_running
          | Some path \<Rightarrow>
              let root = file_json J R path;
                  stale = (None, Some (mk_error MC_EXIT_CONFLICT ESRCH ''signal-container'' (Some cid)
                                         ''recorded shim identity is stale'')) in
              if state_status J root \<noteq> Some ''running'' then not_running
              else case json_object_get root ''shim_pid'' of
                None \<Rightarrow> not_running
              | Some shim_pid \<Rightarrow> (case json_object_get root ''shim_start_time'' of
                    None \<Rightarrow> stale
                  | Some saved_start \<Rightarrow>
                      let socket_path = snprintf_buf PATH_MAX (lf_runtime_dir E @ ''/'' @ cid @ ''/control.sock'') in
                      if \<not> identity_current (lf_proc E) (to_pid (jc_int64 J shim_pid)) (jc_uint64 J saved_start) then stale
                      else if length socket_path \<ge> 108 then stale
                      else (Some (socket_path, snprintf_buf 128 (signal_request signal_number)),
                            control_exchange E cid socket_path))))"

definition mc_state_runtime ::
  "jsonc \<Rightarrow> life_env \<Rightarrow> registry \<Rightarrow> string \<Rightarrow> mc_error + string \<times> int \<times> u64 \<times> string" where
  "mc_state_runtime J E R reference =
     (let unavailable = Inl (mk_error MC_EXIT_CONFLICT ESRCH ''runtime-identity'' (Some reference)
                               ''container runtime identity is unavailable or stale'') in
      case mc_state_resolve J R (Some reference) of
        Inl _ \<Rightarrow> unavailable
      | Inr cid \<Rightarrow> (case make_path (rg_dir R) (Some cid) ''state.json'' of
            None \<Rightarrow> unavailable
          | Some path \<Rightarrow>
              let root = file_json J R path in
              if state_status J root \<noteq> Some ''running'' then unavailable
              else case (json_object_get root ''init_pid'', json_object_get root ''init_start_time'',
                         json_object_get root ''cgroup_path'') of
                (Some pid_value, Some start_value, Some cgroup_value) \<Rightarrow>
                  let init_pid = to_pid (jc_int64 J pid_value); init_start_time = jc_uint64 J start_value;
                      cgroup = snprintf_buf PATH_MAX (case jc_string J cgroup_value of None \<Rightarrow> ''(null)'' | Some t \<Rightarrow> t) in
                  if identity_current (lf_proc E) init_pid init_start_time
                  then Inr (cid, init_pid, init_start_time, cgroup) else unavailable
              | _ \<Rightarrow> unavailable))"

section \<open>Listing\<close>

text \<open>One line of the list; \<open>None\<close> for an entry that is passed over.\<close>

definition list_line :: "jsonc \<Rightarrow> registry \<Rightarrow> bool \<Rightarrow> bool \<Rightarrow> bool \<Rightarrow> string \<Rightarrow> string option" where
  "list_line J R include_stopped json first entry =
     (if hidden entry \<or> length entry \<noteq> 32 then None
      else case (entry_json J R entry ''state.json'', entry_json J R entry ''config.json'') of
        (Some state, Some config) \<Rightarrow>
          (case state_status J state of
             None \<Rightarrow> None
           | Some status \<Rightarrow>
               if \<not> include_stopped \<and> status \<noteq> ''running'' then None
               else
                 let name = (case json_object_get config ''name'' of
                       None \<Rightarrow> '''' | Some v \<Rightarrow> (case jc_string J v of None \<Rightarrow> ''(null)'' | Some t \<Rightarrow> t)) in
                 Some (if json
                   then concat [if first then '''' else '','', ''{'', quoted ''id'', '':'', quoted entry, '','', quoted ''name'', '':'',
                                quoted name, '','', quoted ''status'', '':'', quoted status, ''}'']
                   else concat [take 12 entry, [CHR 0x09], name, [CHR 0x09], status, [CHR 0x0A]]))
      | _ \<Rightarrow> None)"

fun list_entries :: "jsonc \<Rightarrow> registry \<Rightarrow> bool \<Rightarrow> bool \<Rightarrow> bool \<Rightarrow> string list \<Rightarrow> string" where
  "list_entries J R include_stopped json first [] = []"
| "list_entries J R include_stopped json first (entry # entries) =
     (case list_line J R include_stopped json first entry of
        None \<Rightarrow> list_entries J R include_stopped json first entries
      | Some line \<Rightarrow> line @ list_entries J R include_stopped json False entries)"

definition list_header :: string where
  "list_header = concat [''ID'', [CHR 0x09], ''NAME'', [CHR 0x09], ''STATUS'', [CHR 0x0A]]"

definition mc_state_print_list :: "jsonc \<Rightarrow> registry \<Rightarrow> bool \<Rightarrow> bool \<Rightarrow> mc_error + string" where
  "mc_state_print_list J R include_stopped json =
     (if rg_opendir R \<noteq> 0 then
        (if rg_opendir R = ENOENT then Inr (if json then ''[]'' @ [CHR 0x0A] else list_header)
         else Inl (mk_error MC_EXIT_RUNTIME (rg_opendir R) ''list-containers''
                     (Some (snprintf_buf PATH_MAX (rg_dir R @ ''/containers''))) ''cannot read container registry''))
      else Inr ((if json then ''['' else list_header) @ list_entries J R include_stopped json True (rg_entries R) @
                (if json then '']'' @ [CHR 0x0A] else [])))"

section \<open>Removal\<close>

text \<open>\<open>nftw\<close> with \<open>remove_tree_entry\<close>: everything beneath the directory is gone, or the files removed
  before the error.\<close>

definition drop_files :: "(string \<Rightarrow> bool) \<Rightarrow> registry \<Rightarrow> registry" where
  "drop_files gone R =
     R\<lparr>rg_disk := set_dir (\<lambda>p. if gone p then None else dk_dir (rg_disk R) p) (rg_disk R)\<rparr>"

definition remove_tree :: "errno \<times> string list \<Rightarrow> string \<Rightarrow> string \<Rightarrow> registry \<Rightarrow> registry" where
  "remove_tree result cid directory R =
     (case result of (e, removed) \<Rightarrow>
        if e = 0
        then (drop_files (prefix directory) R)\<lparr>rg_entries := removeAll cid (rg_entries R)\<rparr>
        else drop_files (\<lambda>p. prefix directory p \<and> p \<in> set removed) R)"

definition mc_state_remove :: "life_env \<Rightarrow> registry \<Rightarrow> string \<Rightarrow> registry \<times> mc_error option" where
  "mc_state_remove E R cid =
     (case make_path (rg_dir R) (Some cid) '''' of
        None \<Rightarrow> (R, Some no_error)
      | Some directory \<Rightarrow>
          let log_directory = snprintf_buf PATH_MAX (lf_log_dir E @ ''/'' @ cid);
              failed = (\<lambda>e. Some (mk_error MC_EXIT_RUNTIME e ''remove-container'' (Some cid) ''cannot remove container state''));
              R' = remove_tree (lf_nftw E directory) cid directory R in
          if fst (lf_nftw E directory) \<noteq> 0 then (R', failed (fst (lf_nftw E directory)))
          else if fst (lf_nftw E log_directory) \<notin> {0, ENOENT} then (R', failed (fst (lf_nftw E log_directory)))
          else (R', None))"

section \<open>Reconciliation\<close>

definition remove_ephemeral_paths :: "life_env \<Rightarrow> registry \<Rightarrow> string \<Rightarrow> effect list" where
  "remove_ephemeral_paths E R cid =
     concat (map (\<lambda>leaf. case make_path (rg_dir R) (Some cid) leaf of
               None \<Rightarrow> [] | Some path \<Rightarrow> [Chmod path, RemoveTree path]) [''work'', ''merged'']) @
     [Unlink (snprintf_buf PATH_MAX (lf_runtime_dir E @ ''/'' @ cid @ ''/control.sock'')),
      Rmdir (snprintf_buf PATH_MAX (lf_runtime_dir E @ ''/'' @ cid))]"

text \<open>The conditions under which an entry is repaired: the path and the content of its state file.\<close>

definition stale_entry :: "jsonc \<Rightarrow> life_env \<Rightarrow> registry \<Rightarrow> string \<Rightarrow> (string \<times> json) option" where
  "stale_entry J E R entry =
     (if hidden entry \<or> length entry \<noteq> 32 then None
      else case make_path (rg_dir R) (Some entry) ''state.json'' of
        None \<Rightarrow> None
      | Some path \<Rightarrow>
          let root = file_json J R path in
          if state_status J root \<noteq> Some ''running'' then None
          else case (json_object_get root ''shim_pid'', json_object_get root ''shim_start_time'') of
            (Some shim_pid, Some start_time) \<Rightarrow>
              if identity_current (lf_proc E) (to_pid (jc_int64 J shim_pid)) (jc_uint64 J start_time)
              then None else Some (path, root)
          | _ \<Rightarrow> None)"

definition kill_stale :: "jsonc \<Rightarrow> life_env \<Rightarrow> bool \<Rightarrow> string \<Rightarrow> json \<Rightarrow> effect list" where
  "kill_stale J E verbose entry root =
     (case Option.bind (json_object_get root ''cgroup_path'') (jc_string J) of
        None \<Rightarrow> []
      | Some cgroup \<Rightarrow>
          let kill_path = snprintf_buf PATH_MAX (cgroup @ ''/cgroup.kill'') in
          if strncmp_eq cgroup ''/sys/fs/cgroup/'' 15 \<and> strstr cgroup entry \<noteq> None \<and> lf_kill_open E kill_path
          then KillCgroup kill_path #
               (if \<not> lf_kill_write E kill_path \<and> verbose
                then [Warning (concat [''warning: stale cgroup kill failed for '', take 12 entry, [CHR 0x0A]])] else [])
          else [])"

definition stopped_root :: "json \<Rightarrow> json" where
  "stopped_root root =
     json_object_put (json_object_put (json_object_put (json_object_put (json_object_put root
       ''status'' (JString ''stopped'')) ''shim_pid'' (JInt 0)) ''init_pid'' (JInt 0))
       ''exit_code'' (JInt 125)) ''cgroup_path'' (JString '''')"

fun reconcile_entries ::
  "jsonc \<Rightarrow> life_env \<Rightarrow> bool \<Rightarrow> string list \<Rightarrow> registry \<Rightarrow> effect list \<times> registry \<times> nat \<times> (mc_error + unit) option" where
  "reconcile_entries J E verbose [] R = ([], R, 0, Some (Inr ()))"
| "reconcile_entries J E verbose (entry # entries) R =
     (case stale_entry J E R entry of
        None \<Rightarrow> reconcile_entries J E verbose entries R
      | Some (path, root) \<Rightarrow>
          let kills = kill_stale J E verbose entry root in
          (case registry_write (lf_write E path) path (jc_print_plain J (stopped_root root)) R of
             (R1, Some (Inr _)) \<Rightarrow>
               let (effects, R2, repaired, outcome) = reconcile_entries J E verbose entries R1 in
               (kills @ remove_ephemeral_paths E R1 entry @ [NetworkCleanup entry] @
                (if verbose then [Output (concat [''reconciled '', take 12 entry, '' stale-running -> stopped'', [CHR 0x0A]])]
                 else []) @ effects, R2, Suc repaired, outcome)
           | (R1, failed) \<Rightarrow> (kills, R1, 0, failed)))"

definition mc_state_reconcile ::
  "jsonc \<Rightarrow> life_env \<Rightarrow> bool \<Rightarrow> registry \<Rightarrow> effect list \<times> registry \<times> (mc_error + unit) option" where
  "mc_state_reconcile J E verbose R =
     (if rg_opendir R = ENOENT then ([], R, Some (Inr ()))
      else if rg_opendir R \<noteq> 0
      then ([], R, Some (Inl (mk_error MC_EXIT_RUNTIME (rg_opendir R) ''reconcile''
                                (Some (snprintf_buf PATH_MAX (rg_dir R @ ''/containers''))) ''cannot read container registry'')))
      else case reconcile_entries J E verbose (rg_entries R) R of
        (effects, R', repaired, outcome) \<Rightarrow>
          (effects @ (if verbose \<and> outcome = Some (Inr ())
                      then [Output (concat [''reconciled='', show_nat repaired, [CHR 0x0A]])] else []), R', outcome))"

section \<open>Lemmas: reconciliation\<close>

lemma state_status_object: "state_status J root = Some t \<Longrightarrow> \<exists>kvs. root = JObject kvs"
  by (cases root) (auto simp: state_status_def json_object_get_def)

lemma stopped_root_object:
  "stopped_root (JObject kvs) = JObject (assoc_put ''cgroup_path'' (JString '''') (assoc_put ''exit_code'' (JInt 125)
     (assoc_put ''init_pid'' (JInt 0) (assoc_put ''shim_pid'' (JInt 0) (assoc_put ''status'' (JString ''stopped'') kvs)))))"
  by (simp add: stopped_root_def json_object_put_def)

lemma stopped_root_wf:
  assumes "json_wf (JObject kvs)" "json_depth (JObject kvs) < 32"
  shows "json_wf (stopped_root (JObject kvs))" "json_depth (stopped_root (JObject kvs)) < 32"
proof -
  have scalar: "json_wf (JInt 125)" "json_wf (JInt 0)" "json_wf (JString t)" for t by simp_all
  have depth: "json_depth (JObject (assoc_put k v kvs)) < 32" if "json_depth (JObject kvs) < 32" "json_depth v = 0" for k v kvs
    using json_depth_put [of k v kvs] that by simp
  show "json_wf (stopped_root (JObject kvs))"
    unfolding stopped_root_object using assms(1) scalar by (intro json_wf_put)
  show "json_depth (stopped_root (JObject kvs)) < 32"
    unfolding stopped_root_object using assms(2) by (intro depth) simp_all
qed

lemma stopped_root_status: "jsonc_ok J \<Longrightarrow> state_status J (stopped_root (JObject kvs)) = Some ''stopped''"
  by (simp add: state_status_def stopped_root_object json_object_get_def map_of_assoc_put)

lemma stale_entry_path:
  assumes "registry_ok R" "entry_ok e" "stale_entry J E R e = Some (path, root)"
  shows "path = entry_path R e ''state.json'' \<and> root = file_json J R path \<and> (\<exists>kvs. root = JObject kvs)"
proof -
  have "make_path (rg_dir R) (Some e) ''state.json'' = Some (entry_path R e ''state.json'')"
    using assms(1,2) by (intro make_path_entry) (simp_all add: registry_ok_def)
  then show ?thesis
    using assms(3) state_status_object [of J "file_json J R path"]
    by (auto simp: stale_entry_def Let_def split: if_splits option.splits)
qed

lemma stale_entry_ok: "registry_ok R \<Longrightarrow> e \<in> set (rg_entries R) \<Longrightarrow> stale_entry J E R e \<noteq> None \<Longrightarrow> entry_ok e"
  by (auto simp: registry_ok_def list_all_iff stale_entry_def)

lemma stale_entry_cong:
  assumes "registry_ok R" "entry_ok e" "rg_dir R' = rg_dir R"
    and "file_json J R' (entry_path R e ''state.json'') = file_json J R (entry_path R e ''state.json'')"
  shows "stale_entry J E R' e = stale_entry J E R e"
proof -
  have "make_path (rg_dir R) (Some e) ''state.json'' = Some (entry_path R e ''state.json'')"
    using assms(1,2) by (intro make_path_entry) (simp_all add: registry_ok_def)
  then show ?thesis using assms(3,4) by (simp add: stale_entry_def)
qed

text \<open>A repaired entry is no longer stale.\<close>

lemma stale_entry_stopped:
  assumes "jsonc_ok J" "registry_ok R" "entry_ok e"
    and "file_json J R (entry_path R e ''state.json'') = stopped_root (JObject kvs)"
  shows "stale_entry J E R e = None"
proof -
  have "make_path (rg_dir R) (Some e) ''state.json'' = Some (entry_path R e ''state.json'')"
    using assms(2,3) by (intro make_path_entry) (simp_all add: registry_ok_def)
  then show ?thesis using stopped_root_status [OF assms(1), of kvs] assms(4) by (simp add: stale_entry_def Let_def)
qed

text \<open>One repair.\<close>

lemma repair_step:
  assumes "jsonc_ok J" "registry_ok R" "entry_ok e" "we_pid (lf_write E path) \<le> 4194304"
    and "stale_entry J E R e = Some (path, root)"
    and "registry_write (lf_write E path) path (jc_print_plain J (stopped_root root)) R = (R1, Some (Inr ()))"
  shows "touches e {''state.json''} R R1" "rg_entries R1 = rg_entries R" "rg_opendir R1 = rg_opendir R"
    "file_json J R1 (entry_path R e ''state.json'') = stopped_root root"
proof -
  obtain kvs where root: "path = entry_path R e ''state.json''" "root = file_json J R path" "root = JObject kvs"
    using stale_entry_path [OF assms(2,3,5)] by blast
  have R: "disk_wf (rg_disk R)" "length (rg_dir R) \<le> 3700" using assms(2) by (simp_all add: registry_ok_def)
  have len: "length path \<le> 4032" using entry_path_length [OF R(2) assms(3)] by (simp add: root(1))
  note w = registry_write_frame [OF R(1) len assms(4,6)]
  show "touches e {''state.json''} R R1"
    using touches_write [OF assms(2,3) leaf_ok_json(2)] assms(4,6) by (simp add: root(1))
  show "rg_entries R1 = rg_entries R" "rg_opendir R1 = rg_opendir R" using w(1) by simp_all
  have "json_wf root \<and> json_depth root < 32"
    using jsonc_ok_parsed [OF assms(1)] root(2,3) by (auto simp: file_json_def split: option.splits)
  then have "jc_parse J (jc_print_plain J (stopped_root root)) = stopped_root root"
    using stopped_root_wf [of kvs] by (intro jsonc_ok_parse_plain [OF assms(1)]) (simp_all add: root(3))
  then show "file_json J R1 (entry_path R e ''state.json'') = stopped_root root"
    using w(5) by (simp add: file_json_def root(1))
qed

text \<open>The registry after a successful run over the entries \<open>es\<close>.\<close>

definition reconciled :: "jsonc \<Rightarrow> life_env \<Rightarrow> string list \<Rightarrow> registry \<Rightarrow> registry \<Rightarrow> bool" where
  "reconciled J E es R R' \<longleftrightarrow>
     registry_ok R' \<and> rg_dir R' = rg_dir R \<and> rg_entries R' = rg_entries R \<and> rg_opendir R' = rg_opendir R \<and>
     (\<forall>e leaf. entry_ok e \<longrightarrow> leaf_ok leaf \<longrightarrow>
        file_json J R' (entry_path R e leaf) =
          (if leaf = ''state.json'' \<and> e \<in> set es \<and> stale_entry J E R e \<noteq> None
           then stopped_root (file_json J R (entry_path R e leaf)) else file_json J R (entry_path R e leaf)))"

definition stale_entries :: "jsonc \<Rightarrow> life_env \<Rightarrow> registry \<Rightarrow> string list \<Rightarrow> string list" where
  "stale_entries J E R es = filter (\<lambda>e. stale_entry J E R e \<noteq> None) es"

definition cleaned :: "effect list \<Rightarrow> string list" where
  "cleaned effects = List.map_filter (\<lambda>f. case f of NetworkCleanup e \<Rightarrow> Some e | _ \<Rightarrow> None) effects"

lemma cleaned_append: "cleaned (a @ b) = cleaned a @ cleaned b"
  by (simp add: cleaned_def List.map_filter_def)

lemma cleaned_quiet:
  "cleaned (kill_stale J E v e root) = []" "cleaned (remove_ephemeral_paths E R e) = []"
  "cleaned (NetworkCleanup e # fs) = e # cleaned fs" "cleaned (Output t # fs) = cleaned fs" "cleaned [] = []"
  by (auto simp: cleaned_def kill_stale_def remove_ephemeral_paths_def map_filter_simps Let_def split: option.splits)

lemma reconcile_entries_exact:
  assumes "jsonc_ok J" "\<And>p. we_pid (lf_write E p) \<le> 4194304"
  shows "registry_ok R \<Longrightarrow> distinct es \<Longrightarrow> set es \<subseteq> set (rg_entries R) \<Longrightarrow>
    reconcile_entries J E v es R = (effects, R', n, Some (Inr ())) \<Longrightarrow>
    reconciled J E es R R' \<and> cleaned effects = stale_entries J E R es \<and> n = length (stale_entries J E R es)"
proof (induction es arbitrary: R effects n)
  case Nil
  then show ?case by (simp add: reconciled_def stale_entries_def cleaned_def map_filter_simps)
next
  case (Cons e es)
  show ?case
  proof (cases "stale_entry J E R e")
    case None
    then show ?thesis using Cons.IH [of R effects n] Cons.prems by (auto simp: reconciled_def stale_entries_def)
  next
    case (Some pr)
    then obtain path root where stale: "stale_entry J E R e = Some (path, root)" by (cases pr) simp
    have e: "entry_ok e" using Cons.prems stale by (intro stale_entry_ok [of R e J E]) auto
    obtain R1 where w: "registry_write (lf_write E path) path (jc_print_plain J (stopped_root root)) R = (R1, Some (Inr ()))"
      using Cons.prems(4) stale by (auto simp: Let_def split: prod.splits option.splits sum.splits)
    obtain fx m where rest: "reconcile_entries J E v es R1 = (fx, R', m, Some (Inr ()))"
      and eff: "n = Suc m" "cleaned effects = e # cleaned fx"
      using Cons.prems(4) stale w by (auto simp: Let_def cleaned_append cleaned_quiet split: prod.splits if_splits)
    note step = repair_step [OF assms(1) Cons.prems(1) e assms(2) stale w]
    have R1: "registry_ok R1" "rg_dir R1 = rg_dir R" "entry_path R1 = entry_path R"
      using step(1) entry_path_dir [of R1 R] by (simp_all add: touches_def)
    have other: "file_json J R1 (entry_path R e' leaf) = file_json J R (entry_path R e' leaf)"
      if "entry_ok e'" "leaf_ok leaf" "\<not> (e' = e \<and> leaf = ''state.json'')" for e' leaf
      using step(1) that by (simp add: touches_def file_json_def)
    have same: "stale_entry J E R1 e' = stale_entry J E R e'" if "e' \<in> set es" for e'
    proof (cases "hidden e'")
      case False
      then have "entry_ok e'" using Cons.prems(1,3) that by (auto simp: registry_ok_def list_all_iff)
      moreover have "e' \<noteq> e" using Cons.prems(2) that by auto
      ultimately show ?thesis using other [of e' "''state.json''"] R1(2) Cons.prems(1)
        by (intro stale_entry_cong) simp_all
    qed (simp add: stale_entry_def)
    have IH: "reconciled J E es R1 R'" "cleaned fx = stale_entries J E R1 es" "m = length (stale_entries J E R1 es)"
      using Cons.IH [OF R1(1) _ _ rest] Cons.prems(2,3) step(2) by auto
    have es: "stale_entries J E R1 es = stale_entries J E R es"
      unfolding stale_entries_def using same by (intro filter_cong) auto
    have "file_json J R' (entry_path R e' leaf) =
        (if leaf = ''state.json'' \<and> e' \<in> set (e # es) \<and> stale_entry J E R e' \<noteq> None
         then stopped_root (file_json J R (entry_path R e' leaf)) else file_json J R (entry_path R e' leaf))"
      if ok: "entry_ok e'" "leaf_ok leaf" for e' leaf
    proof (cases "e' = e \<and> leaf = ''state.json''")
      case True
      then have "e' \<notin> set es" using Cons.prems(2) by auto
      then have "file_json J R' (entry_path R e' leaf) = file_json J R1 (entry_path R e' leaf)"
        using IH(1) ok by (simp add: reconciled_def R1(3))
      then show ?thesis
        using True step(4) stale stale_entry_path [OF Cons.prems(1) e stale] by simp
    next
      case False
      have "file_json J R' (entry_path R e' leaf) =
          (if leaf = ''state.json'' \<and> e' \<in> set es \<and> stale_entry J E R1 e' \<noteq> None
           then stopped_root (file_json J R1 (entry_path R e' leaf)) else file_json J R1 (entry_path R e' leaf))"
        using IH(1) ok by (simp only: reconciled_def R1(3))
      also have "(leaf = ''state.json'' \<and> e' \<in> set es \<and> stale_entry J E R1 e' \<noteq> None) \<longleftrightarrow>
          leaf = ''state.json'' \<and> e' \<in> set (e # es) \<and> stale_entry J E R e' \<noteq> None"
        using False by (cases "e' \<in> set es") (simp_all only: same list.set insert_iff, blast+)
      finally show ?thesis by (simp only: other [OF ok False])
    qed
    then have "reconciled J E (e # es) R R'"
      using IH(1) step(2,3) R1(2) by (simp add: reconciled_def)
    then show ?thesis using IH(2,3) eff es stale by (simp add: stale_entries_def)
  qed
qed

section \<open>Properties\<close>


text \<open>
  Reconciliation is idempotent: with the same processes alive, a second run right after a successful
  one finds nothing to repair, has no effect and leaves the registry as it is.
\<close>

theorem reconcile_idempotent:
  assumes "jsonc_ok J" "\<And>p. we_pid (lf_write E p) \<le> 4194304" "registry_ok R"
    and "mc_state_reconcile J E verbose R = (effects, R', Some (Inr ()))"
  shows "mc_state_reconcile J E False R' = ([], R', Some (Inr ()))"
proof (cases "rg_opendir R = 0")
  case False
  then show ?thesis using assms(4) by (auto simp: mc_state_reconcile_def split: if_splits)
next
  case True
  obtain fx n where run: "reconcile_entries J E verbose (rg_entries R) R = (fx, R', n, Some (Inr ()))"
    using assms(4) True by (auto simp: mc_state_reconcile_def split: prod.splits if_splits)
  have "distinct (rg_entries R)" using assms(3) by (simp add: registry_ok_def)
  from reconcile_entries_exact [OF assms(1-3) this _ run] have rec: "reconciled J E (rg_entries R) R R'" by simp
  then have R': "registry_ok R'" "rg_dir R' = rg_dir R" "rg_entries R' = rg_entries R" "rg_opendir R' = 0"
    using True by (simp_all add: reconciled_def)
  have quiet: "stale_entry J E R' e = None" if "e \<in> set (rg_entries R)" for e
  proof (cases "hidden e")
    case False
    then have e: "entry_ok e" using assms(3) that by (auto simp: registry_ok_def list_all_iff)
    have path: "entry_path R' = entry_path R" by (rule entry_path_dir [OF R'(2)])
    have doc: "file_json J R' (entry_path R e ''state.json'') =
        (if stale_entry J E R e \<noteq> None then stopped_root (file_json J R (entry_path R e ''state.json''))
         else file_json J R (entry_path R e ''state.json''))"
      using rec e that by (simp add: reconciled_def)
    show ?thesis
    proof (cases "stale_entry J E R e")
      case None
      then show ?thesis using stale_entry_cong [OF assms(3) e R'(2)] doc by simp
    next
      case (Some pr)
      then obtain kvs where "file_json J R (entry_path R e ''state.json'') = JObject kvs"
        using stale_entry_path [OF assms(3) e] by (cases pr) fastforce
      then show ?thesis using stale_entry_stopped [OF assms(1) R'(1) e] doc Some path by simp
    qed
  qed (simp add: stale_entry_def)
  have "reconcile_entries J E False es R' = ([], R', 0, Some (Inr ()))" if "set es \<subseteq> set (rg_entries R)" for es
    using that quiet by (induction es) simp_all
  then show ?thesis using R'(3,4) by (simp add: mc_state_reconcile_def)
qed

text \<open>
  C30: A signal request goes out only to the shim that the registry records as running: its process
  number and start time must name an existing process, and the socket is the one of that container.
\<close>

theorem signal_only_current:
  assumes "mc_state_signal J E R reference n = (Some (socket_path, request), r)"
  shows "\<exists>cid path pid start. mc_state_resolve J R (Some reference) = Inr cid \<and>
     make_path (rg_dir R) (Some cid) ''state.json'' = Some path \<and> state_status J (file_json J R path) = Some ''running'' \<and>
     json_object_get (file_json J R path) ''shim_pid'' = Some pid \<and>
     json_object_get (file_json J R path) ''shim_start_time'' = Some start \<and>
     identity_current (lf_proc E) (to_pid (jc_int64 J pid)) (jc_uint64 J start) \<and>
     socket_path = lf_runtime_dir E @ ''/'' @ cid @ ''/control.sock'' \<and> request = snprintf_buf 128 (signal_request n)"
proof -
  have short: "snprintf_buf PATH_MAX t = t" if "length (snprintf_buf PATH_MAX t) < 108" for t
    using that by (simp add: snprintf_buf_def)
  show ?thesis
    using assms short [of "lf_runtime_dir E @ ''/'' @ _ @ ''/control.sock''"]
    by (auto simp: mc_state_signal_def Let_def not_le split: sum.splits option.splits if_splits)
qed

text \<open>An example: one container that is recorded as running, in a process table without processes and
  in one where its shim still runs.\<close>

definition example_entry :: string where
  "example_entry = ''0123456789abcdef0123456789abcdef''"

definition example_state :: json where
  "example_state = JObject [(''status'', JString ''running''), (''shim_pid'', JInt 7), (''shim_start_time'', JInt 4711)]"

definition example_running :: registry where
  "example_running =
     (let path = ''/s/containers/'' @ example_entry @ ''/state.json'' in
      \<lparr>rg_dir = ''/s'', rg_opendir = 0, rg_entries = [example_entry],
       rg_disk = \<lparr>dk_content = (\<lambda>_. jc_print jsonc_ref example_state), dk_stable = (\<lambda>_. Some (jc_print jsonc_ref example_state)),
                  dk_next = 1, dk_dir = [path \<mapsto> 0], dk_survivors = [[path \<mapsto> 0]]\<rparr>\<rparr>)"

definition example_life :: "(int \<Rightarrow> string option) \<Rightarrow> life_env" where
  "example_life proc =
     \<lparr>lf_proc = proc, lf_runtime_dir = ''/run/mc'', lf_log_dir = ''/l'', lf_errno = 0, lf_connect = (\<lambda>_. 0), lf_send = 0,
      lf_recv = Inr (''{'' @ ok_text @ ''}''), lf_nftw = (\<lambda>_. (0, [])), lf_kill_open = (\<lambda>_. False),
      lf_kill_write = (\<lambda>_. False),
      lf_write = (\<lambda>_. example_write_env\<lparr>we_write := [Inr (length (jc_print_plain jsonc_ref (stopped_root example_state)))]\<rparr>)\<rparr>"

lemma example_entry_ok: "entry_ok example_entry" "length example_entry = 32" "\<not> hidden example_entry"
  by (simp_all add: entry_ok_def hidden_def example_entry_def)

lemma example_running_ok: "registry_ok example_running"
  using example_entry_ok by (auto simp: registry_ok_def example_running_def disk_wf_def Let_def split: if_splits)

lemma example_pids: "we_pid (lf_write (example_life proc) p) \<le> 4194304"
  by (simp add: example_life_def example_write_env_def)

lemma example_state_json:
  "file_json jsonc_ref example_running (entry_path example_running example_entry ''state.json'') = example_state"
  by (rule file_json_print [OF jsonc_ref_ok])
    (simp_all add: example_state_def example_running_def entry_path_def disk_read_def Let_def)

lemma example_state_path:
  "make_path (rg_dir example_running) (Some example_entry) ''state.json'' = Some (entry_path example_running example_entry ''state.json'')"
  using example_running_ok example_entry_ok by (intro make_path_entry) (simp_all add: registry_ok_def)

lemma example_state_gets:
  "state_status jsonc_ref example_state = Some ''running''" "json_object_get example_state ''shim_pid'' = Some (JInt 7)"
  "json_object_get example_state ''shim_start_time'' = Some (JInt 4711)"
  "to_pid (jc_int64 jsonc_ref (JInt 7)) = 7" "jc_uint64 jsonc_ref (JInt 4711) = 4711"
  by (simp_all add: example_state_def state_status_def json_object_get_def jsonc_ref_def to_pid_def)

lemma example_stale:
  "stale_entry jsonc_ref (example_life (\<lambda>_. None)) example_running example_entry =
     Some (entry_path example_running example_entry ''state.json'', example_state)"
  using example_entry_ok example_state_gets
  by (simp add: stale_entry_def example_state_path example_state_json identity_current_def process_start_time_def
      example_life_def Let_def)

lemma example_running_entries: "rg_opendir example_running = 0" "rg_entries example_running = [example_entry]"
  by (simp_all add: example_running_def Let_def)

lemma example_reconcile:
  "\<exists>effects R'. mc_state_reconcile jsonc_ref (example_life (\<lambda>_. None)) False example_running = (effects, R', Some (Inr ()))"
proof -
  let ?E = "example_life (\<lambda>_. None)" and ?path = "entry_path example_running example_entry ''state.json''"
  have "dk_dir (rg_disk example_running) (temporary_path ?path 42) = None"
    by (simp add: example_running_def temporary_path_def entry_path_def example_entry_def snprintf_buf_def Let_def
        show_nat.simps [of 42] show_nat.simps [of 4])
  moreover have "length ?path < PATH_MAX" by (simp add: entry_path_def example_running_def example_entry_def Let_def)
  ultimately have "snd (mc_write_atomic (lf_write ?E ?path) ?path (jc_print_plain jsonc_ref (stopped_root example_state))
      (rg_disk example_running)) = Some (Inr ())"
    unfolding example_life_def life_env.simps by (rule write_atomic_once)
  then obtain R1 where w: "registry_write (lf_write ?E ?path) ?path (jc_print_plain jsonc_ref (stopped_root example_state))
      example_running = (R1, Some (Inr ()))"
    unfolding registry_write_result [symmetric] by (metis prod.collapse)
  then show ?thesis by (simp add: mc_state_reconcile_def example_running_entries example_stale w Let_def)
qed


theorem reconcile_idempotent_witness:
  "\<exists>effects R'. mc_state_reconcile jsonc_ref (example_life (\<lambda>_. None)) False example_running = (effects, R', Some (Inr ())) \<and>
     mc_state_reconcile jsonc_ref (example_life (\<lambda>_. None)) False R' = ([], R', Some (Inr ()))"
proof -
  obtain effects R' where run: "mc_state_reconcile jsonc_ref (example_life (\<lambda>_. None)) False example_running = (effects, R', Some (Inr ()))"
    using example_reconcile by blast
  then show ?thesis using reconcile_idempotent [OF jsonc_ref_ok example_pids example_running_ok run] by blast
qed

definition example_proc :: "int \<Rightarrow> string option" where
  "example_proc pid = (if pid = 7 then Some (''7 (mc) '' @ join_blank (replicate 19 ''0'' @ [''4711'', ''0'', ''0''])) else None)"

theorem signal_only_current_witness:
  "\<exists>r. mc_state_signal jsonc_ref (example_life example_proc) example_running example_entry 15 =
     (Some (''/run/mc/'' @ example_entry @ ''/control.sock'', signal_request 15), r) \<and>
   identity_current example_proc 7 4711"
proof -
  have "process_start_time example_proc 7 = 4711" by code_simp
  then have cur: "identity_current example_proc 7 4711" by (simp add: identity_current_def)
  have req: "snprintf_buf 128 (signal_request 15) = signal_request 15" by code_simp
  have "mc_state_resolve jsonc_ref example_running (Some example_entry) = Inr example_entry"
    by (rule resolve_identifier [OF example_running_ok]) (simp_all add: example_running_def Let_def example_entry_ok)
  then have "\<exists>r. mc_state_signal jsonc_ref (example_life example_proc) example_running example_entry 15 =
     (Some (''/run/mc/'' @ example_entry @ ''/control.sock'', signal_request 15), r)"
    using cur example_state_gets example_entry_ok(2) req
    by (simp add: mc_state_signal_def example_state_path example_state_json Let_def example_life_def)
  then obtain r where run: "mc_state_signal jsonc_ref (example_life example_proc) example_running example_entry 15 =
     (Some (''/run/mc/'' @ example_entry @ ''/control.sock'', signal_request 15), r)" by blast
  from signal_only_current [OF run] show ?thesis using run cur by blast
qed

end
