(* ===== verification/MC_Lease.thy ===== *)
theory MC_Lease
  imports MC_Lifecycle
begin

text \<open>
  Names, published ports and leased addresses are exclusive. The admission of a container, the part of
  \<open>run\<close> and \<open>create\<close> in \<open>src/cli/main.c\<close> that holds the registry lock, is composed of the operations of
  \<open>src/state/store.c\<close>: lock, reconcile, lock the container, lease an address, save the configuration,
  mark it as created, and remove everything after a failure. The registry is abstracted to the stored
  configurations by container. The locale \<open>exclusive_claims\<close> is the contract of a step that checks what
  it claims against all others; its three instances are names, ports and addresses.
\<close>

section \<open>The contract\<close>

definition exclusive :: "('c \<Rightarrow> 'c \<Rightarrow> bool) \<Rightarrow> ('k \<Rightarrow> 'c set) \<Rightarrow> bool" where
  "exclusive conflict claims \<longleftrightarrow>
     (\<forall>k k' x y. k \<noteq> k' \<longrightarrow> x \<in> claims k \<longrightarrow> y \<in> claims k' \<longrightarrow> \<not> conflict x y)"

locale exclusive_claims =
  fixes step :: "'s \<Rightarrow> 's \<Rightarrow> bool" and inv :: "'s \<Rightarrow> bool"
    and claims :: "'s \<Rightarrow> 'k \<Rightarrow> 'c set" and conflict :: "'c \<Rightarrow> 'c \<Rightarrow> bool"
  assumes conflict_sym: "conflict x y \<Longrightarrow> conflict y x"
    and step_inv: "inv s \<Longrightarrow> step s t \<Longrightarrow> inv t"
    and step_claims: "inv s \<Longrightarrow> step s t \<Longrightarrow>
      \<exists>k. (\<forall>k'. k' \<noteq> k \<longrightarrow> claims t k' \<subseteq> claims s k') \<and>
          (claims t k \<subseteq> claims s k \<or>
           (\<forall>k' x y. k' \<noteq> k \<longrightarrow> x \<in> claims t k \<longrightarrow> y \<in> claims s k' \<longrightarrow> \<not> conflict x y))"
begin

lemma exclusiveD: "exclusive conflict f \<Longrightarrow> k \<noteq> k' \<Longrightarrow> x \<in> f k \<Longrightarrow> y \<in> f k' \<Longrightarrow> \<not> conflict x y"
  unfolding exclusive_def by blast

lemma exclusive_step:
  assumes "inv s" "step s t" "exclusive conflict (claims s)"
  shows "exclusive conflict (claims t)"
proof -
  obtain k where others: "\<And>k'. k' \<noteq> k \<Longrightarrow> claims t k' \<subseteq> claims s k'"
    and own: "claims t k \<subseteq> claims s k \<or>
      (\<forall>k' x y. k' \<noteq> k \<longrightarrow> x \<in> claims t k \<longrightarrow> y \<in> claims s k' \<longrightarrow> \<not> conflict x y)"
    using step_claims [OF assms(1,2)] by blast
  have new: "\<not> conflict x y" if "k' \<noteq> k" "x \<in> claims t k" "y \<in> claims t k'" for k' x y
  proof -
    have y: "y \<in> claims s k'" using others [OF that(1)] that(3) by (rule subsetD)
    from own show ?thesis
    proof
      assume "claims t k \<subseteq> claims s k"
      then have "x \<in> claims s k" using that(2) by (rule subsetD)
      then show ?thesis using exclusiveD [OF assms(3) that(1) [symmetric]] y by simp
    qed (use that(1,2) y in simp)
  qed
  have "\<not> conflict x y" if "k1 \<noteq> k2" "x \<in> claims t k1" "y \<in> claims t k2" for k1 k2 x y
  proof (cases "k1 = k \<or> k2 = k")
    case True
    then show ?thesis using new [of k2 x y] new [of k1 y x] that conflict_sym [of x y] by metis
  next
    case False
    then have "x \<in> claims s k1" "y \<in> claims s k2" using others that(2,3) by (simp_all add: subset_iff)
    then show ?thesis using exclusiveD [OF assms(3) that(1)] by simp
  qed
  then show ?thesis unfolding exclusive_def by simp
qed

lemma exclusive_run:
  assumes "step\<^sup>*\<^sup>* s t" "inv s" "exclusive conflict (claims s)"
  shows "inv t \<and> exclusive conflict (claims t)"
  using assms by (induction rule: rtranclp_induct) (auto intro: step_inv exclusive_step)

end

section \<open>Admission\<close>

record admit_env =
  ad_store :: store_env
  ad_life :: life_env
  ad_lock :: "string \<Rightarrow> errno"

text \<open>The configuration with its leased address.\<close>

definition lease_address :: "jsonc \<Rightarrow> registry \<Rightarrow> mc_run_config \<Rightarrow> mc_error + mc_run_config" where
  "lease_address J R c =
     (if cfg_network_bridge c
      then (case mc_state_allocate_ip J R of Inl err \<Rightarrow> Inl err | Inr a \<Rightarrow> Inr (c\<lparr>cfg_ipv4_host := a\<rparr>))
      else Inr c)"

text \<open>What follows the lease: saving, and marking a container that is only created.\<close>

definition admit_save ::
  "jsonc \<Rightarrow> admit_env \<Rightarrow> bool \<Rightarrow> mc_run_config \<Rightarrow> string \<Rightarrow> registry \<Rightarrow> registry \<times> (mc_error + mc_run_config) option" where
  "admit_save J A create_only c img R =
     (case lease_address J R c of
        Inl err \<Rightarrow> (R, Some (Inl err))
      | Inr c' \<Rightarrow> (case mc_state_save_config J (ad_store A) R c' img of
            (R', None) \<Rightarrow> (R', None)
          | (R', Some (Inl err)) \<Rightarrow> (R', Some (Inl err))
          | (R', Some (Inr _)) \<Rightarrow>
              if \<not> create_only then (R', Some (Inr c'))
              else case mc_state_mark_created (ad_store A) R' (the (cfg_id c)) of
                (R'', None) \<Rightarrow> (R'', None)
              | (R'', Some (Inl err)) \<Rightarrow> (R'', Some (Inl err))
              | (R'', Some (Inr _)) \<Rightarrow> (R'', Some (Inr c'))))"

text \<open>The steps before it.\<close>

definition admit_locked ::
  "jsonc \<Rightarrow> admit_env \<Rightarrow> bool \<Rightarrow> mc_run_config \<Rightarrow> string \<Rightarrow> registry \<Rightarrow> effect list \<times> registry \<times> (mc_error + mc_run_config) option" where
  "admit_locked J A create_only c img R =
     (case mc_state_registry_lock (se_mkdir (ad_store A)) (ad_lock A) (rg_dir R) of
        Some err \<Rightarrow> ([], R, Some (Inl err))
      | None \<Rightarrow> (case mc_state_reconcile J (ad_life A) False R of
            (effects, R1, None) \<Rightarrow> (effects, R1, None)
          | (effects, R1, Some (Inl err)) \<Rightarrow> (effects, R1, Some (Inl err))
          | (effects, R1, Some (Inr _)) \<Rightarrow>
              (case mc_state_container_lock (se_mkdir (ad_store A)) (ad_lock A) R1 (the (cfg_id c)) of
                 (R2, Some err) \<Rightarrow> (effects, R2, Some (Inl err))
               | (R2, None) \<Rightarrow> (effects, admit_save J A create_only c img R2))))"

text \<open>After a failure the directory of the container is removed again.\<close>

definition admit_container ::
  "jsonc \<Rightarrow> admit_env \<Rightarrow> bool \<Rightarrow> mc_run_config \<Rightarrow> string \<Rightarrow> registry \<Rightarrow> effect list \<times> registry \<times> (mc_error + mc_run_config) option" where
  "admit_container J A create_only c img R =
     (case admit_locked J A create_only c img R of
        (effects, R', Some (Inl err)) \<Rightarrow> (effects, fst (mc_state_remove (ad_life A) R' (the (cfg_id c))), Some (Inl err))
      | other \<Rightarrow> other)"

section \<open>The stored configurations\<close>

definition configs :: "jsonc \<Rightarrow> registry \<Rightarrow> string \<Rightarrow> json" where
  "configs J R e = (if e \<in> set (rg_entries R) \<and> \<not> hidden e then file_json J R (entry_path R e ''config.json'') else JNull)"

text \<open>The invariant of the registry: readable or not yet there, in order, and without configurations
  outside the listed entries.\<close>

definition tidy :: "registry \<Rightarrow> bool" where
  "tidy R \<longleftrightarrow> registry_ok R \<and> (rg_opendir R = 0 \<or> rg_opendir R = ENOENT \<and> rg_entries R = []) \<and>
     (\<forall>e. entry_ok e \<longrightarrow> e \<notin> set (rg_entries R) \<longrightarrow> disk_read (rg_disk R) (entry_path R e ''config.json'') = None)"

definition name_claims :: "jsonc \<Rightarrow> registry \<Rightarrow> string \<Rightarrow> string set" where
  "name_claims J R e = set_option (config_name J (configs J R e))"

definition port_claims :: "jsonc \<Rightarrow> registry \<Rightarrow> string \<Rightarrow> (u32 \<times> u16 \<times> u8) set" where
  "port_claims J R e = set (stored_ports J (configs J R e))"

definition lease_claims :: "jsonc \<Rightarrow> registry \<Rightarrow> string \<Rightarrow> nat set" where
  "lease_claims J R e = set_option (leased_host J (configs J R e))"

lemma no_claims:
  "config_name J JNull = None" "stored_ports J JNull = []" "leased_host J JNull = None"
  by (simp_all add: config_name_def stored_ports_def leased_host_def json_object_get_def json_get_array_def)

lemma configs_file: "tidy R \<Longrightarrow> entry_ok e \<Longrightarrow> configs J R e = file_json J R (entry_path R e ''config.json'')"
  by (auto simp: configs_def tidy_def entry_ok_def file_json_def)

lemma configs_other: "\<not> entry_ok e \<Longrightarrow> registry_ok R \<Longrightarrow> configs J R e = JNull"
  by (auto simp: configs_def registry_ok_def list_all_iff)

lemma entry_json_configs:
  assumes "tidy R" "e \<in> set (rg_entries R)" "\<not> hidden e"
  shows "entry_json J R e ''config.json'' = Some (configs J R e)"
proof -
  have R: "registry_ok R" using assms(1) by (simp add: tidy_def)
  then have e: "entry_ok e" using assms(2,3) by (auto simp: registry_ok_def list_all_iff)
  show ?thesis
    using make_path_entry [of R e "''config.json''"] R e configs_file [OF assms(1) e]
    by (simp add: entry_json_def registry_ok_def)
qed

section \<open>What the operations do to the stored configurations\<close>

definition keeps :: "jsonc \<Rightarrow> registry \<Rightarrow> registry \<Rightarrow> bool" where
  "keeps J R R' \<longleftrightarrow> tidy R' \<and> rg_dir R' = rg_dir R \<and> configs J R' = configs J R"

lemma keeps_refl: "tidy R \<Longrightarrow> keeps J R R"
  by (simp add: keeps_def)

lemma keeps_trans: "keeps J R R1 \<Longrightarrow> keeps J R1 R2 \<Longrightarrow> keeps J R R2"
  by (simp add: keeps_def)

lemma keeps_state:
  assumes "tidy R" "touches e {''state.json''} R R'" "rg_entries R' = rg_entries R" "rg_opendir R' = rg_opendir R"
  shows "keeps J R R'"
proof -
  have R': "registry_ok R'" "rg_dir R' = rg_dir R" "entry_path R' = entry_path R"
    using assms(2) entry_path_dir [of R' R] by (simp_all add: touches_def)
  have same: "disk_read (rg_disk R') (entry_path R e' ''config.json'') = disk_read (rg_disk R) (entry_path R e' ''config.json'')"
    if "entry_ok e'" for e'
    using assms(2) that by (simp add: touches_def)
  have "tidy R'" using assms(1,3,4) R' same by (simp add: tidy_def)
  moreover have "configs J R' e' = configs J R e'" for e'
  proof (cases "entry_ok e'")
    case True
    then show ?thesis
      using same [OF True] configs_file [OF assms(1) True] configs_file [OF \<open>tidy R'\<close> True] R'(3) by (simp add: file_json_def)
  next
    case False
    then show ?thesis using configs_other R'(1) assms(1) by (simp add: tidy_def)
  qed
  ultimately show ?thesis using R'(2) by (simp add: keeps_def fun_eq_iff)
qed

lemma registry_write_keeps:
  assumes "tidy R" "entry_ok e" "we_pid W \<le> 4194304" "registry_write W (entry_path R e ''state.json'') data R = (R', r)"
  shows "keeps J R R'"
proof -
  have R: "registry_ok R" using assms(1) by (simp add: tidy_def)
  then have "disk_wf (rg_disk R)" "length (entry_path R e ''state.json'') \<le> 4032"
    using entry_path_length [OF _ assms(2)] by (simp_all add: registry_ok_def)
  from registry_write_frame(1) [OF this assms(3,4)]
  show ?thesis using touches_write [OF R assms(2) leaf_ok_json(2) assms(3,4)] assms(1) by (intro keeps_state) simp_all
qed

lemma reconcile_entries_keeps:
  assumes "\<And>p. we_pid (lf_write E p) \<le> 4194304"
  shows "tidy R \<Longrightarrow> set es \<subseteq> set (rg_entries R) \<Longrightarrow> reconcile_entries J E v es R = (effects, R', n, r) \<Longrightarrow> keeps J R R'"
proof (induction es arbitrary: R effects n)
  case Nil
  then show ?case by (simp add: keeps_refl)
next
  case (Cons e es)
  show ?case
  proof (cases "stale_entry J E R e")
    case None
    then show ?thesis using Cons by simp
  next
    case (Some pr)
    then obtain path root where stale: "stale_entry J E R e = Some (path, root)" by (cases pr) simp
    have R: "registry_ok R" using Cons.prems(1) by (simp add: tidy_def)
    have e: "entry_ok e" using Cons.prems R stale by (intro stale_entry_ok [of R e J E]) auto
    obtain R1 q where w: "registry_write (lf_write E path) path (jc_print_plain J (stopped_root root)) R = (R1, q)" by (metis surj_pair)
    have path: "path = entry_path R e ''state.json''" using stale_entry_path [OF R e stale] by simp
    have k1: "keeps J R R1" using registry_write_keeps [OF Cons.prems(1) e assms] w by (simp add: path)
    have entries: "rg_entries R1 = rg_entries R" using w by (auto simp: registry_write_def split: prod.splits)
    show ?thesis
    proof (cases "q = Some (Inr ())")
      case True
      then obtain fx m where "reconcile_entries J E v es R1 = (fx, R', m, r)"
        using Cons.prems(3) stale w by (auto simp: Let_def split: prod.splits)
      then have "keeps J R1 R'" using Cons.IH [of R1] k1 entries Cons.prems(2) by (simp add: keeps_def)
      then show ?thesis by (rule keeps_trans [OF k1])
    next
      case False
      then have "R' = R1" using Cons.prems(3) stale w by (auto simp: Let_def split: option.splits sum.splits)
      then show ?thesis using k1 by simp
    qed
  qed
qed

lemma reconcile_keeps:
  assumes "tidy R" "\<And>p. we_pid (lf_write E p) \<le> 4194304" "mc_state_reconcile J E v R = (effects, R', r)"
  shows "keeps J R R'"
  using assms(1,3) reconcile_entries_keeps [OF assms(2,1) subset_refl] keeps_refl [OF assms(1)]
  by (auto simp: mc_state_reconcile_def split: if_splits prod.splits)

lemma add_entry_keeps: "tidy R \<Longrightarrow> entry_ok e \<Longrightarrow> keeps J R (add_entry e R)"
  using registry_ok_add_entry [of R e]
  by (auto simp: keeps_def tidy_def configs_def fun_eq_iff file_json_def)

lemma container_lock_keeps:
  assumes "tidy R" "entry_ok cid" "mc_state_container_lock mk lock R cid = (R', r)"
  shows "keeps J R R'"
proof -
  have "R' \<in> {R, add_entry cid R}"
    using assms(3) by (auto simp: mc_state_container_lock_def entry_mkdir_def Let_def split: option.splits if_splits)
  then show ?thesis using keeps_refl [OF assms(1)] add_entry_keeps [OF assms(1,2)] by auto
qed

text \<open>A registry in which at most the configuration of \<open>cid\<close> is gone.\<close>

definition drops :: "jsonc \<Rightarrow> string \<Rightarrow> registry \<Rightarrow> registry \<Rightarrow> bool" where
  "drops J cid R R' \<longleftrightarrow> tidy R' \<and> rg_dir R' = rg_dir R \<and>
     (\<forall>e. configs J R' e = configs J R e \<or> e = cid \<and> configs J R' e = JNull)"

lemma disk_read_drop: "disk_read (rg_disk (drop_files gone R)) p = (if gone p then None else disk_read (rg_disk R) p)"
  by (simp add: drop_files_def disk_read_def set_dir_def)

lemma drop_files_simps [simp]:
  "rg_dir (drop_files gone R) = rg_dir R" "rg_entries (drop_files gone R) = rg_entries R"
  "rg_opendir (drop_files gone R) = rg_opendir R" "entry_path (drop_files gone R) = entry_path R"
  by (auto simp: drop_files_def entry_path_def fun_eq_iff)

lemma registry_ok_drop: "registry_ok R \<Longrightarrow> registry_ok (drop_files gone R)"
  by (auto simp: registry_ok_def drop_files_def disk_wf_def set_dir_def split: if_splits)

lemma prefix_directory:
  assumes "entry_ok cid" "entry_ok e"
  shows "prefix (entry_path R cid []) (entry_path R e ''config.json'') \<longleftrightarrow> e = cid"
proof
  assume "prefix (entry_path R cid []) (entry_path R e ''config.json'')"
  then obtain zs where "e @ ''/config.json'' = cid @ CHR ''/'' # zs" by (auto simp: entry_path_def elim!: prefixE)
  then show "e = cid"
    using split_sep_unique [of e "CHR ''/''" "''config.json''" cid zs] assms by (simp add: entry_ok_def)
qed (simp add: entry_path_def prefix_def)

lemma remove_drops:
  assumes "tidy R" "entry_ok cid" "mc_state_remove E R cid = (R', r)"
  shows "drops J cid R R'"
proof -
  have R: "registry_ok R" using assms(1) by (simp add: tidy_def)
  then have dir: "make_path (rg_dir R) (Some cid) [] = Some (entry_path R cid [])"
    using make_path_entry [of R cid "[]"] assms(2) by (simp add: registry_ok_def)
  obtain code removed where nftw: "lf_nftw E (entry_path R cid []) = (code, removed)" by (metis surj_pair)
  have R': "R' = remove_tree (code, removed) cid (entry_path R cid []) R"
    using assms(3) by (auto simp: mc_state_remove_def dir nftw Let_def split: if_splits)
  define gone where "gone p \<longleftrightarrow> prefix (entry_path R cid []) p \<and> (code = 0 \<or> p \<in> set removed)" for p
  have files: "rg_disk R' = rg_disk (drop_files gone R)" "rg_dir R' = rg_dir R" "rg_opendir R' = rg_opendir R"
    "rg_entries R' = (if code = 0 then removeAll cid (rg_entries R) else rg_entries R)" "entry_path R' = entry_path R"
    using entry_path_dir [of R' R] by (auto simp: R' remove_tree_def gone_def drop_files_def split: if_splits)
  have "registry_ok (drop_files gone R)" by (rule registry_ok_drop [OF R])
  then have ok: "registry_ok R'" using files by (auto simp: registry_ok_def distinct_removeAll list_all_iff)
  have read: "disk_read (rg_disk R') (entry_path R e ''config.json'') =
      (if e = cid \<and> gone (entry_path R e ''config.json'') then None else disk_read (rg_disk R) (entry_path R e ''config.json''))"
    if "entry_ok e" for e
    using prefix_directory [OF assms(2) that, of R] by (auto simp: files(1) disk_read_drop gone_def)
  have gone_cid: "gone (entry_path R cid ''config.json'')" if "code = 0"
    using that prefix_directory [OF assms(2,2), of R] by (simp add: gone_def)
  have tidy: "tidy R'"
    using assms(1) ok read gone_cid files assms(2) unfolding tidy_def by (auto split: if_splits)
  moreover have "configs J R' e = configs J R e \<or> e = cid \<and> configs J R' e = JNull" for e
  proof (cases "entry_ok e")
    case True
    then show ?thesis
      using read [OF True] configs_file [OF assms(1) True] configs_file [OF tidy True] files(5) by (auto simp: file_json_def)
  next
    case False
    then show ?thesis using configs_other ok R by simp
  qed
  ultimately show ?thesis using files(2) by (simp add: drops_def)
qed

text \<open>The checks of \<open>mc_state_save_config\<close> and the lease, on the stored configurations.\<close>

definition free_name :: "jsonc \<Rightarrow> registry \<Rightarrow> string \<Rightarrow> mc_run_config \<Rightarrow> bool" where
  "free_name J R cid c \<longleftrightarrow> (\<forall>e n. e \<noteq> cid \<longrightarrow> cfg_name c = Some n \<longrightarrow> n \<notin> name_claims J R e)"

definition free_ports :: "jsonc \<Rightarrow> registry \<Rightarrow> string \<Rightarrow> mc_run_config \<Rightarrow> bool" where
  "free_ports J R cid c \<longleftrightarrow>
     (\<forall>e p y. e \<noteq> cid \<longrightarrow> p \<in> set (cfg_publishes c) \<longrightarrow> y \<in> port_claims J R e \<longrightarrow> \<not> ports_conflict (publish_port p) y)"

definition free_lease :: "jsonc \<Rightarrow> registry \<Rightarrow> string \<Rightarrow> json \<Rightarrow> bool" where
  "free_lease J R cid root \<longleftrightarrow> (\<forall>e n. e \<noteq> cid \<longrightarrow> leased_host J root = Some n \<longrightarrow> n \<notin> lease_claims J R e)"

lemma listed_configs: "configs J R e \<noteq> JNull \<Longrightarrow> e \<in> set (rg_entries R) \<and> \<not> hidden e"
  by (auto simp: configs_def split: if_splits)

lemma opendir_listed: "tidy R \<Longrightarrow> e \<in> set (rg_entries R) \<Longrightarrow> rg_opendir R = 0"
  by (auto simp: tidy_def)

lemma name_free:
  assumes "tidy R" "\<not> name_is_taken J R (cfg_name c) cid"
  shows "free_name J R cid c"
proof -
  have False if "e \<noteq> cid" "cfg_name c = Some n" "config_name J (configs J R e) = Some n" for e n
  proof -
    have "configs J R e \<noteq> JNull" using that(3) no_claims(1) by (metis option.distinct(1))
    then have e: "e \<in> set (rg_entries R)" "\<not> hidden e" using listed_configs by blast+
    then have "name_is_taken J R (cfg_name c) cid"
      using that entry_json_configs [OF assms(1) e] opendir_listed [OF assms(1) e(1)]
      by (auto simp: name_is_taken_def registry_any_def list_ex_iff)
    then show False using assms(2) by simp
  qed
  then show ?thesis by (auto simp: free_name_def name_claims_def elem_set)
qed

lemma ports_free:
  assumes "tidy R" "\<not> published_port_is_taken J R c" "cfg_id c = Some cid"
  shows "free_ports J R cid c"
proof -
  have False if "e \<noteq> cid" "p \<in> set (cfg_publishes c)" "y \<in> port_claims J R e" "ports_conflict (publish_port p) y" for e p y
  proof -
    have "configs J R e \<noteq> JNull" using that(3) no_claims(2) [of J] by (auto simp: port_claims_def)
    then have e: "e \<in> set (rg_entries R)" "\<not> hidden e" using listed_configs by blast+
    then have "published_port_is_taken J R c"
      using that entry_json_configs [OF assms(1) e, of J] opendir_listed [OF assms(1) e(1)] assms(3)
      by (fastforce simp: published_port_is_taken_def registry_any_def list_ex_iff port_claims_def)
    then show False using assms(2) by simp
  qed
  then show ?thesis by (auto simp: free_ports_def)
qed

lemma leased_hosts_claims:
  assumes "tidy R" "n \<in> lease_claims J R e"
  shows "n \<in> set (leased_hosts J R)"
proof -
  have "configs J R e \<noteq> JNull" using assms(2) no_claims(3) [of J] by (auto simp: lease_claims_def)
  then have e: "e \<in> set (rg_entries R)" "\<not> hidden e" using listed_configs by blast+
  have "entry_host J R e = Some n"
    using assms(2) e entry_json_configs [OF assms(1) e, of J] by (simp add: entry_host_def lease_claims_def)
  then show ?thesis
    using e(1) opendir_listed [OF assms(1) e(1)] by (force simp: leased_hosts_def List.map_filter_def)
qed

lemma leased_host_config:
  assumes "jsonc_ok J"
  shows "leased_host J (config_json B c img) =
    (if cfg_ipv4_host c AND 0xffffff00 = 0x0a2c0000 then Some (unat (cfg_ipv4_host c AND 0xff)) else None)"
  using assms by (simp add: leased_host_def config_json_gets)

lemma lease_free:
  assumes "jsonc_ok J" "tidy R" "lease_address J R c = Inr c'" "cfg_ipv4_host c = 0"
  shows "free_lease J R cid (config_json B c' img)"
proof (cases "cfg_network_bridge c")
  case True
  then obtain a where a: "mc_state_allocate_ip J R = Inr a" "c' = c\<lparr>cfg_ipv4_host := a\<rparr>"
    using assms(3) by (auto simp: lease_address_def split: sum.splits)
  have "rg_opendir R = 0 \<or> rg_opendir R = ENOENT" using assms(2) by (auto simp: tidy_def)
  from allocate_ip_cases [OF this, of J] obtain n where
    n: "n \<le> 254" "n \<notin> set (leased_hosts J R)" "a = 0x0a2c0000 OR word_of_nat n" using a(1) by auto
  then have "leased_host J (config_json B c' img) = Some n"
    using pool_address [of n] by (simp add: leased_host_config [OF assms(1)] a(2))
  then show ?thesis using n(2) leased_hosts_claims [OF assms(2)] by (auto simp: free_lease_def)
next
  case False
  then have "c' = c" using assms(3) by (simp add: lease_address_def)
  then show ?thesis using assms(4) by (simp add: free_lease_def leased_host_config [OF assms(1)])
qed

lemma registry_write_config:
  assumes "tidy R" "entry_ok cid" "cid \<in> set (rg_entries R)" "we_pid W \<le> 4194304"
    and "registry_write W (entry_path R cid ''config.json'') data R = (R', r)"
  shows "tidy R' \<and> rg_dir R' = rg_dir R \<and>
    (configs J R' = configs J R \<or> configs J R' = (configs J R)(cid := jc_parse J data))"
proof -
  have R: "registry_ok R" using assms(1) by (simp add: tidy_def)
  have len: "disk_wf (rg_disk R)" "length (entry_path R cid ''config.json'') \<le> 4032"
    using R entry_path_length [OF _ assms(2)] by (simp_all add: registry_ok_def)
  note w = registry_write_frame [OF len assms(4,5)]
  have t: "touches cid {''config.json''} R R'" by (rule touches_write [OF R assms(2) leaf_ok_json(1) assms(4,5)])
  then have R': "registry_ok R'" "entry_path R' = entry_path R" using entry_path_dir [of R' R] by (simp_all add: touches_def)
  have other: "disk_read (rg_disk R') (entry_path R e ''config.json'') = disk_read (rg_disk R) (entry_path R e ''config.json'')"
    if "entry_ok e" "e \<noteq> cid" for e
    using t that by (simp add: touches_def)
  have tidy: "tidy R'"
    using assms(1,3) R' w(1) other unfolding tidy_def by (metis empty_iff list.set(1))
  have configs: "configs J R' e = configs J R e" if "e \<noteq> cid" for e
    using other [of e] that configs_file [OF assms(1), of e J] configs_file [OF tidy, of e J] configs_other [OF _ R, of e J]
      configs_other [OF _ R'(1), of e J] R'(2) by (cases "entry_ok e") (simp_all add: file_json_def)
  have "configs J R' cid = configs J R cid \<or> configs J R' cid = jc_parse J data"
    using w(4) configs_file [OF assms(1,2)] configs_file [OF tidy assms(2)] R'(2) by (auto simp: file_json_def)
  then have "configs J R' = configs J R \<or> configs J R' = (configs J R)(cid := jc_parse J data)"
  proof
    assume "configs J R' cid = configs J R cid"
    then have "configs J R' e = configs J R e" for e using configs by (cases "e = cid") simp_all
    then show ?thesis by (simp add: fun_eq_iff)
  next
    assume "configs J R' cid = jc_parse J data"
    then show ?thesis using configs by (simp add: fun_eq_iff)
  qed
  then show ?thesis using tidy w(1) by simp
qed

lemma claims_cong:
  assumes "configs J R' = configs J R"
  shows "name_claims J R' = name_claims J R" "port_claims J R' = port_claims J R" "lease_claims J R' = lease_claims J R"
  using assms by (simp_all add: name_claims_def port_claims_def lease_claims_def fun_eq_iff)

lemma save_configs:
  assumes "jsonc_ok J" "tidy R" "cfg_id c = Some cid" "entry_ok cid" "list_all mount_storable (cfg_mounts c)"
    and "\<And>p. we_pid (se_write S p) \<le> 4194304" "mc_state_save_config J S R c img = (R', r)"
  shows "tidy R' \<and> rg_dir R' = rg_dir R \<and>
    (configs J R' = configs J R \<or>
     configs J R' = (configs J R)(cid := config_json (se_build S) c img) \<and> free_name J R cid c \<and> free_ports J R cid c)"
proof -
  have "length (rg_dir R) \<le> 3700" using assms(2) by (simp add: tidy_def registry_ok_def)
  then show ?thesis using assms(3,4,7)
  proof (cases rule: save_config_cases)
    case refused
    then show ?thesis using assms(2) add_entry_keeps [OF assms(2,4), of J] by (auto simp: keeps_def)
  next
    case written
    have k: "keeps J R (add_entry cid R)" by (rule add_entry_keeps [OF assms(2,4)])
    have "jc_parse J (jc_print J (config_json (se_build S) c img)) = config_json (se_build S) c img"
      using config_json_wf [OF assms(5)] by (intro jsonc_ok_parse [OF assms(1)])
    moreover have "registry_write (se_write S (entry_path R cid ''config.json'')) (entry_path (add_entry cid R) cid ''config.json'')
        (jc_print J (config_json (se_build S) c img)) (add_entry cid R) = (R', r)" using written(4) by simp
    note registry_write_config [OF _ assms(4) _ assms(6) this, of J]
    ultimately show ?thesis
      using k name_free [OF assms(2) written(1)] ports_free [OF assms(2) written(2) assms(3)] by (simp add: keeps_def)
  qed
qed

section \<open>Steps of the registry\<close>

text \<open>What \<open>run\<close> and \<open>create\<close> ask for: an identifier that is a directory name, no address yet, complete
  mounts. Process numbers are below the kernel's limit.\<close>

definition request_ok :: "mc_run_config \<Rightarrow> bool" where
  "request_ok c \<longleftrightarrow> (case cfg_id c of None \<Rightarrow> False | Some cid \<Rightarrow> entry_ok cid) \<and> cfg_ipv4_host c = 0 \<and>
     list_all mount_storable (cfg_mounts c)"

definition env_ok :: "admit_env \<Rightarrow> bool" where
  "env_ok A \<longleftrightarrow> (\<forall>p. we_pid (se_write (ad_store A) p) \<le> 4194304) \<and> (\<forall>p. we_pid (lf_write (ad_life A) p) \<le> 4194304)"

inductive registry_step :: "jsonc \<Rightarrow> registry \<Rightarrow> registry \<Rightarrow> bool" for J :: jsonc where
  admit: "env_ok A \<Longrightarrow> request_ok c \<Longrightarrow> admit_container J A create_only c img R = (effects, R', r) \<Longrightarrow> registry_step J R R'"
| remove: "entry_ok cid \<Longrightarrow> mc_state_remove E R cid = (R', r) \<Longrightarrow> registry_step J R R'"
| reconcile: "(\<And>p. we_pid (lf_write E p) \<le> 4194304) \<Longrightarrow> mc_state_reconcile J E verbose R = (effects, R', r) \<Longrightarrow> registry_step J R R'"
| lock: "entry_ok cid \<Longrightarrow> mc_state_container_lock mk lk R cid = (R', r) \<Longrightarrow> registry_step J R R'"
| state: "entry_ok cid \<Longrightarrow> we_pid W \<le> 4194304 \<Longrightarrow> registry_write W (entry_path R cid ''state.json'') data R = (R', r) \<Longrightarrow>
    registry_step J R R'"

text \<open>The effect of a step on the configurations: at most one container adopts a new one, with
  everything in it free, and configurations may be lost.\<close>

definition adopts :: "jsonc \<Rightarrow> string \<Rightarrow> registry \<Rightarrow> registry \<Rightarrow> bool" where
  "adopts J cid R R' \<longleftrightarrow> tidy R' \<and>
     (\<forall>e. configs J R' e \<in> {configs J R e, JNull} \<or>
        e = cid \<and> (\<exists>B c img. configs J R' e = config_json B c img \<and> free_name J R cid c \<and> free_ports J R cid c \<and>
                     free_lease J R cid (config_json B c img)))"

lemma keeps_adopts: "keeps J R R' \<Longrightarrow> adopts J cid R R'"
  by (simp add: keeps_def adopts_def)

lemma drops_adopts: "drops J cid R R' \<Longrightarrow> adopts J cid R R'"
  by (auto simp: drops_def adopts_def)

lemma keeps_adopts_trans:
  assumes "keeps J R R1" "adopts J cid R1 R2"
  shows "adopts J cid R R2"
proof -
  have c: "configs J R1 = configs J R" using assms(1) by (simp add: keeps_def)
  have "free_name J R1 = free_name J R" "free_ports J R1 = free_ports J R" "free_lease J R1 = free_lease J R"
    by (simp_all add: fun_eq_iff free_name_def free_ports_def free_lease_def claims_cong [OF c])
  then show ?thesis using assms(2) by (simp add: adopts_def c)
qed

lemma adopts_keeps_trans: "adopts J cid R R1 \<Longrightarrow> keeps J R1 R2 \<Longrightarrow> adopts J cid R R2"
  by (simp add: keeps_def adopts_def)

lemma adopts_drops_trans:
  assumes "adopts J cid R R1" "drops J cid R1 R2"
  shows "adopts J cid R R2"
proof -
  have "configs J R2 e = JNull \<or> configs J R2 e = configs J R1 e" for e using assms(2) by (auto simp: drops_def)
  moreover have "tidy R2" using assms(2) by (simp add: drops_def)
  ultimately show ?thesis using assms(1) unfolding adopts_def by (simp only: insert_iff) metis
qed

lemma mark_created_keeps:
  assumes "tidy R" "entry_ok cid" "\<And>p. we_pid (se_write S p) \<le> 4194304" "mc_state_mark_created S R cid = (R', r)"
  shows "keeps J R R'"
proof -
  have "make_path (rg_dir R) (Some cid) ''state.json'' = Some (entry_path R cid ''state.json'')"
    using assms(1,2) by (intro make_path_entry) (simp_all add: tidy_def registry_ok_def)
  then show ?thesis
    using assms(4) keeps_refl [OF assms(1)] registry_write_keeps [OF assms(1-3)]
    by (auto simp: mc_state_mark_created_def Let_def split: if_splits)
qed

lemma save_adopts:
  assumes "jsonc_ok J" "tidy R" "cfg_id c = Some cid" "request_ok c" "\<And>p. we_pid (se_write S p) \<le> 4194304"
    and "lease_address J R c = Inr c'" "mc_state_save_config J S R c' img = (R', r)"
  shows "adopts J cid R R'"
proof -
  have c': "cfg_id c' = Some cid" "cfg_mounts c' = cfg_mounts c" "cfg_name c' = cfg_name c" "cfg_publishes c' = cfg_publishes c"
    using assms(3,6) by (auto simp: lease_address_def split: sum.splits if_splits)
  have c: "entry_ok cid" "cfg_ipv4_host c = 0" "list_all mount_storable (cfg_mounts c)"
    using assms(3,4) by (simp_all add: request_ok_def)
  have saved: "tidy R'" "configs J R' = configs J R \<or>
     configs J R' = (configs J R)(cid := config_json (se_build S) c' img) \<and> free_name J R cid c' \<and> free_ports J R cid c'"
    using save_configs [OF assms(1,2) c'(1) c(1) _ assms(5,7)] c(3) c'(2) by simp_all
  have lease: "free_lease J R cid (config_json (se_build S) c' img)" by (rule lease_free [OF assms(1,2,6) c(2)])
  from saved(2) show ?thesis
  proof
    assume "configs J R' = configs J R"
    then show ?thesis using saved(1) by (simp add: adopts_def)
  next
    assume new: "configs J R' = (configs J R)(cid := config_json (se_build S) c' img) \<and> free_name J R cid c' \<and> free_ports J R cid c'"
    have "configs J R' e \<in> {configs J R e, JNull} \<or> e = cid \<and> (\<exists>B c img. configs J R' e = config_json B c img \<and>
        free_name J R cid c \<and> free_ports J R cid c \<and> free_lease J R cid (config_json B c img))" for e
      using new lease by (cases "e = cid") auto
    then show ?thesis using saved(1) by (simp add: adopts_def)
  qed
qed

lemma admit_save_adopts:
  assumes "jsonc_ok J" "tidy R" "cfg_id c = Some cid" "request_ok c" "env_ok A"
    and "admit_save J A create_only c img R = (R', r)"
  shows "adopts J cid R R'"
proof (cases "lease_address J R c")
  case (Inl err)
  then show ?thesis using assms(6) keeps_adopts [OF keeps_refl [OF assms(2)]] by (simp add: admit_save_def)
next
  case (Inr c')
  obtain R1 q where save: "mc_state_save_config J (ad_store A) R c' img = (R1, q)" by (metis surj_pair)
  have pid: "\<And>p. we_pid (se_write (ad_store A) p) \<le> 4194304" using assms(5) by (simp add: env_ok_def)
  have a: "adopts J cid R R1" by (rule save_adopts [OF assms(1-4) pid Inr save])
  have cid: "entry_ok cid" using assms(3,4) by (simp add: request_ok_def)
  obtain R2 q2 where mark: "mc_state_mark_created (ad_store A) R1 cid = (R2, q2)" by (metis surj_pair)
  have "tidy R1" using a by (simp add: adopts_def)
  then have k: "keeps J R1 R2" by (rule mark_created_keeps [OF _ cid pid mark])
  have "R' \<in> {R1, R2}"
    using assms(3,6) by (auto simp: admit_save_def Inr save mark split: option.splits sum.splits if_splits)
  then show ?thesis using a adopts_keeps_trans [OF a k] by auto
qed

lemma admit_locked_adopts:
  assumes "jsonc_ok J" "tidy R" "cfg_id c = Some cid" "request_ok c" "env_ok A"
    and "admit_locked J A create_only c img R = (effects, R', r)"
  shows "adopts J cid R R'"
proof -
  obtain fx R1 q where rec: "mc_state_reconcile J (ad_life A) False R = (fx, R1, q)" by (metis prod_cases3)
  obtain R2 q2 where lock: "mc_state_container_lock (se_mkdir (ad_store A)) (ad_lock A) R1 cid = (R2, q2)" by (metis surj_pair)
  obtain R3 q3 where save: "admit_save J A create_only c img R2 = (R3, q3)" by (metis surj_pair)
  have pid: "\<And>p. we_pid (lf_write (ad_life A) p) \<le> 4194304" using assms(5) by (simp add: env_ok_def)
  have cid: "entry_ok cid" using assms(3,4) by (simp add: request_ok_def)
  have k1: "keeps J R R1" by (rule reconcile_keeps [OF assms(2) pid rec])
  then have "tidy R1" by (simp add: keeps_def)
  then have k2: "keeps J R R2" using keeps_trans [OF k1] container_lock_keeps [OF _ cid lock] by blast
  then have "tidy R2" by (simp add: keeps_def)
  then have a: "adopts J cid R R3" using keeps_adopts_trans [OF k2] admit_save_adopts [OF assms(1) _ assms(3-5) save] by blast
  have "R' \<in> {R, R1, R2, R3}"
    using assms(3,6) by (auto simp: admit_locked_def rec lock save split: option.splits sum.splits)
  then show ?thesis using a keeps_adopts [OF keeps_refl [OF assms(2)]] keeps_adopts [OF k1] keeps_adopts [OF k2] by auto
qed

lemma admit_adopts:
  assumes "jsonc_ok J" "tidy R" "cfg_id c = Some cid" "request_ok c" "env_ok A"
    and "admit_container J A create_only c img R = (effects, R', r)"
  shows "adopts J cid R R'"
proof -
  obtain fx R1 q where locked: "admit_locked J A create_only c img R = (fx, R1, q)" by (metis prod_cases3)
  have a: "adopts J cid R R1" by (rule admit_locked_adopts [OF assms(1-5) locked])
  have cid: "entry_ok cid" using assms(3,4) by (simp add: request_ok_def)
  obtain R2 q2 where rm: "mc_state_remove (ad_life A) R1 cid = (R2, q2)" by (metis surj_pair)
  have "tidy R1" using a by (simp add: adopts_def)
  then have "adopts J cid R R2" using adopts_drops_trans [OF a] remove_drops [OF _ cid rm] by blast
  moreover have "R' \<in> {R1, R2}"
    using assms(3,6) rm by (auto simp: admit_container_def locked split: option.splits sum.splits)
  ultimately show ?thesis using a by auto
qed

lemma step_adopts:
  assumes "jsonc_ok J" "registry_step J R R'" "tidy R"
  shows "\<exists>cid. adopts J cid R R'"
  using assms(2)
proof cases
  case (admit A c create_only img effects r)
  then obtain cid where "cfg_id c = Some cid" by (auto simp: request_ok_def split: option.splits)
  then show ?thesis using admit_adopts [OF assms(1,3) _ admit(2,1,3)] by blast
next
  case (remove cid E r)
  then show ?thesis using drops_adopts [OF remove_drops [OF assms(3)]] by blast
next
  case (reconcile E verbose effects r)
  then show ?thesis using keeps_adopts [OF reconcile_keeps [OF assms(3)]] by blast
next
  case (lock cid mk lk r)
  then show ?thesis using keeps_adopts [OF container_lock_keeps [OF assms(3)]] by blast
next
  case (state cid W data r)
  then show ?thesis using keeps_adopts [OF registry_write_keeps [OF assms(3)]] by blast
qed

section \<open>Names, ports and addresses as exclusive claims\<close>

lemma config_claims:
  assumes "jsonc_ok J"
  shows "config_name J (config_json B c img) = cfg_name c"
    "stored_ports J (config_json B c img) = map publish_port (cfg_publishes c)"
proof -
  show "config_name J (config_json B c img) = cfg_name c"
    using assms by (cases "cfg_name c") (simp_all add: config_name_def config_json_gets)
  have "stored_port J (publish_json p) = Some (publish_port p)" for p
    using assms by (simp add: stored_port_def publish_json_def publish_port_def)
  then have "List.map_filter (stored_port J) (map publish_json ps) = map publish_port ps" for ps
    by (induction ps) (simp_all add: map_filter_simps)
  then show "stored_ports J (config_json B c img) = map publish_port (cfg_publishes c)"
    by (simp add: stored_ports_def json_get_array_def json_array_items_def config_json_gets)
qed

text \<open>The contract for claims that are read off the stored configuration by \<open>f\<close>.\<close>

lemma adopts_claims:
  assumes "adopts J cid R R'" "f JNull = {}"
    and "\<And>B c img x e y. free_name J R cid c \<Longrightarrow> free_ports J R cid c \<Longrightarrow> free_lease J R cid (config_json B c img) \<Longrightarrow>
           x \<in> f (config_json B c img) \<Longrightarrow> e \<noteq> cid \<Longrightarrow> y \<in> f (configs J R e) \<Longrightarrow> \<not> conflict x y"
  shows "\<exists>k. (\<forall>k'. k' \<noteq> k \<longrightarrow> f (configs J R' k') \<subseteq> f (configs J R k')) \<and>
    (f (configs J R' k) \<subseteq> f (configs J R k) \<or>
     (\<forall>k' x y. k' \<noteq> k \<longrightarrow> x \<in> f (configs J R' k) \<longrightarrow> y \<in> f (configs J R k') \<longrightarrow> \<not> conflict x y))"
proof (rule exI [of _ cid], intro conjI allI impI)
  fix e assume "e \<noteq> cid"
  then have "configs J R' e \<in> {configs J R e, JNull}" using assms(1) by (auto simp: adopts_def)
  then show "f (configs J R' e) \<subseteq> f (configs J R e)" using assms(2) by auto
next
  consider "configs J R' cid \<in> {configs J R cid, JNull}" | B c img where "configs J R' cid = config_json B c img"
      "free_name J R cid c" "free_ports J R cid c" "free_lease J R cid (config_json B c img)"
    using assms(1) unfolding adopts_def by metis
  then show "f (configs J R' cid) \<subseteq> f (configs J R cid) \<or>
     (\<forall>k' x y. k' \<noteq> cid \<longrightarrow> x \<in> f (configs J R' cid) \<longrightarrow> y \<in> f (configs J R k') \<longrightarrow> \<not> conflict x y)"
  proof cases
    case 1
    then show ?thesis using assms(2) by auto
  next
    case 2
    then show ?thesis using assms(3) [OF 2(2-4)] by (metis 2(1))
  qed
qed

definition ready_step :: "jsonc \<Rightarrow> registry \<Rightarrow> registry \<Rightarrow> bool" where
  "ready_step J R R' \<longleftrightarrow> jsonc_ok J \<and> registry_step J R R'"

lemma ready_adopts: "tidy R \<Longrightarrow> ready_step J R R' \<Longrightarrow> jsonc_ok J \<and> (\<exists>cid. adopts J cid R R')"
  unfolding ready_step_def using step_adopts by blast

lemma ready_tidy: "tidy R \<Longrightarrow> ready_step J R R' \<Longrightarrow> tidy R'"
  using ready_adopts [of R J R'] by (auto simp: adopts_def)

interpretation names: exclusive_claims "ready_step J" tidy "name_claims J" "(=)" for J
proof
  fix R R' assume "tidy R" "ready_step J R R'"
  then obtain cid where J: "jsonc_ok J" and a: "adopts J cid R R'" using ready_adopts by blast
  show "\<exists>k. (\<forall>k'. k' \<noteq> k \<longrightarrow> name_claims J R' k' \<subseteq> name_claims J R k') \<and>
    (name_claims J R' k \<subseteq> name_claims J R k \<or>
     (\<forall>k' x y. k' \<noteq> k \<longrightarrow> x \<in> name_claims J R' k \<longrightarrow> y \<in> name_claims J R k' \<longrightarrow> x \<noteq> y))"
    unfolding name_claims_def
    by (rule adopts_claims [OF a, where f = "\<lambda>root. set_option (config_name J root)" and conflict = "(=)"])
      (auto simp: no_claims config_claims [OF J] free_name_def name_claims_def elem_set)
qed (auto intro: ready_tidy)

interpretation ports: exclusive_claims "ready_step J" tidy "port_claims J" ports_conflict for J
proof
  fix R R' assume "tidy R" "ready_step J R R'"
  then obtain cid where J: "jsonc_ok J" and a: "adopts J cid R R'" using ready_adopts by blast
  show "\<exists>k. (\<forall>k'. k' \<noteq> k \<longrightarrow> port_claims J R' k' \<subseteq> port_claims J R k') \<and>
    (port_claims J R' k \<subseteq> port_claims J R k \<or>
     (\<forall>k' x y. k' \<noteq> k \<longrightarrow> x \<in> port_claims J R' k \<longrightarrow> y \<in> port_claims J R k' \<longrightarrow> \<not> ports_conflict x y))"
    unfolding port_claims_def
    by (rule adopts_claims [OF a, where f = "\<lambda>root. set (stored_ports J root)"])
      (auto simp: no_claims config_claims [OF J] free_ports_def port_claims_def)
qed (auto intro: ready_tidy simp: ports_conflict_def split: prod.splits)

interpretation leases: exclusive_claims "ready_step J" tidy "lease_claims J" "(=)" for J
proof
  fix R R' assume "tidy R" "ready_step J R R'"
  then obtain cid where J: "jsonc_ok J" and a: "adopts J cid R R'" using ready_adopts by blast
  show "\<exists>k. (\<forall>k'. k' \<noteq> k \<longrightarrow> lease_claims J R' k' \<subseteq> lease_claims J R k') \<and>
    (lease_claims J R' k \<subseteq> lease_claims J R k \<or>
     (\<forall>k' x y. k' \<noteq> k \<longrightarrow> x \<in> lease_claims J R' k \<longrightarrow> y \<in> lease_claims J R k' \<longrightarrow> x \<noteq> y))"
    unfolding lease_claims_def
    by (rule adopts_claims [OF a, where f = "\<lambda>root. set_option (leased_host J root)" and conflict = "(=)"])
      (auto simp: no_claims free_lease_def lease_claims_def elem_set)
qed (auto intro: ready_tidy)

text \<open>
  C9: Exclusive resources. Starting from an empty registry, whatever admissions (also failing and
  interrupted ones), removals (also incomplete ones), reconciliations, locks and state updates happen in
  any order, no two containers ever have the same name or address, or publish the same port of one protocol on
  addresses that are equal or of which one is the wildcard.
\<close>

theorem registry_exclusive:
  assumes "jsonc_ok J" "tidy R0" "rg_entries R0 = []" "(registry_step J)\<^sup>*\<^sup>* R0 R"
  shows "exclusive (=) (name_claims J R) \<and> exclusive (=) (lease_claims J R) \<and>
    exclusive (\<lambda>(address, port, proto) (address', port', proto').
      proto = proto' \<and> port = port' \<and> (address = 0 \<or> address' = 0 \<or> address = address')) (port_claims J R)"
proof -
  have none: "configs J R0 e = JNull" for e by (simp add: configs_def assms(3))
  have start: "exclusive (=) (name_claims J R0)" "exclusive ports_conflict (port_claims J R0)" "exclusive (=) (lease_claims J R0)"
    by (simp_all add: exclusive_def name_claims_def port_claims_def lease_claims_def none no_claims)
  have "ready_step J = registry_step J" using assms(1) by (simp add: ready_step_def fun_eq_iff)
  then have run: "(ready_step J)\<^sup>*\<^sup>* R0 R" using assms(4) by simp
  have "ports_conflict = (\<lambda>(address, port, proto) (address', port', proto').
      proto = proto' \<and> port = port' \<and> (address = 0 \<or> address' = 0 \<or> address = address'))"
    by (simp add: ports_conflict_def fun_eq_iff)
  then show ?thesis
    using names.exclusive_run [OF run assms(2) start(1)] ports.exclusive_run [OF run assms(2) start(2)]
      leases.exclusive_run [OF run assms(2) start(3)] by simp
qed

definition example_admit :: admit_env where
  "example_admit = \<lparr>ad_store = example_store_env 4096, ad_life = example_life (\<lambda>_. None), ad_lock = (\<lambda>_. 0)\<rparr>"

theorem registry_exclusive_witness:
  "\<exists>effects R r. admit_container jsonc_ref example_admit True (example_stored\<lparr>cfg_ipv4_host := 0\<rparr>) ''web'' example_registry = (effects, R, r) \<and>
     exclusive (=) (name_claims jsonc_ref R)"
proof -
  let ?c = "example_stored\<lparr>cfg_ipv4_host := 0\<rparr>"
  obtain effects R r where run: "admit_container jsonc_ref example_admit True ?c ''web'' example_registry = (effects, R, r)"
    by (metis prod_cases3)
  have "env_ok example_admit"
    by (simp add: env_ok_def example_admit_def example_store_env_def example_life_def example_write_env_def)
  moreover have "request_ok ?c"
    using example_storable by (simp add: request_ok_def config_storable_def entry_ok_def hidden_def example_stored_def)
  ultimately have "registry_step jsonc_ref example_registry R" using run by (rule registry_step.admit)
  then have steps: "(registry_step jsonc_ref)\<^sup>*\<^sup>* example_registry R" by (rule r_into_rtranclp)
  have tidy: "tidy example_registry" "rg_entries example_registry = []"
    using example_registry_ok
    by (auto simp: tidy_def example_registry_def example_disk_def disk_read_def entry_path_def)
  from registry_exclusive [OF jsonc_ref_ok tidy steps] show ?thesis using run by blast
qed

end
