(* ===== verification/MC_Control.thy ===== *)
theory MC_Control
  imports MC_Lifecycle
begin

text \<open>
  The control protocol between the command line and the shim: \<open>control_reply\<close> and \<open>handle_control\<close> of
  \<open>src/linux/container.c\<close>, the server side of \<open>mc_state_signal\<close> in \<open>src/state/store.c\<close>. One accepted
  connection gives the signals the shim tries to deliver and the reply it sends. The results are that
  only root's well-formed requests lead to a signal, and that a request of the client is understood by
  the shim and its reply by the client.
\<close>

section \<open>The shim's side\<close>

text \<open>The packet that was received, the user at the other end, the cgroup of the container, and the
  answers of the kernel.\<close>

record control_env =
  ct_recv :: "errno + string"
  ct_peer :: "errno + u32"
  ct_active :: bool
  ct_payload :: string
  ct_kill :: "string \<Rightarrow> bool"
  ct_pidfd :: "int \<Rightarrow> bool"

datatype delivery = CgroupKill string | PidfdSignal int

abbreviation SIGKILL :: int where "SIGKILL \<equiv> 9"
abbreviation NSIG :: int where "NSIG \<equiv> 65"

definition control_reply :: "bool \<Rightarrow> string \<Rightarrow> string option" where
  "control_reply ok msg =
     (let response = concat [''{'', quoted ''version'', '':1,'', quoted ''ok'', '':'', if ok then ''true'' else ''false'', '','',
                             quoted ''message'', '':'', quoted msg, ''}''] in
      if 0 < length response \<and> length response < 256 then Some response else None)"

text \<open>The signal a request asks for. An operation that is \<open>null\<close> reaches \<open>strcmp\<close> as the null pointer.\<close>

datatype control_request = Invalid_request | Null_operation | Signal_request int

definition requested_signal :: "jsonc \<Rightarrow> json \<Rightarrow> control_request" where
  "requested_signal J root =
     (case json_object_get root ''version'' of
        None \<Rightarrow> Invalid_request
      | Some version \<Rightarrow>
          if jc_int J version \<noteq> 1 then Invalid_request
          else case json_object_get root ''operation'' of
            None \<Rightarrow> Invalid_request
          | Some op \<Rightarrow> (case jc_string J op of
              None \<Rightarrow> Null_operation
            | Some value \<Rightarrow>
                if value \<noteq> ''signal'' then Invalid_request
                else case json_object_get root ''signal'' of
                  None \<Rightarrow> Invalid_request
                | Some v \<Rightarrow> if jc_int J v \<le> 0 \<or> jc_int J v \<ge> NSIG then Invalid_request else Signal_request (jc_int J v)))"

definition deliver_signal :: "control_env \<Rightarrow> int \<Rightarrow> delivery list \<times> string option" where
  "deliver_signal C signal_number =
     (if signal_number = SIGKILL \<and> ct_active C then
        let kill_path = snprintf_buf 4096 (ct_payload C @ ''/cgroup.kill'') in
        ([CgroupKill kill_path],
         if ct_kill C kill_path then control_reply True ''signal delivered'' else control_reply False ''cgroup kill failed'')
      else ([PidfdSignal signal_number],
            if ct_pidfd C signal_number then control_reply True ''signal delivered''
            else control_reply False ''pidfd signal failed''))"

text \<open>What the connection leads to: the deliveries that are attempted and the reply, if one is sent, or
  the end of the shim.\<close>

datatype control_outcome = Handled "delivery list" "string option" | Shim_crash

definition handle_control :: "jsonc \<Rightarrow> control_env \<Rightarrow> control_outcome" where
  "handle_control J C =
     (let invalid = Handled [] (control_reply False ''invalid request'') in
      case ct_recv C of
        Inl _ \<Rightarrow> invalid
      | Inr packet \<Rightarrow>
          let request = take 1024 packet in
          if request = [] then invalid
          else if ct_peer C \<noteq> Inr 0 then Handled [] (control_reply False ''permission denied'')
          else case requested_signal J (jc_parse J (takeWhile (\<lambda>c. c \<noteq> CHR 0x00) request)) of
            Invalid_request \<Rightarrow> invalid
          | Null_operation \<Rightarrow> Shim_crash
          | Signal_request n \<Rightarrow> Handled (fst (deliver_signal C n)) (snd (deliver_signal C n)))"

section \<open>Lemmas\<close>

lemma deliver_signal_one:
  "fst (deliver_signal C n) = [if n = SIGKILL \<and> ct_active C then CgroupKill (snprintf_buf 4096 (ct_payload C @ ''/cgroup.kill''))
     else PidfdSignal n]"
  by (simp add: deliver_signal_def Let_def)

lemma requested_signal_range: "requested_signal J root = Signal_request n \<Longrightarrow> 0 < n \<and> n < 65"
  by (auto simp: requested_signal_def split: option.splits if_splits)

text \<open>The replies contain the text the client looks for exactly when they report success.\<close>

lemma control_reply_ok:
  "\<exists>r. control_reply True ''signal delivered'' = Some r \<and> r \<noteq> [] \<and> length r \<le> 255 \<and> strstr r ok_text \<noteq> None"
  by (simp add: control_reply_def quoted_def ok_text_def Let_def)

lemma signal_request_text:
  assumes "0 < n" "n < 65"
  shows "snprintf_buf 128 (signal_request n) = signal_request n" "length (signal_request n) \<le> 1024"
    "signal_request n \<noteq> []" "CHR 0x00 \<notin> set (signal_request n)"
proof -
  have "length (show_nat (nat n)) \<le> 2" using assms by (intro length_show_nat) simp_all
  moreover have "show_int n = show_nat (nat n)" using assms by (simp add: show_int_def)
  ultimately have len: "length (signal_request n) \<le> 60" by (simp add: signal_request_def quoted_def)
  then show "snprintf_buf 128 (signal_request n) = signal_request n" "length (signal_request n) \<le> 1024" by simp_all
  show "signal_request n \<noteq> []" by (simp add: signal_request_def)
  have "CHR 0x00 \<notin> set (show_nat (nat n))" using show_nat_digits [of "CHR 0x00" "nat n"] by (auto simp: ctype_defs)
  then show "CHR 0x00 \<notin> set (signal_request n)" using \<open>show_int n = _\<close> by (simp add: signal_request_def quoted_def)
qed

section \<open>An example\<close>

text \<open>A JSON library that reads the request for signal 15, and a shim that is reached by root.\<close>

definition request_15 :: json where
  "request_15 = JObject [(''version'', JInt 1), (''operation'', JString ''signal''), (''signal'', JInt 15)]"

definition control_jsonc :: jsonc where
  "control_jsonc = jsonc_ref\<lparr>jc_parse := (jc_parse jsonc_ref)(signal_request 15 := request_15)\<rparr>"

definition example_control :: control_env where
  "example_control = \<lparr>ct_recv = Inr (signal_request 15), ct_peer = Inr 0, ct_active = True, ct_payload = ''/c/payload'',
     ct_kill = (\<lambda>_. True), ct_pidfd = (\<lambda>_. True)\<rparr>"

lemma control_jsonc_ok: "jsonc_ok control_jsonc"
proof -
  have "replicate k CHR ''1'' \<noteq> signal_request 15" for k
    by (cases k) (simp_all add: signal_request_def)
  then have other: "jc_print jsonc_ref j \<noteq> signal_request 15" "jc_print_plain jsonc_ref j \<noteq> signal_request 15" for j
    by (simp_all add: jsonc_ref_def)
  have wf: "json_wf request_15" "json_depth request_15 < 32" by (simp_all add: request_15_def)
  have same: "jc_print control_jsonc = jc_print jsonc_ref" "jc_print_plain control_jsonc = jc_print_plain jsonc_ref"
    "jc_string control_jsonc = jc_string jsonc_ref" "jc_int control_jsonc = jc_int jsonc_ref"
    "jc_int64 control_jsonc = jc_int64 jsonc_ref" "jc_uint64 control_jsonc = jc_uint64 jsonc_ref"
    "jc_boolean control_jsonc = jc_boolean jsonc_ref"
    "\<And>s. jc_parse control_jsonc s = (if s = signal_request 15 then request_15 else jc_parse jsonc_ref s)"
    by (simp_all add: control_jsonc_def)
  show ?thesis
    unfolding jsonc_ok_def same
    by (intro conjI allI impI)
      (auto simp only: other wf if_False if_True jsonc_ok_parse [OF jsonc_ref_ok] jsonc_ok_parse_plain [OF jsonc_ref_ok]
         jsonc_ok_parsed [OF jsonc_ref_ok] jsonc_ok_string [OF jsonc_ref_ok] jsonc_ok_null [OF jsonc_ref_ok]
         jsonc_ok_int [OF jsonc_ref_ok] jsonc_ok_int64 [OF jsonc_ref_ok] jsonc_ok_uint64 [OF jsonc_ref_ok]
         jsonc_ok_boolean [OF jsonc_ref_ok] split: if_split)
qed

lemma control_reads:
  "jc_parse control_jsonc (signal_request 15) =
     JObject [(''version'', JInt 1), (''operation'', JString ''signal''), (''signal'', JInt 15)]"
  by (simp add: control_jsonc_def request_15_def)

lemma example_deliver: "deliver_signal example_control 15 = ([PidfdSignal 15], control_reply True ''signal delivered'')"
  by (simp add: deliver_signal_def example_control_def)

lemma example_handled:
  "handle_control control_jsonc example_control = Handled [PidfdSignal 15] (control_reply True ''signal delivered'')"
proof -
  note fits = signal_request_text [of 15, simplified]
  have "takeWhile (\<lambda>c. c \<noteq> CHR 0x00) (take 1024 (signal_request 15)) = signal_request 15"
    using fits(2) takeWhile_nosep(1) [OF fits(4)] by simp
  moreover have "requested_signal control_jsonc (jc_parse control_jsonc (signal_request 15)) = Signal_request 15"
    using control_jsonc_ok unfolding control_reads by (simp add: requested_signal_def json_object_get_def)
  moreover have "ct_recv example_control = Inr (signal_request 15)" "ct_peer example_control = Inr 0"
    by (simp_all add: example_control_def)
  ultimately show ?thesis using fits(3) by (simp add: handle_control_def Let_def example_deliver)
qed

section \<open>Properties\<close>



text \<open>
  C18: The two ends of the control protocol fit together. For every signal from 1 to 64, the request that
  the client sends makes a shim that is reached by root deliver that signal; when the kernel accepts it,
  the client that receives the shim's reply reports success.
\<close>

theorem control_roundtrip:
  assumes "jsonc_ok J" "0 < n" "n < 65"
    and "jc_parse J (signal_request n) =
      JObject [(''version'', JInt 1), (''operation'', JString ''signal''), (''signal'', JInt n)]"
    and "ct_recv C = Inr (snprintf_buf 128 (signal_request n))" "ct_peer C = Inr 0"
    and "\<And>p. ct_kill C p" "\<And>i. ct_pidfd C i"
    and "lf_connect E socket_path = 0" "lf_send E = 0" "\<And>ds r. handle_control J C = Handled ds (Some r) \<Longrightarrow> lf_recv E = Inr r"
  shows "(\<exists>reply. handle_control J C = Handled
      [if n = 9 \<and> ct_active C then CgroupKill (snprintf_buf 4096 (ct_payload C @ ''/cgroup.kill'')) else PidfdSignal n] reply) \<and>
    control_exchange E cid socket_path = None"
proof -
  note fits = signal_request_text [OF assms(2,3)]
  have whole: "takeWhile (\<lambda>c. c \<noteq> CHR 0x00) (take 1024 (signal_request n)) = signal_request n"
    using fits(2) takeWhile_nosep(1) [OF fits(4)] by simp
  have "requested_signal J (jc_parse J (signal_request n)) = Signal_request n"
    using assms(1-3) unfolding assms(4) by (simp add: requested_signal_def json_object_get_def)
  then have handle: "handle_control J C = Handled (fst (deliver_signal C n)) (snd (deliver_signal C n))"
    using assms(5,6) fits(1,3) whole by (simp add: handle_control_def Let_def)
  obtain r where r: "control_reply True ''signal delivered'' = Some r" "r \<noteq> []" "length r \<le> 255" "strstr r ok_text \<noteq> None"
    using control_reply_ok by blast
  have reply: "snd (deliver_signal C n) = Some r"
    using assms(7,8) r(1) by (simp add: deliver_signal_def Let_def)
  then have "lf_recv E = Inr r" using assms(11) handle by simp
  then have "control_exchange E cid socket_path = None"
    using assms(9,10) r(2-4) by (simp add: control_exchange_def Let_def)
  then show ?thesis using deliver_signal_one [of C n] by (simp add: handle)
qed

theorem control_roundtrip_witness:
  "control_exchange (example_life (\<lambda>_. None)\<lparr>lf_connect := (\<lambda>_. 0), lf_send := 0,
     lf_recv := Inr (the (control_reply True ''signal delivered''))\<rparr>) ''c'' ''s'' = None"
proof -
  have sent: "ct_recv example_control = Inr (snprintf_buf 128 (signal_request 15))"
    using signal_request_text(1) [of 15] by (simp add: example_control_def)
  show ?thesis
    by (rule conjunct2 [OF control_roundtrip [OF control_jsonc_ok _ _ control_reads sent]])
      (auto simp: example_handled, simp_all add: example_control_def)
qed

end
