(* ===== verification/MC_Image.thy ===== *)
theory MC_Image
  imports MC_Fs MC_Ident
begin

text \<open>
  \<open>src/image/import.c\<close>: importing a root file system archive into the content-addressed image store and
  resolving an image name to its root directory. libarchive, OpenSSL and the kernel are parameters: the
  entries an archive yields, the digest function and the results of the calls. The store is the regular
  files (the completion markers and the name records, on the disk of \<open>MC_Fs\<close>) and, for every image
  directory, the entries that were extracted into it. The lemmas show that only safe entries ever reach
  the store, and that an imported name resolves to the imported tree.
\<close>

unbundle bit_operations_syntax

section \<open>Archive entries\<close>

datatype ae_type = AE_NONE | AE_IFREG | AE_IFDIR | AE_IFLNK | AE_IFBLK | AE_IFCHR | AE_IFIFO | AE_IFSOCK

record archive_entry =
  ae_pathname :: "string option"
  ae_symlink :: "string option"
  ae_hardlink :: "string option"
  ae_filetype :: ae_type
  ae_perm :: u32
  ae_uid :: int
  ae_gid :: int

abbreviation S_ISUID :: u32 where "S_ISUID \<equiv> 0x800"
abbreviation S_ISGID :: u32 where "S_ISGID \<equiv> 0x400"

fun strip_dot_slash :: "string \<Rightarrow> string" where
  "strip_dot_slash (a # b # s) = (if a = CHR ''.'' \<and> b = CHR ''/'' then strip_dot_slash s else a # b # s)"
| "strip_dot_slash s = s"

text \<open>An error, \<open>None\<close> for an entry that is skipped, or the entry to extract.\<close>

definition validate_entry :: "u32 \<Rightarrow> u32 \<Rightarrow> archive_entry \<Rightarrow> mc_error + archive_entry option" where
  "validate_entry uid_start gid_start entry =
     (case map_option strip_dot_slash (ae_pathname entry) of
        None \<Rightarrow> Inr None
      | Some path \<Rightarrow>
          let refuse = (\<lambda>msg. Inl (mk_error MC_EXIT_USAGE 0 ''image-import'' (Some path) msg)) in
          if path = [] then Inr None
          else if \<not> mc_safe_archive_path (Some path) then refuse ''unsafe archive path''
          else if ae_symlink entry \<noteq> None \<and> \<not> mc_link_stays_beneath (Some path) (ae_symlink entry) \<or>
                  ae_hardlink entry \<noteq> None \<and> \<not> mc_safe_archive_path (ae_hardlink entry)
          then refuse ''unsafe archive link''
          else if ae_filetype entry \<in> {AE_IFBLK, AE_IFCHR, AE_IFIFO, AE_IFSOCK}
          then refuse ''special files are forbidden''
          else if ae_perm entry AND (S_ISUID OR S_ISGID) \<noteq> 0
          then refuse ''setuid and setgid entries are forbidden''
          else if ae_uid entry < 0 \<or> ae_uid entry > 65535 \<or> ae_gid entry < 0 \<or> ae_gid entry > 65535
          then refuse ''archive owner is outside the container ID range''
          else Inr (Some (entry\<lparr>ae_pathname := Some path, ae_uid := uint uid_start + ae_uid entry,
                               ae_gid := uint gid_start + ae_gid entry\<rparr>)))"

section \<open>Extraction\<close>

text \<open>The entries of the archive in order and the text of the error that ends them, if it is not the end
  of the archive; the error text for an entry that cannot be extracted.\<close>

record extract_env =
  xe_init :: errno
  xe_open :: errno
  xe_entries :: "archive_entry list"
  xe_final :: "string option"
  xe_write :: "archive_entry \<Rightarrow> string option"
  xe_restore :: errno

text \<open>The entries that were written, a last one perhaps in part, and the error.\<close>

fun extract_entries ::
  "extract_env \<Rightarrow> u32 \<Rightarrow> u32 \<Rightarrow> string \<Rightarrow> archive_entry list \<Rightarrow> archive_entry list \<times> mc_error option" where
  "extract_entries X uid gid source [] =
     ([], case xe_final X of None \<Rightarrow> None
          | Some txt \<Rightarrow> Some (mk_error MC_EXIT_RUNTIME 0 ''image-import'' (Some source) txt))"
| "extract_entries X uid gid source (entry # rest) =
     (case validate_entry uid gid entry of
        Inl e \<Rightarrow> ([], Some e)
      | Inr None \<Rightarrow> extract_entries X uid gid source rest
      | Inr (Some e) \<Rightarrow> (case xe_write X e of
            Some txt \<Rightarrow> ([e], Some (mk_error MC_EXIT_RUNTIME 0 ''image-import'' (ae_pathname e) txt))
          | None \<Rightarrow> let (es, r) = extract_entries X uid gid source rest in (e # es, r)))"

definition extract_archive ::
  "extract_env \<Rightarrow> u32 \<Rightarrow> u32 \<Rightarrow> string \<Rightarrow> string \<Rightarrow> archive_entry list \<times> mc_error option" where
  "extract_archive X uid gid source destination =
     (if xe_init X \<noteq> 0
      then ([], Some (mk_error MC_EXIT_INTERNAL (xe_init X) ''image-import'' (Some source) ''cannot initialize extractor''))
      else if xe_open X \<noteq> 0
      then ([], Some (mk_error MC_EXIT_RUNTIME (xe_open X) ''image-import'' (Some source)
                        ''cannot open archive or destination''))
      else let (es, r) = extract_entries X uid gid source (xe_entries X) in
        (es, case r of
           Some e \<Rightarrow> Some e
         | None \<Rightarrow>
             if xe_restore X \<noteq> 0
             then Some (mk_error MC_EXIT_RUNTIME (xe_restore X) ''image-import'' (Some destination)
                          ''cannot restore working directory'')
             else None))"

section \<open>The digest\<close>

record digest_env =
  dg_open :: errno
  dg_init :: bool
  dg_reads :: "(errno + u8 list) list"
  dg_update :: "u8 list \<Rightarrow> bool"
  dg_final :: bool
  dg_sha256 :: "u8 list \<Rightarrow> u8 list"

fun digest_loop :: "digest_env \<Rightarrow> string \<Rightarrow> (errno + u8 list) list \<Rightarrow> u8 list \<Rightarrow> (mc_error + u8 list) option" where
  "digest_loop G path [] bytes = None"
| "digest_loop G path (Inl e # rest) bytes =
     Some (Inl (mk_error MC_EXIT_RUNTIME e ''image-digest'' (Some path) ''SHA-256 finalization failed''))"
| "digest_loop G path (Inr [] # rest) bytes =
     Some (if \<not> dg_final G \<or> length (dg_sha256 G bytes) \<noteq> 32
           then Inl (mk_error MC_EXIT_RUNTIME 0 ''image-digest'' (Some path) ''SHA-256 finalization failed'')
           else Inr (dg_sha256 G bytes))"
| "digest_loop G path (Inr (b # bs) # rest) bytes =
     (if \<not> dg_update G (b # bs)
      then Some (Inl (mk_error MC_EXIT_INTERNAL 0 ''image-digest'' (Some path) ''SHA-256 update failed''))
      else digest_loop G path rest (bytes @ b # bs))"

definition archive_digest :: "digest_env \<Rightarrow> string \<Rightarrow> (mc_error + string) option" where
  "archive_digest G path =
     (if dg_open G \<noteq> 0 \<or> \<not> dg_init G
      then Some (Inl (mk_error MC_EXIT_RUNTIME (dg_open G) ''image-digest'' (Some path) ''cannot initialize SHA-256''))
      else map_option (\<lambda>r. case r of Inl e \<Rightarrow> Inl e | Inr digest \<Rightarrow> Inr (concat (map hex_byte digest)))
             (digest_loop G path (dg_reads G) []))"

section \<open>The image store\<close>

record image_store =
  is_dir :: string
  is_disk :: disk
  is_trees :: "string \<Rightarrow> archive_entry list option"

record mc_image_result =
  ir_digest :: string
  ir_rootfs :: string

definition path_join :: "nat \<Rightarrow> string \<Rightarrow> string \<Rightarrow> mc_error + string" where
  "path_join n left right =
     (if length left + 1 + length right + 1 > n
      then Inl (mk_error MC_EXIT_USAGE ENAMETOOLONG ''path-join'' (Some left) ''path is too long'')
      else Inr (left @ CHR ''/'' # right))"

record image_paths =
  ip_digest_base :: string
  ip_image_base :: string
  ip_rootfs :: string
  ip_marker :: string
  ip_names_dir :: string

definition join_image_paths :: "string \<Rightarrow> string \<Rightarrow> mc_error + image_paths" where
  "join_image_paths state_dir digest =
     ebind (path_join PATH_MAX state_dir ''images/sha256'') (\<lambda>digest_base.
     ebind (path_join PATH_MAX digest_base digest) (\<lambda>image_base.
     ebind (path_join PATH_MAX image_base ''rootfs'') (\<lambda>rootfs.
     ebind (path_join PATH_MAX image_base ''.complete'') (\<lambda>marker.
     ebind (path_join PATH_MAX state_dir ''images/names'') (\<lambda>names_dir.
       Inr \<lparr>ip_digest_base = digest_base, ip_image_base = image_base, ip_rootfs = rootfs, ip_marker = marker,
            ip_names_dir = names_dir\<rparr>)))))"

text \<open>The directory an image is prepared in: its path, its root file system and its marker.\<close>

definition staging_paths :: "string \<Rightarrow> string \<Rightarrow> nat \<Rightarrow> mc_error + string \<times> string \<times> string" where
  "staging_paths digest_base digest pid =
     ebind (path_join PATH_MAX digest_base (snprintf_buf 96 (digest @ ''.import.'' @ show_nat pid))) (\<lambda>base.
     ebind (path_join PATH_MAX base ''rootfs'') (\<lambda>rootfs.
     ebind (path_join PATH_MAX base ''.complete'') (\<lambda>marker. Inr (base, rootfs, marker))))"

record image_env =
  ie_getenv :: "string \<Rightarrow> string option"
  ie_file_text :: "string \<Rightarrow> errno + string"
  ie_stat :: "errno + bool"
  ie_errno :: errno
  ie_digest :: digest_env
  ie_mkdir :: "string \<Rightarrow> errno"
  ie_pid :: nat
  ie_chown :: errno
  ie_extract :: extract_env
  ie_marker :: write_env
  ie_chmod_base :: errno
  ie_chmod_rootfs :: errno
  ie_rename :: errno
  ie_name :: write_env

definition add_tree :: "string \<Rightarrow> archive_entry list \<Rightarrow> image_store \<Rightarrow> image_store" where
  "add_tree base es S =
     S\<lparr>is_trees := (is_trees S)(base := Some ((case is_trees S base of None \<Rightarrow> [] | Some old \<Rightarrow> old) @ es))\<rparr>"

text \<open>\<open>rename\<close> of a directory: everything below it moves along.\<close>

definition move_tree :: "string \<Rightarrow> string \<Rightarrow> image_store \<Rightarrow> image_store" where
  "move_tree old new S =
     (let inside = (\<lambda>base path. take (length base + 1) path = base @ ''/'');
          dir = dk_dir (is_disk S) in
      S\<lparr>is_trees := (is_trees S)(new := is_trees S old, old := None),
        is_disk := set_dir (\<lambda>path. if inside new path then dir (old @ drop (length new) path)
                                   else if inside old path then None else dir path) (is_disk S)\<rparr>)"

definition store_write :: "write_env \<Rightarrow> string \<Rightarrow> string \<Rightarrow> image_store \<Rightarrow> image_store \<times> (mc_error + unit) option" where
  "store_write W path data S =
     (let (trace, r) = mc_write_atomic W path data (is_disk S) in (S\<lparr>is_disk := last (is_disk S # trace)\<rparr>, r))"

text \<open>Results of an import: \<open>None\<close> while a write is being retried, \<open>Inl None\<close> for a failure that leaves
  the caller's error untouched.\<close>

type_synonym 'a import_result = "(mc_error option + 'a) option"

definition publish_image :: "image_env \<Rightarrow> string \<Rightarrow> string \<Rightarrow> image_store \<Rightarrow> image_store \<times> unit import_result" where
  "publish_image E staging_base image_base S =
     (let e = (if ie_chmod_base E \<noteq> 0 then ie_chmod_base E
               else if ie_chmod_rootfs E \<noteq> 0 then ie_chmod_rootfs E else ie_rename E) in
      if e \<noteq> 0
      then (S, Some (Inl (Some (mk_error MC_EXIT_RUNTIME e ''image-import'' (Some image_base)
                                 ''cannot publish immutable image''))))
      else (move_tree staging_base image_base S, Some (Inr ())))"

definition stage_image ::
  "image_env \<Rightarrow> string \<Rightarrow> u32 \<Rightarrow> u32 \<Rightarrow> image_paths \<Rightarrow> string \<Rightarrow> image_store \<Rightarrow> image_store \<times> unit import_result" where
  "stage_image E archive uid_start gid_start P digest S =
     (case staging_paths (ip_digest_base P) digest (ie_pid E) of
        Inl e \<Rightarrow> (S, Some (Inl (Some e)))
      | Inr (base, rootfs, marker) \<Rightarrow>
          let S1 = (if mc_mkdir_p (ie_mkdir E) base = None then add_tree base [] S else S) in
          case mc_mkdir_p (ie_mkdir E) rootfs of
            Some e \<Rightarrow> (S1, Some (Inl (Some e)))
          | None \<Rightarrow>
              if ie_chown E \<noteq> 0 then (S1, Some (Inl None))
              else let (es, r) = extract_archive (ie_extract E) uid_start gid_start archive rootfs;
                       S2 = add_tree base es S1 in
                case r of
                  Some e \<Rightarrow> (S2, Some (Inl (Some e)))
                | None \<Rightarrow> (let (S3, w) = store_write (ie_marker E) marker digest S2 in
                    case w of
                      None \<Rightarrow> (S3, None)
                    | Some (Inl e) \<Rightarrow> (S3, Some (Inl (Some e)))
                    | Some (Inr _) \<Rightarrow> publish_image E base (ip_image_base P) S3))"

definition store_image ::
  "image_env \<Rightarrow> string \<Rightarrow> u32 \<Rightarrow> u32 \<Rightarrow> image_paths \<Rightarrow> string \<Rightarrow> image_store \<Rightarrow> image_store \<times> unit import_result" where
  "store_image E archive uid_start gid_start P digest S =
     (if disk_read (is_disk S) (ip_marker P) \<noteq> None then (S, Some (Inr ()))
      else if is_trees S (ip_image_base P) \<noteq> None
      then (S, Some (Inl (Some (mk_error MC_EXIT_CONFLICT 0 ''image-import'' (Some (ip_image_base P))
                  ''incomplete image directory already exists; run garbage collection''))))
      else stage_image E archive uid_start gid_start P digest S)"

definition record_name :: "image_env \<Rightarrow> string \<Rightarrow> image_paths \<Rightarrow> string \<Rightarrow> image_store \<Rightarrow> image_store \<times> mc_image_result import_result" where
  "record_name E name P digest S =
     (case path_join PATH_MAX (ip_names_dir P) name of
        Inl e \<Rightarrow> (S, Some (Inl (Some e)))
      | Inr name_path \<Rightarrow>
          let digest_record = snprintf_buf 80 (''sha256:'' @ digest @ [CHR 0x0A]);
              (S', w) = store_write (ie_name E) name_path digest_record S in
          (S', map_option (\<lambda>r. case r of Inl e \<Rightarrow> Inl (Some e)
                             | Inr _ \<Rightarrow> Inr \<lparr>ir_digest = digest, ir_rootfs = ip_rootfs P\<rparr>) w))"

text \<open>The checks before anything is stored: the digest, the id ranges and the paths.\<close>

definition prepare_import ::
  "image_env \<Rightarrow> string \<Rightarrow> string \<Rightarrow> string \<Rightarrow> (mc_error + string \<times> (u32 \<times> u32) \<times> image_paths) option" where
  "prepare_import E state_dir name archive =
     (if \<not> mc_valid_name (Some name)
      then Some (Inl (mk_error MC_EXIT_USAGE 0 ''image-import'' (Some name) ''invalid image name''))
      else if ie_stat E \<noteq> Inr True
      then Some (Inl (mk_error MC_EXIT_NOT_FOUND (case ie_stat E of Inl e \<Rightarrow> e | Inr _ \<Rightarrow> ie_errno E) ''image-import''
                        (Some archive) ''archive is not a regular file''))
      else map_option (\<lambda>d.
             ebind d (\<lambda>digest.
             ebind (mc_subid_range (ie_getenv E) (ie_file_text E)) (\<lambda>ids.
             ebind (join_image_paths state_dir digest) (\<lambda>P.
               case mc_mkdir_p (ie_mkdir E) (ip_digest_base P) of
                 Some e \<Rightarrow> Inl e
               | None \<Rightarrow> (case mc_mkdir_p (ie_mkdir E) (ip_names_dir P) of
                     Some e \<Rightarrow> Inl e | None \<Rightarrow> Inr (digest, ids, P))))))
           (archive_digest (ie_digest E) archive))"

definition mc_image_import ::
  "image_env \<Rightarrow> string \<Rightarrow> string \<Rightarrow> image_store \<Rightarrow> image_store \<times> mc_image_result import_result" where
  "mc_image_import E name archive S =
     (case prepare_import E (is_dir S) name archive of
        None \<Rightarrow> (S, None)
      | Some (Inl e) \<Rightarrow> (S, Some (Inl (Some e)))
      | Some (Inr (digest, (uid_start, gid_start), P)) \<Rightarrow>
          (case store_image E archive uid_start gid_start P digest S of
             (S', Some (Inr _)) \<Rightarrow> record_name E name P digest S'
           | (S', Some (Inl e)) \<Rightarrow> (S', Some (Inl e))
           | (S', None) \<Rightarrow> (S', None)))"

section \<open>Resolving a name\<close>

record resolve_env =
  rv_open :: errno
  rv_read :: errno
  rv_access :: errno

definition mc_image_resolve :: "resolve_env \<Rightarrow> image_store \<Rightarrow> string \<Rightarrow> nat \<Rightarrow> mc_error + string" where
  "mc_image_resolve V S name rootfs_size =
     (if \<not> mc_valid_name (Some name) \<or> rootfs_size = 0
      then Inl (mk_error MC_EXIT_USAGE 0 ''image-resolve'' (Some name) ''invalid image name'')
      else
        ebind (path_join PATH_MAX (is_dir S) ''images/names'') (\<lambda>names_dir.
        ebind (path_join PATH_MAX names_dir name) (\<lambda>name_path.
          case disk_read (is_disk S) name_path of
            None \<Rightarrow> Inl (mk_error MC_EXIT_NOT_FOUND ENOENT ''image-resolve'' (Some name) ''image name does not exist'')
          | Some content \<Rightarrow>
              if rv_open V \<noteq> 0
              then Inl (mk_error MC_EXIT_NOT_FOUND (rv_open V) ''image-resolve'' (Some name) ''image name does not exist'')
              else if rv_read V \<noteq> 0
              then Inl (mk_error MC_EXIT_RUNTIME (rv_read V) ''image-resolve'' (Some name) ''cannot read image record'')
              else
                let rec = takeWhile (\<lambda>c. c \<noteq> CHR 0x00 \<and> c \<noteq> CHR 0x0D \<and> c \<noteq> CHR 0x0A) (take 79 content) in
                if length rec \<noteq> 71 \<or> take 7 rec \<noteq> ''sha256:''
                then Inl (mk_error MC_EXIT_RUNTIME 0 ''image-resolve'' (Some name) ''image record has an invalid digest'')
                else
                  ebind (path_join PATH_MAX (is_dir S) ''images/sha256'') (\<lambda>digest_dir.
                  ebind (path_join PATH_MAX digest_dir (drop 7 rec)) (\<lambda>image_dir.
                  ebind (path_join rootfs_size image_dir ''rootfs'') (\<lambda>rootfs.
                  ebind (path_join PATH_MAX image_dir ''.complete'') (\<lambda>marker.
                    if disk_read (is_disk S) marker = None \<or> rv_access V \<noteq> 0
                    then Inl (mk_error MC_EXIT_RUNTIME
                                (if disk_read (is_disk S) marker = None then ENOENT else rv_access V)
                                ''image-resolve'' (Some name) ''image is incomplete'')
                    else Inr rootfs)))))))"

section \<open>Safe entries\<close>

text \<open>What an entry may be: a relative path and a hard link target that never go up, a symbolic link
  whose lexical resolution stays below the root, an ordinary file type, no set-id bits, and an owner in
  the subordinate id range.\<close>

definition descending :: "string \<Rightarrow> bool" where
  "descending path \<longleftrightarrow> path \<noteq> [] \<and> hd path \<noteq> CHR ''/'' \<and> ''..'' \<notin> set (path_components path)"

definition entry_safe :: "u32 \<Rightarrow> u32 \<Rightarrow> archive_entry \<Rightarrow> bool" where
  "entry_safe uid_start gid_start e \<longleftrightarrow>
     (case ae_pathname e of
        None \<Rightarrow> False
      | Some path \<Rightarrow> descending path \<and>
          (case ae_symlink e of None \<Rightarrow> True | Some target \<Rightarrow> walk [] (link_resolution path target) \<noteq> None) \<and>
          (case ae_hardlink e of None \<Rightarrow> True | Some target \<Rightarrow> descending target)) \<and>
     ae_filetype e \<in> {AE_NONE, AE_IFREG, AE_IFDIR, AE_IFLNK} \<and>
     \<not> bit (ae_perm e) 11 \<and> \<not> bit (ae_perm e) 10 \<and>
     uint uid_start \<le> ae_uid e \<and> ae_uid e \<le> uint uid_start + 65535 \<and>
     uint gid_start \<le> ae_gid e \<and> ae_gid e \<le> uint gid_start + 65535"

lemma safe_archive_path_descending:
  assumes "mc_safe_archive_path (Some path)"
  shows "descending path"
proof -
  let ?cs = "path_components path"
  have "?cs \<noteq> []" by (simp add: path_components_def)
  then have "set ?cs = insert (last ?cs) (set (butlast ?cs))"
    by (metis append_butlast_last_id list.simps(15) rotate1.simps(2) set_rotate1)
  then show ?thesis using assms unfolding descending_def safe_archive_path_iff by auto
qed

lemma setid_bits: "(w :: u32) AND (S_ISUID OR S_ISGID) = 0 \<longleftrightarrow> \<not> bit w 11 \<and> \<not> bit w 10"
proof -
  have "S_ISUID OR S_ISGID = (2 ^ 11 OR 2 ^ 10 :: u32)" by simp
  then show ?thesis by (simp only: bit.conj_disj_distrib or_eq_0_iff and_exp_eq_0_iff_not_bit)
qed

lemma validate_entry_cases:
  assumes "validate_entry u g e = Inr (Some e')"
  obtains path where "mc_safe_archive_path (Some path)"
    and "ae_symlink e = None \<or> mc_link_stays_beneath (Some path) (ae_symlink e)"
    and "ae_hardlink e = None \<or> mc_safe_archive_path (ae_hardlink e)"
    and "ae_filetype e \<notin> {AE_IFBLK, AE_IFCHR, AE_IFIFO, AE_IFSOCK}" "ae_perm e AND (S_ISUID OR S_ISGID) = 0"
    and "0 \<le> ae_uid e" "ae_uid e \<le> 65535" "0 \<le> ae_gid e" "ae_gid e \<le> 65535"
    and "e' = e\<lparr>ae_pathname := Some path, ae_uid := uint u + ae_uid e, ae_gid := uint g + ae_gid e\<rparr>"
proof (cases "map_option strip_dot_slash (ae_pathname e)")
  case None
  then show ?thesis using assms by (simp add: validate_entry_def)
next
  case (Some path)
  show ?thesis
    using assms that [of path] unfolding validate_entry_def Some option.case Let_def
    by (simp split: if_split_asm del: mc_safe_archive_path.simps mc_link_stays_beneath.simps)
qed

lemma validate_entry_safe:
  assumes "validate_entry u g e = Inr (Some e')"
  shows "entry_safe u g e'"
  using assms
proof (cases rule: validate_entry_cases)
  case (1 path)
  have "case ae_symlink e of None \<Rightarrow> True | Some target \<Rightarrow> walk [] (link_resolution path target) \<noteq> None"
    using 1(2) link_stays_beneath_walk [of path] by (cases "ae_symlink e") simp_all
  moreover have "case ae_hardlink e of None \<Rightarrow> True | Some target \<Rightarrow> descending target"
    using 1(3) safe_archive_path_descending by (cases "ae_hardlink e") simp_all
  moreover have "ae_filetype e \<in> {AE_NONE, AE_IFREG, AE_IFDIR, AE_IFLNK}"
    using 1(4) by (cases "ae_filetype e") simp_all
  ultimately show ?thesis
    using 1(5-9) safe_archive_path_descending [OF 1(1)] setid_bits [of "ae_perm e"]
    by (simp add: entry_safe_def 1(10) del: or_numerals)
qed

lemma extract_entries_safe: "list_all (entry_safe u g) (fst (extract_entries X u g source es))"
proof (induction es)
  case (Cons e es)
  then show ?case
    by (auto simp: case_prod_beta validate_entry_safe split: sum.split option.split)
qed simp

lemma extract_archive_safe: "list_all (entry_safe u g) (fst (extract_archive X u g source destination))"
  using extract_entries_safe [of u g X source "xe_entries X"]
  by (simp add: extract_archive_def case_prod_beta)

definition trees_safe :: "u32 \<Rightarrow> u32 \<Rightarrow> image_store \<Rightarrow> bool" where
  "trees_safe u g S \<longleftrightarrow> (\<forall>base es. is_trees S base = Some es \<longrightarrow> list_all (entry_safe u g) es)"

lemma trees_safe_ops:
  assumes "trees_safe u g S"
  shows "list_all (entry_safe u g) es \<Longrightarrow> trees_safe u g (add_tree base es S)"
    "trees_safe u g (move_tree old new S)" "trees_safe u g (fst (store_write W path data S))"
  using assms by (auto simp: trees_safe_def add_tree_def move_tree_def store_write_def case_prod_beta Let_def split: option.splits)

section \<open>Lemmas on the import\<close>

lemma path_join_Inr: "path_join n l r = Inr p \<longleftrightarrow> length l + length r + 2 \<le> n \<and> p = l @ CHR ''/'' # r"
  by (auto simp: path_join_def)

lemma join_image_paths_Inr:
  assumes "join_image_paths d digest = Inr P"
  shows "P = \<lparr>ip_digest_base = d @ ''/images/sha256'', ip_image_base = d @ ''/images/sha256/'' @ digest,
      ip_rootfs = d @ ''/images/sha256/'' @ digest @ ''/rootfs'', ip_marker = d @ ''/images/sha256/'' @ digest @ ''/.complete'',
      ip_names_dir = d @ ''/images/names''\<rparr>"
  using assms by (auto simp: join_image_paths_def ebind_Inr_iff path_join_Inr)

lemma store_write_keeps [simp]:
  "is_dir (fst (store_write W path data S)) = is_dir S" "is_trees (fst (store_write W path data S)) = is_trees S"
  by (simp_all add: store_write_def case_prod_beta)

lemma store_write_done:
  assumes "disk_wf (is_disk S)" "length path < 4095" "store_write W path data S = (S', Some (Inr ()))"
  shows "disk_wf (is_disk S')" "disk_read (is_disk S') path = Some data"
    "p \<noteq> path \<Longrightarrow> p \<noteq> temporary_path path (we_pid W) \<Longrightarrow> disk_read (is_disk S') p = disk_read (is_disk S) p"
    "is_dir S' = is_dir S" "is_trees S' = is_trees S"
proof -
  obtain trace where run: "mc_write_atomic W path data (is_disk S) = (trace, Some (Inr ()))"
    and S': "S' = S\<lparr>is_disk := last (is_disk S # trace)\<rparr>"
    using assms(3) by (auto simp: store_write_def case_prod_beta prod_eq_iff)
  show "disk_wf (is_disk S')" "disk_read (is_disk S') path = Some data"
    "p \<noteq> path \<Longrightarrow> p \<noteq> temporary_path path (we_pid W) \<Longrightarrow> disk_read (is_disk S') p = disk_read (is_disk S) p"
    "is_dir S' = is_dir S" "is_trees S' = is_trees S"
    using write_atomic_success [OF assms(1,2) run] write_atomic_others [OF assms(1,2) run] by (simp_all add: S')
qed

lemma move_tree_disk:
  assumes "disk_wf (is_disk S)"
  shows "disk_wf (is_disk (move_tree old new S))"
    "disk_read (is_disk (move_tree old new S)) (new @ CHR ''/'' # leaf) = disk_read (is_disk S) (old @ CHR ''/'' # leaf)"
proof -
  have cur: "dk_dir (is_disk S) p = Some i \<Longrightarrow> i < dk_next (is_disk S)" for p i
    using assms by (auto simp: disk_wf_def)
  show "disk_wf (is_disk (move_tree old new S))"
    using assms cur by (auto simp: disk_wf_def move_tree_def set_dir_def Let_def split: if_splits)
  show "disk_read (is_disk (move_tree old new S)) (new @ CHR ''/'' # leaf) = disk_read (is_disk S) (old @ CHR ''/'' # leaf)"
    by (simp add: move_tree_def set_dir_def disk_read_def Let_def)
qed

definition accepted :: "u32 \<Rightarrow> u32 \<Rightarrow> archive_entry list \<Rightarrow> archive_entry list" where
  "accepted u g = List.map_filter (\<lambda>e. case validate_entry u g e of Inr (Some e') \<Rightarrow> Some e' | _ \<Rightarrow> None)"

lemma extract_entries_all:
  "extract_entries X u g source es = (out, None) \<Longrightarrow>
     out = accepted u g es \<and> list_all (\<lambda>e. \<not> isl (validate_entry u g e)) es"
proof (induction es arbitrary: out)
  case (Cons e es)
  show ?case
  proof (cases "validate_entry u g e")
    case (Inr r)
    then show ?thesis using Cons
      by (cases r) (auto simp: accepted_def map_filter_simps split: option.splits prod.splits)
  qed (use Cons in simp)
qed (simp add: accepted_def map_filter_simps)

lemma extract_archive_all:
  "extract_archive X u g source destination = (out, None) \<Longrightarrow>
     out = accepted u g (xe_entries X) \<and> list_all (\<lambda>e. \<not> isl (validate_entry u g e)) (xe_entries X)"
  by (rule extract_entries_all [of X u g source])
    (auto simp: extract_archive_def split: if_splits prod.splits option.splits)

lemma digest_loop_length: "digest_loop G path rs bytes = Some (Inr d) \<Longrightarrow> length d = 32"
  by (induction G path rs bytes rule: digest_loop.induct) (auto split: if_splits)

lemma length_hex: "length (concat (map hex_byte bs)) = 2 * length bs"
  by (induction bs) (simp_all add: hex_byte_def)

lemma hex_chars: "c \<in> set (concat (map hex_byte bs)) \<Longrightarrow> lower_hex c"
  using unat_byte_digits by (auto simp: hex_byte_def hex_digit_lower)

lemma archive_digest_hex:
  assumes "archive_digest G path = Some (Inr digest)"
  shows "length digest = 64" "c \<in> set digest \<Longrightarrow> lower_hex c"
proof -
  obtain z where z: "digest_loop G path (dg_reads G) [] = Some z"
    "(case z of Inl e \<Rightarrow> Inl e | Inr d \<Rightarrow> Inr (concat (map hex_byte d))) = Inr digest"
    using assms by (auto simp: archive_digest_def split: if_splits)
  then obtain d where "digest = concat (map hex_byte d)" "digest_loop G path (dg_reads G) [] = Some (Inr d)"
    by (cases z) auto
  then show "length digest = 64" "c \<in> set digest \<Longrightarrow> lower_hex c"
    using digest_loop_length hex_chars by (auto simp: length_hex)
qed

lemma stage_image_done:
  assumes "stage_image E archive u g P digest S = (S', Some (Inr ()))" "disk_wf (is_disk S)"
    and "length (ip_digest_base P) < 3900" "length digest = 64"
    and "ip_image_base P = ip_digest_base P @ CHR ''/'' # digest"
  defines "staging \<equiv> ip_digest_base P @ CHR ''/'' # snprintf_buf 96 (digest @ ''.import.'' @ show_nat (ie_pid E))"
  shows "disk_wf (is_disk S') \<and> is_dir S' = is_dir S \<and>
    disk_read (is_disk S') (ip_image_base P @ ''/.complete'') = Some digest \<and>
    is_trees S' (ip_image_base P) =
      Some ((case is_trees S staging of None \<Rightarrow> [] | Some old \<Rightarrow> old) @ accepted u g (xe_entries (ie_extract E))) \<and>
    list_all (\<lambda>e. \<not> isl (validate_entry u g e)) (xe_entries (ie_extract E))"
proof -
  have len: "length (snprintf_buf 96 t) \<le> 95" for t by (simp add: snprintf_buf_def)
  have paths: "staging_paths (ip_digest_base P) digest (ie_pid E) = Inr (staging, staging @ ''/rootfs'', staging @ ''/.complete'')"
    using assms(3) len [of "digest @ ''.import.'' @ show_nat (ie_pid E)"]
    by (simp add: staging_paths_def path_join_def staging_def)
  define S1 where "S1 = (if mc_mkdir_p (ie_mkdir E) staging = None then add_tree staging [] S else S)"
  obtain es r where x: "extract_archive (ie_extract E) u g archive (staging @ ''/rootfs'') = (es, r)" by fastforce
  define S2 where "S2 = add_tree staging es S1"
  obtain S3 w where sw: "store_write (ie_marker E) (staging @ ''/.complete'') digest S2 = (S3, w)" by fastforce
  have run: "r = None" "w = Some (Inr ())" "publish_image E staging (ip_image_base P) S3 = (S', Some (Inr ()))"
    using assms(1) unfolding stage_image_def paths sum.case prod.case Let_def S1_def [symmetric] x
    by (auto simp: S2_def [symmetric] sw split: option.splits if_splits sum.splits)
  then have S': "S' = move_tree staging (ip_image_base P) S3"
    by (simp add: publish_image_def Let_def split: if_splits)
  have same: "is_disk S2 = is_disk S" "is_dir S2 = is_dir S"
    "is_trees S2 staging = Some ((case is_trees S staging of None \<Rightarrow> [] | Some old \<Rightarrow> old) @ es)"
    by (simp_all add: S2_def S1_def add_tree_def)
  have short: "length (staging @ ''/.complete'') < 4095"
    using assms(3) len [of "digest @ ''.import.'' @ show_nat (ie_pid E)"] by (simp add: staging_def)
  have wf: "disk_wf (is_disk S2)" using assms(2) same by simp
  note written = store_write_done [OF wf short sw [unfolded run(2)]]
  have "length digest < length (snprintf_buf 96 (digest @ ''.import.'' @ show_nat (ie_pid E)))"
    using assms(4) by (simp add: snprintf_buf_def)
  then have ne: "ip_image_base P \<noteq> staging" by (auto simp: assms(5) staging_def)
  have es: "es = accepted u g (xe_entries (ie_extract E))" "list_all (\<lambda>e. \<not> isl (validate_entry u g e)) (xe_entries (ie_extract E))"
    using extract_archive_all x run(1) by simp_all
  have "is_trees S' (ip_image_base P) = is_trees S3 staging" "is_dir S' = is_dir S3"
    using ne by (simp_all add: S' move_tree_def Let_def)
  moreover have "disk_read (is_disk S') (ip_image_base P @ ''/.complete'') = Some digest"
    using move_tree_disk(2) [OF written(1), of staging "ip_image_base P" "''.complete''"] written(2) by (simp add: S')
  ultimately show ?thesis
    using move_tree_disk(1) [OF written(1)] written(4,5) same es by (simp add: S')
qed

lemma record_name_done:
  assumes "record_name E name P digest S = (S', Some (Inr r))" "disk_wf (is_disk S)"
    and "length (ip_names_dir P) < 3900" "length name \<le> 64" "length digest = 64"
  defines "name_path \<equiv> ip_names_dir P @ CHR ''/'' # name"
  shows "r = \<lparr>ir_digest = digest, ir_rootfs = ip_rootfs P\<rparr> \<and> is_dir S' = is_dir S \<and> is_trees S' = is_trees S \<and>
    disk_read (is_disk S') name_path = Some (''sha256:'' @ digest @ [CHR 0x0A]) \<and>
    (\<forall>p. \<not> prefix (ip_names_dir P @ ''/'') p \<longrightarrow> disk_read (is_disk S') p = disk_read (is_disk S) p)"
proof -
  have join: "path_join PATH_MAX (ip_names_dir P) name = Inr name_path"
    using assms(3,4) by (simp add: path_join_def name_path_def)
  have short: "length name_path < 4095" using assms(3,4) by (simp add: name_path_def)
  have rec: "snprintf_buf 80 (''sha256:'' @ digest @ [CHR 0x0A]) = ''sha256:'' @ digest @ [CHR 0x0A]"
    using assms(5) by simp
  obtain S'' w where sw: "store_write (ie_name E) name_path (''sha256:'' @ digest @ [CHR 0x0A]) S = (S'', w)" by fastforce
  obtain v where v: "w = Some v" "S'' = S'"
    "(case v of Inl e \<Rightarrow> Inl (Some e) | Inr _ \<Rightarrow> Inr \<lparr>ir_digest = digest, ir_rootfs = ip_rootfs P\<rparr>) = Inr r"
    using assms(1) unfolding record_name_def join sum.case Let_def rec sw by auto
  then have r: "r = \<lparr>ir_digest = digest, ir_rootfs = ip_rootfs P\<rparr>" and w: "w = Some (Inr ())"
    by (cases v; simp)+
  note written = store_write_done [OF assms(2) short sw [unfolded v(2) w]]
  have "prefix (ip_names_dir P @ ''/'') name_path" by (simp add: name_path_def)
  moreover have "prefix (ip_names_dir P @ ''/'') (temporary_path name_path pid)" for pid
    using short by (simp add: temporary_path_def snprintf_buf_def name_path_def take_Cons')
  ultimately have "disk_read (is_disk S') p = disk_read (is_disk S) p" if "\<not> prefix (ip_names_dir P @ ''/'') p" for p
    using that by (intro written(3)) auto
  then show ?thesis using written(2,4,5) r by simp
qed

lemma resolve_recorded:
  assumes "mc_valid_name (Some name)" "length (is_dir S) < 3800" "length digest = 64"
    and "rv_open V = 0" "rv_read V = 0" "rv_access V = 0" "\<And>c. c \<in> set digest \<Longrightarrow> lower_hex c"
    and "disk_read (is_disk S) (is_dir S @ ''/images/names/'' @ name) = Some (''sha256:'' @ digest @ [CHR 0x0A])"
    and "disk_read (is_disk S) (is_dir S @ ''/images/sha256/'' @ digest @ ''/.complete'') \<noteq> None"
  shows "mc_image_resolve V S name 4096 = Inr (is_dir S @ ''/images/sha256/'' @ digest @ ''/rootfs'')"
proof -
  define content where "content = ''sha256:'' @ digest @ [CHR 0x0A]"
  define rec where "rec = ''sha256:'' @ digest"
  have plain: "c \<noteq> CHR 0x00 \<and> c \<noteq> CHR 0x0D \<and> c \<noteq> CHR 0x0A" if "c \<in> set digest" for c
    using assms(7) [OF that] by (auto simp: lower_hex_def isdigit_def)
  then have "takeWhile (\<lambda>c. c \<noteq> CHR 0x00 \<and> c \<noteq> CHR 0x0D \<and> c \<noteq> CHR 0x0A) (digest @ [CHR 0x0A]) = digest"
    by (simp add: takeWhile_append2)
  then have content: "takeWhile (\<lambda>c. c \<noteq> CHR 0x00 \<and> c \<noteq> CHR 0x0D \<and> c \<noteq> CHR 0x0A) (take 79 content) = rec"
    using assms(3) by (simp add: content_def rec_def)
  have rec: "length rec = 71" "take 7 rec = ''sha256:''" "drop 7 rec = digest" using assms(3) by (simp_all add: rec_def)
  have len: "length name \<le> 64" using assms(1) valid_name_iff by simp
  have joins: "path_join PATH_MAX (is_dir S) ''images/names'' = Inr (is_dir S @ ''/images/names'')"
    "path_join PATH_MAX (is_dir S @ ''/images/names'') name = Inr (is_dir S @ ''/images/names/'' @ name)"
    "path_join PATH_MAX (is_dir S) ''images/sha256'' = Inr (is_dir S @ ''/images/sha256'')"
    "path_join PATH_MAX (is_dir S @ ''/images/sha256'') digest = Inr (is_dir S @ ''/images/sha256/'' @ digest)"
    "path_join 4096 (is_dir S @ ''/images/sha256/'' @ digest) ''rootfs'' = Inr (is_dir S @ ''/images/sha256/'' @ digest @ ''/rootfs'')"
    "path_join PATH_MAX (is_dir S @ ''/images/sha256/'' @ digest) ''.complete'' =
       Inr (is_dir S @ ''/images/sha256/'' @ digest @ ''/.complete'')"
    using assms(2,3) len by (simp_all add: path_join_def)
  have start: "\<not> (\<not> mc_valid_name (Some name) \<or> (4096 :: nat) = 0)" using assms(1) by simp
  show ?thesis
    unfolding mc_image_resolve_def if_not_P [OF start] joins ebind_simps assms(8) [folded content_def] option.case
      assms(4-6) Let_def content rec
    using assms(9) by simp
qed

lemma store_image_safe:
  assumes "trees_safe u g S"
  shows "trees_safe u g (fst (store_image E archive u g P digest S))"
proof -
  have "trees_safe u g (fst (stage_image E archive u g P digest S))"
  proof (cases "staging_paths (ip_digest_base P) digest (ie_pid E)")
    case (Inr p)
    obtain base rootfs marker where p: "p = (base, rootfs, marker)" using prod_cases3 by blast
    define S1 where "S1 = (if mc_mkdir_p (ie_mkdir E) base = None then add_tree base [] S else S)"
    obtain es r where x: "extract_archive (ie_extract E) u g archive rootfs = (es, r)" by fastforce
    define S2 where "S2 = add_tree base es S1"
    obtain S3 w where w: "store_write (ie_marker E) marker digest S2 = (S3, w)" by fastforce
    have s1: "trees_safe u g S1" using assms trees_safe_ops(1) [OF assms, of "[]"] by (simp add: S1_def)
    have s2: "trees_safe u g S2"
      using trees_safe_ops(1) [OF s1] extract_archive_safe [of u g "ie_extract E" archive rootfs] x by (simp add: S2_def)
    have s3: "trees_safe u g S3" using trees_safe_ops(3) [OF s2] w by (metis fst_conv)
    have "trees_safe u g (fst (publish_image E base (ip_image_base P) S3))"
      using s3 trees_safe_ops(2) [OF s3] by (simp add: publish_image_def Let_def)
    then show ?thesis using s1 s2 s3
      unfolding stage_image_def Inr p sum.case prod.case Let_def S1_def [symmetric] x S2_def [symmetric] w
      by (simp split: option.split sum.split)
  qed (simp add: stage_image_def assms)
  then show ?thesis using assms by (simp add: store_image_def)
qed

section \<open>An example\<close>

text \<open>An archive with one file, imported into an empty store.\<close>

definition example_image_env :: image_env where
  "example_image_env =
     \<lparr>ie_getenv = (\<lambda>_. Some ''100000''), ie_file_text = (\<lambda>_. Inl ENOENT), ie_stat = Inr True, ie_errno = 0,
      ie_digest = \<lparr>dg_open = 0, dg_init = True, dg_reads = [Inr [1, 2], Inr []], dg_update = (\<lambda>_. True), dg_final = True,
                   dg_sha256 = (\<lambda>_. replicate 32 0)\<rparr>,
      ie_mkdir = (\<lambda>_. 0), ie_pid = 42, ie_chown = 0,
      ie_extract = \<lparr>xe_init = 0, xe_open = 0,
        xe_entries = [\<lparr>ae_pathname = Some ''./bin/sh'', ae_symlink = None, ae_hardlink = None, ae_filetype = AE_IFREG,
                       ae_perm = 0x1ED, ae_uid = 0, ae_gid = 0\<rparr>],
        xe_final = None, xe_write = (\<lambda>_. None), xe_restore = 0\<rparr>,
      ie_marker = example_write_env\<lparr>we_write := [Inr 64]\<rparr>, ie_chmod_base = 0, ie_chmod_rootfs = 0, ie_rename = 0,
      ie_name = example_write_env\<lparr>we_write := [Inr 72]\<rparr>\<rparr>"

definition example_images :: image_store where
  "example_images = \<lparr>is_dir = ''/s'', is_disk = example_disk, is_trees = (\<lambda>_. None)\<rparr>"

lemma example_imported:
  "snd (mc_image_import example_image_env ''alpine'' ''/a.tar'' example_images) =
     Some (Inr \<lparr>ir_digest = replicate 64 CHR ''0'', ir_rootfs = ''/s/images/sha256/'' @ replicate 64 CHR ''0'' @ ''/rootfs''\<rparr>)"
  by code_simp

section \<open>Properties\<close>

text \<open>
  C8: Only safe entries reach the image store. Whatever the archive contains and wherever the import
  fails, every entry of every image directory has a relative path that never goes up, links that stay
  below the root, no special file type, no set-id bits, and an owner in the subordinate id range.
\<close>

theorem image_import_safe:
  assumes "trees_safe u g S" "mc_subid_range (ie_getenv E) (ie_file_text E) = Inr (u, g)"
    and "mc_image_import E name archive S = (S', r)"
  shows "trees_safe u g S'"
proof (cases "prepare_import E (is_dir S) name archive")
  case (Some p)
  show ?thesis
  proof (cases p)
    case (Inr q)
    obtain digest ids P where q: "q = (digest, ids, P)" using prod_cases3 by blast
    have "ids = (u, g)"
      using Some assms(2) by (auto simp: Inr q prepare_import_def ebind_Inr_iff split: if_splits option.splits)
    then have S': "S' = fst (case store_image E archive u g P digest S of
             (S', Some (Inr _)) \<Rightarrow> record_name E name P digest S'
           | (S', Some (Inl e)) \<Rightarrow> (S', Some (Inl e))
           | (S', None) \<Rightarrow> (S', None))"
      using assms(3) by (simp add: mc_image_import_def Some Inr q)
    let ?T = "fst (store_image E archive u g P digest S)"
    have safe: "trees_safe u g ?T" using assms(1) by (rule store_image_safe)
    moreover have "trees_safe u g (fst (record_name E name P digest ?T))"
      using safe trees_safe_ops(3) [OF safe] by (simp add: record_name_def case_prod_beta Let_def split: sum.split)
    ultimately show ?thesis unfolding S' case_prod_beta by (simp split: option.split sum.split)
  qed (use assms Some in \<open>simp add: mc_image_import_def\<close>)
qed (use assms in \<open>simp add: mc_image_import_def\<close>)

theorem image_import_safe_witness:
  "\<exists>S' r. mc_image_import example_image_env ''alpine'' ''/a.tar'' example_images = (S', r) \<and> trees_safe 100000 100000 S'"
proof -
  have "trees_safe 100000 100000 example_images" by (simp add: trees_safe_def example_images_def)
  moreover have "mc_subid_range (ie_getenv example_image_env) (ie_file_text example_image_env) = Inr (100000, 100000)"
    by code_simp
  ultimately show ?thesis using image_import_safe [OF _ _ prod.collapse [symmetric]] by (metis prod.collapse)
qed

text \<open>
  C28: A successful import can be used. The name resolves to the imported root directory, and unless a
  complete image with this digest was there before, that directory holds exactly the entries of the
  archive, every one of which was accepted, behind what an interrupted import of the same process
  number had left in the staging directory.
\<close>

theorem image_import_resolves:
  assumes "mc_image_import E name archive S = (S', Some (Inr r))" "disk_wf (is_disk S)" "length (is_dir S) < 3800"
    and "rv_open V = 0" "rv_read V = 0" "rv_access V = 0"
  defines "base \<equiv> is_dir S @ ''/images/sha256/'' @ ir_digest r"
  shows "mc_image_resolve V S' name 4096 = Inr (ir_rootfs r) \<and> ir_rootfs r = base @ ''/rootfs'' \<and>
    (disk_read (is_disk S) (base @ ''/.complete'') \<noteq> None \<or>
     (\<exists>u g. mc_subid_range (ie_getenv E) (ie_file_text E) = Inr (u, g) \<and>
        list_all (\<lambda>e. \<not> isl (validate_entry u g e)) (xe_entries (ie_extract E)) \<and>
        is_trees S' base = Some (
          (case is_trees S (is_dir S @ ''/images/sha256/'' @ snprintf_buf 96 (ir_digest r @ ''.import.'' @ show_nat (ie_pid E))) of
             None \<Rightarrow> [] | Some old \<Rightarrow> old) @ accepted u g (xe_entries (ie_extract E)))))"
proof -
  obtain digest u g P where prep: "prepare_import E (is_dir S) name archive = Some (Inr (digest, (u, g), P))"
    using assms(1) by (auto simp: mc_image_import_def split: option.split_asm sum.split_asm)
  have name: "mc_valid_name (Some name)"
    and digest: "archive_digest (ie_digest E) archive = Some (Inr digest)"
    and ids: "mc_subid_range (ie_getenv E) (ie_file_text E) = Inr (u, g)"
    and join: "join_image_paths (is_dir S) digest = Inr P"
    using prep by (auto simp: prepare_import_def ebind_Inr_iff split: if_splits option.split_asm)
  note P = join_image_paths_Inr [OF join]
  have len: "length digest = 64" using archive_digest_hex(1) [OF digest] .
  have len_name: "length name \<le> 64" using name valid_name_iff by simp
  obtain S1 where store: "store_image E archive u g P digest S = (S1, Some (Inr ()))"
    and rec: "record_name E name P digest S1 = (S', Some (Inr r))"
    using assms(1) by (auto simp: mc_image_import_def prep split: option.split_asm sum.split_asm prod.split_asm)
  have staged: "disk_wf (is_disk S1) \<and> is_dir S1 = is_dir S \<and> disk_read (is_disk S1) (ip_marker P) \<noteq> None \<and>
    (disk_read (is_disk S) (ip_marker P) \<noteq> None \<or>
        list_all (\<lambda>e. \<not> isl (validate_entry u g e)) (xe_entries (ie_extract E)) \<and>
        is_trees S1 (ip_image_base P) = Some (
          (case is_trees S (ip_digest_base P @ CHR ''/'' # snprintf_buf 96 (digest @ ''.import.'' @ show_nat (ie_pid E))) of
             None \<Rightarrow> [] | Some old \<Rightarrow> old) @ accepted u g (xe_entries (ie_extract E))))"
  proof (cases "disk_read (is_disk S) (ip_marker P) = None")
    case True
    then have stage: "stage_image E archive u g P digest S = (S1, Some (Inr ()))"
      using store by (auto simp: store_image_def split: if_splits)
    have "length (ip_digest_base P) < 3900" "ip_image_base P = ip_digest_base P @ CHR ''/'' # digest"
      "ip_marker P = ip_image_base P @ ''/.complete''" using assms(3) by (simp_all add: P)
    then show ?thesis using stage_image_done [OF stage assms(2) _ len] by simp
  qed (use store assms(2) in \<open>simp add: store_image_def\<close>)
  have "length (ip_names_dir P) < 3900" using assms(3) by (simp add: P)
  note named = record_name_done [OF rec _ this len_name len]
  have r: "r = \<lparr>ir_digest = digest, ir_rootfs = ip_rootfs P\<rparr>" using named staged by blast
  have marker: "disk_read (is_disk S') (ip_marker P) \<noteq> None"
    using named staged by (simp add: P)
  have content: "disk_read (is_disk S') (is_dir S @ ''/images/names/'' @ name) = Some (''sha256:'' @ digest @ [CHR 0x0A])"
    using named staged by (simp add: P)
  have "is_dir S' = is_dir S" using named staged by simp
  then have "mc_image_resolve V S' name 4096 = Inr (ip_rootfs P)"
    using resolve_recorded [OF name _ len assms(4-6) archive_digest_hex(2) [OF digest], of S'] assms(3) content marker
    by (simp add: P)
  then show ?thesis using staged named ids r by (auto simp: base_def P)
qed

theorem image_import_resolves_witness:
  "mc_image_resolve \<lparr>rv_open = 0, rv_read = 0, rv_access = 0\<rparr>
     (fst (mc_image_import example_image_env ''alpine'' ''/a.tar'' example_images)) ''alpine'' 4096 =
   Inr (''/s/images/sha256/'' @ replicate 64 CHR ''0'' @ ''/rootfs'')"
proof -
  let ?r = "\<lparr>ir_digest = replicate 64 CHR ''0'', ir_rootfs = ''/s/images/sha256/'' @ replicate 64 CHR ''0'' @ ''/rootfs''\<rparr>"
  have run: "mc_image_import example_image_env ''alpine'' ''/a.tar'' example_images =
      (fst (mc_image_import example_image_env ''alpine'' ''/a.tar'' example_images), Some (Inr ?r))"
    using example_imported by (metis prod.collapse)
  have "disk_wf (is_disk example_images)" "length (is_dir example_images) < 3800"
    using example_disk_ok(1) by (simp_all add: example_images_def)
  from image_import_resolves [OF run this, of "\<lparr>rv_open = 0, rv_read = 0, rv_access = 0\<rparr>"] show ?thesis by simp
qed

end
