(* ===== verification/MC_Cli.thy ===== *)
theory MC_Cli
  imports MC_Lease MC_Shim MC_Image
begin

text \<open>
  The commands \<open>run\<close> and \<open>create\<close> of \<open>src/cli/main.c\<close>: the option loop, the assembly of the configuration,
  the admission of the container and the launch of its shim. The lemmas show that every configuration
  the option loop produces is one that the launcher can hand to the shim unchanged and that the
  registry can admit.
\<close>

unbundle bit_operations_syntax

section \<open>Outcomes\<close>

text \<open>What a command leaves behind: its exit code, what it printed, whether it printed the usage, and the
  error that was printed, with the format.\<close>

record outcome =
  oc_code :: int
  oc_out :: string
  oc_usage :: bool
  oc_error :: "(mc_error \<times> bool) option"

definition success :: "string \<Rightarrow> outcome" where
  "success out = \<lparr>oc_code = exit_value MC_EXIT_OK, oc_out = out, oc_usage = False, oc_error = None\<rparr>"

definition usage_error :: outcome where
  "usage_error = \<lparr>oc_code = exit_value MC_EXIT_USAGE, oc_out = '''', oc_usage = True, oc_error = None\<rparr>"

definition failure :: "bool \<Rightarrow> mc_error \<Rightarrow> outcome" where
  "failure json e = \<lparr>oc_code = err_code e, oc_out = '''', oc_usage = False, oc_error = Some (e, json)\<rparr>"

text \<open>An error that is printed while the exit code is that of a usage error.\<close>

definition refused :: "mc_error \<Rightarrow> outcome" where
  "refused e = (failure False e)\<lparr>oc_code := exit_value MC_EXIT_USAGE\<rparr>"

section \<open>The environment\<close>

record cli_env =
  ce_shim :: shim_env
  ce_euid :: nat
  ce_profile_stat :: "string \<Rightarrow> profile_stat option"
  ce_profile_file :: "string \<Rightarrow> json"
  ce_images :: image_store
  ce_resolve :: resolve_env
  ce_random :: "(errno + u8 list) list"
  ce_admit :: admit_env
  ce_launch :: launch_env
  ce_waits :: "(errno + wait_status) list"

section \<open>The option loop\<close>

text \<open>The local variables of the command; \<open>rq_profile\<close> tells that a profile has been loaded.\<close>

record run_request =
  rq_image :: "string option"
  rq_config :: mc_run_config
  rq_profile :: bool

definition default_request :: run_request where
  "default_request =
     \<lparr>rq_image = None,
      rq_config = zero_config\<lparr>cfg_workdir := Some ''/'', cfg_ready_fd := - 1, cfg_memory_max := 128 * 1024 * 1024,
        cfg_cpu_quota := 50000, cfg_pids_max := 128, cfg_network_bridge := True\<rparr>,
      rq_profile = False\<rparr>"

definition publish_overlaps :: "mc_publish \<Rightarrow> mc_publish \<Rightarrow> bool" where
  "publish_overlaps existing parsed \<longleftrightarrow>
     protocol existing = protocol parsed \<and> host_port existing = host_port parsed \<and>
     (host_ipv4 existing = 0 \<or> host_ipv4 parsed = 0 \<or> host_ipv4 existing = host_ipv4 parsed)"

text \<open>A parsed value that updates the configuration, or a usage error.\<close>

definition with_value :: "'a option \<Rightarrow> ('a \<Rightarrow> mc_run_config \<Rightarrow> mc_run_config) \<Rightarrow> run_request \<Rightarrow> outcome + run_request" where
  "with_value v f q = (case v of None \<Rightarrow> Inl usage_error | Some x \<Rightarrow> Inr (q\<lparr>rq_config := f x (rq_config q)\<rparr>))"

definition with_mount :: "mc_error + mc_mount \<Rightarrow> run_request \<Rightarrow> outcome + run_request" where
  "with_mount r q =
     (case r of Inl e \<Rightarrow> Inl (refused e)
      | Inr m \<Rightarrow> Inr (q\<lparr>rq_config := (rq_config q)\<lparr>cfg_mounts := cfg_mounts (rq_config q) @ [m]\<rparr>\<rparr>))"

definition run_option :: "cli_env \<Rightarrow> string \<Rightarrow> string \<Rightarrow> run_request \<Rightarrow> outcome + run_request" where
  "run_option E flag v q =
    (if flag = ''--name'' then
       with_value (if mc_valid_name (Some v) then Some v else None) (\<lambda>n c. c\<lparr>cfg_name := Some n\<rparr>) q
     else if flag = ''--image'' then Inr (q\<lparr>rq_image := Some v\<rparr>)
     else if flag = ''--hostname'' then with_value (Some v) (\<lambda>h c. c\<lparr>cfg_hostname := Some h\<rparr>) q
     else if flag = ''--workdir'' then
       with_value (if v \<noteq> [] \<and> hd v = CHR ''/'' then Some v else None) (\<lambda>w c. c\<lparr>cfg_workdir := Some w\<rparr>) q
     else if flag = ''--user'' then with_value (mc_parse_user (Some v)) (\<lambda>(u, g) c. c\<lparr>cfg_user := u, cfg_group := g\<rparr>) q
     else if flag = ''--env'' then
       with_value (if mc_valid_environment (Some v) then Some v else None)
         (\<lambda>e c. c\<lparr>cfg_environment := cfg_environment c @ [e]\<rparr>) q
     else if flag = ''--memory'' \<or> flag = ''--mem'' then
       with_value (mc_parse_bytes (Some v)) (\<lambda>n c. c\<lparr>cfg_memory_max := n\<rparr>) q
     else if flag = ''--memory-swap'' \<or> flag = ''--swap'' then
       with_value (if v = ''0'' then Some 0 else mc_parse_bytes (Some v)) (\<lambda>n c. c\<lparr>cfg_swap_max := n\<rparr>) q
     else if flag = ''--cpus'' \<or> flag = ''--cpu'' then
       with_value (mc_parse_cpu_quota (Some v)) (\<lambda>n c. c\<lparr>cfg_cpu_quota := n\<rparr>) q
     else if flag = ''--pids-limit'' then
       with_value (mc_parse_positive_u64 (Some v) 4194304) (\<lambda>n c. c\<lparr>cfg_pids_max := n\<rparr>) q
     else if flag = ''--network'' then
       with_value (if v = ''bridge'' then Some True else if v = ''none'' then Some False else None)
         (\<lambda>b c. c\<lparr>cfg_network_bridge := b\<rparr>) q
     else if flag = ''--publish'' then
       with_value (case mc_parse_publish (Some v) of
           None \<Rightarrow> None
         | Some p \<Rightarrow> if list_ex (\<lambda>existing. publish_overlaps existing p) (cfg_publishes (rq_config q)) then None else Some p)
         (\<lambda>p c. c\<lparr>cfg_publishes := cfg_publishes c @ [p]\<rparr>) q
     else if flag = ''--cap-add'' then
       with_value (case mc_capability_parse (Some v) of None \<Rightarrow> None | Some n \<Rightarrow> if n \<ge> 64 then None else Some n)
         (\<lambda>n c. c\<lparr>cfg_capability_mask := cfg_capability_mask c OR push_bit n 1\<rparr>) q
     else if flag = ''--bind'' then
       with_mount (mc_parse_bind_mount (sh_json (ce_shim E)) (sh_mount_env (ce_shim E)) (Some v) zero_mount) q
     else if flag = ''--tmpfs'' then with_mount (mc_parse_tmpfs_mount (Some v) zero_mount) q
     else if flag = ''--seccomp-profile'' \<and> \<not> rq_profile q then
       (case mc_seccomp_profile_load (sh_json (ce_shim E)) (sh_seccomp (ce_shim E)) (ce_profile_stat E) (ce_euid E)
               (ce_profile_file E) (Some v) of
          Inl e \<Rightarrow> Inl (refused e)
        | Inr denies \<Rightarrow> Inr (q\<lparr>rq_config := (rq_config q)\<lparr>cfg_seccomp_denies := denies\<rparr>, rq_profile := True\<rparr>))
     else Inl usage_error)"

text \<open>The loop; the second component of the result is what follows \<open>--\<close>.\<close>

fun run_options :: "cli_env \<Rightarrow> string list \<Rightarrow> run_request \<Rightarrow> outcome + run_request \<times> string list option" where
  "run_options E [] q = Inr (q, None)"
| "run_options E [a] q =
     (if a = ''--'' then Inr (q, Some [])
      else if a = ''--detach'' then Inr (q\<lparr>rq_config := (rq_config q)\<lparr>cfg_detach := True\<rparr>\<rparr>, None)
      else if a = ''--read-only'' then Inr (q\<lparr>rq_config := (rq_config q)\<lparr>cfg_readonly_root := True\<rparr>\<rparr>, None)
      else Inl usage_error)"
| "run_options E (a # v # argv) q =
     (if a = ''--'' then Inr (q, Some (v # argv))
      else if a = ''--detach'' then run_options E (v # argv) (q\<lparr>rq_config := (rq_config q)\<lparr>cfg_detach := True\<rparr>\<rparr>)
      else if a = ''--read-only'' then run_options E (v # argv) (q\<lparr>rq_config := (rq_config q)\<lparr>cfg_readonly_root := True\<rparr>\<rparr>)
      else ebind (run_option E a v q) (run_options E argv))"

section \<open>The command\<close>

text \<open>The configuration with the image, the identifier and the command filled in.\<close>

definition complete_request :: "run_request \<Rightarrow> string \<Rightarrow> string \<Rightarrow> string list \<Rightarrow> mc_run_config" where
  "complete_request q rootfs cid command =
     (rq_config q)\<lparr>cfg_id := Some cid, cfg_rootfs := Some rootfs,
       cfg_hostname := Some (case cfg_hostname (rq_config q) of
           None \<Rightarrow> snprintf_buf 16 (''mc-'' @ take 12 cid) | Some h \<Rightarrow> h),
       cfg_command := Some command\<rparr>"

text \<open>The options up to the configuration and the image it comes from.\<close>

definition prepare_run :: "cli_env \<Rightarrow> string list \<Rightarrow> (outcome + mc_run_config \<times> string) option" where
  "prepare_run E argv =
     (case run_options E argv default_request of
        Inl oc \<Rightarrow> Some (Inl oc)
      | Inr (q, rest) \<Rightarrow> (case (rq_image q, rest) of
            (Some img, Some (a # command)) \<Rightarrow>
              (case mc_image_resolve (ce_resolve E) (ce_images E) img 4096 of
                 Inl e \<Rightarrow> Some (Inl (failure False e))
               | Inr rootfs \<Rightarrow> (case mc_generate_id (ce_random E) of
                     None \<Rightarrow> None
                   | Some (Inl e) \<Rightarrow> Some (Inl (failure False e))
                   | Some (Inr cid) \<Rightarrow>
                       let c = complete_request q rootfs cid (a # command) in
                       if \<not> cfg_network_bridge c \<and> cfg_publishes c \<noteq> [] then Some (Inl usage_error)
                       else Some (Inr (c, img))))
          | _ \<Rightarrow> Some (Inl usage_error)))"

text \<open>The whole command: the repairs of the reconciliation, the registry, the argument vector of the
  shim if it was launched, and the outcome.\<close>

definition cmd_run ::
  "jsonc \<Rightarrow> cli_env \<Rightarrow> bool \<Rightarrow> string list \<Rightarrow> registry \<Rightarrow> effect list \<times> registry \<times> string list option \<times> outcome option" where
  "cmd_run J E create_only argv R =
     (case prepare_run E argv of
        None \<Rightarrow> ([], R, None, None)
      | Some (Inl oc) \<Rightarrow> ([], R, None, Some oc)
      | Some (Inr (c, img)) \<Rightarrow>
          (case admit_container J (ce_admit E) create_only c img R of
             (effects, R', None) \<Rightarrow> (effects, R', None, None)
           | (effects, R', Some (Inl e)) \<Rightarrow> (effects, R', None, Some (failure False e))
           | (effects, R', Some (Inr c')) \<Rightarrow>
               let id_line = the (cfg_id c') @ [CHR 0x0A] in
               if create_only then (effects, R', None, Some (success id_line))
               else (case mc_launch_shim (ce_launch E) c' (ce_waits E) of
                   (exec, None) \<Rightarrow> (effects, R', exec, None)
                 | (exec, Some (Inl e)) \<Rightarrow> (effects, R', exec, Some (failure False e))
                 | (exec, Some (Inr result)) \<Rightarrow>
                     (effects, R', exec,
                      Some ((success (if cfg_detach c' then id_line else []))\<lparr>oc_code := result\<rparr>)))))"

section \<open>What the option loop guarantees\<close>

text \<open>A mount as the parsers accept it.\<close>

definition mount_accepted :: "shim_env \<Rightarrow> mc_mount \<Rightarrow> bool" where
  "mount_accepted E m \<longleftrightarrow>
     (case mnt_target m of
        None \<Rightarrow> False
      | Some t \<Rightarrow> CHR '':'' \<notin> set t \<and> valid_target t \<and>
          (mnt_type m = MC_MOUNT_BIND \<and> mnt_size m = 0 \<and>
             (\<exists>src s. mnt_source m = Some s \<and> me_realpath (sh_mount_env E) src = Some s \<and>
                me_is_directory (sh_mount_env E) s \<and> bind_allowed (sh_json E) (sh_mount_env E) s) \<or>
           mnt_type m = MC_MOUNT_TMPFS \<and> mnt_source m = None \<and> \<not> mnt_readonly m \<and>
             0 < unat (mnt_size m) \<and> unat (mnt_size m) \<le> 1073741824))"

definition options_ok :: "shim_env \<Rightarrow> mc_run_config \<Rightarrow> bool" where
  "options_ok E c \<longleftrightarrow>
     (case cfg_workdir c of Some (ch # _) \<Rightarrow> ch = CHR ''/'' | _ \<Rightarrow> False) \<and>
     unat (cfg_user c) \<le> 65535 \<and> unat (cfg_group c) \<le> 65535 \<and>
     list_all (\<lambda>e. mc_valid_environment (Some e)) (cfg_environment c) \<and>
     0 < unat (cfg_memory_max c) \<and> 0 < unat (cfg_cpu_quota c) \<and> unat (cfg_cpu_quota c) \<le> 102400000 \<and>
     0 < unat (cfg_pids_max c) \<and> unat (cfg_pids_max c) \<le> 4194304 \<and>
     take_bit 41 (cfg_capability_mask c) = cfg_capability_mask c \<and>
     list_all valid_publish (cfg_publishes c) \<and> sorted_wrt (\<lambda>p p'. \<not> publish_overlaps p p') (cfg_publishes c) \<and>
     list_all (mount_accepted E) (cfg_mounts c) \<and>
     list_all (\<lambda>d. mc_seccomp_name_valid (sh_seccomp E) (Some d)) (cfg_seccomp_denies c) \<and>
     cfg_ipv4_host c = 0"

lemmas cli_parsers = mc_valid_name.simps mc_parse_user.simps mc_valid_environment.simps mc_parse_bytes.simps
  mc_parse_cpu_quota.simps mc_parse_positive_u64.simps mc_parse_publish.simps mc_capability_parse.simps
  mc_parse_bind_mount.simps mc_parse_tmpfs_mount.simps mc_seccomp_profile_load.simps mc_seccomp_name_valid.simps

declare cli_parsers [simp del]

lemma with_value_Inr: "with_value v f q = Inr q' \<longleftrightarrow> (\<exists>x. v = Some x \<and> q' = q\<lparr>rq_config := f x (rq_config q)\<rparr>)"
  by (auto simp: with_value_def split: option.splits)

lemma with_mount_Inr:
  "with_mount r q = Inr q' \<longleftrightarrow>
     (\<exists>m. r = Inr m \<and> q' = q\<lparr>rq_config := (rq_config q)\<lparr>cfg_mounts := cfg_mounts (rq_config q) @ [m]\<rparr>\<rparr>)"
  by (auto simp: with_mount_def split: sum.splits)

lemma parse_user_bounds: "mc_parse_user v = Some (u, g) \<Longrightarrow> unat u \<le> 65535 \<and> unat g \<le> 65535"
  by (cases v)
    (auto simp: mc_parse_user.simps Let_def not_less word_le_nat_alt unat_ucast_u32 split: if_splits list.splits)

lemma positive_u64_bounds:
  "mc_parse_positive_u64 v m = Some n \<Longrightarrow> 0 < unat n \<and> unat n \<le> unat m"
  by (cases v) (auto simp: mc_parse_positive_u64.simps Let_def not_less word_le_nat_alt unat_gt_0 split: if_splits)

lemma bind_mount_accepted:
  assumes "mc_parse_bind_mount (sh_json E) (sh_mount_env E) (Some v) zero_mount = Inr m"
  shows "mount_accepted E m"
  using assms by (cases rule: parse_bind_mount_Inr) (auto simp: mount_accepted_def zero_mount_def)

lemma tmpfs_mount_accepted:
  assumes "mc_parse_tmpfs_mount (Some v) zero_mount = Inr m"
  shows "mount_accepted E m"
  using assms by (cases rule: parse_tmpfs_mount_Inr) (auto simp: mount_accepted_def)

lemma capability_bit: "n < 41 \<Longrightarrow> take_bit 41 (push_bit n 1 :: u64) = push_bit n 1"
  by (intro bit_word_eqI) (auto simp: bit_take_bit_iff bit_push_bit_iff bit_exp_iff)

lemma profile_names_valid:
  "mc_seccomp_profile_load J L stat euid from_file path = Inr names \<Longrightarrow>
     list_all (\<lambda>n. mc_seccomp_name_valid L (Some n)) names"
  by (cases path) (auto simp: cli_parsers list_all_iff split: if_splits option.splits json.splits dest!: load_deny_names_Some)

lemma with_mount_ok:
  assumes "with_mount r q = Inr q'" "\<And>m. r = Inr m \<Longrightarrow> mount_accepted E m" "options_ok E (rq_config q)"
  shows "options_ok E (rq_config q')"
  using assms by (auto simp: with_mount_Inr options_ok_def)

lemma options_ok_updates:
  assumes "options_ok E c"
  shows "options_ok E (c\<lparr>cfg_name := n\<rparr>)" "options_ok E (c\<lparr>cfg_hostname := h\<rparr>)"
    "w \<noteq> [] \<Longrightarrow> hd w = CHR ''/'' \<Longrightarrow> options_ok E (c\<lparr>cfg_workdir := Some w\<rparr>)"
    "unat u \<le> 65535 \<Longrightarrow> unat g \<le> 65535 \<Longrightarrow> options_ok E (c\<lparr>cfg_user := u, cfg_group := g\<rparr>)"
    "mc_valid_environment (Some e) \<Longrightarrow> options_ok E (c\<lparr>cfg_environment := cfg_environment c @ [e]\<rparr>)"
    "0 < unat m \<Longrightarrow> options_ok E (c\<lparr>cfg_memory_max := m\<rparr>)" "options_ok E (c\<lparr>cfg_swap_max := sw\<rparr>)"
    "1 \<le> unat cp \<Longrightarrow> unat cp \<le> 102400000 \<Longrightarrow> options_ok E (c\<lparr>cfg_cpu_quota := cp\<rparr>)"
    "0 < unat pd \<Longrightarrow> unat pd \<le> 4194304 \<Longrightarrow> options_ok E (c\<lparr>cfg_pids_max := pd\<rparr>)"
    "options_ok E (c\<lparr>cfg_network_bridge := b\<rparr>)"
    "valid_publish p \<Longrightarrow> \<not> list_ex (\<lambda>p'. publish_overlaps p' p) (cfg_publishes c) \<Longrightarrow>
       options_ok E (c\<lparr>cfg_publishes := cfg_publishes c @ [p]\<rparr>)"
    "i < 41 \<Longrightarrow> options_ok E (c\<lparr>cfg_capability_mask := cfg_capability_mask c OR push_bit i 1\<rparr>)"
    "list_all (\<lambda>d. mc_seccomp_name_valid (sh_seccomp E) (Some d)) ds \<Longrightarrow> options_ok E (c\<lparr>cfg_seccomp_denies := ds\<rparr>)"
    "options_ok E (c\<lparr>cfg_detach := b\<rparr>)" "options_ok E (c\<lparr>cfg_readonly_root := b\<rparr>)"
  using assms unfolding options_ok_def
  by (auto simp: sorted_wrt_append list_ex_iff capability_bit split: list.splits simp del: push_bit_of_1)

lemma option_values:
  assumes "options_ok E c"
  shows "(if mc_valid_name (Some v) then Some v else None) = Some x \<Longrightarrow> options_ok E (c\<lparr>cfg_name := Some x\<rparr>)"
    "Some v = Some x \<Longrightarrow> options_ok E (c\<lparr>cfg_hostname := Some x\<rparr>)"
    "(if v \<noteq> [] \<and> hd v = CHR ''/'' then Some v else None) = Some x \<Longrightarrow> options_ok E (c\<lparr>cfg_workdir := Some x\<rparr>)"
    "mc_parse_user (Some v) = Some y \<Longrightarrow> options_ok E ((case y of (u, g) \<Rightarrow> \<lambda>c. c\<lparr>cfg_user := u, cfg_group := g\<rparr>) c)"
    "(if mc_valid_environment (Some v) then Some v else None) = Some x \<Longrightarrow>
       options_ok E (c\<lparr>cfg_environment := cfg_environment c @ [x]\<rparr>)"
    "mc_parse_bytes (Some v) = Some n \<Longrightarrow> options_ok E (c\<lparr>cfg_memory_max := n\<rparr>)"
    "(if v = ''0'' then Some 0 else mc_parse_bytes (Some v)) = Some n \<Longrightarrow> options_ok E (c\<lparr>cfg_swap_max := n\<rparr>)"
    "mc_parse_cpu_quota (Some v) = Some n \<Longrightarrow> options_ok E (c\<lparr>cfg_cpu_quota := n\<rparr>)"
    "mc_parse_positive_u64 (Some v) 4194304 = Some n \<Longrightarrow> options_ok E (c\<lparr>cfg_pids_max := n\<rparr>)"
    "(if v = ''bridge'' then Some True else if v = ''none'' then Some False else None) = Some b \<Longrightarrow>
       options_ok E (c\<lparr>cfg_network_bridge := b\<rparr>)"
    "(case mc_parse_publish (Some v) of None \<Rightarrow> None
      | Some p \<Rightarrow> if list_ex (\<lambda>existing. publish_overlaps existing p) (cfg_publishes c) then None else Some p) = Some q \<Longrightarrow>
       options_ok E (c\<lparr>cfg_publishes := cfg_publishes c @ [q]\<rparr>)"
    "(case mc_capability_parse (Some v) of None \<Rightarrow> None | Some i \<Rightarrow> if i \<ge> 64 then None else Some i) = Some i \<Longrightarrow>
       options_ok E (c\<lparr>cfg_capability_mask := cfg_capability_mask c OR push_bit i 1\<rparr>)"
  using options_ok_updates [OF assms] parse_user_bounds [of "Some v"] positive_u64_bounds [of "Some v" 4194304]
    parse_bytes_pos [of "Some v"] parse_cpu_quota_bounds [of "Some v"] parse_publish_valid [of "Some v"]
    capability_parse_bound [of "Some v"]
  by (simp_all del: push_bit_of_1 split: if_splits option.splits prod.splits)

lemma with_value_ok:
  assumes "with_value v f q = Inr q'" "\<And>x. v = Some x \<Longrightarrow> options_ok E (f x (rq_config q))"
  shows "options_ok E (rq_config q')"
  using assms by (auto simp: with_value_Inr)

lemma if_resultE:
  assumes "(if P then a else b) = Inr x" "P \<Longrightarrow> a = Inr x \<Longrightarrow> R" "\<not> P \<Longrightarrow> b = Inr x \<Longrightarrow> R"
  shows R
  using assms by (simp split: if_splits)

lemma run_option_ok:
  assumes "run_option E flag v q = Inr q'" "options_ok (ce_shim E) (rq_config q)"
  shows "options_ok (ce_shim E) (rq_config q')"
proof -
  note ok = assms(2)
  have profile: "options_ok (ce_shim E) (rq_config q')"
    if "(case mc_seccomp_profile_load J (sh_seccomp (ce_shim E)) st u fl p of
        Inl e \<Rightarrow> Inl (refused e)
      | Inr denies \<Rightarrow> Inr (q\<lparr>rq_config := (rq_config q)\<lparr>cfg_seccomp_denies := denies\<rparr>, rq_profile := True\<rparr>)) = Inr q'"
    for J st u fl p
    using that options_ok_updates(13) [OF ok] profile_names_valid by (auto split: sum.split_asm)
  show ?thesis
    using assms(1) unfolding run_option_def
    by (elim if_resultE)
      ((erule with_value_ok, erule option_values [OF ok]) | (simp only: sum.inject, hypsubst, simp add: ok; fail) |
       (erule with_mount_ok, erule bind_mount_accepted, rule ok) |
       (erule with_mount_ok, erule tmpfs_mount_accepted, rule ok) | erule profile | (simp; fail))+
qed

lemma run_options_ok:
  "run_options E argv q = Inr (q', rest) \<Longrightarrow> options_ok (ce_shim E) (rq_config q) \<Longrightarrow> options_ok (ce_shim E) (rq_config q')"
proof (induction E argv q arbitrary: q' rest rule: run_options.induct)
  case (3 E a v argv q)
  show ?case
  proof (cases "a \<in> {''--'', ''--detach'', ''--read-only''}")
    case True
    then show ?thesis using 3 by (auto intro: options_ok_updates split: if_splits)
  next
    case False
    then obtain q1 where "run_option E a v q = Inr q1" "run_options E argv q1 = Inr (q', rest)"
      using "3.prems"(1) by (auto simp: ebind_Inr_iff)
    then show ?thesis using "3.IH"(3) False run_option_ok "3.prems"(2) by blast
  qed
qed (auto intro: options_ok_updates split: if_splits)

lemma default_request_ok: "options_ok E (rq_config default_request)"
  by (simp add: options_ok_def default_request_def zero_config_def)

text \<open>What \<open>realpath\<close> documents: a canonical absolute path, which is its own canonical form.\<close>

definition realpath_ok :: "mount_env \<Rightarrow> bool" where
  "realpath_ok M \<longleftrightarrow> (\<forall>p r. me_realpath M p = Some r \<longrightarrow> prefix ''/'' r \<and> me_realpath M r = Some r)"

text \<open>A bind source the argument vector of the shim can carry.\<close>

definition source_plain :: "mc_mount \<Rightarrow> bool" where
  "source_plain m \<longleftrightarrow> (case mnt_source m of None \<Rightarrow> True | Some s \<Rightarrow> CHR '':'' \<notin> set s \<and> length s \<le> 4091)"

lemma accepted_launchable:
  assumes "mount_accepted E m" "source_plain m" "realpath_ok (sh_mount_env E)"
  shows "mount_launchable E m"
proof -
  obtain t where t: "mnt_target m = Some t" "CHR '':'' \<notin> set t" "valid_target t"
    using assms(1) by (auto simp: mount_accepted_def split: option.splits)
  have "length t \<le> 4095" using valid_target_length [OF t(3)] by simp
  then show ?thesis
    using assms t by (auto simp: mount_accepted_def mount_launchable_def source_plain_def realpath_ok_def)
qed

lemma accepted_storable: "mount_accepted E m \<Longrightarrow> mount_storable m"
  by (auto simp: mount_accepted_def mount_storable_def split: option.splits)

lemma prepare_run_config:
  assumes "prepare_run E argv = Some (Inr (c, img))"
  obtains q rootfs cid a command where "c = complete_request q rootfs cid (a # command)"
    "options_ok (ce_shim E) (rq_config q)" "mc_generate_id (ce_random E) = Some (Inr cid)"
    "mc_image_resolve (ce_resolve E) (ce_images E) img 4096 = Inr rootfs"
    "cfg_network_bridge c \<or> cfg_publishes c = []"
proof -
  obtain q rest where q: "run_options E argv default_request = Inr (q, rest)"
    using assms by (auto simp: prepare_run_def split: sum.split_asm)
  obtain i a command where i: "rq_image q = Some i" "rest = Some (a # command)"
    using assms by (auto simp: prepare_run_def q split: option.split_asm list.split_asm)
  obtain rootfs where r: "mc_image_resolve (ce_resolve E) (ce_images E) i 4096 = Inr rootfs"
    using assms by (auto simp: prepare_run_def q i split: sum.split_asm)
  obtain cid where cid: "mc_generate_id (ce_random E) = Some (Inr cid)"
    using assms by (auto simp: prepare_run_def q i r split: option.split_asm sum.split_asm)
  have "i = img \<and> c = complete_request q rootfs cid (a # command) \<and> (cfg_network_bridge c \<or> cfg_publishes c = [])"
    using assms by (auto simp: prepare_run_def q i r cid Let_def split: if_splits)
  then show ?thesis using that [of q rootfs cid a command] run_options_ok [OF q default_request_ok] cid r by blast
qed

lemma take_bit_less: "take_bit 41 (w :: u64) < 2 ^ 41"
  using take_bit_nat_less_exp [of 41 "unat w"] by (simp add: word_less_nat_alt unsigned_take_bit_eq)

lemma prepared_run_ok:
  assumes "prepare_run E argv = Some (Inr (c, img))" "realpath_ok (sh_mount_env (ce_shim E))" "list_all source_plain (cfg_mounts c)"
  shows "launchable (ce_shim E) c \<and> request_ok c \<and> config_storable c \<and> (\<exists>cid. cfg_id c = Some cid \<and> entry_ok cid) \<and>
    sorted_wrt (\<lambda>p p'. \<not> publish_overlaps p p') (cfg_publishes c) \<and> (cfg_network_bridge c \<or> cfg_publishes c = [])"
proof -
  obtain q rootfs cid a command where c: "c = complete_request q rootfs cid (a # command)"
    and ok: "options_ok (ce_shim E) (rq_config q)" and cid: "mc_generate_id (ce_random E) = Some (Inr cid)"
    and net: "cfg_network_bridge c \<or> cfg_publishes c = []"
    using assms(1) by (rule prepare_run_config)
  have mounts: "cfg_mounts c = cfg_mounts (rq_config q)" by (simp add: c complete_request_def)
  have entry: "entry_ok cid"
    using generate_id_format [OF cid]
    by (auto simp: entry_ok_def hidden_def list_all_iff lower_hex_def isdigit_def dest!: hd_in_set)
  have "list_all (mount_launchable (ce_shim E)) (cfg_mounts c)" "list_all mount_storable (cfg_mounts c)"
    using ok assms(2,3) accepted_launchable accepted_storable mounts by (auto simp: options_ok_def list_all_iff)
  moreover have "cfg_capability_mask c < 2 ^ 41"
    using ok take_bit_less [of "cfg_capability_mask (rq_config q)"] by (simp add: options_ok_def c complete_request_def)
  ultimately show ?thesis
    using ok entry net
    by (auto simp: c complete_request_def options_ok_def launchable_def request_ok_def config_storable_def split: option.splits)
qed

lemma lease_address_only: "lease_address J R c = Inr c' \<Longrightarrow> \<exists>a. c' = c\<lparr>cfg_ipv4_host := a\<rparr>"
  by (cases c) (auto simp: lease_address_def split: if_splits sum.splits)

lemma admit_stores:
  assumes "jsonc_ok J" "tidy R" "cfg_id c = Some cid" "request_ok c" "env_ok A" "config_storable c"
    and "admit_container J A False c img R = (effects, R', Some (Inr c'))"
  shows "configs J R' cid = config_json (se_build (ad_store A)) c' img \<and> (\<exists>a. c' = c\<lparr>cfg_ipv4_host := a\<rparr>)"
proof -
  have pids: "\<And>p. we_pid (lf_write (ad_life A) p) \<le> 4194304" "\<And>p. we_pid (se_write (ad_store A) p) \<le> 4194304"
    using assms(5) by (simp_all add: env_ok_def)
  have cid: "entry_ok cid" using assms(3,4) by (simp add: request_ok_def)
  obtain fx R1 q where rec: "mc_state_reconcile J (ad_life A) False R = (fx, R1, q)" by (metis prod_cases3)
  obtain R2 q2 where lock: "mc_state_container_lock (se_mkdir (ad_store A)) (ad_lock A) R1 cid = (R2, q2)" by (metis surj_pair)
  have "tidy R1" using reconcile_keeps [OF assms(2) pids(1) rec] by (simp add: keeps_def)
  then have tidy: "tidy R2" using container_lock_keeps [OF _ cid lock, of J] by (simp add: keeps_def)
  have "admit_locked J A False c img R = (effects, R', Some (Inr c'))"
    using assms(7) by (auto simp: admit_container_def split: prod.split_asm option.split_asm sum.split_asm)
  then have "admit_save J A False c img R2 = (R', Some (Inr c'))"
    using assms(3) by (auto simp: admit_locked_def rec lock split: option.split_asm sum.split_asm)
  then obtain lease: "lease_address J R2 c = Inr c'" and save: "mc_state_save_config J (ad_store A) R2 c' img = (R', Some (Inr ()))"
    by (auto simp: admit_save_def split: option.split_asm sum.split_asm prod.split_asm)
  obtain a where a: "c' = c\<lparr>cfg_ipv4_host := a\<rparr>" using lease_address_only [OF lease] by blast
  have c': "cfg_id c' = Some cid" "config_storable c'" using assms(3,6) by (simp_all add: a config_storable_def)
  have "registry_ok R2" using tidy by (simp add: tidy_def)
  note eff = save_config_effect [OF this c'(1) cid pids(2) save]
  have "json_wf (config_json (se_build (ad_store A)) c' img)" "json_depth (config_json (se_build (ad_store A)) c' img) < 32"
    using c'(2) config_json_wf by (auto simp: config_storable_def)
  then have "file_json J R' (entry_path R2 cid ''config.json'') = config_json (se_build (ad_store A)) c' img"
    using eff(3) by (intro file_json_print [OF assms(1)]) simp_all
  moreover have "cid \<in> set (rg_entries R')" "entry_path R' = entry_path R2" "\<not> hidden cid"
    using eff(1,3) entry_path_dir [of R' R2] cid by (auto simp: touches_def entry_ok_def)
  ultimately show ?thesis using a by (auto simp: configs_def)
qed

section \<open>An example\<close>

text \<open>Running an image on an empty registry, without network; the write of the configuration takes \<open>n\<close>
  bytes.\<close>

definition example_base :: string where
  "example_base = ''/s/images/sha256/'' @ replicate 64 CHR ''0''"

definition example_cli :: "nat \<Rightarrow> cli_env" where
  "example_cli n =
     \<lparr>ce_shim = \<lparr>sh_json = example_jsonc,
        sh_mount_env = example_mount_env\<lparr>me_realpath := (\<lambda>p. if take 1 p = ''/'' then Some p else None)\<rparr>,
        sh_seccomp = example_seccomp_lib\<rparr>,
      ce_euid = 0, ce_profile_stat = (\<lambda>_. None), ce_profile_file = (\<lambda>_. JNull),
      ce_images = \<lparr>is_dir = ''/s'', is_disk = \<lparr>dk_content = (\<lambda>_. ''sha256:'' @ replicate 64 CHR ''0'' @ [CHR 0x0A]),
          dk_stable = (\<lambda>_. None), dk_next = 1,
          dk_dir = [''/s/images/names/alpine'' \<mapsto> 0, example_base @ ''/.complete'' \<mapsto> 0], dk_survivors = []\<rparr>,
        is_trees = (\<lambda>_. None)\<rparr>,
      ce_resolve = \<lparr>rv_open = 0, rv_read = 0, rv_access = 0\<rparr>, ce_random = [Inr (replicate 16 0)],
      ce_admit = \<lparr>ad_store = example_store_env n, ad_life = example_life (\<lambda>_. None), ad_lock = (\<lambda>_. 0)\<rparr>,
      ce_launch = \<lparr>le_getenv = (\<lambda>_. Some ''/shim''), le_access = (\<lambda>_. True), le_readlink = Inl ENOENT, le_pipe = Inr 7,
        le_log_dir = ''/l'', le_mkdir = (\<lambda>_. None), le_open_log = 0, le_open_null = 0, le_fork = 0, le_read = []\<rparr>,
      ce_waits = [Inr (WIFEXITED 3)]\<rparr>"

definition example_argv :: "string list" where
  "example_argv = [''--image'', ''alpine'', ''--network'', ''none'', ''--'', ''sh'']"

definition example_run :: mc_run_config where
  "example_run = (rq_config default_request)\<lparr>cfg_id := Some (replicate 32 CHR ''0''), cfg_rootfs := Some (example_base @ ''/rootfs''),
     cfg_hostname := Some ''mc-000000000000'', cfg_network_bridge := False, cfg_command := Some [''sh'']\<rparr>"

lemma example_prepared: "prepare_run (example_cli n) example_argv = Some (Inr (example_run, ''alpine''))"
  by code_simp

lemma example_saved:
  fixes J :: jsonc
  defines "n \<equiv> length (jc_print J (config_json (se_build (example_store_env 0)) example_run ''alpine''))"
  assumes "rg_dir R = ''/s''" "rg_entries R = [replicate 32 CHR ''0'']" "rg_disk R = example_disk"
  shows "snd (mc_state_save_config J (example_store_env n) R example_run ''alpine'') = Some (Inr ())"
proof -
  have build: "se_build (example_store_env n) = se_build (example_store_env 0)" by (simp add: example_store_env_def)
  let ?cid = "replicate 32 CHR ''0''"
  have run: "cfg_name example_run = None" "cfg_publishes example_run = []" "the (cfg_id example_run) = ?cid"
    by (simp_all add: example_run_def default_request_def zero_config_def)
  have paths: "make_path (rg_dir R) (Some ?cid) [] = Some (''/s/containers/'' @ ?cid @ ''/'')"
    "make_path (rg_dir R) (Some ?cid) ''config.json'' = Some (''/s/containers/'' @ ?cid @ ''/config.json'')"
    by (simp_all add: make_path_def assms)
  have mk: "mc_mkdir_p (se_mkdir (example_store_env n)) p = None" if "length p < 4096" for p
    using that by (simp add: mkdir_p_None example_store_env_def list_all_iff)
  have "dk_dir example_disk (temporary_path (''/s/containers/'' @ ?cid @ ''/config.json'') 42) = None"
    by (simp add: temporary_path_def snprintf_buf_def show_nat.simps [of 42] show_nat.simps [of 4] example_disk_def)
  then have "snd (mc_write_atomic (example_write_env\<lparr>we_write := [Inr n]\<rparr>) (''/s/containers/'' @ ?cid @ ''/config.json'')
      (jc_print J (config_json (se_build (example_store_env 0)) example_run ''alpine'')) example_disk) = Some (Inr ())"
    unfolding n_def by (intro write_atomic_once) simp_all
  moreover have "se_write (example_store_env n) p = example_write_env\<lparr>we_write := [Inr n]\<rparr>" for p
    by (simp add: example_store_env_def)
  moreover have "rg_disk (add_entry ?cid R) = example_disk" by (simp add: add_entry_def assms)
  moreover have "\<not> name_is_taken J R None ?cid" "\<not> published_port_is_taken J R example_run"
    by (simp_all add: name_is_taken_def published_port_is_taken_def run)
  ultimately show ?thesis
    using paths mk by (simp add: mc_state_save_config_def Let_def build entry_mkdir_def registry_write_def case_prod_beta run)
qed

lemma example_admitted_run:
  "\<exists>n effects R'. admit_container jsonc_ref (ce_admit (example_cli n)) False example_run ''alpine'' example_registry =
     (effects, R', Some (Inr example_run))"
proof -
  let ?cid = "replicate 32 CHR ''0''"
  define n where "n = length (jc_print jsonc_ref (config_json (se_build (example_store_env 0)) example_run ''alpine''))"
  define A where "A = ce_admit (example_cli n)"
  have A: "ad_store A = example_store_env n" "ad_lock A = (\<lambda>_. 0)" "se_mkdir (example_store_env n) = (\<lambda>_. 0)"
    by (simp_all add: A_def example_cli_def example_store_env_def)
  have mk: "mc_mkdir_p (\<lambda>_. 0) p = None" if "length p < 4096" for p
    using that by (simp add: mkdir_p_None list_all_iff)
  let ?R = "add_entry ?cid example_registry"
  have "rg_dir ?R = ''/s''" "rg_entries ?R = [?cid]" "rg_disk ?R = example_disk"
    by (simp_all add: add_entry_def example_registry_def)
  then obtain R' where save: "mc_state_save_config jsonc_ref (example_store_env n) ?R example_run ''alpine'' = (R', Some (Inr ()))"
    using example_saved [of ?R jsonc_ref, folded n_def] by (metis prod.collapse)
  have run: "cfg_id example_run = Some ?cid" "\<not> cfg_network_bridge example_run" by (simp_all add: example_run_def)
  have lock1: "mc_state_registry_lock (se_mkdir (ad_store A)) (ad_lock A) (rg_dir example_registry) = None"
    by (simp add: mc_state_registry_lock_def A mk make_path_def take_lock_def example_registry_def)
  have lock2: "mc_state_container_lock (se_mkdir (ad_store A)) (ad_lock A) example_registry ?cid = (?R, None)"
    by (simp add: mc_state_container_lock_def A mk make_path_def take_lock_def entry_mkdir_def Let_def) (simp add: example_registry_def mk)
  have "mc_state_reconcile jsonc_ref (ad_life A) False example_registry = ([], example_registry, Some (Inr ()))"
    by (simp add: mc_state_reconcile_def example_registry_def)
  then have "admit_locked jsonc_ref A False example_run ''alpine'' example_registry = ([], R', Some (Inr example_run))"
    using lock1 lock2 save run by (simp add: admit_locked_def admit_save_def lease_address_def A(1))
  then have "admit_container jsonc_ref (ce_admit (example_cli n)) False example_run ''alpine'' example_registry =
      ([], R', Some (Inr example_run))" by (simp add: admit_container_def A_def)
  then show ?thesis by blast
qed

section \<open>Properties\<close>

text \<open>
  C7: One configuration from the command line to the container. When \<open>run\<close> starts a shim, the options
  were valid, the shim reads from its argument vector the very configuration that the registry holds for
  the container, apart from the name and the two fields of a single start, and the container's own
  publications do not overlap.
\<close>

theorem run_configuration_agrees:
  assumes "cmd_run J E False argv R = (effects, R', Some exec, oc)"
    and "jsonc_ok J" "tidy R" "env_ok (ce_admit E)" "realpath_ok (sh_mount_env (ce_shim E))"
    and "\<And>c img. prepare_run E argv = Some (Inr (c, img)) \<Longrightarrow> list_all source_plain (cfg_mounts c)"
    and "\<And>d. le_pipe (ce_launch E) = Inr d \<Longrightarrow> 0 \<le> d \<and> d \<le> 1048576"
  shows "\<exists>c cid d img. cfg_id c = Some cid \<and>
    shim_parse (ce_shim E) exec = Some (c\<lparr>cfg_name := None, cfg_ready_fd := d\<rparr>) \<and>
    load_config_json J (configs J R' cid) = Some (c\<lparr>cfg_detach := False, cfg_ready_fd := - 1\<rparr>, snprintf_buf PATH_MAX img) \<and>
    sorted_wrt (\<lambda>p p'. \<not> publish_overlaps p p') (cfg_publishes c)"
proof -
  obtain c img where prep: "prepare_run E argv = Some (Inr (c, img))"
    using assms(1) by (auto simp: cmd_run_def split: option.split_asm sum.split_asm)
  note ok = prepared_run_ok [OF prep assms(5) assms(6) [OF prep]]
  obtain cid where cid: "cfg_id c = Some cid" using ok by blast
  obtain fx c' where admit: "admit_container J (ce_admit E) False c img R = (fx, R', Some (Inr c'))"
    and launch: "fst (mc_launch_shim (ce_launch E) c' (ce_waits E)) = Some exec"
    using assms(1)
    by (auto simp: cmd_run_def prep Let_def split: prod.split_asm option.split_asm sum.split_asm)
  have stored: "configs J R' cid = config_json (se_build (ad_store (ce_admit E))) c' img"
    and same: "\<exists>a. c' = c\<lparr>cfg_ipv4_host := a\<rparr>"
    using admit_stores [OF assms(2,3) cid _ assms(4) _ admit] ok by blast+
  obtain a where a: "c' = c\<lparr>cfg_ipv4_host := a\<rparr>" using same by blast
  have c': "launchable (ce_shim E) c'" "config_storable c'" "cfg_id c' = Some cid"
    "sorted_wrt (\<lambda>p p'. \<not> publish_overlaps p p') (cfg_publishes c')"
    using ok cid by (simp_all add: a launchable_def config_storable_def)
  obtain path d where exec: "exec = exec_argv (shim_arguments c' path d)" "cfg_detach c' \<Longrightarrow> le_pipe (ce_launch E) = Inr d"
    using launch by (auto simp: mc_launch_shim_def open_detached_def Let_def split: sum.split_asm if_splits option.split_asm)
  have "shim_parse (ce_shim E) exec = Some (c'\<lparr>cfg_name := None, cfg_ready_fd := (if cfg_detach c' then d else - 1)\<rparr>)"
    unfolding exec(1) using c'(1) assms(7) exec(2) by (intro shim_parse_arguments) blast+
  moreover have "load_config_json J (configs J R' cid) = Some (c'\<lparr>cfg_detach := False, cfg_ready_fd := - 1\<rparr>, snprintf_buf PATH_MAX img)"
    unfolding stored by (rule load_config_json_roundtrip [OF assms(2) c'(2)])
  ultimately show ?thesis using c'(3,4) by blast
qed

theorem run_configuration_agrees_witness:
  "\<exists>n effects R' exec oc c cid img. cmd_run jsonc_ref (example_cli n) False example_argv example_registry = (effects, R', Some exec, oc) \<and>
     load_config_json jsonc_ref (configs jsonc_ref R' cid) = Some (c\<lparr>cfg_detach := False, cfg_ready_fd := - 1\<rparr>, snprintf_buf PATH_MAX img)"
proof -
  obtain n fx R' where admit: "admit_container jsonc_ref (ce_admit (example_cli n)) False example_run ''alpine'' example_registry =
      (fx, R', Some (Inr example_run))" using example_admitted_run by blast
  have "\<exists>exec r. mc_launch_shim (ce_launch (example_cli n)) example_run (ce_waits (example_cli n)) = (Some exec, Some (Inr r))"
    by (simp add: mc_launch_shim_def shim_path_def example_cli_def example_run_def default_request_def zero_config_def)
  then obtain exec oc where run: "cmd_run jsonc_ref (example_cli n) False example_argv example_registry = (fx, R', Some exec, oc)"
    by (auto simp: cmd_run_def example_prepared admit Let_def)
  have tidy: "tidy example_registry"
    using example_registry_ok by (auto simp: tidy_def example_registry_def example_disk_def disk_read_def entry_path_def)
  have env: "env_ok (ce_admit (example_cli n))"
    by (simp add: env_ok_def example_cli_def example_store_env_def example_life_def example_write_env_def)
  have real: "realpath_ok (sh_mount_env (ce_shim (example_cli n)))"
    by (auto simp: realpath_ok_def example_cli_def split: if_splits) (metis take_is_prefix)
  have pipe: "le_pipe (ce_launch (example_cli n)) = Inr 7" by (simp add: example_cli_def)
  have mounts: "list_all source_plain (cfg_mounts c)" if "prepare_run (example_cli n) example_argv = Some (Inr (c, img))" for c img
    using that by (simp add: example_prepared) (auto simp: example_run_def default_request_def zero_config_def)
  show ?thesis
    using run run_configuration_agrees [OF run jsonc_ref_ok tidy env real mounts] pipe by fastforce
qed

end
