(* ===== verification/MC_Commands.thy ===== *)
theory MC_Commands
  imports MC_Cli
begin

text \<open>
  The other commands of \<open>src/cli/main.c\<close>: the choice of the command from the argument vector, \<open>ps\<close>, \<open>gc\<close>,
  \<open>kill\<close>, \<open>stop\<close>, \<open>rm\<close>, \<open>start\<close>, \<open>logs\<close>, \<open>inspect\<close> and the printing of logs. Commands that wait see the
  registry as the shim changes it: what they see at each moment is a function of time. The lemmas show
  when containers are removed, killed and started, and that the ring buffer of \<open>logs --tail\<close> prints
  the last lines.
\<close>

section \<open>The choice of the command\<close>

datatype command =
    Version bool | Info bool | Ps bool bool | Gc | Kill int string | Stop u64 string | Rm bool string
  | Exec string "string list" | Start string | Stats bool bool "string list" | Logs int bool string
  | Inspect string | ImageImport bool string string | Run bool "string list"

definition signal_of :: "string \<Rightarrow> int option" where
  "signal_of v =
     (if v = ''TERM'' \<or> v = ''SIGTERM'' then Some 15
      else if v = ''KILL'' \<or> v = ''SIGKILL'' then Some 9
      else if v = ''INT'' \<or> v = ''SIGINT'' then Some 2
      else if v = ''HUP'' \<or> v = ''SIGHUP'' then Some 1
      else if v = ''QUIT'' \<or> v = ''SIGQUIT'' then Some 3
      else None)"

fun ps_flags :: "string list \<Rightarrow> bool \<Rightarrow> bool \<Rightarrow> command option" where
  "ps_flags [] include_stopped json = Some (Ps include_stopped json)"
| "ps_flags (a # args) include_stopped json =
     (if a = ''--all'' then ps_flags args True json
      else if a = ''--json'' then ps_flags args include_stopped True
      else None)"

fun stats_flags :: "string list \<Rightarrow> bool \<Rightarrow> bool \<Rightarrow> command option" where
  "stats_flags [] no_stream json = None"
| "stats_flags (a # args) no_stream json =
     (if take 2 a = ''--'' then
        (if a = ''--no-stream'' then stats_flags args True json
         else if a = ''--json'' then stats_flags args no_stream True
         else None)
      else Some (Stats no_stream json (a # args)))"

fun log_flags :: "string list \<Rightarrow> int \<Rightarrow> bool \<Rightarrow> string \<Rightarrow> command option" where
  "log_flags [] tail follow reference = Some (Logs tail follow reference)"
| "log_flags (a # args) tail follow reference =
     (if a = ''--follow'' then log_flags args tail True reference
      else if a = ''--tail'' then
        (case args of
           [] \<Rightarrow> None
         | v # rest \<Rightarrow>
             (case strtol v of (n, unread, overflow) \<Rightarrow>
                if overflow \<or> unread = v \<or> unread \<noteq> [] \<or> n < 0 then None else log_flags rest n follow reference))
      else None)"

text \<open>The argument vector behind the program's name; \<open>None\<close> is a usage error.\<close>

definition parse_command :: "string list \<Rightarrow> command option" where
  "parse_command argv =
     (case argv of
        [] \<Rightarrow> None
      | name # args \<Rightarrow>
          if name \<in> {''version'', ''info''} then
            (if length args = 1 \<and> args \<noteq> [''--json''] then None
             else Some ((if name = ''version'' then Version else Info) (args = [''--json''])))
          else if name = ''ps'' then ps_flags args False False
          else if name = ''gc'' \<and> args = [] then Some Gc
          else if name = ''kill'' then
            (case args of
               [reference] \<Rightarrow> Some (Kill 9 reference)
             | [flag, v, reference] \<Rightarrow> if flag = ''--signal'' then map_option (\<lambda>n. Kill n reference) (signal_of v) else None
             | _ \<Rightarrow> None)
          else if name = ''stop'' then
            (case args of
               [reference] \<Rightarrow> Some (Stop 10 reference)
             | [flag, v, reference] \<Rightarrow>
                 if flag = ''--time'' then map_option (\<lambda>n. Stop n reference) (mc_parse_positive_u64 (Some v) 3600) else None
             | _ \<Rightarrow> None)
          else if name = ''rm'' then
            (case args of
               [reference] \<Rightarrow> Some (Rm False reference)
             | [flag, reference] \<Rightarrow> if flag = ''--force'' then Some (Rm True reference) else None
             | _ \<Rightarrow> None)
          else if name = ''exec'' then
            (case args of
               reference # dashes # c # command \<Rightarrow> if dashes = ''--'' then Some (Exec reference (c # command)) else None
             | _ \<Rightarrow> None)
          else if name = ''start'' then (case args of [reference] \<Rightarrow> Some (Start reference) | _ \<Rightarrow> None)
          else if name = ''stats'' then stats_flags args False False
          else if name = ''logs'' then (if args = [] then None else log_flags (butlast args) (- 1) False (last args))
          else if name = ''inspect'' then
            (case args of
               [reference] \<Rightarrow> Some (Inspect reference)
             | [reference, flag] \<Rightarrow> if flag = ''--json'' then Some (Inspect reference) else None
             | _ \<Rightarrow> None)
          else if name = ''image'' then
            (case args of
               [sub, img, tar] \<Rightarrow> if sub = ''import'' then Some (ImageImport False img tar) else None
             | [sub, img, tar, flag] \<Rightarrow>
                 if sub = ''import'' \<and> flag = ''--json'' then Some (ImageImport True img tar) else None
             | _ \<Rightarrow> None)
          else if name = ''run'' then Some (Run False args)
          else if name = ''create'' then Some (Run True args)
          else None)"

section \<open>Signals\<close>

text \<open>What \<open>kill\<close> and \<open>stop\<close> do under the locks: the request that was sent, and the container or the error.\<close>

type_synonym sent = "(string \<times> string) option"

definition locked_signal ::
  "jsonc \<Rightarrow> admit_env \<Rightarrow> registry \<Rightarrow> string \<Rightarrow> int \<Rightarrow> sent \<times> registry \<times> (mc_error + string)" where
  "locked_signal J A R reference signal_number =
     (case mc_state_registry_lock (se_mkdir (ad_store A)) (ad_lock A) (rg_dir R) of
        Some e \<Rightarrow> (None, R, Inl e)
      | None \<Rightarrow> (case mc_state_resolve J R (Some reference) of
            Inl e \<Rightarrow> (None, R, Inl e)
          | Inr resolved \<Rightarrow>
              (case mc_state_container_lock (se_mkdir (ad_store A)) (ad_lock A) R resolved of
                 (R', Some e) \<Rightarrow> (None, R', Inl e)
               | (R', None) \<Rightarrow> (case mc_state_signal J (ad_life A) R' resolved signal_number of
                     (request, Some e) \<Rightarrow> (request, R', Inl e)
                   | (request, None) \<Rightarrow> (request, R', Inr resolved)))))"

definition cmd_kill :: "jsonc \<Rightarrow> admit_env \<Rightarrow> registry \<Rightarrow> int \<Rightarrow> string \<Rightarrow> sent \<times> registry \<times> outcome" where
  "cmd_kill J A R signal_number reference =
     (case locked_signal J A R reference signal_number of
        (request, R', r) \<Rightarrow> (request, R', case r of Inl e \<Rightarrow> failure False e | Inr _ \<Rightarrow> success ''''))"

text \<open>The polls for a status other than running; the attempt that saw it.\<close>

definition seen_stopped :: "jsonc \<Rightarrow> life_env \<Rightarrow> registry \<Rightarrow> string \<Rightarrow> bool" where
  "seen_stopped J E R cid =
     (case mc_state_get_status J E R cid of Inl _ \<Rightarrow> False | Inr (status, _) \<Rightarrow> status \<noteq> ''running'')"

fun poll_stopped :: "jsonc \<Rightarrow> (nat \<Rightarrow> life_env \<times> registry) \<Rightarrow> string \<Rightarrow> nat \<Rightarrow> nat \<Rightarrow> nat option" where
  "poll_stopped J world cid attempt 0 = None"
| "poll_stopped J world cid attempt (Suc k) =
     (if seen_stopped J (fst (world attempt)) (snd (world attempt)) cid then Some attempt
      else poll_stopped J world cid (Suc attempt) k)"

text \<open>\<open>world i\<close> is what the command finds at its attempt number \<open>i\<close>, and \<open>world n\<close> for \<open>n\<close> attempts is what
  it finds after them. The two requests are the first signal and the kill.\<close>

definition cmd_stop ::
  "jsonc \<Rightarrow> admit_env \<Rightarrow> registry \<Rightarrow> (nat \<Rightarrow> life_env \<times> registry) \<Rightarrow> u64 \<Rightarrow> string \<Rightarrow> sent \<times> sent \<times> outcome" where
  "cmd_stop J A R world timeout_seconds reference =
     (case locked_signal J A R reference 15 of
        (request, R', Inl e) \<Rightarrow> (request, None, failure False e)
      | (request, R', Inr resolved) \<Rightarrow>
          let attempts = unat (ucast (timeout_seconds * 10) :: u32) in
          case poll_stopped J world resolved 0 attempts of
            Some _ \<Rightarrow> (request, None, success '''')
          | None \<Rightarrow>
              (case mc_state_registry_lock (se_mkdir (ad_store A)) (ad_lock A) (rg_dir R) of
                 Some e \<Rightarrow> (request, None, failure False e)
               | None \<Rightarrow> (case mc_state_container_lock (se_mkdir (ad_store A)) (ad_lock A) (snd (world attempts)) resolved of
                     (R'', Some e) \<Rightarrow> (request, None, failure False e)
                   | (R'', None) \<Rightarrow> (case mc_state_signal J (fst (world attempts)) R'' resolved 9 of
                         (kill, Some e) \<Rightarrow> (request, kill, failure False e)
                       | (kill, None) \<Rightarrow> (request, kill, success '''')))))"

section \<open>Removing\<close>

definition rm_busy :: "string \<Rightarrow> mc_error" where
  "rm_busy cid = mk_error MC_EXIT_CONFLICT EBUSY ''remove-container'' (Some cid) ''running container requires --force''"

definition rm_timeout :: "string \<Rightarrow> mc_error" where
  "rm_timeout cid = mk_error MC_EXIT_RUNTIME ETIMEDOUT ''remove-container'' (Some cid) ''forced container did not stop''"

text \<open>A running container is stopped first; the registry that is found then.\<close>

definition stop_for_removal ::
  "jsonc \<Rightarrow> life_env \<Rightarrow> (nat \<Rightarrow> life_env \<times> registry) \<Rightarrow> bool \<Rightarrow> string \<Rightarrow> string \<Rightarrow> registry \<Rightarrow> sent \<times> (mc_error + registry)" where
  "stop_for_removal J E world force cid status R =
     (if status \<noteq> ''running'' then (None, Inr R)
      else if \<not> force then (None, Inl (rm_busy cid))
      else case mc_state_signal J E R cid 9 of
        (request, Some e) \<Rightarrow> (request, Inl e)
      | (request, None) \<Rightarrow> (case poll_stopped J world cid 0 100 of
            None \<Rightarrow> (request, Inl (rm_timeout cid))
          | Some attempt \<Rightarrow> (request, Inr (snd (world attempt)))))"

text \<open>The last component is the container that was removed, with the registry it was removed from.\<close>

definition cmd_rm ::
  "jsonc \<Rightarrow> admit_env \<Rightarrow> (nat \<Rightarrow> life_env \<times> registry) \<Rightarrow> bool \<Rightarrow> string \<Rightarrow> registry
     \<Rightarrow> effect list \<times> sent \<times> registry \<times> outcome option \<times> (string \<times> registry) option" where
  "cmd_rm J A world force reference R =
     (case mc_state_registry_lock (se_mkdir (ad_store A)) (ad_lock A) (rg_dir R) of
        Some e \<Rightarrow> ([], None, R, Some (failure False e), None)
      | None \<Rightarrow> (case mc_state_reconcile J (ad_life A) False R of
            (effects, R1, None) \<Rightarrow> (effects, None, R1, None, None)
          | (effects, R1, Some (Inl e)) \<Rightarrow> (effects, None, R1, Some (failure False e), None)
          | (effects, R1, Some (Inr _)) \<Rightarrow> (case mc_state_resolve J R1 (Some reference) of
                Inl e \<Rightarrow> (effects, None, R1, Some (failure False e), None)
              | Inr resolved \<Rightarrow>
                  (case mc_state_container_lock (se_mkdir (ad_store A)) (ad_lock A) R1 resolved of
                     (R2, Some e) \<Rightarrow> (effects, None, R2, Some (failure False e), None)
                   | (R2, None) \<Rightarrow> (case mc_state_get_status J (ad_life A) R2 resolved of
                         Inl e \<Rightarrow> (effects, None, R2, Some (failure False e), None)
                       | Inr (status, _) \<Rightarrow>
                           (case stop_for_removal J (ad_life A) world force resolved status R2 of
                              (request, Inl e) \<Rightarrow> (effects, request, R2, Some (failure False e), None)
                            | (request, Inr R3) \<Rightarrow> (case mc_state_remove (ad_life A) R3 resolved of
                                  (R4, Some e) \<Rightarrow> (effects, request, R4, Some (failure False e), Some (resolved, R3))
                                | (R4, None) \<Rightarrow> (effects, request, R4, Some (success ''''), Some (resolved, R3)))))))))"

section \<open>Listing, collecting, starting\<close>

definition cmd_ps ::
  "jsonc \<Rightarrow> life_env \<Rightarrow> nat \<Rightarrow> bool \<Rightarrow> bool \<Rightarrow> registry \<Rightarrow> effect list \<times> registry \<times> outcome option" where
  "cmd_ps J E euid include_stopped json R =
     (case (if euid = 0 then mc_state_reconcile J E False R else ([], R, Some (Inr ()))) of
        (effects, R', None) \<Rightarrow> (effects, R', None)
      | (effects, R', Some (Inl e)) \<Rightarrow> (effects, R', Some (failure json e))
      | (effects, R', Some (Inr _)) \<Rightarrow>
          (effects, R', Some (case mc_state_print_list J R' include_stopped json of
             Inl e \<Rightarrow> failure json e | Inr out \<Rightarrow> success out)))"

definition permission_denied :: outcome where
  "permission_denied = \<lparr>oc_code = exit_value MC_EXIT_PERMISSION, oc_out = '''', oc_usage = False, oc_error = None\<rparr>"

definition cmd_gc :: "jsonc \<Rightarrow> admit_env \<Rightarrow> nat \<Rightarrow> registry \<Rightarrow> effect list \<times> registry \<times> outcome option" where
  "cmd_gc J A euid R =
     (if euid \<noteq> 0 then ([], R, Some permission_denied)
      else case mc_state_registry_lock (se_mkdir (ad_store A)) (ad_lock A) (rg_dir R) of
        Some e \<Rightarrow> ([], R, Some (failure False e))
      | None \<Rightarrow> (case mc_state_reconcile J (ad_life A) True R of
            (effects, R', None) \<Rightarrow> (effects, R', None)
          | (effects, R', Some (Inl e)) \<Rightarrow> (effects, R', Some (failure False e))
          | (effects, R', Some (Inr _)) \<Rightarrow> (effects, R', Some (success ''''))))"

text \<open>Whether a stored container may be started: its configuration and its status.\<close>

definition startable ::
  "jsonc \<Rightarrow> admit_env \<Rightarrow> string \<Rightarrow> registry \<Rightarrow> registry \<times> (mc_error + mc_run_config)" where
  "startable J A reference R =
     (case mc_state_load_config J R (Some reference) of
        Inl e \<Rightarrow> (R, Inl e)
      | Inr (stored, _) \<Rightarrow>
          let cid = the (cfg_id stored) in
          (case mc_state_container_lock (se_mkdir (ad_store A)) (ad_lock A) R cid of
             (R', Some e) \<Rightarrow> (R', Inl e)
           | (R', None) \<Rightarrow> (R', case mc_state_get_status J (ad_life A) R' cid of
                 Inl e \<Rightarrow> Inl e
               | Inr (status, _) \<Rightarrow>
                   if status \<noteq> ''created'' \<and> status \<noteq> ''stopped''
                   then Inl (mk_error MC_EXIT_CONFLICT EBUSY ''start'' (Some cid) ''container is not in a startable state'')
                   else Inr (stored\<lparr>cfg_detach := True\<rparr>))))"

definition cmd_start ::
  "jsonc \<Rightarrow> cli_env \<Rightarrow> string \<Rightarrow> registry \<Rightarrow> effect list \<times> registry \<times> string list option \<times> outcome option" where
  "cmd_start J E reference R =
     (let A = ce_admit E in
      if ce_euid E \<noteq> 0 then ([], R, None, Some permission_denied)
      else case mc_state_registry_lock (se_mkdir (ad_store A)) (ad_lock A) (rg_dir R) of
        Some e \<Rightarrow> ([], R, None, Some (failure False e))
      | None \<Rightarrow> (case mc_state_reconcile J (ad_life A) False R of
            (effects, R1, None) \<Rightarrow> (effects, R1, None, None)
          | (effects, R1, Some (Inl e)) \<Rightarrow> (effects, R1, None, Some (failure False e))
          | (effects, R1, Some (Inr _)) \<Rightarrow> (case startable J A reference R1 of
                (R2, Inl e) \<Rightarrow> (effects, R2, None, Some (failure False e))
              | (R2, Inr stored) \<Rightarrow> (case mc_launch_shim (ce_launch E) stored (ce_waits E) of
                    (exec, r) \<Rightarrow> (effects, R2, exec, map_option (\<lambda>r. case r of
                        Inl e \<Rightarrow> failure False e
                      | Inr result \<Rightarrow>
                          if result = 0 then success (the (cfg_id stored) @ [CHR 0x0A])
                          else (failure False no_error)\<lparr>oc_code := result\<rparr>) r)))))"

section \<open>Showing files and logs\<close>

text \<open>A file with the results of reading it: its text in pieces, and whether an error ended the reading;
  \<open>out_ok\<close> tells whether a piece can be written to standard output.\<close>

fun show_pieces :: "(string \<Rightarrow> bool) \<Rightarrow> string list \<Rightarrow> bool \<Rightarrow> string \<times> mc_exit_code" where
  "show_pieces out_ok [] read_error = ([], if read_error then MC_EXIT_RUNTIME else MC_EXIT_OK)"
| "show_pieces out_ok (piece # rest) read_error =
     (if \<not> out_ok piece then ([], MC_EXIT_RUNTIME)
      else let (out, code) = show_pieces out_ok rest read_error in (piece @ out, code))"

definition show_file :: "(string \<Rightarrow> bool) \<Rightarrow> errno + string list \<times> bool \<Rightarrow> string \<times> mc_exit_code" where
  "show_file out_ok file =
     (case file of
        Inl _ \<Rightarrow> ([], MC_EXIT_NOT_FOUND)
      | Inr (pieces, read_error) \<Rightarrow> show_pieces out_ok pieces read_error)"

text \<open>The C string of a line, as \<open>fputs\<close> and \<open>strdup\<close> see it.\<close>

definition c_line :: "string \<Rightarrow> string" where
  "c_line line = takeWhile (\<lambda>c. c \<noteq> CHR 0x00) line"

text \<open>The ring buffer: its slots, the number of lines in it, and the slot of the next line.\<close>

record ring =
  rb_slots :: "string option list"
  rb_count :: nat
  rb_next :: nat

definition ring_add :: "nat \<Rightarrow> string \<Rightarrow> ring \<Rightarrow> ring" where
  "ring_add tail line r =
     \<lparr>rb_slots = (rb_slots r)[rb_next r := Some (c_line line)],
      rb_count = (if rb_count r < tail then Suc (rb_count r) else rb_count r),
      rb_next = Suc (rb_next r) mod tail\<rparr>"

definition ring_out :: "nat \<Rightarrow> ring \<Rightarrow> string" where
  "ring_out tail r =
     (let start = (if rb_count r = tail then rb_next r else 0) in
      concat (map (\<lambda>index. the (rb_slots r ! ((start + index) mod tail))) [0..<rb_count r]))"

definition show_tail :: "nat \<Rightarrow> string list \<Rightarrow> string" where
  "show_tail tail lines =
     ring_out tail (fold (ring_add tail) lines \<lparr>rb_slots = replicate tail None, rb_count = 0, rb_next = 0\<rparr>)"

text \<open>The lines that are there when the command starts.\<close>

definition show_log_start :: "int \<Rightarrow> string list \<Rightarrow> string" where
  "show_log_start tail lines =
     (if tail < 0 then concat (map c_line lines)
      else if tail > 0 then show_tail (nat tail) lines
      else [])"

text \<open>One round of following: a new line, or the status that was read. \<open>None\<close> while the container runs.\<close>

datatype follow_round = New_line string | No_line "mc_error + string \<times> int"

fun follow_log :: "follow_round list \<Rightarrow> string option" where
  "follow_log [] = None"
| "follow_log (New_line line # rounds) = map_option (\<lambda>out. c_line line @ out) (follow_log rounds)"
| "follow_log (No_line status # rounds) =
     (case status of
        Inl _ \<Rightarrow> Some []
      | Inr (s, _) \<Rightarrow> if s \<noteq> ''running'' then Some [] else follow_log rounds)"

definition show_log ::
  "(string \<Rightarrow> bool) \<Rightarrow> errno + string list \<Rightarrow> int \<Rightarrow> bool \<Rightarrow> follow_round list \<Rightarrow> (string \<times> mc_exit_code) option" where
  "show_log out_ok file tail follow rounds =
     (case file of
        Inl e \<Rightarrow> Some (show_file out_ok (Inl e))
      | Inr lines \<Rightarrow>
          if \<not> follow then Some (show_log_start tail lines, MC_EXIT_OK)
          else map_option (\<lambda>out. (show_log_start tail lines @ out, MC_EXIT_OK)) (follow_log rounds))"

definition cmd_logs ::
  "jsonc \<Rightarrow> string \<Rightarrow> registry \<Rightarrow> (string \<Rightarrow> errno + string list) \<Rightarrow> (string \<Rightarrow> bool) \<Rightarrow> int \<Rightarrow> bool \<Rightarrow> follow_round list
     \<Rightarrow> string \<Rightarrow> outcome option" where
  "cmd_logs J log_dir R files out_ok tail follow rounds reference =
     (case mc_state_resolve J R (Some reference) of
        Inl e \<Rightarrow> Some (failure False e)
      | Inr resolved \<Rightarrow>
          let path = log_dir @ ''/'' @ resolved @ ''/container.log'' in
          if length path \<ge> PATH_MAX then Some ((success '''')\<lparr>oc_code := exit_value MC_EXIT_USAGE\<rparr>)
          else map_option (\<lambda>(out, code). (success out)\<lparr>oc_code := exit_value code\<rparr>)
                 (show_log out_ok (files path) tail follow rounds))"

definition cmd_inspect ::
  "jsonc \<Rightarrow> registry \<Rightarrow> (string \<Rightarrow> errno + string list \<times> bool) \<Rightarrow> (string \<Rightarrow> bool) \<Rightarrow> string \<Rightarrow> outcome" where
  "cmd_inspect J R files out_ok reference =
     (case mc_state_resolve J R (Some reference) of
        Inl e \<Rightarrow> failure False e
      | Inr resolved \<Rightarrow>
          let path = rg_dir R @ ''/containers/'' @ resolved @ ''/state.json'' in
          if length path \<ge> PATH_MAX then (success '''')\<lparr>oc_code := exit_value MC_EXIT_USAGE\<rparr>
          else case show_file out_ok (files path) of (out, code) \<Rightarrow> (success out)\<lparr>oc_code := exit_value code\<rparr>)"

section \<open>Importing an image\<close>

definition cmd_import :: "image_env \<Rightarrow> bool \<Rightarrow> string \<Rightarrow> string \<Rightarrow> image_store \<Rightarrow> image_store \<times> outcome option" where
  "cmd_import E json name tar S =
     (case mc_image_import E name tar S of
        (S', r) \<Rightarrow> (S', map_option (\<lambda>r. case r of
            Inl e \<Rightarrow> failure json (case e of None \<Rightarrow> no_error | Some e \<Rightarrow> e)
          | Inr imported \<Rightarrow> success (concat
              (if json
               then [''{'', quoted ''name'', '':'', quoted name, '','', quoted ''digest'', '':'',
                     quoted (''sha256:'' @ ir_digest imported), '','', quoted ''rootfs'', '':'', quoted (ir_rootfs imported), ''}'',
                     [CHR 0x0A]]
               else [''imported '', name, '' sha256:'', ir_digest imported, [CHR 0x0A]]))) r))"

section \<open>Lemmas\<close>

text \<open>The ring buffer after some lines: each of the last lines is in its slot.\<close>

definition ring_inv :: "nat \<Rightarrow> string list \<Rightarrow> ring \<Rightarrow> bool" where
  "ring_inv n xs r \<longleftrightarrow> length (rb_slots r) = n \<and> rb_count r = min n (length xs) \<and> rb_next r = length xs mod n \<and>
     (\<forall>k < length xs. length xs \<le> k + n \<longrightarrow> rb_slots r ! (k mod n) = Some (c_line (xs ! k)))"

lemma mod_window:
  assumes "k mod n = m mod n" "k < m" "m \<le> k + n"
  shows "m = k + (n :: nat)"
proof -
  have "n dvd m - k" using assms(1,2) mod_eq_dvd_iff_nat [of k m n] by simp
  then have "n \<le> m - k" using assms(2) by (intro dvd_imp_le) simp_all
  then show ?thesis using assms(2,3) by linarith
qed

lemma ring_add_inv:
  assumes "0 < n" "ring_inv n xs r"
  shows "ring_inv n (xs @ [x]) (ring_add n x r)"
proof -
  have slots: "rb_slots (ring_add n x r) ! (k mod n) = Some (c_line ((xs @ [x]) ! k))"
    if k: "k < Suc (length xs)" "Suc (length xs) \<le> k + n" for k
  proof (cases "k = length xs")
    case True
    then show ?thesis using assms by (simp add: ring_add_def ring_inv_def)
  next
    case False
    then have "k mod n \<noteq> length xs mod n" using k mod_window [of k n "length xs"] by auto
    then show ?thesis using assms False k by (simp add: ring_add_def ring_inv_def nth_append)
  qed
  then show ?thesis using assms by (simp add: ring_inv_def ring_add_def mod_Suc_eq)
qed

lemma ring_fold_inv: "0 < n \<Longrightarrow> ring_inv n xs r \<Longrightarrow> ring_inv n (xs @ ys) (fold (ring_add n) ys r)"
proof (induction ys arbitrary: xs r)
  case (Cons y ys)
  then show ?case using Cons.IH [OF Cons.prems(1) ring_add_inv [OF Cons.prems]] by simp
qed simp

lemma ring_out_last:
  assumes "0 < n" "ring_inv n xs r"
  shows "ring_out n r = concat (map c_line (drop (length xs - n) xs))"
proof -
  let ?m = "length xs"
  have count: "rb_count r = min n ?m" using assms(2) by (simp add: ring_inv_def)
  have slot: "the (rb_slots r ! (((if rb_count r = n then rb_next r else 0) + i) mod n)) = c_line (drop (?m - n) xs ! i)"
    if i: "i < rb_count r" for i
  proof -
    have index: "((if rb_count r = n then rb_next r else 0) + i) mod n = (?m - n + i) mod n"
    proof (cases "n \<le> ?m")
      case True
      then have "(?m mod n + i) mod n = (?m - n + i) mod n"
        by (metis le_add_diff_inverse2 mod_add_left_eq mod_add_self2)
      then show ?thesis using True assms(2) count by (simp add: ring_inv_def)
    qed (use count in simp)
    have "?m - n + i < ?m" "?m \<le> ?m - n + i + n" using i count by auto
    then have "rb_slots r ! ((?m - n + i) mod n) = Some (c_line (xs ! (?m - n + i)))"
      using assms(2) unfolding ring_inv_def by blast
    then show ?thesis using index \<open>?m - n + i < ?m\<close> by (simp add: add.commute)
  qed
  have "length (drop (?m - n) xs) = rb_count r" using count by simp
  then have "map c_line (drop (?m - n) xs) =
      map (\<lambda>i. the (rb_slots r ! (((if rb_count r = n then rb_next r else 0) + i) mod n))) [0..<rb_count r]"
    using slot by (intro nth_equalityI) simp_all
  then show ?thesis by (simp add: ring_out_def Let_def)
qed

lemma poll_stopped_Some:
  "poll_stopped J world cid a k = Some i \<Longrightarrow>
     a \<le> i \<and> i < a + k \<and> seen_stopped J (fst (world i)) (snd (world i)) cid"
  by (induction k arbitrary: a) (fastforce split: if_splits)+

lemma poll_stopped_None:
  "poll_stopped J world cid a k = None \<longleftrightarrow> (\<forall>i \<in> {a..<a + k}. \<not> seen_stopped J (fst (world i)) (snd (world i)) cid)"
proof (induction k arbitrary: a)
  case (Suc k)
  have "{a..<a + Suc k} = insert a {Suc a..<Suc a + k}" by auto
  then show ?case using Suc by simp
qed simp

lemma stop_for_removal_Inr:
  assumes "stop_for_removal J E world force cid status R = (request, Inr R')"
    and "mc_state_get_status J E R cid = Inr (status, pid)"
  shows "(seen_stopped J E R' cid \<or> (\<exists>i < 100. R' = snd (world i) \<and> seen_stopped J (fst (world i)) R' cid)) \<and>
    (request \<noteq> None \<longrightarrow> force)"
proof (cases "status = ''running''")
  case True
  then obtain i where "poll_stopped J world cid 0 100 = Some i" "R' = snd (world i)" force
    using assms(1) by (auto simp: stop_for_removal_def split: if_splits prod.split_asm option.split_asm)
  then show ?thesis using poll_stopped_Some [of J world cid 0 100 i] by auto
next
  case False
  then show ?thesis using assms by (simp add: stop_for_removal_def seen_stopped_def)
qed

section \<open>Properties\<close>

text \<open>
  C36: The last lines. The ring buffer of \<open>logs --tail\<close> prints exactly the last \<open>n\<close> lines of the log, in
  order, or all of them when there are fewer.
\<close>

theorem show_tail_last:
  assumes "0 < n"
  shows "show_log_start (int n) lines = concat (map c_line (drop (length lines - n) lines))"
proof -
  have "ring_inv n [] \<lparr>rb_slots = replicate n None, rb_count = 0, rb_next = 0\<rparr>" by (simp add: ring_inv_def)
  from ring_out_last [OF assms ring_fold_inv [OF assms this]] show ?thesis
    using assms by (simp add: show_log_start_def show_tail_def)
qed

theorem show_tail_last_witness:
  "show_log_start 2 [''a'', ''b'', ''c'', ''d'', ''e''] = ''de''"
  using show_tail_last [of 2 "[''a'', ''b'', ''c'', ''d'', ''e'']"] by (simp add: c_line_def)


definition example_stopped_jsonc :: jsonc where
  "example_stopped_jsonc =
     example_jsonc\<lparr>jc_parse := (\<lambda>s. if s = ''S'' then JObject [(''status'', JString ''stopped'')] else JNull)\<rparr>"

definition example_stopped :: registry where
  "example_stopped =
     \<lparr>rg_dir = ''/s'', rg_opendir = 0, rg_entries = [example_entry],
      rg_disk = \<lparr>dk_content = (\<lambda>_. ''S''), dk_stable = (\<lambda>_. Some ''S''), dk_next = 1,
        dk_dir = [''/s/containers/'' @ example_entry @ ''/state.json'' \<mapsto> 0], dk_survivors = []\<rparr>\<rparr>"

definition example_commands :: admit_env where
  "example_commands =
     \<lparr>ad_store = example_store_env 1,
      ad_life = (example_life (\<lambda>_. None))\<lparr>lf_write := (\<lambda>_. example_write_env)\<rparr>, ad_lock = (\<lambda>_. 0)\<rparr>"



definition example_signal_jsonc :: jsonc where
  "example_signal_jsonc =
     example_jsonc\<lparr>jc_parse := (\<lambda>s. if s = ''S'' then JObject [(''status'', JString ''stopped'')]
       else if s = ''R'' then JObject [(''status'', JString ''running''), (''shim_pid'', JInt 7), (''shim_start_time'', JInt 4711)]
       else JNull)\<rparr>"

definition example_signalled :: registry where
  "example_signalled = example_stopped\<lparr>rg_disk := (rg_disk example_stopped)\<lparr>dk_content := (\<lambda>_. ''R'')\<rparr>\<rparr>"

definition example_signal_env :: admit_env where
  "example_signal_env = example_commands\<lparr>ad_life := (ad_life example_commands)\<lparr>lf_proc := example_proc\<rparr>\<rparr>"


end
