(* ===== verification/MC_Cgroup.thy ===== *)
theory MC_Cgroup
  imports MC_Runtime MC_Proc
begin

text \<open>
  \<open>src/linux/cgroup.c\<close>: the delegated systemd scope of a container and the limits of its payload cgroup.
  sd-bus and the cgroup file system are parameters: the result of every operation on the message, given
  the operations before it, and the text of every file, given the values written before. The lemmas show
  that an active cgroup has the configured limits in force, and which memory limits can never be
  programmed.
\<close>

section \<open>The request to systemd\<close>

datatype bus_op =
    BusDefault
  | NewMethodCall string string string string
  | AppendStrings "string list"
  | AppendBool bool
  | AppendU32 u32
  | OpenArray string | OpenStruct string | OpenVariant string
  | CloseContainer
  | BusCall

definition append_string_property :: "string \<Rightarrow> string \<Rightarrow> bus_op list" where
  "append_string_property name value =
     [OpenStruct ''sv'', AppendStrings [name], OpenVariant ''s'', AppendStrings [value], CloseContainer, CloseContainer]"

definition append_boolean_property :: "string \<Rightarrow> bool \<Rightarrow> bus_op list" where
  "append_boolean_property name value =
     [OpenStruct ''sv'', AppendStrings [name], OpenVariant ''b'', AppendBool value, CloseContainer, CloseContainer]"

definition append_pid_property :: "nat \<Rightarrow> bus_op list" where
  "append_pid_property pid =
     [OpenStruct ''sv'', AppendStrings [''PIDs''], OpenVariant ''au'', OpenArray ''u'', AppendU32 (word_of_nat pid),
      CloseContainer, CloseContainer, CloseContainer]"

text \<open>The operations in the order of the code; each is reached only while no result was negative.\<close>

definition scope_request :: "string \<Rightarrow> string \<Rightarrow> nat \<Rightarrow> bus_op list" where
  "scope_request unit_name description pid =
     [BusDefault,
      NewMethodCall ''org.freedesktop.systemd1'' ''/org/freedesktop/systemd1'' ''org.freedesktop.systemd1.Manager''
        ''StartTransientUnit'',
      AppendStrings [unit_name, ''fail''], OpenArray ''(sv)''] @
     append_string_property ''Description'' description @
     append_string_property ''Slice'' ''system.slice'' @
     append_string_property ''CollectMode'' ''inactive-or-failed'' @
     append_boolean_property ''Delegate'' True @
     append_pid_property pid @
     [CloseContainer, OpenArray ''(sa(sv))'', CloseContainer, BusCall]"

fun bus_run :: "(bus_op list \<Rightarrow> bus_op \<Rightarrow> int) \<Rightarrow> bus_op list \<Rightarrow> bus_op list \<Rightarrow> int" where
  "bus_run bus history [] = 0"
| "bus_run bus history (op # ops) =
     (if bus history op < 0 then bus history op else bus_run bus (history @ [op]) ops)"

section \<open>The environment\<close>

type_synonym writes = "(string \<times> string) list"

record cgroup_env =
  cg_skip :: bool
  cg_pid :: nat
  cg_bus :: "bus_op list \<Rightarrow> bus_op \<Rightarrow> int"
  cg_bus_message :: "string option"
  cg_self :: "nat \<Rightarrow> errno + string"
  cg_errno :: errno
  cg_mkdir :: "string \<Rightarrow> errno"
  cg_open :: "string \<Rightarrow> errno"
  cg_write :: "string \<Rightarrow> (errno + nat) list"
  cg_close :: "string \<Rightarrow> errno"
  cg_read :: "writes \<Rightarrow> string \<Rightarrow> errno + string"
  cg_dirfd :: "errno + int"

definition scope_unit :: "string \<Rightarrow> string" where
  "scope_unit cid = snprintf_buf 96 (''minicontainer-'' @ cid @ ''.scope'')"

definition create_delegated_scope :: "cgroup_env \<Rightarrow> string \<Rightarrow> mc_error option" where
  "create_delegated_scope E cid =
     (let unit_name = scope_unit cid;
          result = bus_run (cg_bus E) [] (scope_request unit_name (snprintf_buf 128 (''MiniContainer '' @ cid)) (cg_pid E)) in
      if result < 0
      then Some (mk_error MC_EXIT_RUNTIME (nat (- result)) ''systemd-scope'' (Some unit_name)
                   (case cg_bus_message E of None \<Rightarrow> ''cannot create delegated scope'' | Some m \<Rightarrow> m))
      else None)"

section \<open>Files\<close>

text \<open>The lines of \<open>/proc/self/cgroup\<close> as \<open>fgets\<close> delivers them.\<close>

function fgets_all :: "nat \<Rightarrow> string \<Rightarrow> string list" where
  "fgets_all n s =
     (case fgets n s of
        None \<Rightarrow> []
      | Some line \<Rightarrow> if line = [] then [] else line # fgets_all n (drop (length line) s))"
  by pat_completeness auto
termination
  by (relation "measure (length \<circ> snd)") (auto simp: fgets_def split: if_splits)

declare fgets_all.simps [simp del]

definition chomp :: "string \<Rightarrow> string" where
  "chomp s = takeWhile (\<lambda>c. c \<noteq> CHR 0x0D \<and> c \<noteq> CHR 0x0A) s"

definition read_current_cgroup :: "errno + string \<Rightarrow> errno + string" where
  "read_current_cgroup file =
     (case file of
        Inl e \<Rightarrow> Inl e
      | Inr txt \<Rightarrow> (case find (\<lambda>line. strncmp_eq line ''0::'' 3) (fgets_all 4096 txt) of
            None \<Rightarrow> Inl ENOENT
          | Some line \<Rightarrow> let path = chomp (drop 3 line) in
              if length path + 1 > 4096 then Inl ENAMETOOLONG else Inr path))"

definition join_path :: "string \<Rightarrow> string \<Rightarrow> errno + string" where
  "join_path left right =
     (if length left + length right + 2 > 4096 then Inl ENAMETOOLONG else Inr (left @ CHR ''/'' # right))"

text \<open>The write loop; \<open>None\<close> while it goes on.\<close>

fun write_pieces :: "(errno + nat) list \<Rightarrow> string \<Rightarrow> string \<Rightarrow> (writes \<times> errno option) option" where
  "write_pieces rs path [] = Some ([], None)"
| "write_pieces [] path (b # bs) = None"
| "write_pieces (Inl e # rs) path (b # bs) = Some ([], Some e)"
| "write_pieces (Inr n # rs) path (b # bs) =
     map_option (\<lambda>(ws, e). ((path, take n (b # bs)) # ws, e)) (write_pieces rs path (drop n (b # bs)))"

text \<open>The values written so far with this one, and the error if there was one.\<close>

definition write_value :: "cgroup_env \<Rightarrow> string \<Rightarrow> string \<Rightarrow> string \<Rightarrow> writes \<Rightarrow> (writes \<times> errno option) option" where
  "write_value E directory name value h =
     (case join_path directory name of
        Inl e \<Rightarrow> Some (h, Some e)
      | Inr path \<Rightarrow>
          if cg_open E path \<noteq> 0 then Some (h, Some (cg_open E path))
          else map_option (\<lambda>(ws, e). (h @ ws, if e = None \<and> cg_close E path \<noteq> 0 then Some (cg_close E path) else e))
                 (write_pieces (cg_write E path) path value))"

definition verify_value :: "cgroup_env \<Rightarrow> string \<Rightarrow> string \<Rightarrow> string \<Rightarrow> writes \<Rightarrow> errno option" where
  "verify_value E directory name expected h =
     (case join_path directory name of
        Inl e \<Rightarrow> Some e
      | Inr path \<Rightarrow> (case cg_read E h path of
            Inl e \<Rightarrow> Some e
          | Inr txt \<Rightarrow> (case fgets 256 txt of
                None \<Rightarrow> Some (cg_errno E)
              | Some actual \<Rightarrow> if chomp actual \<noteq> expected then Some EIO else None)))"

section \<open>Creation\<close>

record mc_cgroup =
  cgr_scope :: string
  cgr_supervisor :: string
  cgr_payload :: string
  cgr_payload_fd :: int
  cgr_active :: bool

definition zero_cgroup :: mc_cgroup where
  "zero_cgroup = \<lparr>cgr_scope = '''', cgr_supervisor = '''', cgr_payload = '''', cgr_payload_fd = - 1, cgr_active = False\<rparr>"

text \<open>The attempts to find the process in its scope.\<close>

fun wait_for_scope :: "cgroup_env \<Rightarrow> string \<Rightarrow> nat \<Rightarrow> nat \<Rightarrow> string option" where
  "wait_for_scope E unit_name attempt 0 = None"
| "wait_for_scope E unit_name attempt (Suc k) =
     (case read_current_cgroup (cg_self E attempt) of
        Inl _ \<Rightarrow> wait_for_scope E unit_name (Suc attempt) k
      | Inr relative \<Rightarrow>
          if strstr relative unit_name \<noteq> None then Some relative else wait_for_scope E unit_name (Suc attempt) k)"

definition cgroup_layout :: "cgroup_env \<Rightarrow> string \<Rightarrow> errno + mc_cgroup" where
  "cgroup_layout E cid =
     (case wait_for_scope E (scope_unit cid) 0 100 of
        None \<Rightarrow> Inl (cg_errno E)
      | Some relative \<Rightarrow>
          let scope = snprintf_buf 4096 (''/sys/fs/cgroup'' @ relative) in
          ebind (join_path scope ''supervisor'') (\<lambda>supervisor.
          ebind (join_path scope ''payload'') (\<lambda>payload.
            if cg_mkdir E supervisor \<noteq> 0 then Inl (cg_mkdir E supervisor)
            else if cg_mkdir E payload \<noteq> 0 then Inl (cg_mkdir E payload)
            else Inr (zero_cgroup\<lparr>cgr_scope := scope, cgr_supervisor := supervisor, cgr_payload := payload\<rparr>))))"

definition limit_values :: "mc_run_config \<Rightarrow> (string \<times> string) list" where
  "limit_values c =
     [(''memory.max'', show_nat (unat (cfg_memory_max c))),
      (''memory.swap.max'', show_nat (unat (cfg_swap_max c))),
      (''cpu.max'', show_nat (unat (cfg_cpu_quota c)) @ '' 100000''),
      (''pids.max'', show_nat (unat (cfg_pids_max c)))]"

fun program_limits :: "cgroup_env \<Rightarrow> string \<Rightarrow> (string \<times> string) list \<Rightarrow> writes \<Rightarrow> (writes \<times> errno option) option" where
  "program_limits E payload [] h = Some (h, None)"
| "program_limits E payload ((name, value) # rest) h =
     (case write_value E payload name value h of
        None \<Rightarrow> None
      | Some (h', Some e) \<Rightarrow> Some (h', Some e)
      | Some (h', None) \<Rightarrow> (case verify_value E payload name value h' of
            Some e \<Rightarrow> Some (h', Some e)
          | None \<Rightarrow> program_limits E payload rest h'))"

definition delegate_controllers :: "cgroup_env \<Rightarrow> mc_cgroup \<Rightarrow> (writes \<times> errno option) option" where
  "delegate_controllers E g =
     (case write_value E (cgr_supervisor g) ''cgroup.procs'' (snprintf_buf 32 (show_nat (cg_pid E) @ [CHR 0x0A])) [] of
        None \<Rightarrow> None
      | Some (h, Some e) \<Rightarrow> Some (h, Some e)
      | Some (h, None) \<Rightarrow> write_value E (cgr_scope g) ''cgroup.subtree_control'' ''+cpu +memory +pids +io'' h)"

definition limit_error :: "errno \<Rightarrow> mc_cgroup \<Rightarrow> mc_error" where
  "limit_error e g = mk_error MC_EXIT_RUNTIME e ''cgroup-limit'' (Some (cgr_payload g)) ''cannot program and verify resource limit''"

text \<open>The values written, and the cgroup or the error; \<open>None\<close> while a write is going on.\<close>

definition mc_cgroup_create :: "cgroup_env \<Rightarrow> mc_run_config \<Rightarrow> (writes \<times> (mc_error + mc_cgroup)) option" where
  "mc_cgroup_create E c =
     (if cg_skip E then Some ([], Inr zero_cgroup)
      else let cid = the (cfg_id c) in
        case create_delegated_scope E cid of
          Some err \<Rightarrow> Some ([], Inl err)
        | None \<Rightarrow> (case cgroup_layout E cid of
            Inl e \<Rightarrow> Some ([], Inl (mk_error MC_EXIT_RUNTIME e ''cgroup-create'' (Some cid)
                                      ''cannot create delegated cgroup layout''))
          | Inr g \<Rightarrow> (case delegate_controllers E g of
              None \<Rightarrow> None
            | Some (h, Some e) \<Rightarrow> Some (h, Inl (mk_error MC_EXIT_RUNTIME e ''cgroup-delegate'' (Some (cgr_scope g))
                                             ''cannot enable delegated controllers''))
            | Some (h, None) \<Rightarrow> (case program_limits E (cgr_payload g) (limit_values c) h of
                None \<Rightarrow> None
              | Some (h', Some e) \<Rightarrow> Some (h', Inl (limit_error e g))
              | Some (h', None) \<Rightarrow> (case cg_dirfd E of
                  Inl e \<Rightarrow> Some (h', Inl (limit_error e g))
                | Inr fd \<Rightarrow> Some (h', Inr (g\<lparr>cgr_payload_fd := fd, cgr_active := True\<rparr>)))))))"

section \<open>Destruction\<close>

datatype cgroup_effect = ClosePayload int | KillPayload string | RemovePayload string

definition mc_cgroup_destroy :: "mc_cgroup \<Rightarrow> cgroup_effect list \<times> mc_cgroup" where
  "mc_cgroup_destroy g =
     (if \<not> cgr_active g then ([], g)
      else ((if cgr_payload_fd g \<ge> 0 then [ClosePayload (cgr_payload_fd g)] else []) @
            (case join_path (cgr_payload g) ''cgroup.kill'' of Inl _ \<Rightarrow> [] | Inr path \<Rightarrow> [KillPayload path]) @
            [RemovePayload (cgr_payload g)],
            g\<lparr>cgr_payload_fd := (if cgr_payload_fd g \<ge> 0 then - 1 else cgr_payload_fd g), cgr_active := False\<rparr>))"

section \<open>Lemmas\<close>

text \<open>A value that is written to a file has no effect on the others.\<close>

definition cgroupfs_ok :: "cgroup_env \<Rightarrow> bool" where
  "cgroupfs_ok E \<longleftrightarrow> (\<forall>h p v q. p \<noteq> q \<longrightarrow> cg_read E (h @ [(p, v)]) q = cg_read E h q)"

lemma write_pieces_path: "write_pieces rs path bs = Some (ws, e) \<Longrightarrow> w \<in> set ws \<Longrightarrow> fst w = path"
  by (induction rs path bs arbitrary: ws rule: write_pieces.induct) auto

lemma write_value_path:
  assumes "write_value E directory name value h = Some (h', e)"
  shows "\<exists>ws. h' = h @ ws \<and> (\<forall>w \<in> set ws. fst w = directory @ CHR ''/'' # name)"
  using assms
  by (auto simp: write_value_def join_path_def split: if_splits dest: write_pieces_path)

lemma cgroupfs_frame:
  assumes "cgroupfs_ok E" "\<forall>w \<in> set ws. fst w \<noteq> q"
  shows "cg_read E (h @ ws) q = cg_read E h q"
  using assms(2)
proof (induction ws rule: rev_induct)
  case (snoc w ws)
  have "cg_read E ((h @ ws) @ [(fst w, snd w)]) q = cg_read E (h @ ws) q"
    using assms(1) snoc.prems unfolding cgroupfs_ok_def by (metis in_set_conv_decomp)
  then show ?case using snoc by simp
qed simp

text \<open>The text that is read from a file, up to its first line break.\<close>

definition file_value :: "cgroup_env \<Rightarrow> writes \<Rightarrow> string \<Rightarrow> string option" where
  "file_value E h path =
     (case cg_read E h path of Inl _ \<Rightarrow> None | Inr txt \<Rightarrow> map_option chomp (fgets 256 txt))"

lemma verify_value_None: "verify_value E directory name expected h = None \<Longrightarrow> file_value E h (directory @ CHR ''/'' # name) = Some expected"
  by (auto simp: verify_value_def file_value_def join_path_def split: if_splits sum.splits option.splits)

lemma program_limits_done:
  assumes "program_limits E payload limits h = Some (h', None)" "cgroupfs_ok E" "distinct (map fst limits)"
  shows "(\<exists>ws. h' = h @ ws \<and> (\<forall>w \<in> set ws. \<exists>l \<in> set limits. fst w = payload @ CHR ''/'' # fst l)) \<and>
    (\<forall>l \<in> set limits. file_value E h' (payload @ CHR ''/'' # fst l) = Some (snd l))"
  using assms
proof (induction limits arbitrary: h)
  case (Cons l limits)
  obtain name val where l: "l = (name, val)" by fastforce
  obtain h1 where w: "write_value E payload name val h = Some (h1, None)" and v: "verify_value E payload name val h1 = None"
    and rest: "program_limits E payload limits h1 = Some (h', None)"
    using Cons.prems(1) by (auto simp: l split: option.split_asm)
  obtain ws1 where ws1: "h1 = h @ ws1" "\<forall>w \<in> set ws1. fst w = payload @ CHR ''/'' # name"
    using write_value_path [OF w] by blast
  obtain ws where ws: "h' = h1 @ ws" "\<forall>w \<in> set ws. \<exists>l \<in> set limits. fst w = payload @ CHR ''/'' # fst l"
    and vals: "\<forall>l \<in> set limits. file_value E h' (payload @ CHR ''/'' # fst l) = Some (snd l)"
    using Cons.IH [OF rest assms(2)] Cons.prems(3) by auto
  have "fst w \<noteq> payload @ CHR ''/'' # name" if w: "w \<in> set ws" for w
  proof -
    obtain l' where "l' \<in> set limits" "fst w = payload @ CHR ''/'' # fst l'" using ws(2) w by blast
    then show ?thesis using Cons.prems(3) by (auto simp: l)
  qed
  then have "\<forall>w \<in> set ws. fst w \<noteq> payload @ CHR ''/'' # name" by blast
  then have "file_value E h' (payload @ CHR ''/'' # name) = Some val"
    using cgroupfs_frame [OF assms(2)] verify_value_None [OF v] by (simp add: ws(1) file_value_def)
  then show ?case using ws1 ws vals by (auto simp: l intro!: exI [of _ "ws1 @ ws"])
qed simp

lemma created_programmed:
  assumes "mc_cgroup_create E c = Some (h, Inr g)" "cgr_active g"
  shows "\<exists>h0. program_limits E (cgr_payload g) (limit_values c) h0 = Some (h, None)"
  using assms
  by (auto simp: mc_cgroup_create_def zero_cgroup_def Let_def split: if_splits option.split_asm sum.split_asm) blast

text \<open>
  The kernel keeps memory limits in whole pages. Where the memory files only ever read as multiples of
  the page size, a cgroup can become active only with memory and swap limits that are such multiples:
  for every other limit the program accepts, the creation fails.
\<close>

lemma memory_limit_whole_pages:
  assumes "mc_cgroup_create E c = Some (h, Inr g)" "cgr_active g" "cgroupfs_ok E"
    and "\<And>h path m. suffix ''memory.max'' path \<or> suffix ''memory.swap.max'' path \<Longrightarrow> file_value E h path = Some (show_nat m) \<Longrightarrow> page dvd m"
  shows "page dvd unat (cfg_memory_max c) \<and> page dvd unat (cfg_swap_max c)"
proof -
  obtain h0 where prog: "program_limits E (cgr_payload g) (limit_values c) h0 = Some (h, None)"
    using created_programmed [OF assms(1,2)] by blast
  have "distinct (map fst (limit_values c))" by (simp add: limit_values_def)
  from program_limits_done [OF prog assms(3) this]
  have files: "file_value E h (cgr_payload g @ ''/memory.max'') = Some (show_nat (unat (cfg_memory_max c)))"
    "file_value E h (cgr_payload g @ ''/memory.swap.max'') = Some (show_nat (unat (cfg_swap_max c)))"
    by (simp_all add: limit_values_def)
  have "suffix ''memory.max'' (cgr_payload g @ ''/memory.max'')" "suffix ''memory.swap.max'' (cgr_payload g @ ''/memory.swap.max'')"
    by (simp_all add: suffix_def)
  then show ?thesis using assms(4) files by blast
qed

section \<open>An example\<close>

text \<open>A cgroup file system in which every file reads as the last value written to it.\<close>

definition example_cgroup_env :: cgroup_env where
  "example_cgroup_env =
     \<lparr>cg_skip = False, cg_pid = 42, cg_bus = (\<lambda>_ _. 0), cg_bus_message = None,
      cg_self = (\<lambda>i. if i < 2 then Inr (''0::/user.slice'' @ [CHR 0x0A])
                     else Inr (''0::/system.slice/minicontainer-c.scope'' @ [CHR 0x0A])),
      cg_errno = 0, cg_mkdir = (\<lambda>_. 0), cg_open = (\<lambda>_. 0), cg_write = (\<lambda>_. [Inr 100]), cg_close = (\<lambda>_. 0),
      cg_read = (\<lambda>h path. case map_of (rev h) path of None \<Rightarrow> Inl ENOENT | Some v \<Rightarrow> Inr (v @ [CHR 0x0A])), cg_dirfd = Inr 9\<rparr>"

definition example_limits :: mc_run_config where
  "example_limits = zero_config\<lparr>cfg_id := Some ''c'', cfg_memory_max := 8192, cfg_cpu_quota := 50000, cfg_pids_max := 64\<rparr>"

section \<open>Properties\<close>



end
