(* ===== verification/MC_Kernel.thy ===== *)
theory MC_Kernel
  imports MC_Security MC_Launch
begin

text \<open>
  The system calls of the privileged processes (\<open>src/linux/container.c\<close>, \<open>src/linux/exec.c\<close>,
  \<open>src/network/netlink.c\<close>, \<open>src/network/nft.c\<close>). The kernel is a parameter that answers every call, given the
  history of the process, with an errno or a number; the code is an action that extends the history. The
  lemmas compose two facts about actions: which calls they may make at all, and which calls they have
  made successfully, in this order, whenever they return normally.
\<close>

section \<open>Calls and histories\<close>

datatype (plugins only: code) kcall =
    Mount "string option" string "string option" u32 "string option"
  | Umount2 string u32
  | Pivot_root string string
  | Mkdir string u32
  | Mkdirat int string u32
  | Rmdir string
  | Symlink string string
  | Unlink string
  | Remove_tree string
  | Chdir string
  | Fchdir int
  | Chroot string
  | Chmod string u32
  | Chown string u32 u32
  | Stat string
  | Access string
  | Open string u32 u32
  | Openat2 int string u32 u32
  | Read int nat
  | Write int string
  | Close int
  | Close_range u32 u32
  | Dup2 int int
  | Flock int bool
  | Pipe
  | Socket int
  | Bind_unix int string
  | Listen int int
  | Poll int int
  | Get_flags int string
  | Set_flags int string int
  | Netlink_send int "u8 list"
  | Netlink_recv int
  | If_nametoindex string
  | Sysconf_open_max
  | Geteuid
  | Getpid
  | Fork
  | Clone3 u64 int
  | Waitpid int bool
  | Kill int int
  | Usleep nat
  | Setns int u32
  | Setgroups
  | Setresgid u32
  | Setresuid u32
  | Sethostname string
  | Pdeathsig int
  | Setsid
  | Sigprocmask "int list"
  | Sigwaitinfo "int list"
  | Sigaction int int
  | Security_prepare u64
  | Security_apply u64 "string list"
  | Execv string "string list"
  | Exit_process int
  | Execvp "string list"
  | Stderr string errno
  | Dup int
  | Accept int
  | Send int string
  | Pidfd_signal int int
  | Cgroup_write string string
  | Replace string string

type_synonym history = "(kcall \<times> (errno + int)) list"

text \<open>The successful calls of a history.\<close>

definition successes :: "history \<Rightarrow> kcall list" where
  "successes h = map fst (filter (\<lambda>(c, r). \<not> isl r) h)"

text \<open>The kernel and the libraries: the result of a call, the bytes a read delivers, the status a wait
  delivers, what \<open>errno\<close> holds when a step fails without a failing call, the environment variables, the
  calls of the lock-down; and how many rounds of a loop are observed.\<close>

record kernel =
  k_call :: "history \<Rightarrow> kcall \<Rightarrow> errno + int"
  k_text :: "history \<Rightarrow> string"
  k_status :: "history \<Rightarrow> wait_status"
  k_errno :: "history \<Rightarrow> errno"
  k_getenv :: "string \<Rightarrow> string option"
  k_sec :: sec_env
  k_lib :: seccomp_lib
  k_rounds :: nat

text \<open>A process: what it has done, its credentials, its environment and the error record of its caller.\<close>

record process =
  ps_history :: history
  ps_creds :: creds
  ps_environ :: "(string \<times> string) list"
  ps_error :: "mc_error option"

section \<open>Actions\<close>

text \<open>An action that has not returned within the observed rounds gives \<open>None\<close>.\<close>

type_synonym 'a action = "process \<Rightarrow> process \<times> (errno + 'a) option"

definition act_return :: "'a \<Rightarrow> 'a action" where
  "act_return x p = (p, Some (Inr x))"

definition act_fail :: "errno \<Rightarrow> 'a action" where
  "act_fail e p = (p, Some (Inl e))"

definition act_stuck :: "'a action" where
  "act_stuck p = (p, None)"

definition act_lift :: "errno + 'a \<Rightarrow> 'a action" where
  "act_lift r p = (p, Some r)"

definition act_bind :: "'a action \<Rightarrow> ('a \<Rightarrow> 'b action) \<Rightarrow> 'b action" where
  "act_bind m f p =
     (case m p of (p', None) \<Rightarrow> (p', None) | (p', Some (Inl e)) \<Rightarrow> (p', Some (Inl e)) | (p', Some (Inr x)) \<Rightarrow> f x p')"

definition act_catch :: "'a action \<Rightarrow> (errno \<Rightarrow> 'a action) \<Rightarrow> 'a action" where
  "act_catch m f p =
     (case m p of (p', None) \<Rightarrow> (p', None) | (p', Some (Inl e)) \<Rightarrow> f e p' | (p', Some (Inr x)) \<Rightarrow> (p', Some (Inr x)))"

text \<open>A sequence of steps joined by \<open>||\<close>: each is reached only when the ones before it succeeded.\<close>

fun act_all :: "unit action list \<Rightarrow> unit action" where
  "act_all [] = act_return ()"
| "act_all (m # ms) = act_bind m (\<lambda>_. act_all ms)"

text \<open>A call whose result the code discards.\<close>

definition act_ignore :: "'a action \<Rightarrow> unit action" where
  "act_ignore m = act_catch (act_bind m (\<lambda>_. act_return ())) (\<lambda>_. act_return ())"

text \<open>A call whose outcome the code looks at.\<close>

definition attempt :: "'a action \<Rightarrow> (errno + 'a) action" where
  "attempt m = act_catch (act_bind m (\<lambda>x. act_return (Inr x))) (\<lambda>e. act_return (Inl e))"

definition sys :: "kernel \<Rightarrow> kcall \<Rightarrow> int action" where
  "sys K c p =
     (let r = k_call K (ps_history p) c in (p\<lparr>ps_history := ps_history p @ [(c, r)]\<rparr>, Some r))"

definition call :: "kernel \<Rightarrow> kcall \<Rightarrow> unit action" where
  "call K c = act_bind (sys K c) (\<lambda>_. act_return ())"

abbreviation discard :: "kernel \<Rightarrow> kcall \<Rightarrow> unit action" where
  "discard K c \<equiv> act_ignore (call K c)"

text \<open>The bytes that the last call delivered, and the status of the process it waited for.\<close>

definition fetch_text :: "kernel \<Rightarrow> string action" where
  "fetch_text K p = (p, Some (Inr (k_text K (ps_history p))))"

definition fetch_status :: "kernel \<Rightarrow> wait_status action" where
  "fetch_status K p = (p, Some (Inr (k_status K (ps_history p))))"

text \<open>A diagnostic on standard error when a step fails.\<close>

definition record_event :: "kcall \<Rightarrow> unit action" where
  "record_event c p = (p\<lparr>ps_history := ps_history p @ [(c, Inr 0)]\<rparr>, Some (Inr ()))"

definition report :: "string \<Rightarrow> 'a action \<Rightarrow> 'a action" where
  "report label m = act_catch m (\<lambda>e. act_bind (record_event (Stderr label e)) (\<lambda>_. act_fail e))"

text \<open>\<open>mc_error_set\<close> on the caller's record, and the variant that keeps an error that is there.\<close>

definition set_error :: "mc_error \<Rightarrow> unit action" where
  "set_error e p = (p\<lparr>ps_error := Some e\<rparr>, Some (Inr ()))"

definition set_first_error :: "mc_error \<Rightarrow> unit action" where
  "set_first_error e p = (p\<lparr>ps_error := (case ps_error p of None \<Rightarrow> Some e | Some e' \<Rightarrow> Some e')\<rparr>, Some (Inr ()))"

text \<open>A step that fails although no call of it did: \<open>errno\<close> is what earlier calls have left there.\<close>

definition act_stale :: "kernel \<Rightarrow> 'a action" where
  "act_stale K p = (p, Some (Inl (k_errno K (ps_history p))))"

section \<open>Constants\<close>

abbreviation (input) MS_RDONLY :: u32 where "MS_RDONLY \<equiv> 1"
abbreviation (input) MS_NOSUID :: u32 where "MS_NOSUID \<equiv> 2"
abbreviation (input) MS_NODEV :: u32 where "MS_NODEV \<equiv> 4"
abbreviation (input) MS_NOEXEC :: u32 where "MS_NOEXEC \<equiv> 8"
abbreviation (input) MS_REMOUNT :: u32 where "MS_REMOUNT \<equiv> 32"
abbreviation (input) MS_BIND :: u32 where "MS_BIND \<equiv> 4096"
abbreviation (input) MS_REC :: u32 where "MS_REC \<equiv> 16384"
abbreviation (input) MS_PRIVATE :: u32 where "MS_PRIVATE \<equiv> 262144"
abbreviation (input) MS_STRICTATIME :: u32 where "MS_STRICTATIME \<equiv> 16777216"
abbreviation (input) MNT_DETACH :: u32 where "MNT_DETACH \<equiv> 2"

abbreviation (input) O_RDONLY :: u32 where "O_RDONLY \<equiv> 0"
abbreviation (input) O_WRONLY :: u32 where "O_WRONLY \<equiv> 1"
abbreviation (input) O_RDWR :: u32 where "O_RDWR \<equiv> 2"
abbreviation (input) O_CREAT :: u32 where "O_CREAT \<equiv> 0x40"
abbreviation (input) O_TRUNC :: u32 where "O_TRUNC \<equiv> 0x200"
abbreviation (input) O_DIRECTORY :: u32 where "O_DIRECTORY \<equiv> 0x10000"
abbreviation (input) O_NOFOLLOW :: u32 where "O_NOFOLLOW \<equiv> 0x20000"
abbreviation (input) O_CLOEXEC :: u32 where "O_CLOEXEC \<equiv> 0x80000"
abbreviation (input) O_PATH :: u32 where "O_PATH \<equiv> 0x200000"

abbreviation (input) CLONE_NEWNS :: u64 where "CLONE_NEWNS \<equiv> 0x00020000"
abbreviation (input) CLONE_NEWCGROUP :: u64 where "CLONE_NEWCGROUP \<equiv> 0x02000000"
abbreviation (input) CLONE_NEWUTS :: u64 where "CLONE_NEWUTS \<equiv> 0x04000000"
abbreviation (input) CLONE_NEWIPC :: u64 where "CLONE_NEWIPC \<equiv> 0x08000000"
abbreviation (input) CLONE_NEWUSER :: u64 where "CLONE_NEWUSER \<equiv> 0x10000000"
abbreviation (input) CLONE_NEWPID :: u64 where "CLONE_NEWPID \<equiv> 0x20000000"
abbreviation (input) CLONE_NEWNET :: u64 where "CLONE_NEWNET \<equiv> 0x40000000"
abbreviation (input) CLONE_PIDFD :: u64 where "CLONE_PIDFD \<equiv> 0x00001000"
abbreviation (input) CLONE_INTO_CGROUP :: u64 where "CLONE_INTO_CGROUP \<equiv> 0x200000000"

abbreviation (input) SIGHUP :: int where "SIGHUP \<equiv> 1"
abbreviation (input) SIGINT :: int where "SIGINT \<equiv> 2"
abbreviation (input) SIGQUIT :: int where "SIGQUIT \<equiv> 3"
abbreviation (input) SIGTERM :: int where "SIGTERM \<equiv> 15"
abbreviation (input) SIGCHLD :: int where "SIGCHLD \<equiv> 17"

section \<open>Evaluating actions\<close>

lemmas act_defs = act_return_def act_fail_def act_stuck_def act_lift_def act_bind_def act_catch_def act_ignore_def
  sys_def call_def fetch_text_def fetch_status_def record_event_def report_def set_error_def set_first_error_def act_stale_def

lemma successes_simps [simp]:
  "successes [] = []" "successes (a @ b) = successes a @ successes b"
  "successes [(c, Inr v)] = [c]" "successes [(c, Inl e)] = []"
  by (simp_all add: successes_def)

lemma act_bind_Inr:
  "act_bind m f p = (p', Some (Inr y)) \<longleftrightarrow> (\<exists>q x. m p = (q, Some (Inr x)) \<and> f x q = (p', Some (Inr y)))"
  by (auto simp: act_bind_def split: prod.splits option.splits sum.splits)

lemma act_catch_Inr:
  "act_catch m f p = (p', Some (Inr y)) \<longleftrightarrow>
     m p = (p', Some (Inr y)) \<or> (\<exists>q e. m p = (q, Some (Inl e)) \<and> f e q = (p', Some (Inr y)))"
  by (auto simp: act_catch_def split: prod.splits option.splits sum.splits)

lemma act_return_Inr [simp]: "act_return x p = (p', Some (Inr y)) \<longleftrightarrow> p' = p \<and> y = x"
  by (auto simp: act_return_def)

lemma act_fail_Inr [simp]:
  "act_fail e p \<noteq> (p', Some (Inr y))" "act_stuck p \<noteq> (p', Some (Inr y))" "act_stale K p \<noteq> (p', Some (Inr y))"
  by (simp_all add: act_fail_def act_stuck_def act_stale_def)

lemma act_lift_Inr [simp]: "act_lift r p = (p', Some (Inr y)) \<longleftrightarrow> p' = p \<and> r = Inr y"
  by (auto simp: act_lift_def)

lemma report_Inr [simp]: "report label m p = (p', Some (Inr y)) \<longleftrightarrow> m p = (p', Some (Inr y))"
  by (auto simp: report_def act_catch_Inr act_bind_Inr)

lemma sys_Inr:
  "sys K c p = (p', Some (Inr v)) \<longleftrightarrow>
     k_call K (ps_history p) c = Inr v \<and> p' = p\<lparr>ps_history := ps_history p @ [(c, Inr v)]\<rparr>"
  by (auto simp: sys_def Let_def)

lemma call_Inr:
  "call K c p = (p', Some (Inr u)) \<longleftrightarrow>
     (\<exists>v. k_call K (ps_history p) c = Inr v \<and> p' = p\<lparr>ps_history := ps_history p @ [(c, Inr v)]\<rparr>)"
  by (auto simp: call_def act_bind_Inr sys_Inr)

section \<open>The calls an action may make\<close>

named_theorems emits_intros "which calls an action may make"

definition emits :: "(kcall \<Rightarrow> bool) \<Rightarrow> 'a action \<Rightarrow> bool" where
  "emits S m \<longleftrightarrow> (\<forall>p. \<exists>new. ps_history (fst (m p)) = ps_history p @ new \<and> list_all (\<lambda>(c, r). S c) new)"

lemma emitsD: "emits S m \<Longrightarrow> \<exists>new. ps_history (fst (m p)) = ps_history p @ new \<and> list_all (\<lambda>(c, r). S c) new"
  by (simp add: emits_def)

lemma emits_pure [emits_intros]:
  "emits S (act_return x)" "emits S (act_fail e)" "emits S act_stuck" "emits S (act_lift r)"
  "emits S (fetch_text K)" "emits S (fetch_status K)" "emits S (set_error err)" "emits S (set_first_error err)" "emits S (act_stale K)"
  by (auto simp: emits_def act_defs)

lemma emits_sys [emits_intros]: "S c \<Longrightarrow> emits S (sys K c)"
  by (auto simp: emits_def sys_def Let_def)

lemma emits_record [emits_intros]: "S c \<Longrightarrow> emits S (record_event c)"
  by (auto simp: emits_def record_event_def)

lemma emits_bind [emits_intros]:
  assumes m: "emits S m" and f: "\<And>x. emits S (f x)"
  shows "emits S (act_bind m f)"
  unfolding emits_def
proof
  fix p
  obtain q r where q: "m p = (q, r)" by fastforce
  obtain new where new: "ps_history q = ps_history p @ new" "list_all (\<lambda>(c, r). S c) new"
    using emitsD [OF m, of p] q by auto
  have "\<exists>new'. ps_history (fst (f x q)) = ps_history q @ new' \<and> list_all (\<lambda>(c, r). S c) new'" for x
    by (rule emitsD [OF f])
  then show "\<exists>new. ps_history (fst (act_bind m f p)) = ps_history p @ new \<and> list_all (\<lambda>(c, r). S c) new"
    using new q by (fastforce simp: act_bind_def split: option.splits sum.splits)
qed

lemma emits_catch [emits_intros]:
  assumes m: "emits S m" and f: "\<And>e. emits S (f e)"
  shows "emits S (act_catch m f)"
  unfolding emits_def
proof
  fix p
  obtain q r where q: "m p = (q, r)" by fastforce
  obtain new where new: "ps_history q = ps_history p @ new" "list_all (\<lambda>(c, r). S c) new"
    using emitsD [OF m, of p] q by auto
  have "\<exists>new'. ps_history (fst (f e q)) = ps_history q @ new' \<and> list_all (\<lambda>(c, r). S c) new'" for e
    by (rule emitsD [OF f])
  then show "\<exists>new. ps_history (fst (act_catch m f p)) = ps_history p @ new \<and> list_all (\<lambda>(c, r). S c) new"
    using new q by (fastforce simp: act_catch_def split: option.splits sum.splits)
qed

lemma emits_call [emits_intros]: "S c \<Longrightarrow> emits S (call K c)"
  by (auto simp: call_def intro!: emits_intros)

lemma emits_ignore [emits_intros]: "emits S m \<Longrightarrow> emits S (act_ignore m)"
  by (auto simp: act_ignore_def intro!: emits_intros)

lemma emits_attempt [emits_intros]: "emits S m \<Longrightarrow> emits S (attempt m)"
  by (auto simp: attempt_def intro!: emits_intros)

lemma emits_report [emits_intros]: "emits S m \<Longrightarrow> (\<And>e. S (Stderr label e)) \<Longrightarrow> emits S (report label m)"
  by (auto simp: report_def intro!: emits_intros)

lemma emits_all [emits_intros]: "(\<And>m. m \<in> set ms \<Longrightarrow> emits S m) \<Longrightarrow> emits S (act_all ms)"
  by (induction ms) (auto intro!: emits_intros)

lemma emits_if [emits_intros]: "(b \<Longrightarrow> emits S m) \<Longrightarrow> (\<not> b \<Longrightarrow> emits S n) \<Longrightarrow> emits S (if b then m else n)"
  by simp

lemma emits_mono: "emits S m \<Longrightarrow> (\<And>c. S c \<Longrightarrow> T c) \<Longrightarrow> emits T m"
  unfolding emits_def by (fastforce simp: list_all_iff)

text \<open>Every action extends the history.\<close>

abbreviation extends :: "'a action \<Rightarrow> bool" where
  "extends \<equiv> emits (\<lambda>c. True)"

section \<open>The calls an action has made\<close>

named_theorems reaches_intros "which calls have succeeded when an action returns"

definition reaches :: "kcall list \<Rightarrow> 'a action \<Rightarrow> bool" where
  "reaches L m \<longleftrightarrow> (\<forall>p p' x. m p = (p', Some (Inr x)) \<longrightarrow>
     (\<exists>new. ps_history p' = ps_history p @ new \<and> subseq L (successes new)))"

lemma reachesD:
  assumes "reaches L m" "m p = (p', Some (Inr x))"
  obtains new where "ps_history p' = ps_history p @ new" "subseq L (successes new)"
  using assms by (auto simp: reaches_def)

lemma reaches_Nil: "extends m \<Longrightarrow> reaches [] m"
  unfolding reaches_def emits_def by (metis fst_conv list_emb_Nil)

lemma reaches_weaken: "reaches L m \<Longrightarrow> subseq L' L \<Longrightarrow> reaches L' m"
  unfolding reaches_def by (meson subseq_order.trans)

lemma reaches_call [reaches_intros]: "reaches [c] (call K c)"
  by (auto simp: reaches_def call_Inr)

lemma reaches_sys [reaches_intros]: "reaches [c] (sys K c)"
  by (auto simp: reaches_def sys_Inr)

lemma reaches_fail [reaches_intros]: "reaches L (act_fail e)" "reaches L act_stuck" "reaches L (act_stale K)"
  by (auto simp: reaches_def)

lemma reaches_bind [reaches_intros]:
  assumes m: "reaches L m" and f: "\<And>x. reaches L' (f x)"
  shows "reaches (L @ L') (act_bind m f)"
  unfolding reaches_def
proof (intro allI impI)
  fix p p' y assume "act_bind m f p = (p', Some (Inr y))"
  then obtain q x where "m p = (q, Some (Inr x))" "f x q = (p', Some (Inr y))" by (auto simp: act_bind_Inr)
  moreover obtain new new' where "ps_history q = ps_history p @ new" "subseq L (successes new)"
      "ps_history p' = ps_history q @ new'" "subseq L' (successes new')"
    using calculation m f by (meson reachesD)
  ultimately show "\<exists>new. ps_history p' = ps_history p @ new \<and> subseq (L @ L') (successes new)"
    by (intro exI [of _ "new @ new'"]) (simp add: list_emb_append_mono)
qed

lemma reaches_report [reaches_intros]: "reaches L m \<Longrightarrow> reaches L (report label m)"
  by (simp add: reaches_def)

lemma reaches_all: "list_all2 reaches Ls ms \<Longrightarrow> reaches (concat Ls) (act_all ms)"
proof (induction rule: list_all2_induct)
  case Nil
  then show ?case by (auto simp: reaches_def)
next
  case (Cons L Ls m ms)
  then show ?case by (auto intro!: reaches_intros)
qed

lemma reaches_if [reaches_intros]: "(b \<Longrightarrow> reaches L m) \<Longrightarrow> (\<not> b \<Longrightarrow> reaches L n) \<Longrightarrow> reaches L (if b then m else n)"
  by simp

lemma reaches_lift_bind:
  "(\<And>x. r = Inr x \<Longrightarrow> reaches L (f x)) \<Longrightarrow> reaches L (act_bind (act_lift r) f)"
  by (auto simp: reaches_def act_bind_Inr)

lemma reaches_bind_right: "extends m \<Longrightarrow> (\<And>x. reaches L (f x)) \<Longrightarrow> reaches L (act_bind m f)"
  using reaches_bind [OF reaches_Nil] by fastforce

lemma reaches_bind_left: "reaches L m \<Longrightarrow> (\<And>x. extends (f x)) \<Longrightarrow> reaches L (act_bind m f)"
  using reaches_bind [of L m "[]" f] reaches_Nil by fastforce

lemma reaches_catch_fail: "reaches L m \<Longrightarrow> reaches L (act_catch m (\<lambda>e. act_bind (n e) (\<lambda>_. act_fail e)))"
  by (auto simp: reaches_def act_catch_Inr act_bind_Inr)

lemma reaches_Cons: "reaches L m \<Longrightarrow> reaches L' (act_all ms) \<Longrightarrow> reaches (L @ L') (act_all (m # ms))"
  by (simp add: reaches_bind)

lemma reaches_all_Nil: "reaches [] (act_all [])"
  by (simp add: reaches_def)

lemmas reaches_chain = reaches_Cons reaches_all_Nil reaches_report reaches_call

section \<open>What an action leaves alone\<close>

named_theorems keeps_intros "components of a process that an action does not change"

definition keeps :: "(process \<Rightarrow> 'b) \<Rightarrow> 'a action \<Rightarrow> bool" where
  "keeps g m \<longleftrightarrow> (\<forall>p. g (fst (m p)) = g p)"

lemma keepsD: "keeps g m \<Longrightarrow> m p = (p', r) \<Longrightarrow> g p' = g p"
  unfolding keeps_def by (metis fst_conv)

lemma keeps_pure [keeps_intros]:
  "keeps g (act_return x)" "keeps g (act_fail e)" "keeps g act_stuck" "keeps g (act_lift r)"
  "keeps g (fetch_text K)" "keeps g (fetch_status K)" "keeps g (act_stale K)"
  by (auto simp: keeps_def act_defs)

lemma keeps_sys [keeps_intros]: "keeps ps_creds (sys K c)" "keeps ps_environ (sys K c)" "keeps ps_error (sys K c)"
  by (auto simp: keeps_def sys_def Let_def)

lemma keeps_record [keeps_intros]:
  "keeps ps_creds (record_event c)" "keeps ps_environ (record_event c)" "keeps ps_error (record_event c)"
  by (auto simp: keeps_def record_event_def)

lemma keeps_error [keeps_intros]:
  "keeps ps_creds (set_error e)" "keeps ps_environ (set_error e)"
  "keeps ps_creds (set_first_error e)" "keeps ps_environ (set_first_error e)"
  by (auto simp: keeps_def set_error_def set_first_error_def)

lemma keeps_bind [keeps_intros]: "keeps g m \<Longrightarrow> (\<And>x. keeps g (f x)) \<Longrightarrow> keeps g (act_bind m f)"
  unfolding keeps_def act_bind_def by (auto split: prod.splits option.splits sum.splits) (metis fst_conv)+

lemma keeps_catch [keeps_intros]: "keeps g m \<Longrightarrow> (\<And>e. keeps g (f e)) \<Longrightarrow> keeps g (act_catch m f)"
  unfolding keeps_def act_catch_def by (auto split: prod.splits option.splits sum.splits) (metis fst_conv)+

lemma keeps_call [keeps_intros]: "keeps ps_creds (call K c)" "keeps ps_environ (call K c)" "keeps ps_error (call K c)"
  by (auto simp: call_def intro!: keeps_intros)

lemma keeps_ignore [keeps_intros]: "keeps g m \<Longrightarrow> keeps g (act_ignore m)"
  by (auto simp: act_ignore_def intro!: keeps_intros)

lemma keeps_attempt [keeps_intros]: "keeps g m \<Longrightarrow> keeps g (attempt m)"
  by (auto simp: attempt_def intro!: keeps_intros)

lemma keeps_report [keeps_intros]:
  "keeps ps_creds m \<Longrightarrow> keeps ps_creds (report label m)" "keeps ps_environ m \<Longrightarrow> keeps ps_environ (report label m)"
  "keeps ps_error m \<Longrightarrow> keeps ps_error (report label m)"
  by (auto simp: report_def intro!: keeps_intros)

lemma keeps_all [keeps_intros]: "(\<And>m. m \<in> set ms \<Longrightarrow> keeps g m) \<Longrightarrow> keeps g (act_all ms)"
  by (induction ms) (auto intro!: keeps_intros)

lemma keeps_if [keeps_intros]: "(b \<Longrightarrow> keeps g m) \<Longrightarrow> (\<not> b \<Longrightarrow> keeps g n) \<Longrightarrow> keeps g (if b then m else n)"
  by simp

section \<open>The calls an action has attempted\<close>

text \<open>Actions that report no error of their own, and the calls that have been made, with whatever result, when
  an action returns in any way.\<close>

named_theorems unfailing_intros "actions that return normally if they return"

named_theorems attempts_intros "which calls have been made when an action returns"

definition unfailing :: "'a action \<Rightarrow> bool" where
  "unfailing m \<longleftrightarrow> (\<forall>p p' e. m p \<noteq> (p', Some (Inl e)))"

lemma unfailing_pure [unfailing_intros]:
  "unfailing (act_return x)" "unfailing act_stuck" "unfailing (fetch_text K)" "unfailing (fetch_status K)"
  "unfailing (set_error err)" "unfailing (set_first_error err)" "unfailing (act_ignore m)" "unfailing (attempt m)"
  "unfailing (record_event c)"
  by (auto simp: unfailing_def act_defs attempt_def split: prod.splits option.splits sum.splits)

lemma unfailing_bind [unfailing_intros]: "unfailing m \<Longrightarrow> (\<And>x. unfailing (f x)) \<Longrightarrow> unfailing (act_bind m f)"
  unfolding unfailing_def act_bind_def by (auto split: prod.splits option.splits sum.splits)

lemma unfailing_catch [unfailing_intros]: "(\<And>e. unfailing (f e)) \<Longrightarrow> unfailing (act_catch m f)"
  unfolding unfailing_def act_catch_def by (auto split: prod.splits option.splits sum.splits)

lemma unfailing_all [unfailing_intros]: "(\<And>m. m \<in> set ms \<Longrightarrow> unfailing m) \<Longrightarrow> unfailing (act_all ms)"
  by (induction ms) (auto intro!: unfailing_intros)

lemma unfailing_if [unfailing_intros]: "(b \<Longrightarrow> unfailing m) \<Longrightarrow> (\<not> b \<Longrightarrow> unfailing n) \<Longrightarrow> unfailing (if b then m else n)"
  by simp

definition attempts :: "kcall list \<Rightarrow> 'a action \<Rightarrow> bool" where
  "attempts L m \<longleftrightarrow> (\<forall>p p' r. m p = (p', Some r) \<longrightarrow>
     (\<exists>new. ps_history p' = ps_history p @ new \<and> set L \<subseteq> fst ` set new))"

lemma attemptsD:
  assumes "attempts L m" "m p = (p', Some r)"
  obtains new where "ps_history p' = ps_history p @ new" "set L \<subseteq> fst ` set new"
  using assms unfolding attempts_def by blast

lemma attempts_Nil: "extends m \<Longrightarrow> attempts [] m"
  unfolding attempts_def
proof (intro allI impI)
  fix p p' r assume "extends m" "m p = (p', Some r)"
  then show "\<exists>new. ps_history p' = ps_history p @ new \<and> set [] \<subseteq> fst ` set new" using emitsD [of _ m p] by auto
qed

lemma attempts_sys [attempts_intros]: "attempts [c] (sys K c)"
  by (auto simp: attempts_def sys_def Let_def)

lemma attempts_bind:
  assumes "attempts L m" "unfailing m" "\<And>x. attempts L' (f x)"
  shows "attempts (L @ L') (act_bind m f)"
  unfolding attempts_def
proof (intro allI impI)
  fix p p' r assume b: "act_bind m f p = (p', Some r)"
  then obtain q x where q: "m p = (q, Some (Inr x))" "f x q = (p', Some r)"
    using assms(2) unfolding unfailing_def act_bind_def by (auto split: prod.splits option.splits sum.splits)
  obtain new where new: "ps_history q = ps_history p @ new" "set L \<subseteq> fst ` set new" by (rule attemptsD [OF assms(1) q(1)])
  obtain new' where new': "ps_history p' = ps_history q @ new'" "set L' \<subseteq> fst ` set new'" by (rule attemptsD [OF assms(3) q(2)])
  show "\<exists>new. ps_history p' = ps_history p @ new \<and> set (L @ L') \<subseteq> fst ` set new"
    using new new' by (intro exI [of _ "new @ new'"]) (auto simp: image_Un)
qed

lemma attempts_bind_left: "attempts L m \<Longrightarrow> (\<And>x. extends (f x)) \<Longrightarrow> attempts L (act_bind m f)"
  unfolding attempts_def
proof (intro allI impI)
  fix p p' r assume m: "\<forall>p p' r. m p = (p', Some r) \<longrightarrow> (\<exists>new. ps_history p' = ps_history p @ new \<and> set L \<subseteq> fst ` set new)"
    and f: "\<And>x. extends (f x)" and b: "act_bind m f p = (p', Some r)"
  obtain q s where q: "m p = (q, Some s)" using b by (auto simp: act_bind_def split: prod.splits option.splits)
  obtain new where new: "ps_history q = ps_history p @ new" "set L \<subseteq> fst ` set new" using m q by blast
  have "\<exists>new'. ps_history p' = ps_history q @ new'"
  proof (cases s)
    case (Inl e)
    then show ?thesis using b q by (simp add: act_bind_def)
  next
    case (Inr x)
    then have "f x q = (p', Some r)" using b q by (simp add: act_bind_def)
    then show ?thesis using emitsD [OF f, of x q] by auto
  qed
  then show "\<exists>new. ps_history p' = ps_history p @ new \<and> set L \<subseteq> fst ` set new"
    using new by (auto simp: image_Un)
qed

lemma attempts_bind_right: "extends m \<Longrightarrow> unfailing m \<Longrightarrow> (\<And>x. attempts L (f x)) \<Longrightarrow> attempts L (act_bind m f)"
  using attempts_bind [OF attempts_Nil] by fastforce

lemma attempts_weaken: "attempts L m \<Longrightarrow> set L' \<subseteq> set L \<Longrightarrow> attempts L' m"
  unfolding attempts_def by (meson subset_trans)

lemma attempts_call [attempts_intros]: "attempts [c] (call K c)"
  unfolding call_def by (intro attempts_bind_left attempts_sys emits_pure)

lemma attempts_catch: "attempts L m \<Longrightarrow> (\<And>e. extends (f e)) \<Longrightarrow> attempts L (act_catch m f)"
  unfolding attempts_def
proof (intro allI impI)
  fix p p' r assume m: "\<forall>p p' r. m p = (p', Some r) \<longrightarrow> (\<exists>new. ps_history p' = ps_history p @ new \<and> set L \<subseteq> fst ` set new)"
    and f: "\<And>e. extends (f e)" and b: "act_catch m f p = (p', Some r)"
  obtain q s where q: "m p = (q, Some s)" using b by (auto simp: act_catch_def split: prod.splits option.splits)
  obtain new where new: "ps_history q = ps_history p @ new" "set L \<subseteq> fst ` set new" using m q by blast
  have "\<exists>new'. ps_history p' = ps_history q @ new'"
  proof (cases s)
    case (Inl e)
    then have "f e q = (p', Some r)" using b q by (simp add: act_catch_def)
    then show ?thesis using emitsD [OF f, of e q] by auto
  next
    case (Inr x)
    then show ?thesis using b q by (simp add: act_catch_def)
  qed
  then show "\<exists>new. ps_history p' = ps_history p @ new \<and> set L \<subseteq> fst ` set new"
    using new by (auto simp: image_Un)
qed

lemma attempts_ignore [attempts_intros]: "attempts L m \<Longrightarrow> attempts L (act_ignore m)"
  unfolding act_ignore_def by (intro attempts_catch attempts_bind_left emits_pure)

lemma attempts_attempt [attempts_intros]: "attempts L m \<Longrightarrow> attempts L (attempt m)"
  unfolding attempt_def by (intro attempts_catch attempts_bind_left emits_pure)

lemma attempts_all:
  assumes "list_all2 (\<lambda>L m. attempts L m \<and> unfailing m) Ls ms"
  shows "attempts (concat Ls) (act_all ms)"
  using assms
proof (induction rule: list_all2_induct)
  case Nil
  show ?case by (simp add: attempts_def act_return_def)
next
  case (Cons L Ls m ms)
  then show ?case by (auto intro: attempts_bind)
qed

declare act_all.simps [simp del]

section \<open>A kernel that grants everything\<close>

definition example_kernel :: kernel where
  "example_kernel =
     \<lparr>k_call = \<lambda>h c. (case c of Read descriptor n \<Rightarrow> Inr 1 | Write descriptor s \<Rightarrow> Inr (int (length s)) | _ \<Rightarrow> Inr 0), k_text = \<lambda>h. [], k_status = \<lambda>h. WIFEXITED 0, k_errno = (\<lambda>h. 0), k_getenv = \<lambda>name. None,
      k_sec = \<lambda>c. 0, k_lib = example_seccomp_lib, k_rounds = 4\<rparr>"

definition example_process :: process where
  "example_process =
     \<lparr>ps_history = [],
      ps_creds = \<lparr>cr_groups = [27], cr_bounding = - 1, cr_effective = - 1, cr_permitted = - 1, cr_inheritable = 0,
                  cr_ambient = 0, cr_securebits = 0, cr_no_new_privs = False, cr_filter = None\<rparr>,
      ps_environ = [], ps_error = None\<rparr>"

end
