(* ===== verification/MC_Rootfs.thy ===== *)
theory MC_Rootfs
  imports MC_Kernel
begin

text \<open>
  The root file system of a container, from \<open>join_path\<close> to \<open>setup_root\<close> in \<open>src/linux/container.c\<close>: the overlay,
  the device nodes, the kernel file systems, the configured mounts, and the change of the root directory.
  The lemmas show in which order the mounts succeed, that nothing is mounted before mount propagation is
  private, and with which flags the configured mounts are made.
\<close>

section \<open>Paths\<close>

record runtime_paths =
  rp_base :: string
  rp_upper :: string
  rp_work :: string
  rp_merged :: string
  rp_state :: string
  rp_runtime :: string
  rp_control :: string

record child_context =
  cc_config :: mc_run_config
  cc_paths :: runtime_paths
  cc_barrier :: int
  cc_ready :: int

text \<open>A string of the configuration. The shim starts a container only with a complete configuration
  (\<open>shim_complete\<close>), in which the strings used here are not null.\<close>

definition c_str :: "string option \<Rightarrow> string" where
  "c_str s = (case s of None \<Rightarrow> [] | Some t \<Rightarrow> t)"

definition container_path :: "string \<Rightarrow> string \<Rightarrow> errno + string" where
  "container_path left right =
     (if length left + length right + 2 > 4096 then Inl ENAMETOOLONG else Inr (left @ ''/'' @ right))"

section \<open>Files and device nodes\<close>

definition make_directory :: "kernel \<Rightarrow> string \<Rightarrow> u32 \<Rightarrow> unit action" where
  "make_directory K path mode =
     act_catch (call K (Mkdir path mode)) (\<lambda>e. if e = EEXIST then act_return () else act_fail e)"

definition make_file :: "kernel \<Rightarrow> string \<Rightarrow> unit action" where
  "make_file K path =
     act_bind (sys K (Open path (O_WRONLY OR O_CREAT OR O_CLOEXEC) 0x1B6)) (\<lambda>descriptor. call K (Close descriptor))"

definition bind_device :: "kernel \<Rightarrow> string \<Rightarrow> string \<Rightarrow> string \<Rightarrow> unit action" where
  "bind_device K source root name =
     act_bind (act_lift (container_path root name)) (\<lambda>target.
       act_all [make_file K target, call K (Mount (Some source) target None MS_BIND None)])"

definition setup_devices :: "kernel \<Rightarrow> string \<Rightarrow> unit action" where
  "setup_devices K root =
     act_bind (act_lift (container_path root ''dev'')) (\<lambda>path. act_all
       [call K (Mount (Some ''tmpfs'') path (Some ''tmpfs'') (MS_NOSUID OR MS_STRICTATIME) (Some ''mode=755,size=4m'')),
        bind_device K ''/dev/null'' path ''null'',
        bind_device K ''/dev/zero'' path ''zero'',
        bind_device K ''/dev/random'' path ''random'',
        bind_device K ''/dev/urandom'' path ''urandom'',
        bind_device K ''/dev/tty'' path ''tty'',
        act_bind (act_lift (container_path path ''pts'')) (\<lambda>pts. act_all
          [make_directory K pts 0x1ED,
           call K (Mount (Some ''devpts'') pts (Some ''devpts'') (MS_NOSUID OR MS_NOEXEC)
                     (Some ''newinstance,ptmxmode=0666,mode=0620''))]),
        act_bind (act_lift (container_path path ''ptmx'')) (\<lambda>ptmx. call K (Symlink ''pts/ptmx'' ptmx))])"

section \<open>The configured mounts\<close>

definition resolve_flags :: u32 where
  "resolve_flags = 0x08 OR 0x02 OR 0x04"

text \<open>Walking down to the target, one component at a time, creating what is missing.\<close>

fun walk_target :: "kernel \<Rightarrow> int \<Rightarrow> string list \<Rightarrow> int action" where
  "walk_target K current [] = act_return current"
| "walk_target K current (component # components) =
     act_bind
       (act_catch (call K (Mkdirat current component 0x1ED))
          (\<lambda>e. if e = EEXIST then act_return () else act_bind (discard K (Close current)) (\<lambda>_. act_fail e)))
       (\<lambda>_. act_bind
          (act_catch (sys K (Openat2 current component (O_PATH OR O_DIRECTORY OR O_CLOEXEC) resolve_flags))
             (\<lambda>e. act_bind (discard K (Close current)) (\<lambda>_. act_fail e)))
          (\<lambda>next_dir. act_bind (discard K (Close current)) (\<lambda>_. walk_target K next_dir components)))"

definition open_mount_target :: "kernel \<Rightarrow> string \<Rightarrow> string \<Rightarrow> int action" where
  "open_mount_target K root target =
     act_bind (sys K (Open root (O_PATH OR O_DIRECTORY OR O_CLOEXEC) 0))
       (\<lambda>current. walk_target K current (strtok_all (\<lambda>c. c = CHR ''/'') (drop 1 target)))"

definition bind_flags :: "mc_mount \<Rightarrow> u32" where
  "bind_flags m = MS_BIND OR MS_REMOUNT OR MS_NOSUID OR MS_NODEV OR (if mnt_readonly m then MS_RDONLY else 0)"

text \<open>The path that \<open>mount\<close> is called with, behind the directory that the walk opened.\<close>

definition target_path :: "string \<Rightarrow> mc_mount \<Rightarrow> string" where
  "target_path merged m = snprintf_buf 8192 (merged @ c_str (mnt_target m))"

definition bind_custom :: "kernel \<Rightarrow> mc_mount \<Rightarrow> string \<Rightarrow> unit action" where
  "bind_custom K m path =
     act_bind (sys K (Open (c_str (mnt_source m)) (O_PATH OR O_DIRECTORY OR O_NOFOLLOW OR O_CLOEXEC) 0)) (\<lambda>source.
       act_bind
         (act_catch
            (act_all [call K (Mount (Some (snprintf_buf 64 (''/proc/self/fd/'' @ show_int source))) path None
                        (MS_BIND OR MS_REC) None),
                      call K (Mount None path None (bind_flags m) None)])
            (\<lambda>e. act_bind (discard K (Close source)) (\<lambda>_. act_fail e)))
         (\<lambda>_. discard K (Close source)))"

definition custom_mount :: "kernel \<Rightarrow> string \<Rightarrow> mc_mount \<Rightarrow> unit action" where
  "custom_mount K merged m =
     act_bind (open_mount_target K merged (c_str (mnt_target m))) (\<lambda>target.
       act_bind
         (act_catch
            (case mnt_type m of
               MC_MOUNT_BIND \<Rightarrow> bind_custom K m (target_path merged m)
             | MC_MOUNT_TMPFS \<Rightarrow>
                 call K (Mount (Some ''tmpfs'') (target_path merged m) (Some ''tmpfs'') (MS_NOSUID OR MS_NODEV)
                   (Some (snprintf_buf 64 (''mode=1777,size='' @ show_nat (unat (mnt_size m))))))
             | MC_MOUNT_OTHER n \<Rightarrow> act_fail EINVAL)
            (\<lambda>e. act_bind (discard K (Close target)) (\<lambda>_. act_fail e)))
         (\<lambda>_. discard K (Close target)))"

definition setup_custom_mounts :: "kernel \<Rightarrow> child_context \<Rightarrow> unit action" where
  "setup_custom_mounts K ctx =
     act_all (map (custom_mount K (rp_merged (cc_paths ctx))) (cfg_mounts (cc_config ctx)))"

section \<open>The new root\<close>

definition overlay_options :: "child_context \<Rightarrow> string" where
  "overlay_options ctx =
     ''lowerdir='' @ c_str (cfg_rootfs (cc_config ctx)) @ '',upperdir='' @ rp_upper (cc_paths ctx) @
     '',workdir='' @ rp_work (cc_paths ctx) @ '',index=off,metacopy=off,userxattr''"

definition private_propagation :: kcall where
  "private_propagation = Mount None ''/'' None (MS_REC OR MS_PRIVATE) None"

definition mount_beneath :: "kernel \<Rightarrow> string \<Rightarrow> string \<Rightarrow> (string \<Rightarrow> kcall) \<Rightarrow> unit action" where
  "mount_beneath K merged name c = act_bind (act_lift (container_path merged name)) (\<lambda>path. call K (c path))"

text \<open>A fresh \<open>proc\<close>; the fallback is for test environments that cannot mount one.\<close>

definition mount_proc :: "kernel \<Rightarrow> string \<Rightarrow> unit action" where
  "mount_proc K merged =
     act_bind (act_lift (container_path merged ''proc'')) (\<lambda>path.
       act_catch (call K (Mount (Some ''proc'') path (Some ''proc'') (MS_NOSUID OR MS_NODEV OR MS_NOEXEC) None))
         (\<lambda>e. report ''proc-mount''
               (if k_getenv K ''MC_TEST_INHERIT_PROC'' = None then act_fail e
                else call K (Mount (Some ''/proc'') path None (MS_BIND OR MS_REC) None))))"

definition pivot :: "kernel \<Rightarrow> string \<Rightarrow> unit action" where
  "pivot K merged =
     act_all
       [report ''pivot-prepare''
          (act_bind (act_lift (container_path merged ''.oldroot'')) (\<lambda>old_root.
             act_all [make_directory K old_root 0x1C0, call K (Chdir merged)])),
        report ''pivot-root'' (act_all [call K (Pivot_root ''.'' ''.oldroot''), call K (Chdir ''/'')]),
        report ''old-root-cleanup'' (act_all [call K (Umount2 ''/.oldroot'' MNT_DETACH), call K (Rmdir ''/.oldroot'')])]"

definition setup_root :: "kernel \<Rightarrow> child_context \<Rightarrow> unit action" where
  "setup_root K ctx =
     (let merged = rp_merged (cc_paths ctx) in
      if length (overlay_options ctx) \<ge> 12288 then report ''overlay-options'' (act_fail ENAMETOOLONG)
      else act_all
        [report ''mount-propagation'' (call K private_propagation),
         report ''overlay-mount''
           (call K (Mount (Some ''overlay'') merged (Some ''overlay'') MS_NODEV (Some (overlay_options ctx)))),
         report ''device-mounts'' (setup_devices K merged),
         report ''run-tmpfs'' (mount_beneath K merged ''run'' (\<lambda>path.
           Mount (Some ''tmpfs'') path (Some ''tmpfs'') (MS_NOSUID OR MS_NODEV) (Some ''mode=755,size=8m''))),
         report ''tmp-tmpfs'' (mount_beneath K merged ''tmp'' (\<lambda>path.
           Mount (Some ''tmpfs'') path (Some ''tmpfs'') (MS_NOSUID OR MS_NODEV) (Some ''mode=1777,size=32m''))),
         mount_proc K merged,
         report ''custom mounts'' (setup_custom_mounts K ctx),
         pivot K merged])"

section \<open>Lemmas\<close>

lemma container_path_Inr: "container_path l r = Inr p \<longleftrightarrow> length l + length r + 2 \<le> 4096 \<and> p = l @ ''/'' @ r"
  by (auto simp: container_path_def)

text \<open>The calls the pieces may make.\<close>

lemma emits_make_directory [emits_intros]: "S (Mkdir path mode) \<Longrightarrow> emits S (make_directory K path mode)"
  by (auto simp: make_directory_def intro!: emits_intros)

lemma extends_make_file [emits_intros]: "extends (make_file K path)"
  by (auto simp: make_file_def intro!: emits_intros)

lemma emits_walk_target [emits_intros]:
  "(\<And>c. S (Close c)) \<Longrightarrow> (\<And>d c m. S (Mkdirat d c m)) \<Longrightarrow>
     (\<And>d c f. S (Openat2 d c f resolve_flags)) \<Longrightarrow> emits S (walk_target K current cs)"
  by (induction cs arbitrary: current) (auto intro!: emits_intros)

lemma emits_open_mount_target [emits_intros]:
  "(\<And>p f m. S (Open p f m)) \<Longrightarrow> (\<And>c. S (Close c)) \<Longrightarrow> (\<And>d c m. S (Mkdirat d c m)) \<Longrightarrow>
     (\<And>d c f. S (Openat2 d c f resolve_flags)) \<Longrightarrow> emits S (open_mount_target K root target)"
  by (auto simp: open_mount_target_def intro!: emits_intros)

lemma reaches_bind_device:
  "reaches [Mount (Some source) (root @ ''/'' @ name) None MS_BIND None] (bind_device K source root name)"
  unfolding bind_device_def
proof (rule reaches_lift_bind)
  fix target assume "container_path root name = Inr target"
  then have t: "target = root @ ''/'' @ name" by (simp add: container_path_Inr)
  have "reaches (concat [[], [Mount (Some source) target None MS_BIND None]])
      (act_all [make_file K target, call K (Mount (Some source) target None MS_BIND None)])"
    by (rule reaches_all) (auto intro: reaches_Nil emits_intros reaches_intros)
  then show "reaches [Mount (Some source) (root @ ''/'' @ name) None MS_BIND None]
      (act_all [make_file K target, call K (Mount (Some source) target None MS_BIND None)])"
    by (simp add: t)
qed

text \<open>The mounts that a configured mount amounts to, and the ones of a whole root file system. The mounts of
  \<open>proc\<close> and the first half of a bind mount depend on answers of the kernel and are left out.\<close>

definition custom_calls :: "string \<Rightarrow> mc_mount \<Rightarrow> kcall list" where
  "custom_calls merged m =
     (case mnt_type m of
        MC_MOUNT_BIND \<Rightarrow> [Mount None (target_path merged m) None (bind_flags m) None]
      | MC_MOUNT_TMPFS \<Rightarrow>
          [Mount (Some ''tmpfs'') (target_path merged m) (Some ''tmpfs'') (MS_NOSUID OR MS_NODEV)
             (Some (snprintf_buf 64 (''mode=1777,size='' @ show_nat (unat (mnt_size m)))))]
      | MC_MOUNT_OTHER n \<Rightarrow> [])"

definition device_calls :: "string \<Rightarrow> kcall list" where
  "device_calls dev =
     Mount (Some ''tmpfs'') dev (Some ''tmpfs'') (MS_NOSUID OR MS_STRICTATIME) (Some ''mode=755,size=4m'') #
     map (\<lambda>name. Mount (Some (''/dev/'' @ name)) (dev @ ''/'' @ name) None MS_BIND None)
       [''null'', ''zero'', ''random'', ''urandom'', ''tty''] @
     [Mount (Some ''devpts'') (dev @ ''/pts'') (Some ''devpts'') (MS_NOSUID OR MS_NOEXEC)
        (Some ''newinstance,ptmxmode=0666,mode=0620''),
      Symlink ''pts/ptmx'' (dev @ ''/ptmx'')]"

definition pivot_calls :: "string \<Rightarrow> kcall list" where
  "pivot_calls merged =
     [Chdir merged, Pivot_root ''.'' ''.oldroot'', Chdir ''/'', Umount2 ''/.oldroot'' MNT_DETACH, Rmdir ''/.oldroot'']"

definition root_calls :: "child_context \<Rightarrow> kcall list" where
  "root_calls ctx =
     (let merged = rp_merged (cc_paths ctx) in
      [private_propagation, Mount (Some ''overlay'') merged (Some ''overlay'') MS_NODEV (Some (overlay_options ctx))] @
      device_calls (merged @ ''/dev'') @
      [Mount (Some ''tmpfs'') (merged @ ''/run'') (Some ''tmpfs'') (MS_NOSUID OR MS_NODEV) (Some ''mode=755,size=8m''),
       Mount (Some ''tmpfs'') (merged @ ''/tmp'') (Some ''tmpfs'') (MS_NOSUID OR MS_NODEV) (Some ''mode=1777,size=32m'')] @
      concat (map (custom_calls merged) (cfg_mounts (cc_config ctx))) @ pivot_calls merged)"

lemma reaches_bind_custom: "reaches [Mount None path None (bind_flags m) None] (bind_custom K m path)"
  unfolding bind_custom_def
proof (rule reaches_bind_right [OF _ reaches_bind_left [OF reaches_catch_fail]])
  fix source
  let ?first = "call K (Mount (Some (snprintf_buf 64 (''/proc/self/fd/'' @ show_int source))) path None (MS_BIND OR MS_REC) None)"
  have "reaches (concat [[], [Mount None path None (bind_flags m) None]])
      (act_all [?first, call K (Mount None path None (bind_flags m) None)])"
    by (rule reaches_all) (auto intro: reaches_Nil emits_intros reaches_intros)
  then show "reaches [Mount None path None (bind_flags m) None] (act_all [?first, call K (Mount None path None (bind_flags m) None)])"
    by simp
qed (auto intro!: emits_intros)

lemma reaches_custom_mount: "reaches (custom_calls merged m) (custom_mount K merged m)"
  unfolding custom_mount_def
  by (rule reaches_bind_right [OF _ reaches_bind_left [OF reaches_catch_fail]])
     (auto simp: custom_calls_def intro!: emits_intros reaches_bind_custom reaches_intros split: mc_mount_type.split)

lemma reaches_setup_devices: "reaches (device_calls (root @ ''/dev'')) (setup_devices K root)"
  unfolding setup_devices_def
proof (rule reaches_lift_bind)
  fix path assume "container_path root ''dev'' = Inr path"
  then have path: "path = root @ ''/dev''" by (simp add: container_path_Inr)
  let ?pts = "Mount (Some ''devpts'') (path @ ''/pts'') (Some ''devpts'') (MS_NOSUID OR MS_NOEXEC)
                     (Some ''newinstance,ptmxmode=0666,mode=0620'')"
  let ?tmpfs = "Mount (Some ''tmpfs'') path (Some ''tmpfs'') (MS_NOSUID OR MS_STRICTATIME) (Some ''mode=755,size=4m'')"
  let ?m7 = "act_bind (act_lift (container_path path ''pts'')) (\<lambda>pts. act_all
          [make_directory K pts 0x1ED,
           call K (Mount (Some ''devpts'') pts (Some ''devpts'') (MS_NOSUID OR MS_NOEXEC)
                     (Some ''newinstance,ptmxmode=0666,mode=0620''))])"
  let ?m8 = "act_bind (act_lift (container_path path ''ptmx'')) (\<lambda>ptmx. call K (Symlink ''pts/ptmx'' ptmx))"
  let ?dev = "\<lambda>name. Mount (Some (''/dev/'' @ name)) (path @ ''/'' @ name) None MS_BIND None"
  have pts: "reaches [?pts] ?m7"
  proof (rule reaches_lift_bind)
    fix pts assume "container_path path ''pts'' = Inr pts"
    then have pts: "pts = path @ ''/pts''" by (simp add: container_path_Inr)
    have "reaches (concat [[], [?pts]]) (act_all [make_directory K pts 0x1ED, call K ?pts])"
      by (rule reaches_all) (auto intro: reaches_Nil emits_intros reaches_intros)
    then show "reaches [?pts] (act_all [make_directory K pts 0x1ED,
        call K (Mount (Some ''devpts'') pts (Some ''devpts'') (MS_NOSUID OR MS_NOEXEC)
                  (Some ''newinstance,ptmxmode=0666,mode=0620''))])"
      by (simp add: pts)
  qed
  have ptmx: "reaches [Symlink ''pts/ptmx'' (path @ ''/ptmx'')] ?m8"
    by (rule reaches_lift_bind) (auto simp: container_path_Inr intro!: reaches_intros)
  have dev: "reaches [?dev name] (bind_device K (''/dev/'' @ name) path name)" for name
    by (rule reaches_bind_device)
  have "reaches (concat [[?tmpfs], [?dev ''null''], [?dev ''zero''], [?dev ''random''], [?dev ''urandom''], [?dev ''tty''],
        [?pts], [Symlink ''pts/ptmx'' (path @ ''/ptmx'')]])
      (act_all [call K ?tmpfs, bind_device K ''/dev/null'' path ''null'', bind_device K ''/dev/zero'' path ''zero'',
        bind_device K ''/dev/random'' path ''random'', bind_device K ''/dev/urandom'' path ''urandom'',
        bind_device K ''/dev/tty'' path ''tty'', ?m7, ?m8])"
    using dev [of "''null''"] dev [of "''zero''"] dev [of "''random''"] dev [of "''urandom''"] dev [of "''tty''"] pts ptmx
    by (intro reaches_all) (auto intro: reaches_intros)
  then show "reaches (device_calls (root @ ''/dev''))
      (act_all [call K ?tmpfs, bind_device K ''/dev/null'' path ''null'', bind_device K ''/dev/zero'' path ''zero'',
        bind_device K ''/dev/random'' path ''random'', bind_device K ''/dev/urandom'' path ''urandom'',
        bind_device K ''/dev/tty'' path ''tty'', ?m7, ?m8])"
    by (simp add: device_calls_def path)
qed

lemma reaches_pivot: "reaches (pivot_calls merged) (pivot K merged)"
proof -
  let ?prepare = "act_bind (act_lift (container_path merged ''.oldroot'')) (\<lambda>old_root.
             act_all [make_directory K old_root 0x1C0, call K (Chdir merged)])"
  have "reaches (concat [[], [Chdir merged]]) (act_all [make_directory K old_root 0x1C0, call K (Chdir merged)])" for old_root
    by (rule reaches_all) (auto intro: reaches_Nil emits_intros reaches_intros)
  then have prepare: "reaches [Chdir merged] ?prepare" by (intro reaches_lift_bind) simp
  have two: "reaches (concat [[a], [b]]) (act_all [call K a, call K b])" for a b
    by (rule reaches_all) (auto intro: reaches_intros)
  have "reaches (concat [[Chdir merged], concat [[Pivot_root ''.'' ''.oldroot''], [Chdir ''/'']],
      concat [[Umount2 ''/.oldroot'' MNT_DETACH], [Rmdir ''/.oldroot'']]]) (pivot K merged)"
    unfolding pivot_def by (rule reaches_all) (simp only: list.rel_inject list.rel_intros reaches_report prepare two simp_thms)
  then show ?thesis by (simp add: pivot_calls_def)
qed

lemma reaches_mount_beneath: "reaches [c (merged @ ''/'' @ name)] (mount_beneath K merged name c)"
  unfolding mount_beneath_def by (rule reaches_lift_bind) (auto simp: container_path_Inr intro!: reaches_intros)

lemma reaches_custom_mounts:
  "reaches (concat (map (custom_calls (rp_merged (cc_paths ctx))) (cfg_mounts (cc_config ctx)))) (setup_custom_mounts K ctx)"
  unfolding setup_custom_mounts_def
  by (rule reaches_all) (simp add: list.rel_map reaches_custom_mount list.rel_refl)

lemma extends_mount_proc [emits_intros]: "extends (mount_proc K merged)"
  by (auto simp: mount_proc_def intro!: emits_intros)

lemma reaches_setup_root: "reaches (root_calls ctx) (setup_root K ctx)"
proof (cases "length (overlay_options ctx) \<ge> 12288")
  case True
  then show ?thesis by (simp add: setup_root_def Let_def reaches_report reaches_fail)
next
  case False
  define merged where "merged = rp_merged (cc_paths ctx)"
  let ?overlay = "Mount (Some ''overlay'') merged (Some ''overlay'') MS_NODEV (Some (overlay_options ctx))"
  let ?run = "\<lambda>path. Mount (Some ''tmpfs'') path (Some ''tmpfs'') (MS_NOSUID OR MS_NODEV) (Some ''mode=755,size=8m'')"
  let ?tmp = "\<lambda>path. Mount (Some ''tmpfs'') path (Some ''tmpfs'') (MS_NOSUID OR MS_NODEV) (Some ''mode=1777,size=32m'')"
  have run: "reaches [?run (merged @ ''/'' @ ''run'')] (mount_beneath K merged ''run'' ?run)"
    and tmp: "reaches [?tmp (merged @ ''/'' @ ''tmp'')] (mount_beneath K merged ''tmp'' ?tmp)"
    using reaches_mount_beneath [of ?run] reaches_mount_beneath [of ?tmp] by simp_all
  have "reaches (concat [[private_propagation], [?overlay], device_calls (merged @ ''/dev''), [?run (merged @ ''/'' @ ''run'')],
      [?tmp (merged @ ''/'' @ ''tmp'')], [], concat (map (custom_calls merged) (cfg_mounts (cc_config ctx))), pivot_calls merged])
      (setup_root K ctx)"
    using False unfolding setup_root_def Let_def merged_def [symmetric]
    by (simp only: if_False, intro reaches_all)
       (simp only: list.rel_inject list.rel_intros reaches_report reaches_call reaches_setup_devices run tmp
          reaches_custom_mounts [of ctx, folded merged_def] reaches_pivot reaches_Nil extends_mount_proc simp_thms)
  then show ?thesis by (simp add: root_calls_def Let_def merged_def)
qed

text \<open>Where mounts may go.\<close>

definition beneath :: "string \<Rightarrow> kcall \<Rightarrow> bool" where
  "beneath merged c \<longleftrightarrow> (case c of Mount source target kind flags data \<Rightarrow> prefix merged target | _ \<Rightarrow> True)"

definition mount_call :: "kcall \<Rightarrow> bool" where
  "mount_call c \<longleftrightarrow> (case c of Mount source target kind flags data \<Rightarrow> True | _ \<Rightarrow> False)"

lemma beneath_path: "length merged < 8192 \<Longrightarrow> prefix merged (target_path merged m)"
  by (simp add: target_path_def snprintf_buf_def prefix_def take_append)

lemma emits_lift_bind: "(\<And>x. r = Inr x \<Longrightarrow> emits S (f x)) \<Longrightarrow> emits S (act_bind (act_lift r) f)"
  by (cases r) (auto simp: emits_def act_bind_def act_lift_def)

lemma emits_setup_devices [emits_intros]: "emits (beneath merged) (setup_devices K merged)"
  unfolding setup_devices_def bind_device_def make_file_def
  by (auto simp: beneath_def container_path_Inr intro!: emits_intros emits_lift_bind)

lemma emits_custom_mount:
  assumes "length merged < 8192"
  shows "emits (beneath merged) (custom_mount K merged m)"
  unfolding custom_mount_def bind_custom_def
  using beneath_path [OF assms]
  by (cases "mnt_type m") (auto simp: beneath_def intro!: emits_intros)

lemma emits_root_steps:
  assumes "length merged < 8192"
  shows "emits (beneath merged) (report label (setup_devices K merged))"
    "emits (beneath merged) (mount_proc K merged)"
    "emits (beneath merged) (pivot K merged)"
    "merged = rp_merged (cc_paths ctx) \<Longrightarrow> emits (beneath merged) (setup_custom_mounts K ctx)"
proof -
  show "emits (beneath merged) (report label (setup_devices K merged))"
    by (auto simp: beneath_def [of _ "Stderr _ _"] intro!: emits_intros)
  show "emits (beneath merged) (mount_proc K merged)"
    unfolding mount_proc_def by (auto simp: beneath_def container_path_Inr intro!: emits_intros emits_lift_bind)
  show "emits (beneath merged) (pivot K merged)"
    unfolding pivot_def by (auto simp: beneath_def intro!: emits_intros)
  show "merged = rp_merged (cc_paths ctx) \<Longrightarrow> emits (beneath merged) (setup_custom_mounts K ctx)"
    unfolding setup_custom_mounts_def using emits_custom_mount [OF assms] by (auto intro!: emits_intros)
qed

text \<open>A history in which mount propagation is made private before anything else is mounted, and in which
  every later mount lies beneath the container's directory.\<close>

fun mounts_confined :: "string \<Rightarrow> bool \<Rightarrow> history \<Rightarrow> bool" where
  "mounts_confined merged private [] \<longleftrightarrow> True"
| "mounts_confined merged private ((c, r) # h) \<longleftrightarrow>
     (mount_call c \<longrightarrow> (if private then beneath merged c else c = private_propagation)) \<and>
     mounts_confined merged (private \<or> c = private_propagation \<and> \<not> isl r) h"

lemma mounts_confined_beneath: "list_all (\<lambda>(c, r). beneath merged c) h \<Longrightarrow> mounts_confined merged True h"
  by (induction h) auto

lemma setup_root_steps:
  assumes "length (overlay_options ctx) < 12288"
  obtains rest where "setup_root K ctx = act_bind (report ''mount-propagation'' (call K private_propagation)) (\<lambda>_. act_all rest)"
    "length (rp_merged (cc_paths ctx)) < 8192 \<Longrightarrow> emits (beneath (rp_merged (cc_paths ctx))) (act_all rest)"
proof -
  let ?merged = "rp_merged (cc_paths ctx)"
  let ?rest = "[report ''overlay-mount''
           (call K (Mount (Some ''overlay'') ?merged (Some ''overlay'') MS_NODEV (Some (overlay_options ctx)))),
         report ''device-mounts'' (setup_devices K ?merged),
         report ''run-tmpfs'' (mount_beneath K ?merged ''run'' (\<lambda>path.
           Mount (Some ''tmpfs'') path (Some ''tmpfs'') (MS_NOSUID OR MS_NODEV) (Some ''mode=755,size=8m''))),
         report ''tmp-tmpfs'' (mount_beneath K ?merged ''tmp'' (\<lambda>path.
           Mount (Some ''tmpfs'') path (Some ''tmpfs'') (MS_NOSUID OR MS_NODEV) (Some ''mode=1777,size=32m''))),
         mount_proc K ?merged,
         report ''custom mounts'' (setup_custom_mounts K ctx),
         pivot K ?merged]"
  have "emits (beneath ?merged) (act_all ?rest)" if "length ?merged < 8192"
  proof (rule emits_all)
    fix m assume "m \<in> set ?rest"
    then show "emits (beneath ?merged) m"
      using emits_root_steps [OF that] unfolding mount_beneath_def
      by (auto simp: beneath_def container_path_Inr intro!: emits_intros emits_lift_bind)
  qed
  then show thesis
    using assms that [of ?rest] by (simp add: setup_root_def Let_def act_all.simps(2) [of "report ''mount-propagation'' _"])
qed


definition example_context :: child_context where
  "example_context =
     \<lparr>cc_config = zero_config\<lparr>cfg_id := Some ''0123'', cfg_rootfs := Some ''/images/a'', cfg_hostname := Some ''box'',
        cfg_workdir := Some ''/'', cfg_command := Some [''/bin/sh''], cfg_readonly_root := True,
        cfg_environment := [''LANG=C''],
        cfg_mounts := [\<lparr>mnt_type = MC_MOUNT_BIND, mnt_source = Some ''/srv/data'', mnt_target = Some ''/data'',
                        mnt_size = 0, mnt_readonly = True\<rparr>]\<rparr>,
      cc_paths = \<lparr>rp_base = ''/c/0123'', rp_upper = ''/c/0123/upper'', rp_work = ''/c/0123/work'', rp_merged = ''/c/0123/merged'',
        rp_state = ''/c/0123/state.json'', rp_runtime = ''/r/0123'', rp_control = ''/r/0123/control.sock''\<rparr>,
      cc_barrier = 3, cc_ready = 4\<rparr>"


end
