(* ===== verification/MC_Init.thy ===== *)
theory MC_Init
  imports MC_Rootfs
begin

text \<open>
  The init process of a container, from \<open>configure_loopback\<close> to \<open>child_main\<close> in \<open>src/linux/container.c\<close>: the
  network and identity files, the environment, the workload process that locks itself down and executes
  the command, and the supervisor that forwards signals and reaps. The results are that the command is
  executed only after every isolation step has succeeded, in the order of the code, with the credentials
  locked down and the environment rebuilt; and that the supervisor ends with the workload's own status.
\<close>

section \<open>How a process ends\<close>

text \<open>\<open>Executing\<close>: the command has replaced the process image. \<open>Faulted\<close>: a null pointer was used.\<close>

datatype ending = Exit int | Executing | Faulted

text \<open>A step whose failure ends the process with a fixed code.\<close>

definition guard_exit :: "int \<Rightarrow> 'a action \<Rightarrow> ('a \<Rightarrow> ending action) \<Rightarrow> ending action" where
  "guard_exit code m k p =
     (case m p of (p', None) \<Rightarrow> (p', None) | (p', Some (Inl e)) \<Rightarrow> (p', Some (Inr (Exit code)))
      | (p', Some (Inr x)) \<Rightarrow> k x p')"

section \<open>Network and identity\<close>

definition configure_loopback :: "kernel \<Rightarrow> unit action" where
  "configure_loopback K =
     act_bind (sys K (Socket 2)) (\<lambda>descriptor.
       act_bind
         (act_catch
            (act_bind (sys K (Get_flags descriptor ''lo'')) (\<lambda>flags.
               call K (Set_flags descriptor ''lo'' (signed_take_bit 15 (flags OR 1 OR 0x40)))))
            (\<lambda>e. act_bind (discard K (Close descriptor)) (\<lambda>_. act_fail e)))
         (\<lambda>_. call K (Close descriptor)))"

text \<open>The write loop of \<open>write_generated_file\<close> and \<open>write_text\<close>.\<close>

fun write_rest :: "kernel \<Rightarrow> nat \<Rightarrow> int \<Rightarrow> string \<Rightarrow> unit action" where
  "write_rest K n descriptor [] = act_return ()"
| "write_rest K 0 descriptor (b # bs) = act_stuck"
| "write_rest K (Suc n) descriptor (b # bs) =
     act_bind
       (act_catch (sys K (Write descriptor (b # bs)))
          (\<lambda>e. act_bind (discard K (Close descriptor)) (\<lambda>_. act_fail e)))
       (\<lambda>count. write_rest K n descriptor (drop (nat count) (b # bs)))"

definition write_generated_file :: "kernel \<Rightarrow> string \<Rightarrow> string \<Rightarrow> unit action" where
  "write_generated_file K path content =
     act_bind (sys K (Open path (O_WRONLY OR O_CREAT OR O_TRUNC OR O_CLOEXEC OR O_NOFOLLOW) 0x1A4)) (\<lambda>descriptor.
       act_bind (write_rest K (k_rounds K) descriptor content) (\<lambda>_. call K (Close descriptor)))"

definition default_resolver :: string where
  "default_resolver = ''nameserver 1.1.1.1'' @ [CHR 0x0A] @ ''nameserver 8.8.8.8'' @ [CHR 0x0A] @
     ''options timeout:1 attempts:2'' @ [CHR 0x0A]"

definition usable_resolver :: "string \<Rightarrow> bool" where
  "usable_resolver content \<longleftrightarrow> strstr content ''nameserver 127.'' = None \<and> strstr content ''nameserver ::1'' = None"

text \<open>One candidate file; \<open>None\<close> when the loop goes on to the next.\<close>

definition read_resolver :: "kernel \<Rightarrow> string \<Rightarrow> string option action" where
  "read_resolver K path =
     act_catch
       (act_bind (sys K (Open path (O_RDONLY OR O_CLOEXEC) 0)) (\<lambda>descriptor.
          act_bind
            (act_catch
               (act_bind (sys K (Read descriptor 4095)) (\<lambda>n. act_bind (fetch_text K) (\<lambda>t. act_return (take (nat n) t))))
               (\<lambda>e. act_return []))
            (\<lambda>bytes. act_bind (discard K (Close descriptor)) (\<lambda>_.
               let content = takeWhile (\<lambda>c. c \<noteq> CHR 0x00) bytes in
               act_return (if bytes \<noteq> [] \<and> usable_resolver content then Some content else None)))))
       (\<lambda>e. act_return None)"

definition load_resolver_config :: "kernel \<Rightarrow> string action" where
  "load_resolver_config K =
     act_bind (read_resolver K ''/run/systemd/resolve/resolv.conf'') (\<lambda>first.
       case first of Some content \<Rightarrow> act_return content
       | None \<Rightarrow> act_bind (read_resolver K ''/etc/resolv.conf'') (\<lambda>second.
           act_return (case second of Some content \<Rightarrow> content | None \<Rightarrow> default_resolver)))"

definition hosts_file :: "string \<Rightarrow> string" where
  "hosts_file hostname = ''127.0.0.1 localhost'' @ [CHR 0x0A] @ ''127.0.1.1 '' @ hostname @ [CHR 0x0A] @
     ''::1 localhost ip6-localhost'' @ [CHR 0x0A]"

definition generate_identity_files :: "kernel \<Rightarrow> string \<Rightarrow> string \<Rightarrow> unit action" where
  "generate_identity_files K hostname resolver_config =
     (if length hostname + 1 \<ge> 256 \<or> length (hosts_file hostname) \<ge> 512 then act_fail ENAMETOOLONG
      else act_all [write_generated_file K ''/etc/hostname'' (hostname @ [CHR 0x0A]),
                    write_generated_file K ''/etc/hosts'' (hosts_file hostname),
                    write_generated_file K ''/etc/resolv.conf'' resolver_config])"

section \<open>The environment\<close>

definition clearenv :: "unit action" where
  "clearenv p = (p\<lparr>ps_environ := []\<rparr>, Some (Inr ()))"

definition setenv :: "string \<Rightarrow> string \<Rightarrow> unit action" where
  "setenv name value p =
     (if name = [] \<or> CHR ''='' \<in> set name then (p, Some (Inl EINVAL))
      else (p\<lparr>ps_environ := (name, value) # filter (\<lambda>(n, _). n \<noteq> name) (ps_environ p)\<rparr>, Some (Inr ())))"

text \<open>The assignments of the configuration; \<open>False\<close> when one has no equals sign, which the code does not test.\<close>

fun set_assignments :: "string list \<Rightarrow> bool action" where
  "set_assignments [] = act_return True"
| "set_assignments (a # as) =
     (case strchr a CHR ''='' of
        None \<Rightarrow> act_return False
      | Some equals \<Rightarrow>
          act_bind (setenv (take (length a - length equals) a) (tl equals)) (\<lambda>_. set_assignments as))"

definition default_path :: string where
  "default_path = ''/usr/local/sbin:/usr/local/bin:/usr/sbin:/usr/bin:/sbin:/bin''"

definition install_environment :: "mc_run_config \<Rightarrow> bool action" where
  "install_environment c =
     act_bind
       (act_all [clearenv, setenv ''PATH'' default_path, setenv ''HOME'' (if cfg_user c = 0 then ''/root'' else ''/''),
                 setenv ''HOSTNAME'' (c_str (cfg_hostname c))])
       (\<lambda>_. set_assignments (cfg_environment c))"

section \<open>The workload\<close>

definition close_workload_descriptors :: "kernel \<Rightarrow> unit action" where
  "close_workload_descriptors K =
     act_bind (discard K (Close_range 3 0xFFFFFFFF)) (\<lambda>_.
       act_bind (act_catch (sys K Sysconf_open_max) (\<lambda>e. act_return (- 1))) (\<lambda>maximum.
         act_all (map (\<lambda>d. discard K (Close (int d)))
           [3..<nat (if maximum < 0 \<or> maximum > 1048576 then 1048576 else maximum)])))"

text \<open>The two halves of the lock-down (\<open>src/linux/security.c\<close>) as steps of a process.\<close>

definition security_step :: "kcall \<Rightarrow> (creds \<Rightarrow> creds option) \<Rightarrow> unit action" where
  "security_step c f p =
     (case f (ps_creds p) of
        None \<Rightarrow> (p\<lparr>ps_history := ps_history p @ [(c, Inl EPERM)]\<rparr>, Some (Inl EPERM))
      | Some creds \<Rightarrow> (p\<lparr>ps_history := ps_history p @ [(c, Inr 0)], ps_creds := creds\<rparr>, Some (Inr ())))"

definition prepare_step :: "kernel \<Rightarrow> mc_run_config \<Rightarrow> unit action" where
  "prepare_step K c =
     security_step (Security_prepare (cfg_capability_mask c)) (mc_security_prepare (k_sec K) (cfg_capability_mask c))"

definition apply_step :: "kernel \<Rightarrow> mc_run_config \<Rightarrow> unit action" where
  "apply_step K c =
     security_step (Security_apply (cfg_capability_mask c) (cfg_seccomp_denies c))
       (mc_security_apply (k_sec K) (k_lib K) (cfg_capability_mask c) (cfg_seccomp_denies c))"

definition exec_command :: "kernel \<Rightarrow> string list \<Rightarrow> ending action" where
  "exec_command K command =
     act_catch (report ''exec'' (act_bind (sys K (Execvp command)) (\<lambda>_. act_return Executing)))
       (\<lambda>e. act_return (Exit (if e = ENOENT then 127 else 126)))"

definition workload :: "kernel \<Rightarrow> mc_run_config \<Rightarrow> ending action" where
  "workload K c =
     act_bind (discard K (Sigprocmask [])) (\<lambda>_.
     guard_exit 125 (report ''setsid'' (call K Setsid)) (\<lambda>_.
     guard_exit 125 (report ''workdir'' (call K (Chdir (c_str (cfg_workdir c))))) (\<lambda>_.
     guard_exit 125 (report ''security preparation'' (prepare_step K c)) (\<lambda>_.
     guard_exit 125 (report ''workload group'' (call K (Setresgid (cfg_group c)))) (\<lambda>_.
     guard_exit 125 (report ''workload user'' (call K (Setresuid (cfg_user c)))) (\<lambda>_.
     guard_exit 125 (report ''environment'' (install_environment c)) (\<lambda>complete.
     if \<not> complete then act_return Faulted
     else guard_exit 125 (report ''security policy'' (apply_step K c)) (\<lambda>_.
     act_bind (close_workload_descriptors K) (\<lambda>_.
     exec_command K (case cfg_command c of None \<Rightarrow> [] | Some command \<Rightarrow> command))))))))))"

section \<open>The supervisor\<close>


definition supervised_signals :: "int list" where
  "supervised_signals = [SIGCHLD, SIGTERM, SIGINT, SIGHUP, SIGQUIT]"

text \<open>Collecting every child that has ended; the status of the workload if it is among them.\<close>

fun reap :: "kernel \<Rightarrow> nat \<Rightarrow> int \<Rightarrow> wait_status option \<Rightarrow> wait_status option action" where
  "reap K 0 child seen = act_stuck"
| "reap K (Suc n) child seen =
     act_bind (act_catch (sys K (Waitpid (- 1) True)) (\<lambda>e. act_return (- 1))) (\<lambda>reaped.
       if reaped > 0 then act_bind (fetch_status K) (\<lambda>status. reap K n child (if reaped = child then Some status else seen))
       else act_return seen)"

text \<open>The main loop; \<open>None\<close> when waiting for signals failed.\<close>

fun supervise_loop :: "kernel \<Rightarrow> nat \<Rightarrow> int \<Rightarrow> wait_status option action" where
  "supervise_loop K 0 child = act_stuck"
| "supervise_loop K (Suc n) child =
     act_bind (act_catch (act_bind (sys K (Sigwaitinfo supervised_signals)) (\<lambda>s. act_return (Inr s))) (\<lambda>e. act_return (Inl e)))
       (\<lambda>received. case received of
          Inl e \<Rightarrow> if e = EINTR then supervise_loop K n child
                   else act_bind (discard K (Kill (- child) 9)) (\<lambda>_. act_return None)
        | Inr s \<Rightarrow> if s = SIGCHLD
                   then act_bind (reap K (k_rounds K) child None) (\<lambda>seen.
                          case seen of None \<Rightarrow> supervise_loop K n child | Some status \<Rightarrow> act_return (Some status))
                   else act_bind (discard K (Kill (- child) s)) (\<lambda>_. supervise_loop K n child))"

fun drain :: "kernel \<Rightarrow> nat \<Rightarrow> unit action" where
  "drain K 0 = act_stuck"
| "drain K (Suc n) =
     act_bind (act_catch (sys K (Waitpid (- 1) False)) (\<lambda>e. act_return (- 1))) (\<lambda>reaped.
       if reaped > 0 then drain K n else act_return ())"

definition status_code :: "wait_status \<Rightarrow> int" where
  "status_code s = (case s of WIFEXITED n \<Rightarrow> int n | WIFSIGNALED n \<Rightarrow> 128 + int n | WOTHER \<Rightarrow> 125)"

definition supervise_parent :: "kernel \<Rightarrow> int \<Rightarrow> ending action" where
  "supervise_parent K child =
     act_bind (supervise_loop K (k_rounds K) child) (\<lambda>ended.
       case ended of
         None \<Rightarrow> act_return (Exit 125)
       | Some status \<Rightarrow>
           act_bind (discard K (Kill (- 1) 9)) (\<lambda>_. act_bind (drain K (k_rounds K)) (\<lambda>_. act_return (Exit (status_code status)))))"

definition supervise :: "kernel \<Rightarrow> mc_run_config \<Rightarrow> ending action" where
  "supervise K c =
     guard_exit 125 (call K (Sigprocmask supervised_signals)) (\<lambda>_.
     guard_exit 125 (sys K Fork) (\<lambda>child.
       if child = 0 then workload K c else supervise_parent K child))"

section \<open>The init process\<close>

text \<open>The traces that \<open>MC_DEBUG\<close> asks for only look at files.\<close>

definition debug_traces :: "kernel \<Rightarrow> child_context \<Rightarrow> unit action" where
  "debug_traces K ctx =
     (if k_getenv K ''MC_DEBUG'' = None then act_return ()
      else act_all [discard K (Open ''/proc/self/status'' O_RDONLY 0), discard K (Stat (c_str (cfg_rootfs (cc_config ctx)))),
                    discard K (Stat (rp_upper (cc_paths ctx))), discard K (Stat (rp_work (cc_paths ctx))),
                    discard K (Stat (rp_merged (cc_paths ctx)))])"

text \<open>Waiting for the parent: exactly one byte has to arrive.\<close>

definition pass_barrier :: "kernel \<Rightarrow> int \<Rightarrow> unit action" where
  "pass_barrier K barrier =
     act_bind (sys K (Read barrier 1)) (\<lambda>n. if n \<noteq> 1 then act_stale K else call K (Close barrier))"

definition announce_ready :: "kernel \<Rightarrow> int \<Rightarrow> unit action" where
  "announce_ready K ready =
     (if ready \<ge> 0
      then act_bind (sys K (Write ready ''1'')) (\<lambda>n. if n \<noteq> 1 then act_stale K else discard K (Close ready))
      else act_return ())"

definition child_main :: "kernel \<Rightarrow> child_context \<Rightarrow> ending action" where
  "child_main K ctx =
     (let c = cc_config ctx; hostname = c_str (cfg_hostname c) in
      guard_exit 125 (report ''parent-death-signal'' (call K (Pdeathsig 9))) (\<lambda>_.
      guard_exit 125 (report ''namespace-barrier'' (pass_barrier K (cc_barrier ctx))) (\<lambda>_.
      guard_exit 125 (report ''enter subordinate root'' (act_all [call K (Setresgid 0), call K (Setresuid 0)])) (\<lambda>_.
      act_bind (debug_traces K ctx) (\<lambda>_.
      guard_exit 125 (report ''set-hostname'' (call K (Sethostname hostname))) (\<lambda>_.
      guard_exit 125 (report ''loopback'' (configure_loopback K)) (\<lambda>_.
      guard_exit 125 (report ''resolver config'' (load_resolver_config K)) (\<lambda>resolver_config.
      guard_exit 125 (setup_root K ctx) (\<lambda>_.
      guard_exit 125 (report ''identity files'' (generate_identity_files K hostname resolver_config)) (\<lambda>_.
      guard_exit 125 (report ''read-only root''
        (if cfg_readonly_root c then call K (Mount None ''/'' None (MS_REMOUNT OR MS_BIND OR MS_RDONLY) None)
         else act_return ())) (\<lambda>_.
      act_bind (if cfg_ready_fd c \<ge> 0 then discard K (Close (cfg_ready_fd c)) else act_return ()) (\<lambda>_.
      guard_exit 125 (announce_ready K (cc_ready ctx)) (\<lambda>_.
      supervise K c)))))))))))))"

section \<open>Lemmas\<close>

text \<open>The successful calls of a process that has come to execute its command.\<close>

definition executes :: "kcall list \<Rightarrow> ending action \<Rightarrow> bool" where
  "executes L m \<longleftrightarrow> (\<forall>p p'. m p = (p', Some (Inr Executing)) \<longrightarrow>
     (\<exists>new. ps_history p' = ps_history p @ new \<and> subseq L (successes new)))"

lemma guard_exit_Executing:
  "guard_exit code m k p = (p', Some (Inr Executing)) \<longleftrightarrow>
     (\<exists>q x. m p = (q, Some (Inr x)) \<and> k x q = (p', Some (Inr Executing)))"
  by (auto simp: guard_exit_def split: prod.splits option.splits sum.splits)

lemma executes_next:
  assumes "reaches L m" "\<And>x. executes L' (k x)" "m p = (q, Some (Inr x))" "k x q = (p', Some (Inr Executing))"
  shows "\<exists>new. ps_history p' = ps_history p @ new \<and> subseq (L @ L') (successes new)"
proof -
  obtain new where "ps_history q = ps_history p @ new" "subseq L (successes new)"
    using assms(1,3) by (rule reachesD)
  moreover obtain new' where "ps_history p' = ps_history q @ new'" "subseq L' (successes new')"
    using assms(2) [of x] assms(4) unfolding executes_def by blast
  ultimately show ?thesis by (intro exI [of _ "new @ new'"]) (simp add: list_emb_append_mono)
qed

lemma executes_guard:
  assumes "reaches L m" "\<And>x. executes L' (k x)"
  shows "executes (L @ L') (guard_exit code m k)"
  unfolding executes_def [of "L @ L'"] guard_exit_Executing by (intro allI impI, elim exE conjE, rule executes_next [OF assms])

lemma executes_bind:
  assumes "reaches L m" "\<And>x. executes L' (k x)"
  shows "executes (L @ L') (act_bind m k)"
  unfolding executes_def [of "L @ L'"] act_bind_Inr by (intro allI impI, elim exE conjE, rule executes_next [OF assms])

lemma executes_return: "e \<noteq> Executing \<Longrightarrow> executes L (act_return e)"
  by (simp add: executes_def)

lemma executes_weaken: "executes L m \<Longrightarrow> subseq L' L \<Longrightarrow> executes L' m"
  unfolding executes_def by (meson subseq_order.trans)

text \<open>The calls of the pieces.\<close>

lemma extends_configure_loopback [emits_intros]: "extends (configure_loopback K)"
  by (auto simp: configure_loopback_def intro!: emits_intros)

lemma extends_write_rest [emits_intros]: "extends (write_rest K n descriptor bs)"
  by (induction K n descriptor bs rule: write_rest.induct) (auto intro!: emits_intros)

lemma extends_identity [emits_intros]: "extends (generate_identity_files K hostname r)"
  by (auto simp: generate_identity_files_def write_generated_file_def intro!: emits_intros)

lemma extends_load_resolver [emits_intros]: "extends (load_resolver_config K)"
  unfolding load_resolver_config_def read_resolver_def Let_def
  by (auto split: option.split intro!: emits_intros)

lemma extends_environment [emits_intros]: "extends (install_environment c)"
proof -
  have "extends (setenv n v)" "extends clearenv" for n v by (auto simp: emits_def setenv_def clearenv_def)
  moreover have "extends (set_assignments es)" for es
    using calculation by (induction es) (auto intro!: emits_intros split: option.split)
  ultimately show ?thesis by (auto simp: install_environment_def intro!: emits_intros)
qed

lemma extends_close_descriptors [emits_intros]: "extends (close_workload_descriptors K)"
  by (auto simp: close_workload_descriptors_def intro!: emits_intros)

lemma reaches_security_step: "reaches [c] (security_step c f)"
  by (auto simp: reaches_def security_step_def split: option.splits)

definition command_of :: "mc_run_config \<Rightarrow> string list" where
  "command_of c = (case cfg_command c of None \<Rightarrow> [] | Some command \<Rightarrow> command)"

definition lockdown_calls :: "mc_run_config \<Rightarrow> kcall list" where
  "lockdown_calls c =
     [Security_prepare (cfg_capability_mask c), Setresgid (cfg_group c), Setresuid (cfg_user c),
      Security_apply (cfg_capability_mask c) (cfg_seccomp_denies c), Execvp (command_of c)]"

definition init_calls :: "child_context \<Rightarrow> kcall list" where
  "init_calls ctx =
     (let c = cc_config ctx in
      [Pdeathsig 9, Close (cc_barrier ctx), Setresgid 0, Setresuid 0, Sethostname (c_str (cfg_hostname c))] @
      root_calls ctx @
      (if cfg_readonly_root c then [Mount None ''/'' None (MS_REMOUNT OR MS_BIND OR MS_RDONLY) None] else []) @
      [Sigprocmask supervised_signals, Fork, Setsid, Chdir (c_str (cfg_workdir c))] @ lockdown_calls c)"

lemma executes_exec: "executes [Execvp command] (exec_command K command)"
  by (auto simp: executes_def exec_command_def act_catch_Inr act_bind_Inr sys_Inr)

lemma executes_workload: "executes ([Setsid, Chdir (c_str (cfg_workdir c))] @ lockdown_calls c) (workload K c)"
proof -
  have "executes ([] @ [Setsid] @ [Chdir (c_str (cfg_workdir c))] @ [Security_prepare (cfg_capability_mask c)] @
      [Setresgid (cfg_group c)] @ [Setresuid (cfg_user c)] @ [] @
      [Security_apply (cfg_capability_mask c) (cfg_seccomp_denies c)] @ [] @ [Execvp (command_of c)]) (workload K c)"
    unfolding workload_def command_of_def [symmetric] prepare_step_def apply_step_def
  proof (intro executes_bind executes_guard reaches_report reaches_call reaches_security_step reaches_Nil emits_intros TrueI)
    fix x6 :: bool
    let ?apply = "guard_exit 125 (report ''security policy'' (security_step
        (Security_apply (cfg_capability_mask c) (cfg_seccomp_denies c))
        (mc_security_apply (k_sec K) (k_lib K) (cfg_capability_mask c) (cfg_seccomp_denies c))))
        (\<lambda>_. act_bind (close_workload_descriptors K) (\<lambda>_. exec_command K (command_of c)))"
    have "executes ([Security_apply (cfg_capability_mask c) (cfg_seccomp_denies c)] @ [] @ [Execvp (command_of c)]) ?apply"
      by (intro executes_bind executes_guard reaches_report reaches_security_step reaches_Nil emits_intros executes_exec)
    then show "executes ([Security_apply (cfg_capability_mask c) (cfg_seccomp_denies c)] @ [] @ [Execvp (command_of c)])
        (if \<not> x6 then act_return Faulted else ?apply)"
      by (simp add: executes_return)
  qed
  then show ?thesis by (simp add: lockdown_calls_def)
qed

lemma executes_supervise:
  "executes ([Sigprocmask supervised_signals, Fork, Setsid, Chdir (c_str (cfg_workdir c))] @ lockdown_calls c) (supervise K c)"
proof -
  have parent: "executes L (supervise_parent K child)" for child L
    by (auto simp: executes_def supervise_parent_def act_bind_Inr split: option.splits)
  have "executes ([Sigprocmask supervised_signals] @ [Fork] @ [Setsid, Chdir (c_str (cfg_workdir c))] @ lockdown_calls c) (supervise K c)"
    unfolding supervise_def
    by (intro executes_guard reaches_call reaches_sys) (simp add: executes_workload [simplified] parent)
  then show ?thesis by simp
qed

lemma reaches_pass_barrier: "reaches [Close barrier] (pass_barrier K barrier)"
proof -
  have "reaches ([] @ [Close barrier]) (pass_barrier K barrier)"
    unfolding pass_barrier_def by (intro reaches_bind reaches_Nil reaches_if reaches_fail reaches_call emits_intros TrueI)
  then show ?thesis by simp
qed

lemma extends_debug_traces [emits_intros]: "extends (debug_traces K ctx)"
  by (auto simp: debug_traces_def intro!: emits_intros)

lemma extends_announce_ready [emits_intros]: "extends (announce_ready K ready)"
  by (auto simp: announce_ready_def intro!: emits_intros)

lemma executes_child_main: "executes (init_calls ctx) (child_main K ctx)"
proof -
  let ?c = "cc_config ctx"
  let ?ro = "if cfg_readonly_root ?c then [Mount None ''/'' None (MS_REMOUNT OR MS_BIND OR MS_RDONLY) None] else []"
  have sub: "reaches (concat [[Setresgid 0], [Setresuid 0]]) (act_all [call K (Setresgid 0), call K (Setresuid 0)])"
    by (rule reaches_all) (auto intro: reaches_intros)
  have ro: "reaches ?ro (if cfg_readonly_root ?c then call K (Mount None ''/'' None (MS_REMOUNT OR MS_BIND OR MS_RDONLY) None)
         else act_return ())"
    by (simp add: reaches_call reaches_Nil emits_pure)
  have "executes ([Pdeathsig 9] @ [Close (cc_barrier ctx)] @ concat [[Setresgid 0], [Setresuid 0]] @ [] @
      [Sethostname (c_str (cfg_hostname ?c))] @ [] @ [] @ root_calls ctx @ [] @ ?ro @ [] @ [] @
      [Sigprocmask supervised_signals, Fork, Setsid, Chdir (c_str (cfg_workdir ?c))] @ lockdown_calls ?c) (child_main K ctx)"
    unfolding child_main_def Let_def
    by (intro executes_bind executes_guard reaches_report reaches_call reaches_pass_barrier sub ro reaches_setup_root
        reaches_Nil executes_supervise emits_intros TrueI)
  then show ?thesis by (simp add: init_calls_def Let_def)
qed

text \<open>Credentials and environment.\<close>

definition split_assignment :: "string \<Rightarrow> string \<times> string" where
  "split_assignment a = (takeWhile (\<lambda>c. c \<noteq> CHR ''='') a, tl (dropWhile (\<lambda>c. c \<noteq> CHR ''='') a))"

definition container_environment :: "mc_run_config \<Rightarrow> string \<rightharpoonup> string" where
  "container_environment c =
     [''PATH'' \<mapsto> default_path, ''HOME'' \<mapsto> if cfg_user c = 0 then ''/root'' else ''/'', ''HOSTNAME'' \<mapsto> c_str (cfg_hostname c)] ++
     map_of (rev (map split_assignment (cfg_environment c)))"

lemma setenv_Inr:
  "setenv name value p = (p', Some (Inr u)) \<Longrightarrow>
     map_of (ps_environ p') = (map_of (ps_environ p))(name \<mapsto> value) \<and> ps_creds p' = ps_creds p \<and> ps_history p' = ps_history p"
proof -
  assume "setenv name value p = (p', Some (Inr u))"
  then have "p' = p\<lparr>ps_environ := (name, value) # filter (\<lambda>(n, _). n \<noteq> name) (ps_environ p)\<rparr>"
    by (auto simp: setenv_def split: if_splits)
  moreover have "map_of (filter (\<lambda>(n, _). n \<noteq> name) env) k = map_of env k" if "k \<noteq> name" for env :: "(string \<times> string) list" and k
    using that by (induction env) auto
  ultimately show ?thesis by (auto simp: fun_eq_iff)
qed

lemma strchr_split:
  "strchr a CHR ''='' = Some equals \<Longrightarrow> (take (length a - length equals) a, tl equals) = split_assignment a"
  unfolding split_assignment_def strchr_eq
  by (metis add_diff_cancel_right' append_eq_conv_conj length_append option.discI option.inject takeWhile_dropWhile_id)

lemma set_assignments_True:
  "set_assignments es p = (p', Some (Inr True)) \<Longrightarrow>
     map_of (ps_environ p') = map_of (ps_environ p) ++ map_of (rev (map split_assignment es)) \<and> ps_creds p' = ps_creds p"
proof (induction es arbitrary: p)
  case (Cons a es)
  then obtain equals q u where equals: "strchr a CHR ''='' = Some equals"
    and q: "setenv (take (length a - length equals) a) (tl equals) p = (q, Some (Inr u))"
    and rest: "set_assignments es q = (p', Some (Inr True))"
    by (auto simp: act_bind_Inr split: option.splits)
  obtain k v where kv: "split_assignment a = (k, v)" "take (length a - length equals) a = k" "tl equals = v"
    using strchr_split [OF equals] by (metis prod.inject surj_pair)
  show ?case using Cons.IH [OF rest] setenv_Inr [OF q] kv by (simp add: map_add_upd_left fun_eq_iff map_add_def split: option.split)
qed simp

lemma install_environment_True:
  assumes "install_environment c p = (p', Some (Inr True))"
  shows "map_of (ps_environ p') = container_environment c" "ps_creds p' = ps_creds p"
proof -
  obtain p0 p1 p2 p3 u1 u2 u3 where "clearenv p = (p0, Some (Inr ()))" and
      steps: "setenv ''PATH'' default_path p0 = (p1, Some (Inr u1))"
        "setenv ''HOME'' (if cfg_user c = 0 then ''/root'' else ''/'') p1 = (p2, Some (Inr u2))"
        "setenv ''HOSTNAME'' (c_str (cfg_hostname c)) p2 = (p3, Some (Inr u3))"
        "set_assignments (cfg_environment c) p3 = (p', Some (Inr True))"
    using assms by (auto simp: install_environment_def act_bind_Inr act_all.simps)
  then have "map_of (ps_environ p0) = Map.empty" "ps_creds p0 = ps_creds p" by (auto simp: clearenv_def)
  then show "map_of (ps_environ p') = container_environment c" "ps_creds p' = ps_creds p"
    using setenv_Inr [OF steps(1)] setenv_Inr [OF steps(2)] setenv_Inr [OF steps(3)] set_assignments_True [OF steps(4)]
    by (auto simp: container_environment_def)
qed

lemma keeps_write_rest [keeps_intros]: "keeps ps_creds (write_rest K n d bs)"
  by (induction K n d bs rule: write_rest.induct) (auto intro!: keeps_intros)

lemma keeps_walk_target [keeps_intros]: "keeps ps_creds (walk_target K d cs)"
  by (induction K d cs rule: walk_target.induct) (auto intro!: keeps_intros)

lemma keeps_custom_mount [keeps_intros]: "keeps ps_creds (custom_mount K merged m)"
  unfolding custom_mount_def open_mount_target_def bind_custom_def
  by (auto intro!: keeps_intros split: mc_mount_type.split)

lemma keeps_setup_root [keeps_intros]: "keeps ps_creds (setup_root K ctx)"
  unfolding setup_root_def Let_def setup_devices_def bind_device_def make_file_def make_directory_def mount_beneath_def
    mount_proc_def pivot_def setup_custom_mounts_def
  by (auto intro!: keeps_intros)

lemma keeps_init_pieces [keeps_intros]:
  "keeps ps_creds (configure_loopback K)" "keeps ps_creds (load_resolver_config K)"
  "keeps ps_creds (generate_identity_files K h r)" "keeps ps_creds (pass_barrier K b)"
  "keeps ps_creds (debug_traces K ctx)" "keeps ps_creds (announce_ready K b)"
  unfolding configure_loopback_def load_resolver_config_def read_resolver_def Let_def generate_identity_files_def
    write_generated_file_def pass_barrier_def debug_traces_def announce_ready_def
  by (auto intro!: keeps_intros split: option.split)

lemma keeps_close_descriptors [keeps_intros]:
  "keeps ps_creds (close_workload_descriptors K)" "keeps ps_environ (close_workload_descriptors K)"
  unfolding close_workload_descriptors_def by (auto intro!: keeps_intros)

lemma security_step_Inr:
  "security_step c f p = (q, Some (Inr u)) \<Longrightarrow> f (ps_creds p) = Some (ps_creds q) \<and> ps_environ q = ps_environ p"
  by (auto simp: security_step_def split: option.splits)

lemma exec_command_Executing:
  "exec_command K command p = (q, Some (Inr Executing)) \<Longrightarrow> ps_creds q = ps_creds p \<and> ps_environ q = ps_environ p"
  by (auto simp: exec_command_def act_catch_Inr act_bind_Inr sys_Inr)

lemma call_state: "call K c p = (q, r) \<Longrightarrow> ps_creds q = ps_creds p \<and> ps_environ q = ps_environ p"
  using keepsD [OF keeps_call(1)] keepsD [OF keeps_call(2)] by blast

lemma workload_state:
  assumes "workload K c p = (p', Some (Inr Executing))"
  obtains creds where "mc_security_prepare (k_sec K) (cfg_capability_mask c) (ps_creds p) = Some creds"
    "mc_security_apply (k_sec K) (k_lib K) (cfg_capability_mask c) (cfg_seccomp_denies c) creds = Some (ps_creds p')"
    "map_of (ps_environ p') = container_environment c"
proof -
  obtain q0 q1 q2 q3 q4 q5 q6 q7 q8 u0 u1 u2 u3 u4 u5 u7 u8 where
    q: "discard K (Sigprocmask []) p = (q0, Some (Inr u0))" "call K Setsid q0 = (q1, Some (Inr u1))"
      "call K (Chdir (c_str (cfg_workdir c))) q1 = (q2, Some (Inr u2))" "prepare_step K c q2 = (q3, Some (Inr u3))"
      "call K (Setresgid (cfg_group c)) q3 = (q4, Some (Inr u4))" "call K (Setresuid (cfg_user c)) q4 = (q5, Some (Inr u5))"
      "install_environment c q5 = (q6, Some (Inr True))" "apply_step K c q6 = (q7, Some (Inr u7))"
      "close_workload_descriptors K q7 = (q8, Some (Inr u8))" "exec_command K (command_of c) q8 = (p', Some (Inr Executing))"
    using assms by (auto simp: workload_def act_bind_Inr guard_exit_Executing command_of_def split: if_splits)
  have "ps_creds q0 = ps_creds p" by (rule keepsD [OF keeps_ignore [OF keeps_call(1)] q(1)])
  then have 2: "ps_creds q2 = ps_creds p" using call_state [OF q(2)] call_state [OF q(3)] by simp
  have 3: "mc_security_prepare (k_sec K) (cfg_capability_mask c) (ps_creds q2) = Some (ps_creds q3)"
    using security_step_Inr q(4) unfolding prepare_step_def by blast
  have 6: "ps_creds q6 = ps_creds q3" "map_of (ps_environ q6) = container_environment c"
    using install_environment_True [OF q(7)] call_state [OF q(5)] call_state [OF q(6)] by simp_all
  have 7: "mc_security_apply (k_sec K) (k_lib K) (cfg_capability_mask c) (cfg_seccomp_denies c) (ps_creds q6) = Some (ps_creds q7)"
      "ps_environ q7 = ps_environ q6"
    using security_step_Inr q(8) unfolding apply_step_def by blast+
  have "ps_creds p' = ps_creds q7" "ps_environ p' = ps_environ q7"
    using exec_command_Executing [OF q(10)] keepsD [OF keeps_close_descriptors(1) q(9)] keepsD [OF keeps_close_descriptors(2) q(9)]
    by simp_all
  then show thesis using that [of "ps_creds q3"] 2 3 6 7 by simp
qed

text \<open>What holds of a process that has come to execute its command, given the credentials it started with.\<close>

definition executes_with :: "(creds \<Rightarrow> process \<Rightarrow> bool) \<Rightarrow> ending action \<Rightarrow> bool" where
  "executes_with P m \<longleftrightarrow> (\<forall>p p'. m p = (p', Some (Inr Executing)) \<longrightarrow> P (ps_creds p) p')"

lemma executes_with_guard:
  assumes "keeps ps_creds m" "\<And>x. executes_with P (k x)"
  shows "executes_with P (guard_exit code m k)"
  using assms unfolding executes_with_def guard_exit_Executing by (metis keepsD)

lemma executes_with_bind:
  assumes "keeps ps_creds m" "\<And>x. executes_with P (k x)"
  shows "executes_with P (act_bind m k)"
  using assms unfolding executes_with_def act_bind_Inr by (metis keepsD)

lemma executes_with_if: "(b \<Longrightarrow> executes_with P m) \<Longrightarrow> (\<not> b \<Longrightarrow> executes_with P n) \<Longrightarrow> executes_with P (if b then m else n)"
  by simp

lemma executes_with_parent: "executes_with P (supervise_parent K child)"
  by (auto simp: executes_with_def supervise_parent_def act_bind_Inr split: option.splits)

lemmas executes_with_intros = executes_with_guard executes_with_bind executes_with_if executes_with_parent

lemma executes_with_child_main:
  assumes "executes_with P (workload K (cc_config ctx))"
  shows "executes_with P (child_main K ctx)"
  unfolding child_main_def supervise_def Let_def
  by (intro executes_with_intros assms keeps_intros) (auto intro!: keeps_intros)

definition locked_down :: "kernel \<Rightarrow> mc_run_config \<Rightarrow> creds \<Rightarrow> bool" where
  "locked_down K c cr \<longleftrightarrow>
     (let mask = cfg_capability_mask c in
      cr_effective cr = mask \<and> cr_permitted cr = mask \<and> cr_inheritable cr = mask \<and> cr_ambient cr = mask \<and>
      cr_groups cr = [] \<and> cr_securebits cr = 15 \<and> cr_no_new_privs cr \<and>
      cr_filter cr = install_seccomp (k_lib K) (cfg_seccomp_denies c) \<and> cr_filter cr \<noteq> None \<and>
      list_all (\<lambda>i. bit (cr_bounding cr) i \<longrightarrow> bit mask i \<or> k_sec K (SC_capbset_drop i) = EINVAL) [0..<41])"

lemma locked_down_after:
  assumes "mc_security_prepare (k_sec K) (cfg_capability_mask c) cr = Some cr'"
    "mc_security_apply (k_sec K) (k_lib K) (cfg_capability_mask c) (cfg_seccomp_denies c) cr' = Some cr''"
  shows "locked_down K c cr''"
  using security_prepare_bounds [OF assms(1)] security_apply_lockdown [OF assms(2)]
  unfolding locked_down_def Let_def list_all_iff
  by (elim conjE, intro conjI ballI) (assumption | simp)+

lemma workload_locked_down:
  "executes_with (\<lambda>_ p'. locked_down K c (ps_creds p') \<and> map_of (ps_environ p') = container_environment c) (workload K c)"
  unfolding executes_with_def
proof (intro allI impI)
  fix p p' assume "workload K c p = (p', Some (Inr Executing))"
  then obtain creds where "mc_security_prepare (k_sec K) (cfg_capability_mask c) (ps_creds p) = Some creds"
    "mc_security_apply (k_sec K) (k_lib K) (cfg_capability_mask c) (cfg_seccomp_denies c) creds = Some (ps_creds p')"
    "map_of (ps_environ p') = container_environment c"
    by (rule workload_state)
  then show "locked_down K c (ps_creds p') \<and> map_of (ps_environ p') = container_environment c"
    using locked_down_after by blast
qed

section \<open>A kernel that grants everything\<close>

definition granting :: "kernel \<Rightarrow> bool" where
  "granting K \<longleftrightarrow>
     (\<forall>h c. \<not> isl (k_call K h c)) \<and> (\<forall>h d. k_call K h (Read d 1) = Inr 1) \<and>
     (\<forall>h d s. k_call K h (Write d s) = Inr (int (length s))) \<and> (\<forall>h. k_call K h Fork = Inr 0) \<and> 0 < k_rounds K"

named_theorems succeeds_intros "actions that return normally"

definition succeeds :: "'a action \<Rightarrow> bool" where
  "succeeds m \<longleftrightarrow> (\<forall>p. \<exists>p' x. m p = (p', Some (Inr x)))"

lemma succeeds_pure [succeeds_intros]:
  "succeeds (act_return x)" "succeeds (act_lift (Inr x))" "succeeds (fetch_text K)" "succeeds (fetch_status K)"
  by (auto simp: succeeds_def act_defs)

lemma succeeds_sys [succeeds_intros]: "granting K \<Longrightarrow> succeeds (sys K c)"
  unfolding succeeds_def granting_def sys_def Let_def by (metis isl_def sum.exhaust_sel)

lemma succeeds_bind [succeeds_intros]: "succeeds m \<Longrightarrow> (\<And>x. succeeds (f x)) \<Longrightarrow> succeeds (act_bind m f)"
  unfolding succeeds_def act_bind_Inr by meson

lemma succeeds_catch [succeeds_intros]: "succeeds m \<Longrightarrow> succeeds (act_catch m f)"
  unfolding succeeds_def act_catch_Inr by meson

lemma succeeds_report [succeeds_intros]: "succeeds m \<Longrightarrow> succeeds (report label m)"
  unfolding succeeds_def report_Inr .

lemma succeeds_call [succeeds_intros]: "granting K \<Longrightarrow> succeeds (call K c)"
  by (auto simp: call_def intro!: succeeds_intros)

lemma succeeds_ignore [succeeds_intros]: "succeeds m \<Longrightarrow> succeeds (act_ignore m)"
  by (auto simp: act_ignore_def intro!: succeeds_intros)

lemma succeeds_all [succeeds_intros]: "(\<And>m. m \<in> set ms \<Longrightarrow> succeeds m) \<Longrightarrow> succeeds (act_all ms)"
  by (induction ms) (auto simp: act_all.simps intro!: succeeds_intros)

lemma succeeds_if [succeeds_intros]: "(b \<Longrightarrow> succeeds m) \<Longrightarrow> (\<not> b \<Longrightarrow> succeeds n) \<Longrightarrow> succeeds (if b then m else n)"
  by simp

lemma succeeds_path [succeeds_intros]:
  "length l + length r + 2 \<le> 4096 \<Longrightarrow> (\<And>x. x = l @ ''/'' @ r \<Longrightarrow> succeeds (f x)) \<Longrightarrow>
     succeeds (act_bind (act_lift (container_path l r)) f)"
  by (simp add: container_path_def act_bind_def act_lift_def succeeds_def)

lemma succeeds_walk_target [succeeds_intros]: "granting K \<Longrightarrow> succeeds (walk_target K d cs)"
  by (induction cs arbitrary: d) (auto intro!: succeeds_intros)

lemma succeeds_custom_mount [succeeds_intros]:
  "granting K \<Longrightarrow> \<forall>n. mnt_type m \<noteq> MC_MOUNT_OTHER n \<Longrightarrow> succeeds (custom_mount K merged m)"
  unfolding custom_mount_def open_mount_target_def bind_custom_def
  by (auto intro!: succeeds_intros split: mc_mount_type.split)

definition startable_context :: "child_context \<Rightarrow> bool" where
  "startable_context ctx \<longleftrightarrow>
     (let c = cc_config ctx; hostname = c_str (cfg_hostname c) in
      length (rp_merged (cc_paths ctx)) \<le> 4000 \<and> length (overlay_options ctx) < 12288 \<and> length hostname < 255 \<and>
      list_all (\<lambda>m. mnt_type m = MC_MOUNT_BIND \<or> mnt_type m = MC_MOUNT_TMPFS) (cfg_mounts c) \<and>
      list_all mc_valid_environment (map Some (cfg_environment c)))"

lemma succeeds_setup_root [succeeds_intros]:
  assumes "granting K" "startable_context ctx"
  shows "succeeds (setup_root K ctx)"
proof -
  let ?merged = "rp_merged (cc_paths ctx)"
  have len: "length ?merged \<le> 4000" "\<not> 12288 \<le> length (overlay_options ctx)"
    and types: "\<And>m. m \<in> set (cfg_mounts (cc_config ctx)) \<Longrightarrow> \<forall>n. mnt_type m \<noteq> MC_MOUNT_OTHER n"
    using assms(2) by (auto simp: startable_context_def Let_def list_all_iff)
  have "succeeds (setup_devices K ?merged)"
    unfolding setup_devices_def bind_device_def make_file_def make_directory_def
    using assms(1) len by (auto intro!: succeeds_intros)
  moreover have "succeeds (mount_proc K ?merged)" "succeeds (pivot K ?merged)"
    unfolding mount_proc_def pivot_def make_directory_def using assms(1) len by (auto intro!: succeeds_intros)
  moreover have "succeeds (mount_beneath K ?merged name c)" if "length name \<le> 8" for name c
    unfolding mount_beneath_def using assms(1) len that by (auto intro!: succeeds_intros)
  moreover have "succeeds (setup_custom_mounts K ctx)"
    unfolding setup_custom_mounts_def using assms(1) types by (auto intro!: succeeds_intros)
  ultimately show ?thesis
    unfolding setup_root_def Let_def using assms(1) len by (auto intro!: succeeds_intros)
qed

lemma succeeds_write_rest [succeeds_intros]: "granting K \<Longrightarrow> succeeds (write_rest K (k_rounds K) d bs)"
proof (cases bs)
  case (Cons b bs')
  assume K: "granting K"
  then obtain n where n: "k_rounds K = Suc n" by (auto simp: granting_def gr0_conv_Suc)
  have "sys K (Write d bs) p = (p\<lparr>ps_history := ps_history p @ [(Write d bs, Inr (int (length bs)))]\<rparr>, Some (Inr (int (length bs))))" for p
    using K by (simp add: sys_def granting_def Let_def)
  then show ?thesis by (simp add: n Cons succeeds_def act_bind_def act_catch_def act_return_def)
qed (auto intro!: succeeds_intros)

lemma succeeds_init_pieces [succeeds_intros]:
  assumes "granting K"
  shows "succeeds (configure_loopback K)" "succeeds (load_resolver_config K)" "succeeds (debug_traces K ctx)"
    "succeeds (close_workload_descriptors K)" "length h < 255 \<Longrightarrow> succeeds (generate_identity_files K h r)"
  unfolding configure_loopback_def load_resolver_config_def read_resolver_def Let_def debug_traces_def
    close_workload_descriptors_def generate_identity_files_def write_generated_file_def hosts_file_def
  using assms by (auto intro!: succeeds_intros split: option.split)

lemma succeeds_pass_barrier [succeeds_intros]: "granting K \<Longrightarrow> succeeds (pass_barrier K b)"
proof -
  assume K: "granting K"
  have "sys K (Read b 1) p = (p\<lparr>ps_history := ps_history p @ [(Read b 1, Inr 1)]\<rparr>, Some (Inr 1))" for p
    using K by (simp add: sys_def granting_def Let_def)
  then show ?thesis using succeeds_call [OF K] by (simp add: pass_barrier_def succeeds_def act_bind_def)
qed

lemma succeeds_announce_ready [succeeds_intros]: "granting K \<Longrightarrow> succeeds (announce_ready K b)"
proof -
  assume K: "granting K"
  have "sys K (Write b ''1'') p = (p\<lparr>ps_history := ps_history p @ [(Write b ''1'', Inr 1)]\<rparr>, Some (Inr 1))" for p
    using K by (simp add: sys_def granting_def Let_def)
  moreover have "succeeds (discard K (Close b))" using K by (intro succeeds_intros)
  ultimately show ?thesis by (simp add: announce_ready_def succeeds_def act_bind_def act_return_def)
qed

text \<open>Actions that come to execute the command.\<close>

definition starts :: "ending action \<Rightarrow> bool" where
  "starts m \<longleftrightarrow> (\<forall>p. \<exists>p'. m p = (p', Some (Inr Executing)))"

lemma starts_guard: "succeeds m \<Longrightarrow> (\<And>x. starts (k x)) \<Longrightarrow> starts (guard_exit code m k)"
  unfolding succeeds_def starts_def guard_exit_Executing by meson

lemma starts_yield: "(\<And>p. \<exists>p'. m p = (p', Some (Inr x))) \<Longrightarrow> starts (k x) \<Longrightarrow> starts (guard_exit code m k)"
  unfolding starts_def guard_exit_Executing by meson

lemma starts_bind: "succeeds m \<Longrightarrow> (\<And>x. starts (k x)) \<Longrightarrow> starts (act_bind m k)"
  unfolding succeeds_def starts_def act_bind_Inr by meson

lemma starts_exec: "granting K \<Longrightarrow> starts (exec_command K command)"
  using succeeds_sys [of K "Execvp command"]
  unfolding exec_command_def starts_def succeeds_def act_catch_Inr act_bind_Inr report_Inr act_return_Inr by metis

lemma install_environment_complete:
  assumes "list_all mc_valid_environment (map Some (cfg_environment c))"
  shows "\<exists>p'. install_environment c p = (p', Some (Inr True))"
proof -
  have set: "\<exists>p'. setenv n v p = (p', Some (Inr ()))" if "n \<noteq> []" "CHR ''='' \<notin> set n" for n v p
    using that by (simp add: setenv_def)
  have key: "\<exists>equals. strchr a CHR ''='' = Some equals \<and> take (length a - length equals) a \<noteq> [] \<and>
      CHR ''='' \<notin> set (take (length a - length equals) a)" if valid: "mc_valid_environment (Some a)" for a
  proof -
    obtain equals where e: "strchr a CHR ''='' = Some equals" "length equals \<noteq> length a"
      using valid by (cases "strchr a CHR ''=''") (auto split: if_splits)
    have t: "take (length a - length equals) a = takeWhile (\<lambda>c. c \<noteq> CHR ''='') a"
      using strchr_split [OF e(1)] by (simp add: split_assignment_def)
    have "length equals < length a"
      using e by (auto simp: strchr_eq split: if_splits) (metis le_neq_implies_less length_dropWhile_le)
    then show ?thesis using e t by (auto dest: set_takeWhileD)
  qed
  have rest: "list_all mc_valid_environment (map Some es) \<Longrightarrow> \<exists>p'. set_assignments es p = (p', Some (Inr True))" for es p
  proof (induction es arbitrary: p)
    case (Cons a es)
    then obtain equals where e: "strchr a CHR ''='' = Some equals" "take (length a - length equals) a \<noteq> []"
      "CHR ''='' \<notin> set (take (length a - length equals) a)" using key [of a] by auto
    obtain q where "setenv (take (length a - length equals) a) (tl equals) p = (q, Some (Inr ()))" using set e by blast
    moreover obtain p' where "set_assignments es q = (p', Some (Inr True))" using Cons by auto
    ultimately show ?case using e(1) by (simp add: act_bind_def)
  qed simp
  have "succeeds (act_all [clearenv, setenv ''PATH'' default_path, setenv ''HOME'' (if cfg_user c = 0 then ''/root'' else ''/''),
                 setenv ''HOSTNAME'' (c_str (cfg_hostname c))])"
    by (intro succeeds_all) (auto simp: succeeds_def clearenv_def setenv_def)
  then show ?thesis using rest [OF assms] unfolding install_environment_def succeeds_def act_bind_Inr by meson
qed

text \<open>On a kernel that grants every call, a container with a well-formed configuration gets to execute its
  command.\<close>

lemma succeeds_lockdown:
  assumes K: "granting K" "k_sec K = (\<lambda>c. 0)" and c: "install_seccomp (k_lib K) (cfg_seccomp_denies c) \<noteq> None"
  shows "succeeds (prepare_step K c)" "succeeds (apply_step K c)"
proof -
  have drop: "drop_bounding (\<lambda>c. 0) m ns cr \<noteq> None" for m ns cr by (induction ns arbitrary: cr) simp_all
  have raise: "raise_ambient (\<lambda>c. 0) m ns cr \<noteq> None" for m ns cr by (induction ns arbitrary: cr) (simp_all add: sec_do_def)
  have "mc_security_prepare (k_sec K) m cr \<noteq> None" for m cr
    by (simp add: K mc_security_prepare_def sec_do_def bind_eq_None_conv drop del: upt_conv_Cons upt_rec)
  moreover have "mc_security_apply (k_sec K) (k_lib K) m (cfg_seccomp_denies c) cr \<noteq> None" for m cr
    using c by (simp add: K mc_security_apply_def Let_def sec_do_def bind_eq_None_conv raise del: upt_conv_Cons upt_rec)
  ultimately show "succeeds (prepare_step K c)" "succeeds (apply_step K c)"
    unfolding succeeds_def prepare_step_def apply_step_def security_step_def by (auto split: option.splits)
qed

lemma starts_workload:
  assumes K: "granting K" "k_sec K = (\<lambda>c. 0)" and c: "install_seccomp (k_lib K) (cfg_seccomp_denies c) \<noteq> None"
    "list_all mc_valid_environment (map Some (cfg_environment c))"
  shows "starts (workload K c)"
proof -
  note steps = succeeds_lockdown [OF K c(1)]
  let ?after = "\<lambda>complete. if \<not> complete then act_return Faulted
     else guard_exit 125 (report ''security policy'' (apply_step K c)) (\<lambda>_.
       act_bind (close_workload_descriptors K) (\<lambda>_.
       exec_command K (case cfg_command c of None \<Rightarrow> [] | Some command \<Rightarrow> command)))"
  have "starts (?after True)" using K steps by (auto intro!: starts_guard starts_bind starts_exec succeeds_intros)
  define tail where "tail = guard_exit 125 (report ''environment'' (install_environment c)) ?after"
  then have "starts tail" unfolding tail_def using \<open>starts (?after True)\<close>
    by (intro starts_yield [of _ True]) (simp_all only: report_Inr install_environment_complete [OF c(2)])
  then show ?thesis unfolding workload_def tail_def [symmetric]
    using K steps by (intro starts_guard starts_bind succeeds_intros)
qed

lemma starts_child_main:
  assumes "granting K" "k_sec K = (\<lambda>c. 0)" "startable_context ctx"
    "install_seccomp (k_lib K) (cfg_seccomp_denies (cc_config ctx)) \<noteq> None"
  shows "starts (child_main K ctx)"
proof -
  let ?c = "cc_config ctx"
  have "starts (workload K ?c)"
    using assms by (intro starts_workload) (auto simp: startable_context_def Let_def)
  moreover have "sys K Fork p = (p\<lparr>ps_history := ps_history p @ [(Fork, Inr 0)]\<rparr>, Some (Inr 0))" for p
    using assms(1) by (simp add: sys_def granting_def Let_def)
  ultimately have "starts (guard_exit 125 (sys K Fork) (\<lambda>child. if child = 0 then workload K ?c else supervise_parent K child))"
    by (simp add: starts_def guard_exit_def)
  then have "starts (supervise K ?c)" unfolding supervise_def by (rule starts_guard [OF succeeds_call [OF assms(1)]])
  moreover have "length (c_str (cfg_hostname ?c)) < 255" using assms(3) by (simp add: startable_context_def Let_def)
  ultimately show ?thesis unfolding child_main_def Let_def using assms
    by (intro starts_guard starts_bind succeeds_intros) (auto intro!: succeeds_intros)
qed


lemma example_kernel_granting: "granting example_kernel"
  by (auto simp: granting_def example_kernel_def split: kcall.split)


section \<open>Properties of the supervisor\<close>

text \<open>The signals that were received for the workload, and the ones that were sent to its process group.\<close>

definition received_signals :: "history \<Rightarrow> int list" where
  "received_signals h =
     concat (map (\<lambda>(c, r). case c of Sigwaitinfo signals \<Rightarrow> (case r of Inl e \<Rightarrow> [] | Inr s \<Rightarrow> if s = SIGCHLD then [] else [s]) | _ \<Rightarrow> []) h)"

definition sent_signals :: "int \<Rightarrow> history \<Rightarrow> int list" where
  "sent_signals child h =
     concat (map (\<lambda>(c, r). case c of Kill target s \<Rightarrow> if target = - child then [s] else [] | _ \<Rightarrow> []) h)"

lemma signals_append [simp]:
  "received_signals (a @ b) = received_signals a @ received_signals b"
  "sent_signals child (a @ b) = sent_signals child a @ sent_signals child b"
  "received_signals [] = []" "sent_signals child [] = []"
  by (simp_all add: received_signals_def sent_signals_def)

lemma signals_wait [simp]:
  "received_signals ((Sigwaitinfo g, Inr s) # h) = (if s = SIGCHLD then [] else [s]) @ received_signals h"
  "sent_signals child ((Sigwaitinfo g, r) # h) = sent_signals child h"
  by (simp_all add: received_signals_def sent_signals_def)

text \<open>The workload was reaped, with this status.\<close>

definition workload_reaped :: "kernel \<Rightarrow> int \<Rightarrow> history \<Rightarrow> history \<Rightarrow> wait_status \<Rightarrow> bool" where
  "workload_reaped K child h new s \<longleftrightarrow>
     (\<exists>h1 h2. new = h1 @ (Waitpid (- 1) True, Inr child) # h2 \<and>
        s = k_status K (h @ h1 @ [(Waitpid (- 1) True, Inr child)]))"

lemma workload_reaped_append:
  "workload_reaped K child (h @ a) b s \<Longrightarrow> workload_reaped K child h (a @ b) s"
  "workload_reaped K child h a s \<Longrightarrow> workload_reaped K child h (a @ b) s"
  unfolding workload_reaped_def by (metis append.assoc, metis append.assoc append_Cons)

definition waits_only :: "history \<Rightarrow> bool" where
  "waits_only h \<longleftrightarrow> list_all (\<lambda>(c, r). \<exists>b. c = Waitpid (- 1) b) h"

lemma waits_only_signals: "waits_only h \<Longrightarrow> received_signals h = [] \<and> sent_signals child h = []"
  unfolding waits_only_def by (induction h) (auto simp: received_signals_def sent_signals_def)

lemma waitpid_step:
  "act_catch (sys K (Waitpid t b)) (\<lambda>e. act_return (- 1)) p =
     (p\<lparr>ps_history := ps_history p @ [(Waitpid t b, k_call K (ps_history p) (Waitpid t b))]\<rparr>,
      Some (Inr (case k_call K (ps_history p) (Waitpid t b) of Inl e \<Rightarrow> - 1 | Inr v \<Rightarrow> v)))"
  by (simp add: act_catch_def sys_def act_return_def Let_def split: sum.split)

lemma reap_result:
  "reap K n child seen p = (p', Some (Inr r)) \<Longrightarrow>
     \<exists>new. ps_history p' = ps_history p @ new \<and> waits_only new \<and>
       (r = seen \<or> (\<exists>s. r = Some s \<and> workload_reaped K child (ps_history p) new s))"
proof (induction n arbitrary: p seen)
  case (Suc n)
  let ?w = "Waitpid (- 1) True"
  define res where "res = k_call K (ps_history p) ?w"
  let ?q = "p\<lparr>ps_history := ps_history p @ [(?w, res)]\<rparr>"
  show ?case
  proof (cases "\<exists>v. res = Inr v \<and> v > 0")
    case False
    then have "p' = ?q \<and> r = seen"
      using Suc.prems by (cases res) (auto simp: act_bind_def waitpid_step res_def [symmetric])
    then show ?thesis by (auto simp: waits_only_def)
  next
    case True
    then obtain v where v: "res = Inr v" "v > 0" by blast
    let ?seen = "if v = child then Some (k_status K (ps_history ?q)) else seen"
    have "reap K n child ?seen ?q = (p', Some (Inr r))"
      using Suc.prems v by (auto simp: act_bind_def waitpid_step res_def [symmetric] fetch_status_def)
    then obtain new where new: "ps_history p' = ps_history ?q @ new" "waits_only new"
        "r = ?seen \<or> (\<exists>s. r = Some s \<and> workload_reaped K child (ps_history ?q) new s)"
      using Suc.IH by blast
    have now: "v = child \<Longrightarrow> workload_reaped K child (ps_history p) ((?w, res) # new) (k_status K (ps_history ?q))"
      unfolding workload_reaped_def using v by (intro exI [of _ "[]"] exI [of _ new]) simp
    have later: "workload_reaped K child (ps_history ?q) new s \<Longrightarrow> workload_reaped K child (ps_history p) ((?w, res) # new) s" for s
      using workload_reaped_append(1) [of K child "ps_history p" "[(?w, res)]" new s] by simp
    show ?thesis
    proof (intro exI [of _ "(?w, res) # new"] conjI)
      show "waits_only ((?w, res) # new)" using new(2) by (auto simp: waits_only_def)
      show "r = seen \<or> (\<exists>s. r = Some s \<and> workload_reaped K child (ps_history p) ((?w, res) # new) s)"
        using new(3) now later by (cases "v = child") auto
    qed (use new in simp)
  qed
qed (simp add: act_stuck_def)

lemma discard_step: "discard K c p = (p\<lparr>ps_history := ps_history p @ [(c, k_call K (ps_history p) c)]\<rparr>, Some (Inr ()))"
  by (simp add: act_ignore_def call_def act_catch_def act_bind_def sys_def act_return_def Let_def split: sum.split)

lemma sigwait_step:
  "act_catch (act_bind (sys K c) (\<lambda>s. act_return (Inr s))) (\<lambda>e. act_return (Inl e)) p =
     (p\<lparr>ps_history := ps_history p @ [(c, k_call K (ps_history p) c)]\<rparr>, Some (Inr (k_call K (ps_history p) c)))"
  by (simp add: act_catch_def act_bind_def sys_def act_return_def Let_def split: sum.split)

definition loop_result :: "kernel \<Rightarrow> int \<Rightarrow> process \<Rightarrow> process \<Rightarrow> wait_status option \<Rightarrow> bool" where
  "loop_result K child p p' r \<longleftrightarrow>
     (\<exists>new. ps_history p' = ps_history p @ new \<and>
        sent_signals child new = received_signals new @ (case r of None \<Rightarrow> [9] | Some s \<Rightarrow> []) \<and>
        (case r of None \<Rightarrow> True | Some s \<Rightarrow> workload_reaped K child (ps_history p) new s))"

lemma loop_result_step:
  assumes "loop_result K child q p' r" "ps_history q = ps_history p @ new" "sent_signals child new = received_signals new"
  shows "loop_result K child p p' r"
proof -
  obtain new' where "ps_history p' = ps_history q @ new'"
      "sent_signals child new' = received_signals new' @ (case r of None \<Rightarrow> [9] | Some s \<Rightarrow> [])"
      "case r of None \<Rightarrow> True | Some s \<Rightarrow> workload_reaped K child (ps_history q) new' s"
    using assms(1) unfolding loop_result_def by blast
  then show ?thesis unfolding loop_result_def using assms(2,3)
    by (intro exI [of _ "new @ new'"]) (auto split: option.splits intro: workload_reaped_append(1))
qed

lemma supervise_loop_result:
  "supervise_loop K n child p = (p', Some (Inr r)) \<Longrightarrow> loop_result K child p p' r"
proof (induction n arbitrary: p)
  case (Suc n)
  let ?w = "Sigwaitinfo supervised_signals"
  define res where "res = k_call K (ps_history p) ?w"
  define q where "q = p\<lparr>ps_history := ps_history p @ [(?w, res)]\<rparr>"
  have qh: "ps_history q = ps_history p @ [(?w, res)]" by (simp add: q_def)
  note run = Suc.prems [unfolded supervise_loop.simps act_bind_def [of "act_catch _ _"] sigwait_step, folded res_def, folded q_def]
  show ?case
  proof (cases res)
    case (Inl e)
    show ?thesis
    proof (cases "e = EINTR")
      case True
      then have "loop_result K child q p' r" using run Inl Suc.IH by simp
      then show ?thesis by (rule loop_result_step [OF _ qh]) (simp add: Inl sent_signals_def received_signals_def)
    next
      case False
      then have "r = None" "ps_history p' = ps_history p @ [(?w, res), (Kill (- child) 9, k_call K (ps_history q) (Kill (- child) 9))]"
        using run Inl by (auto simp: act_bind_def discard_step act_return_def qh)
      then show ?thesis unfolding loop_result_def by (simp add: Inl sent_signals_def received_signals_def)
    qed
  next
    case (Inr s)
    show ?thesis
    proof (cases "s = SIGCHLD")
      case False
      let ?q = "q\<lparr>ps_history := ps_history q @ [(Kill (- child) s, k_call K (ps_history q) (Kill (- child) s))]\<rparr>"
      have "supervise_loop K n child ?q = (p', Some (Inr r))"
        using run Inr False by (simp add: act_bind_def discard_step)
      then have "loop_result K child ?q p' r" by (rule Suc.IH)
      then show ?thesis
        by (rule loop_result_step [where new = "[(?w, res), (Kill (- child) s, k_call K (ps_history q) (Kill (- child) s))]"])
           (simp_all add: qh Inr False sent_signals_def received_signals_def)
    next
      case True
      obtain q' seen where reap: "reap K (k_rounds K) child None q = (q', Some (Inr seen))"
        and rest: "(case seen of None \<Rightarrow> supervise_loop K n child | Some status \<Rightarrow> act_return (Some status)) q' = (p', Some (Inr r))"
        using run Inr True by (auto simp: act_bind_Inr)
      obtain new where new: "ps_history q' = ps_history q @ new" "waits_only new"
          "seen = None \<or> (\<exists>s. seen = Some s \<and> workload_reaped K child (ps_history q) new s)"
        using reap_result [OF reap] by blast
      have quiet: "sent_signals child ((?w, res) # new) = received_signals ((?w, res) # new)"
        using waits_only_signals [OF new(2), of child] Inr True by simp
      have hist: "ps_history q' = ps_history p @ (?w, res) # new" using new(1) qh by simp
      show ?thesis
      proof (cases seen)
        case None
        then have "loop_result K child q' p' r" using rest Suc.IH by simp
        then show ?thesis by (rule loop_result_step [OF _ hist quiet])
      next
        case (Some status)
        then have "p' = q'" "r = Some status" using rest by simp_all
        moreover have "workload_reaped K child (ps_history p) ((?w, res) # new) status"
          using new(3) Some workload_reaped_append(1) [of K child "ps_history p" "[(?w, res)]" new status] qh by simp
        moreover have "received_signals ((?w, res) # new) = []"
          using waits_only_signals [OF new(2), of child] Inr True by simp
        ultimately show ?thesis unfolding loop_result_def using hist quiet by simp
      qed
    qed
  qed
qed (simp add: act_stuck_def)

lemma drain_result:
  "drain K n p = (p', Some (Inr u)) \<Longrightarrow> \<exists>new. ps_history p' = ps_history p @ new \<and> waits_only new \<and>
     (\<exists>r. last new = (Waitpid (- 1) False, r) \<and> new \<noteq> [] \<and> (\<forall>v. r = Inr v \<longrightarrow> v \<le> 0))"
proof (induction n arbitrary: p)
  case (Suc n)
  let ?w = "Waitpid (- 1) False"
  define res where "res = k_call K (ps_history p) ?w"
  let ?q = "p\<lparr>ps_history := ps_history p @ [(?w, res)]\<rparr>"
  show ?case
  proof (cases "\<exists>v. res = Inr v \<and> v > 0")
    case False
    then have "p' = ?q" using Suc.prems by (cases res) (auto simp: act_bind_def waitpid_step res_def [symmetric])
    then show ?thesis using False by (intro exI [of _ "[(?w, res)]"]) (auto simp: waits_only_def not_less)
  next
    case True
    then have "drain K n ?q = (p', Some (Inr u))"
      using Suc.prems by (auto simp: act_bind_def waitpid_step res_def [symmetric])
    from Suc.IH [OF this] obtain new where "ps_history p' = ps_history ?q @ new" "waits_only new"
        "\<exists>r. last new = (?w, r) \<and> new \<noteq> [] \<and> (\<forall>v. r = Inr v \<longrightarrow> v \<le> 0)" by blast
    then show ?thesis by (intro exI [of _ "(?w, res) # new"]) (auto simp: waits_only_def)
  qed
qed (simp add: act_stuck_def)

text \<open>
  C25: When the supervisor ends with a code, either waiting for signals failed, in which case the workload's
  process group was killed and the code is 125, or the workload was reaped and the code is computed from
  the status of that very process, whatever other processes were reaped meanwhile; in the latter case
  every process of the container was then sent \<open>SIGKILL\<close>. Every signal received for the container has been
  passed on to the workload's process group, in order, and no other.
\<close>

theorem supervise_status:
  assumes "supervise_parent K child p = (p', Some (Inr (Exit n)))" "child > 1"
  shows "\<exists>new. ps_history p' = ps_history p @ new \<and>
    (n = 125 \<and> sent_signals child new = received_signals new @ [9] \<or>
     (\<exists>s. workload_reaped K child (ps_history p) new s \<and> n = status_code s \<and>
       sent_signals child new = received_signals new \<and> Kill (- 1) 9 \<in> fst ` set new))"
proof -
  obtain q r where loop: "supervise_loop K (k_rounds K) child p = (q, Some (Inr r))"
    and rest: "(case r of None \<Rightarrow> act_return (Exit 125)
      | Some status \<Rightarrow> act_bind (discard K (Kill (- 1) 9)) (\<lambda>_. act_bind (drain K (k_rounds K)) (\<lambda>_.
          act_return (Exit (status_code status))))) q = (p', Some (Inr (Exit n)))"
    using assms(1) unfolding supervise_parent_def act_bind_Inr by blast
  obtain new where new: "ps_history q = ps_history p @ new"
      "sent_signals child new = received_signals new @ (case r of None \<Rightarrow> [9] | Some s \<Rightarrow> [])"
      "case r of None \<Rightarrow> True | Some s \<Rightarrow> workload_reaped K child (ps_history p) new s"
    using supervise_loop_result [OF loop] unfolding loop_result_def by blast
  show ?thesis
  proof (cases r)
    case None
    then show ?thesis using rest new by auto
  next
    case (Some s)
    let ?k = "(Kill (- 1) 9, k_call K (ps_history q) (Kill (- 1) 9))"
    obtain u where drain: "drain K (k_rounds K) (q\<lparr>ps_history := ps_history q @ [?k]\<rparr>) = (p', Some (Inr u))" and n: "n = status_code s"
      using rest Some by (auto simp: act_bind_Inr discard_step)
    obtain new' where new': "ps_history p' = ps_history q @ ?k # new'" "waits_only new'"
      using drain_result [OF drain] by auto
    have "sent_signals child (?k # new') = []" "received_signals (?k # new') = []"
      using waits_only_signals [OF new'(2), of child] assms(2) by (simp_all add: sent_signals_def received_signals_def)
    then show ?thesis using new new' Some n
      by (intro exI [of _ "new @ ?k # new'"]) (auto intro: workload_reaped_append(2))
  qed
qed

definition example_reaping :: kernel where
  "example_reaping = example_kernel\<lparr>
     k_call := \<lambda>h c. (case c of
        Sigwaitinfo signals \<Rightarrow> Inr (if h = [] then 15 else 17)
      | Waitpid target nohang \<Rightarrow> if \<not> nohang then Inl 10 else if (c, Inr 7) \<in> set h then Inr 0 else Inr 7
      | _ \<Rightarrow> Inr 0),
     k_status := \<lambda>h. WIFSIGNALED 15\<rparr>"

theorem supervise_status_witness:
  "\<exists>p' s. supervise_parent example_reaping 7 example_process = (p', Some (Inr (Exit 143))) \<and>
     workload_reaped example_reaping 7 [] (ps_history p') s \<and> 143 = status_code s \<and>
     sent_signals 7 (ps_history p') = received_signals (ps_history p')"
proof -
  have "\<exists>p'. supervise_parent example_reaping 7 example_process = (p', Some (Inr (Exit 143)))"
    by (simp add: supervise_parent_def example_reaping_def example_kernel_def example_process_def eval_nat_numeral
        act_bind_def sigwait_step discard_step waitpid_step fetch_status_def act_return_def status_code_def)
  then obtain p' where p': "supervise_parent example_reaping 7 example_process = (p', Some (Inr (Exit 143)))" by blast
  show ?thesis using supervise_status [OF p'] p' by (simp add: example_process_def) blast
qed

end
