(* ===== verification/MC_Exec.thy ===== *)
theory MC_Exec
  imports MC_Init MC_Lifecycle
begin

text \<open>
  \<open>src/linux/exec.c\<close>: running another command in a running container. The caller opens the namespaces of the
  container's init process, a worker joins the cgroup and the namespaces, and a child of the worker changes
  the root directory, locks itself down and executes the command. The results are that the command is
  executed only inside all namespaces of the recorded init process and with the lock-down of the
  container's configuration.
\<close>

section \<open>Namespaces\<close>

record namespace_set =
  ns_mount :: int
  ns_uts :: int
  ns_ipc :: int
  ns_network :: int
  ns_cgroup :: int
  ns_pid :: int
  ns_user :: int
  ns_root :: int

definition namespace_path :: "int \<Rightarrow> string \<Rightarrow> string" where
  "namespace_path pid name = ''/proc/'' @ show_int pid @ ''/ns/'' @ name"

text \<open>A descriptor, or -1; with the errno of the last failure.\<close>

definition open_or_errno :: "kernel \<Rightarrow> string \<Rightarrow> u32 \<Rightarrow> errno \<Rightarrow> (int \<times> errno) action" where
  "open_or_errno K path flags seen =
     act_catch (act_bind (sys K (Open path flags 0)) (\<lambda>descriptor. act_return (descriptor, seen)))
       (\<lambda>e. act_return (- 1, e))"

definition open_namespace :: "kernel \<Rightarrow> int \<Rightarrow> string \<Rightarrow> errno \<Rightarrow> (int \<times> errno) action" where
  "open_namespace K pid name seen =
     (if length (namespace_path pid name) \<ge> PATH_MAX then act_return (- 1, ENAMETOOLONG)
      else open_or_errno K (namespace_path pid name) (O_RDONLY OR O_CLOEXEC) seen)"

definition open_namespaces :: "kernel \<Rightarrow> int \<Rightarrow> (namespace_set \<times> errno) action" where
  "open_namespaces K pid =
     act_bind (open_namespace K pid ''mnt'' 0) (\<lambda>(mnt, e).
     act_bind (open_namespace K pid ''uts'' e) (\<lambda>(uts, e).
     act_bind (open_namespace K pid ''ipc'' e) (\<lambda>(ipc, e).
     act_bind (open_namespace K pid ''net'' e) (\<lambda>(net, e).
     act_bind (open_namespace K pid ''cgroup'' e) (\<lambda>(cgroup, e).
     act_bind (open_namespace K pid ''pid'' e) (\<lambda>(pid_ns, e).
     act_bind (open_namespace K pid ''user'' e) (\<lambda>(user, e).
     act_bind (open_or_errno K (snprintf_buf PATH_MAX (''/proc/'' @ show_int pid @ ''/root''))
                 (O_RDONLY OR O_DIRECTORY OR O_CLOEXEC) e) (\<lambda>(root, e).
       act_return (\<lparr>ns_mount = mnt, ns_uts = uts, ns_ipc = ipc, ns_network = net, ns_cgroup = cgroup,
                    ns_pid = pid_ns, ns_user = user, ns_root = root\<rparr>, e)))))))))"

definition descriptors :: "namespace_set \<Rightarrow> int list" where
  "descriptors s = [ns_mount s, ns_uts s, ns_ipc s, ns_network s, ns_cgroup s, ns_pid s, ns_user s, ns_root s]"

definition close_namespaces :: "kernel \<Rightarrow> namespace_set \<Rightarrow> unit action" where
  "close_namespaces K s = act_all (map (\<lambda>d. if d \<ge> 0 then discard K (Close d) else act_return ()) (descriptors s))"

section \<open>The worker\<close>

fun exec_assignments :: "string list \<Rightarrow> unit action" where
  "exec_assignments [] = act_return ()"
| "exec_assignments (a # rest) =
     (case strchr a CHR ''='' of
        None \<Rightarrow> act_fail EINVAL
      | Some equals \<Rightarrow>
          act_bind (setenv (take (length a - length equals) a) (tl equals)) (\<lambda>_. exec_assignments rest))"

definition exec_environment :: "mc_run_config \<Rightarrow> unit action" where
  "exec_environment c =
     act_bind
       (act_all [clearenv, setenv ''PATH'' default_path, setenv ''HOME'' (if cfg_user c = 0 then ''/root'' else ''/''),
                 setenv ''HOSTNAME'' (c_str (cfg_hostname c))])
       (\<lambda>_. exec_assignments (cfg_environment c))"

definition move_to_cgroup :: "kernel \<Rightarrow> string \<Rightarrow> unit action" where
  "move_to_cgroup K cgroup =
     (if length (cgroup @ ''/cgroup.procs'') \<ge> PATH_MAX then act_fail ENAMETOOLONG
      else act_bind (sys K Getpid) (\<lambda>pid.
        act_bind (sys K (Open (cgroup @ ''/cgroup.procs'') (O_WRONLY OR O_CLOEXEC) 0)) (\<lambda>descriptor.
        act_bind
          (act_catch
             (act_bind (sys K (Write descriptor (show_int pid))) (\<lambda>n.
                if n \<noteq> int (length (show_int pid)) then act_stale K else act_return ()))
             (\<lambda>e. act_bind (discard K (Close descriptor)) (\<lambda>_. act_fail e)))
          (\<lambda>_. call K (Close descriptor)))))"

definition enter :: "kernel \<Rightarrow> int \<Rightarrow> u64 \<Rightarrow> string \<Rightarrow> unit action" where
  "enter K descriptor kind label = report (''setns '' @ label) (call K (Setns descriptor (ucast kind)))"

text \<open>The child that becomes the command.\<close>

definition exec_child :: "kernel \<Rightarrow> namespace_set \<Rightarrow> mc_run_config \<Rightarrow> string list \<Rightarrow> ending action" where
  "exec_child K s c command =
     guard_exit 125 (report ''enter root''
       (act_all [call K (Fchdir (ns_root s)), call K (Chroot ''.''), call K (Chdir (c_str (cfg_workdir c)))])) (\<lambda>_.
     guard_exit 125 (report ''security preparation'' (prepare_step K c)) (\<lambda>_.
     guard_exit 125 (report ''group'' (call K (Setresgid (cfg_group c)))) (\<lambda>_.
     guard_exit 125 (report ''user'' (call K (Setresuid (cfg_user c)))) (\<lambda>_.
     guard_exit 125 (report ''environment'' (exec_environment c)) (\<lambda>_.
     guard_exit 125 (report ''security policy'' (apply_step K c)) (\<lambda>_.
     act_bind (close_workload_descriptors K) (\<lambda>_.
     act_catch (act_bind (sys K (Execvp command)) (\<lambda>_. act_return Executing))
       (\<lambda>e. act_return (Exit (if e = ENOENT then 127 else 126))))))))))"

text \<open>Waiting for a child, retried on \<open>EINTR\<close>; \<open>None\<close> when it fails otherwise.\<close>

fun wait_child :: "kernel \<Rightarrow> nat \<Rightarrow> int \<Rightarrow> wait_status option action" where
  "wait_child K 0 child = act_stuck"
| "wait_child K (Suc n) child =
     act_bind (act_catch (act_bind (sys K (Waitpid child False)) (\<lambda>v. act_return (Inr v))) (\<lambda>e. act_return (Inl e)))
       (\<lambda>r. case r of
          Inl e \<Rightarrow> if e = EINTR then wait_child K n child else act_return None
        | Inr v \<Rightarrow> act_bind (fetch_status K) (\<lambda>status. act_return (Some status)))"

definition exec_worker :: "kernel \<Rightarrow> namespace_set \<Rightarrow> string \<Rightarrow> mc_run_config \<Rightarrow> string list \<Rightarrow> ending action" where
  "exec_worker K s cgroup c command =
     guard_exit 125 (if k_getenv K ''MC_SKIP_CGROUP'' = None then report ''cgroup'' (move_to_cgroup K cgroup) else act_return ()) (\<lambda>_.
     guard_exit 125 (report ''clear groups'' (call K Setgroups)) (\<lambda>_.
     guard_exit 125 (enter K (ns_cgroup s) CLONE_NEWCGROUP ''cgroup'') (\<lambda>_.
     guard_exit 125 (enter K (ns_ipc s) CLONE_NEWIPC ''ipc'') (\<lambda>_.
     guard_exit 125 (enter K (ns_uts s) CLONE_NEWUTS ''uts'') (\<lambda>_.
     guard_exit 125 (enter K (ns_network s) CLONE_NEWNET ''net'') (\<lambda>_.
     guard_exit 125 (enter K (ns_mount s) CLONE_NEWNS ''mnt'') (\<lambda>_.
     guard_exit 125 (enter K (ns_pid s) CLONE_NEWPID ''pid'') (\<lambda>_.
     guard_exit 125 (enter K (ns_user s) CLONE_NEWUSER ''user'') (\<lambda>_.
     guard_exit 125 (sys K Fork) (\<lambda>child.
       if child = 0 then exec_child K s c command
       else act_bind (wait_child K (k_rounds K) child) (\<lambda>status.
         act_return (Exit (case status of None \<Rightarrow> 125 | Some s \<Rightarrow> status_code s)))))))))))))"

section \<open>The caller\<close>

text \<open>The worker is a process of its own; the caller returns a code or an error. When waiting for the
  worker fails, the code returns without setting the error.\<close>

datatype exec_outcome = Worker ending | Returned "mc_error + int"

definition exec_error :: "errno \<Rightarrow> string \<Rightarrow> string \<Rightarrow> exec_outcome" where
  "exec_error e cid msg = Returned (Inl (mk_error MC_EXIT_RUNTIME e ''exec-container'' (Some cid) msg))"

definition exec_in_container ::
  "kernel \<Rightarrow> string \<Rightarrow> int \<Rightarrow> string \<Rightarrow> mc_run_config \<Rightarrow> string list \<Rightarrow> exec_outcome action" where
  "exec_in_container K cid init_pid cgroup c command =
     act_bind (open_namespaces K init_pid) (\<lambda>(s, e).
       if list_ex (\<lambda>d. d < 0) (descriptors s)
       then act_bind (close_namespaces K s) (\<lambda>_. act_return (exec_error e cid ''cannot open container namespace identity''))
       else
         act_bind (act_catch (act_bind (sys K Fork) (\<lambda>v. act_return (Inr v))) (\<lambda>e. act_return (Inl e))) (\<lambda>r.
           if r = Inr 0 then act_bind (exec_worker K s cgroup c command) (\<lambda>ending. act_return (Worker ending))
           else act_bind (close_namespaces K s) (\<lambda>_.
             case r of
               Inl e \<Rightarrow> act_return (exec_error e cid ''cannot fork namespace worker'')
             | Inr worker \<Rightarrow> act_bind (wait_child K (k_rounds K) worker) (\<lambda>status.
                 act_return (Returned (case status of
                     None \<Rightarrow> Inl no_error
                   | Some (WIFEXITED n) \<Rightarrow> Inr (int n)
                   | Some (WIFSIGNALED n) \<Rightarrow> Inr (128 + int n)
                   | Some WOTHER \<Rightarrow> Inr (exit_value MC_EXIT_RUNTIME)))))))"

definition mc_exec_container ::
  "jsonc \<Rightarrow> life_env \<Rightarrow> registry \<Rightarrow> kernel \<Rightarrow> nat \<Rightarrow> string \<Rightarrow> string list \<Rightarrow> exec_outcome action" where
  "mc_exec_container J E R K euid reference command =
     (if euid \<noteq> 0 \<or> command = []
      then act_return (Returned (Inl (mk_error MC_EXIT_PERMISSION EPERM ''exec-container'' (Some reference)
                                        ''container exec requires root and a command'')))
      else case mc_state_runtime J E R reference of
        Inl e \<Rightarrow> act_return (Returned (Inl e))
      | Inr (cid, init_pid, init_start, cgroup) \<Rightarrow>
          (case mc_state_load_config J R (Some cid) of
             Inl e \<Rightarrow> act_return (Returned (Inl e))
           | Inr (c, rootfs) \<Rightarrow> exec_in_container K cid init_pid cgroup c command))"

section \<open>Lemmas\<close>

definition enter_calls :: "namespace_set \<Rightarrow> kcall list" where
  "enter_calls s =
     [Setgroups, Setns (ns_cgroup s) (ucast CLONE_NEWCGROUP), Setns (ns_ipc s) (ucast CLONE_NEWIPC),
      Setns (ns_uts s) (ucast CLONE_NEWUTS), Setns (ns_network s) (ucast CLONE_NEWNET), Setns (ns_mount s) (ucast CLONE_NEWNS),
      Setns (ns_pid s) (ucast CLONE_NEWPID), Setns (ns_user s) (ucast CLONE_NEWUSER), Fork,
      Fchdir (ns_root s), Chroot ''.'']"

definition exec_calls :: "namespace_set \<Rightarrow> mc_run_config \<Rightarrow> string list \<Rightarrow> kcall list" where
  "exec_calls s c command =
     enter_calls s @ [Chdir (c_str (cfg_workdir c)), Security_prepare (cfg_capability_mask c), Setresgid (cfg_group c),
       Setresuid (cfg_user c), Security_apply (cfg_capability_mask c) (cfg_seccomp_denies c), Execvp command]"

lemma extends_exec_environment [emits_intros]: "extends (exec_environment c)"
proof -
  have "extends (setenv n v)" "extends clearenv" for n v by (auto simp: emits_def setenv_def clearenv_def)
  moreover have "extends (exec_assignments es)" for es
    using calculation by (induction es) (auto intro!: emits_intros split: option.split)
  ultimately show ?thesis by (auto simp: exec_environment_def intro!: emits_intros)
qed

lemma extends_move_to_cgroup [emits_intros]: "extends (move_to_cgroup K cgroup)"
  by (auto simp: move_to_cgroup_def intro!: emits_intros)

lemma reaches_enter: "reaches [Setns d (ucast kind)] (enter K d kind label)"
  by (simp add: enter_def reaches_report reaches_call)

lemma executes_exec_plain:
  "executes [Execvp command] (act_catch (act_bind (sys K (Execvp command)) (\<lambda>_. act_return Executing)) (\<lambda>e. act_return (Exit (f e))))"
  by (auto simp: executes_def act_catch_Inr act_bind_Inr sys_Inr)

lemma executes_exec_child:
  "executes ([Fchdir (ns_root s), Chroot ''.'', Chdir (c_str (cfg_workdir c)), Security_prepare (cfg_capability_mask c),
      Setresgid (cfg_group c), Setresuid (cfg_user c), Security_apply (cfg_capability_mask c) (cfg_seccomp_denies c),
      Execvp command]) (exec_child K s c command)"
proof -
  have root: "reaches (concat [[Fchdir (ns_root s)], [Chroot ''.''], [Chdir (c_str (cfg_workdir c))]])
      (act_all [call K (Fchdir (ns_root s)), call K (Chroot ''.''), call K (Chdir (c_str (cfg_workdir c)))])"
    by (rule reaches_all) (auto intro: reaches_intros)
  have "executes (concat [[Fchdir (ns_root s)], [Chroot ''.''], [Chdir (c_str (cfg_workdir c))]] @
      [Security_prepare (cfg_capability_mask c)] @ [Setresgid (cfg_group c)] @ [Setresuid (cfg_user c)] @ [] @
      [Security_apply (cfg_capability_mask c) (cfg_seccomp_denies c)] @ [] @ [Execvp command]) (exec_child K s c command)"
    unfolding exec_child_def prepare_step_def apply_step_def
    by (intro executes_bind executes_guard reaches_report root reaches_call reaches_security_step reaches_Nil emits_intros
        executes_exec_plain)
  then show ?thesis by simp
qed

lemma executes_exec_worker: "executes (exec_calls s c command) (exec_worker K s cgroup c command)"
proof -
  let ?last = "[Fchdir (ns_root s), Chroot ''.'', Chdir (c_str (cfg_workdir c)), Security_prepare (cfg_capability_mask c),
      Setresgid (cfg_group c), Setresuid (cfg_user c), Security_apply (cfg_capability_mask c) (cfg_seccomp_denies c),
      Execvp command]"
  let ?child = "\<lambda>child. if child = 0 then exec_child K s c command
       else act_bind (wait_child K (k_rounds K) child) (\<lambda>status.
         act_return (Exit (case status of None \<Rightarrow> 125 | Some s \<Rightarrow> status_code s)))"
  have child: "executes ?last (?child v)" for v
  proof (cases "v = 0")
    case False
    then show ?thesis by (auto simp: executes_def act_bind_Inr)
  qed (use executes_exec_child [of s c command K] in simp)
  have "executes ([] @ [Setgroups] @ [Setns (ns_cgroup s) (ucast CLONE_NEWCGROUP)] @ [Setns (ns_ipc s) (ucast CLONE_NEWIPC)] @
      [Setns (ns_uts s) (ucast CLONE_NEWUTS)] @ [Setns (ns_network s) (ucast CLONE_NEWNET)] @ [Setns (ns_mount s) (ucast CLONE_NEWNS)] @
      [Setns (ns_pid s) (ucast CLONE_NEWPID)] @ [Setns (ns_user s) (ucast CLONE_NEWUSER)] @ [Fork] @ ?last)
      (exec_worker K s cgroup c command)"
    unfolding exec_worker_def
    by (intro executes_guard reaches_report reaches_enter reaches_call reaches_sys reaches_Nil child emits_intros TrueI)
  then show ?thesis by (simp add: exec_calls_def enter_calls_def)
qed

lemma exec_assignments_Inr:
  "exec_assignments es p = (p', Some (Inr u)) \<Longrightarrow> set_assignments es p = (p', Some (Inr True))"
  by (induction es arbitrary: p) (auto simp: act_bind_Inr split: option.splits)

lemma exec_environment_Inr:
  "exec_environment c p = (p', Some (Inr u)) \<Longrightarrow>
     map_of (ps_environ p') = container_environment c \<and> ps_creds p' = ps_creds p"
  using install_environment_True [of c p p'] exec_assignments_Inr
  unfolding exec_environment_def install_environment_def act_bind_Inr by blast

lemma exec_child_state:
  "executes_with (\<lambda>_ p'. locked_down K c (ps_creds p') \<and> map_of (ps_environ p') = container_environment c) (exec_child K s c command)"
  unfolding executes_with_def
proof (intro allI impI)
  fix p p' assume "exec_child K s c command p = (p', Some (Inr Executing))"
  then obtain q1 q2 q3 q4 q5 q6 q7 u1 u2 u3 u4 u5 u6 u7 where
    q: "prepare_step K c q1 = (q2, Some (Inr u2))" "call K (Setresgid (cfg_group c)) q2 = (q3, Some (Inr u3))"
      "call K (Setresuid (cfg_user c)) q3 = (q4, Some (Inr u4))" "exec_environment c q4 = (q5, Some (Inr u5))"
      "apply_step K c q5 = (q6, Some (Inr u6))" "close_workload_descriptors K q6 = (q7, Some (Inr u7))"
      "ps_creds p' = ps_creds q7" "ps_environ p' = ps_environ q7"
    by (auto simp: exec_child_def act_bind_Inr guard_exit_Executing act_catch_Inr sys_Inr)
  have 2: "mc_security_prepare (k_sec K) (cfg_capability_mask c) (ps_creds q1) = Some (ps_creds q2)"
    using security_step_Inr q(1) unfolding prepare_step_def by blast
  have 5: "ps_creds q5 = ps_creds q2" "map_of (ps_environ q5) = container_environment c"
    using exec_environment_Inr [OF q(4)] call_state [OF q(2)] call_state [OF q(3)] by simp_all
  have 6: "mc_security_apply (k_sec K) (k_lib K) (cfg_capability_mask c) (cfg_seccomp_denies c) (ps_creds q5) = Some (ps_creds q6)"
      "ps_environ q6 = ps_environ q5"
    using security_step_Inr q(5) unfolding apply_step_def by blast+
  have "ps_creds p' = ps_creds q6" "ps_environ p' = ps_environ q6"
    using q(7,8) keepsD [OF keeps_close_descriptors(1) q(6)] keepsD [OF keeps_close_descriptors(2) q(6)] by simp_all
  then show "locked_down K c (ps_creds p') \<and> map_of (ps_environ p') = container_environment c"
    using locked_down_after [OF 2] 5 6 by simp
qed

text \<open>The descriptors of the set were opened from the namespace files of the given process.\<close>

definition namespaces_of :: "int \<Rightarrow> namespace_set \<Rightarrow> history \<Rightarrow> bool" where
  "namespaces_of pid s h \<longleftrightarrow>
     list_all (\<lambda>(name, d). (Open (namespace_path pid name) (O_RDONLY OR O_CLOEXEC) 0, Inr d) \<in> set h)
       [(''mnt'', ns_mount s), (''uts'', ns_uts s), (''ipc'', ns_ipc s), (''net'', ns_network s), (''cgroup'', ns_cgroup s),
        (''pid'', ns_pid s), (''user'', ns_user s)] \<and>
     (Open (snprintf_buf PATH_MAX (''/proc/'' @ show_int pid @ ''/root'')) (O_RDONLY OR O_DIRECTORY OR O_CLOEXEC) 0, Inr (ns_root s)) \<in> set h"

definition opened :: "string \<Rightarrow> u32 \<Rightarrow> process \<Rightarrow> process \<Rightarrow> int \<Rightarrow> bool" where
  "opened path flags p q d \<longleftrightarrow>
     (\<exists>new. ps_history q = ps_history p @ new \<and> (d \<ge> 0 \<longrightarrow> (Open path flags 0, Inr d) \<in> set new))"

lemma open_or_errno_opened: "open_or_errno K path flags e p = (q, Some (Inr (d, e'))) \<Longrightarrow> opened path flags p q d"
  by (auto simp: opened_def open_or_errno_def act_catch_def act_bind_def sys_def act_return_def Let_def split: sum.splits)

lemma open_namespace_opened:
  "open_namespace K pid name e p = (q, Some (Inr (d, e'))) \<Longrightarrow> opened (namespace_path pid name) (O_RDONLY OR O_CLOEXEC) p q d"
  by (auto simp: open_namespace_def opened_def [of _ _ p p] dest: open_or_errno_opened split: if_splits)

lemma opened_trans:
  "opened path flags p q d \<Longrightarrow> ps_history r = ps_history q @ new \<Longrightarrow> opened path flags p r d"
  "ps_history q = ps_history p @ new \<Longrightarrow> opened path flags q r d \<Longrightarrow> opened path flags p r d"
  unfolding opened_def by fastforce+

lemma opened_extends: "opened path flags p q d \<Longrightarrow> \<exists>new. ps_history q = ps_history p @ new"
  unfolding opened_def by blast

lemma open_namespaces_of:
  assumes "open_namespaces K pid p = (q, Some (Inr (s, e)))" "\<not> list_ex (\<lambda>d. d < 0) (descriptors s)"
  obtains new where "ps_history q = ps_history p @ new" "namespaces_of pid s new"
proof -
  let ?f = "O_RDONLY OR O_CLOEXEC"
  obtain q1 q2 q3 q4 q5 q6 q7 where
    o: "opened (namespace_path pid ''mnt'') ?f p q1 (ns_mount s)" "opened (namespace_path pid ''uts'') ?f q1 q2 (ns_uts s)"
      "opened (namespace_path pid ''ipc'') ?f q2 q3 (ns_ipc s)" "opened (namespace_path pid ''net'') ?f q3 q4 (ns_network s)"
      "opened (namespace_path pid ''cgroup'') ?f q4 q5 (ns_cgroup s)" "opened (namespace_path pid ''pid'') ?f q5 q6 (ns_pid s)"
      "opened (namespace_path pid ''user'') ?f q6 q7 (ns_user s)"
      "opened (snprintf_buf PATH_MAX (''/proc/'' @ show_int pid @ ''/root'')) (O_RDONLY OR O_DIRECTORY OR O_CLOEXEC) q7 q (ns_root s)"
    using assms(1) unfolding open_namespaces_def act_bind_Inr case_prod_beta
    by (auto dest!: open_namespace_opened open_or_errno_opened)
  obtain n1 n2 n3 n4 n5 n6 n7 n8 where
    h: "ps_history q1 = ps_history p @ n1" "ps_history q2 = ps_history q1 @ n2" "ps_history q3 = ps_history q2 @ n3"
      "ps_history q4 = ps_history q3 @ n4" "ps_history q5 = ps_history q4 @ n5" "ps_history q6 = ps_history q5 @ n6"
      "ps_history q7 = ps_history q6 @ n7" "ps_history q = ps_history q7 @ n8"
    using o by (auto dest!: opened_extends)
  have "namespaces_of pid s (n1 @ n2 @ n3 @ n4 @ n5 @ n6 @ n7 @ n8)"
    using o h assms(2) by (auto simp: namespaces_of_def opened_def descriptors_def)
  then show thesis using that h by simp
qed

lemma exec_worker_state:
  "executes_with (\<lambda>_ p'. locked_down K c (ps_creds p') \<and> map_of (ps_environ p') = container_environment c)
     (exec_worker K s cgroup c command)"
proof -
  have "executes_with P (act_bind m (\<lambda>x. act_return (Exit (f x))))" for P m f
    by (auto simp: executes_with_def act_bind_Inr)
  then show ?thesis
    unfolding exec_worker_def enter_def move_to_cgroup_def
    by (intro executes_with_guard executes_with_if exec_child_state) (auto intro!: keeps_intros)
qed

lemma exec_in_container_executing:
  assumes "exec_in_container K cid init_pid cgroup c command p = (p', Some (Inr (Worker Executing)))"
  obtains q s e where "open_namespaces K init_pid p = (q, Some (Inr (s, e)))" "\<not> list_ex (\<lambda>d. d < 0) (descriptors s)"
    "exec_worker K s cgroup c command (q\<lparr>ps_history := ps_history q @ [(Fork, Inr 0)]\<rparr>) = (p', Some (Inr Executing))"
proof -
  define k where "k s = (\<lambda>r. if r = Inr 0 then act_bind (exec_worker K s cgroup c command) (\<lambda>ending. act_return (Worker ending))
           else act_bind (close_namespaces K s) (\<lambda>_.
             case r of
               Inl e \<Rightarrow> act_return (exec_error e cid ''cannot fork namespace worker'')
             | Inr worker \<Rightarrow> act_bind (wait_child K (k_rounds K) worker) (\<lambda>status.
                 act_return (Returned (case status of
                     None \<Rightarrow> Inl no_error
                   | Some (WIFEXITED n) \<Rightarrow> Inr (int n)
                   | Some (WIFSIGNALED n) \<Rightarrow> Inr (128 + int n)
                   | Some WOTHER \<Rightarrow> Inr (exit_value MC_EXIT_RUNTIME))))))" for s
  obtain q s e where ns: "open_namespaces K init_pid p = (q, Some (Inr (s, e)))" "\<not> list_ex (\<lambda>d. d < 0) (descriptors s)"
    and rest: "act_bind (act_catch (act_bind (sys K Fork) (\<lambda>v. act_return (Inr v))) (\<lambda>e. act_return (Inl e))) (k s) q =
      (p', Some (Inr (Worker Executing)))"
    using assms unfolding exec_in_container_def k_def
    by (auto simp: act_bind_Inr [of "open_namespaces _ _"] act_bind_Inr [of "close_namespaces _ _"] exec_error_def split: if_splits)
  have "k s r q' = (p', Some (Inr (Worker Executing))) \<Longrightarrow>
      r = Inr 0 \<and> exec_worker K s cgroup c command q' = (p', Some (Inr Executing))" for r q'
    by (auto simp: k_def act_bind_Inr exec_error_def split: if_splits sum.splits)
  then show thesis
    using rest that [OF ns] unfolding act_bind_def [of "act_catch _ _"] sigwait_step by fastforce
qed


text \<open>An example: a running container whose init process is process 7.\<close>

definition example_exec_jsonc :: jsonc where
  "example_exec_jsonc =
     example_jsonc\<lparr>jc_parse := (\<lambda>s.
       if s = ''S''
       then JObject [(''status'', JString ''running''), (''init_pid'', JInt 7), (''init_start_time'', JInt 4711),
                     (''cgroup_path'', JString ''/cg'')]
       else JObject [(''id'', JString example_entry), (''name'', JString ''box''), (''rootfs'', JString ''/i''),
                     (''hostname'', JString ''box''), (''workdir'', JString ''/''), (''image'', JString ''i''),
                     (''user'', JInt 5), (''group'', JInt 5), (''capability_mask'', JInt 0), (''network_mode'', JString ''none''),
                     (''ipv4_host'', JInt 0),
                     (''resources'', JObject [(''memory_max'', JInt 1), (''swap_max'', JInt 1), (''cpu_quota'', JInt 1), (''pids_max'', JInt 1)]),
                     (''environment'', JArray []), (''command'', JArray [JString ''/bin/sh'']), (''publishes'', JArray [])])\<rparr>"

definition example_exec_registry :: registry where
  "example_exec_registry =
     \<lparr>rg_dir = ''/s'', rg_opendir = 0, rg_entries = [example_entry],
      rg_disk = \<lparr>dk_content = (\<lambda>i. if i = 0 then ''S'' else ''C''), dk_stable = (\<lambda>_. None), dk_next = 2,
        dk_dir = [''/s/containers/'' @ example_entry @ ''/state.json'' \<mapsto> 0, ''/s/containers/'' @ example_entry @ ''/config.json'' \<mapsto> 1],
        dk_survivors = []\<rparr>\<rparr>"

definition example_exec_config :: mc_run_config where
  "example_exec_config =
     zero_config\<lparr>cfg_id := Some example_entry, cfg_name := Some ''box'', cfg_rootfs := Some ''/i'', cfg_hostname := Some ''box'',
       cfg_workdir := Some ''/'', cfg_user := 5, cfg_group := 5, cfg_ready_fd := - 1, cfg_memory_max := 1, cfg_swap_max := 1,
       cfg_cpu_quota := 1, cfg_pids_max := 1, cfg_command := Some [''/bin/sh'']\<rparr>"

lemma example_exec_found:
  "mc_state_runtime example_exec_jsonc (example_life example_proc) example_exec_registry example_entry =
     Inr (example_entry, 7, 4711, ''/cg'')"
  "mc_state_load_config example_exec_jsonc example_exec_registry (Some example_entry) = Inr (example_exec_config, ''i'')"
  by code_simp+

lemma starts_exec_worker:
  assumes K: "granting K" "k_sec K = (\<lambda>c. 0)" and c: "install_seccomp (k_lib K) (cfg_seccomp_denies c) \<noteq> None"
    and env: "cfg_environment c = []" and cg: "length cgroup < 4000"
  shows "starts (exec_worker K s cgroup c command)"
proof -
  note steps = succeeds_lockdown [OF K c]
  have env: "succeeds (exec_environment c)"
    unfolding exec_environment_def env
    by (auto intro!: succeeds_intros simp: succeeds_def [of clearenv] succeeds_def [of "setenv _ _"] clearenv_def setenv_def)
  have "starts (act_catch (act_bind (sys K (Execvp command)) (\<lambda>_. act_return Executing)) (\<lambda>e. act_return (Exit (f e))))" for f
    using succeeds_sys [OF K(1), of "Execvp command"]
    unfolding starts_def succeeds_def act_catch_Inr act_bind_Inr act_return_Inr by metis
  then have "starts (exec_child K s c command)"
    unfolding exec_child_def using K steps env by (auto intro!: starts_guard starts_bind succeeds_intros)
  moreover have "sys K Fork p = (p\<lparr>ps_history := ps_history p @ [(Fork, Inr 0)]\<rparr>, Some (Inr 0))" for p
    using K(1) by (simp add: sys_def granting_def Let_def)
  ultimately have fork: "starts (guard_exit 125 (sys K Fork) (\<lambda>child.
       if child = 0 then exec_child K s c command
       else act_bind (wait_child K (k_rounds K) child) (\<lambda>status.
         act_return (Exit (case status of None \<Rightarrow> 125 | Some s \<Rightarrow> status_code s)))))" (is "starts ?fork")
    by (intro starts_yield [of _ 0]) simp_all
  have "sys K (Write d t) p = (p\<lparr>ps_history := ps_history p @ [(Write d t, Inr (int (length t)))]\<rparr>, Some (Inr (int (length t))))" for d t p
    using K(1) by (simp add: sys_def granting_def Let_def)
  then have w: "succeeds (act_bind (sys K (Write d t)) (\<lambda>n. if n \<noteq> int (length t) then act_stale K else act_return ()))" for d t
    by (simp add: succeeds_def act_bind_def act_return_def)
  have "succeeds (move_to_cgroup K cgroup)"
    unfolding move_to_cgroup_def using cg
    by (simp only: length_append) (simp, (rule w | rule succeeds_catch | rule succeeds_bind | rule succeeds_sys [OF K(1)] | rule succeeds_call [OF K(1)])+)
  moreover define tail where "tail = ?fork"
  ultimately show ?thesis using fork K(1) unfolding exec_worker_def enter_def tail_def [symmetric]
    by (auto intro!: starts_guard succeeds_intros)
qed


end
