(* ===== verification/MC_Nft.thy ===== *)
theory MC_Nft
  imports MC_Kernel MC_Publish MC_Fs
begin

text \<open>
  \<open>src/network/nft.c\<close>: the packet filter rules, installed and removed by running the \<open>nft\<close> tool. The tool and the
  kernel are parameters; a forked child that becomes the tool or exits does not return. The results are
  that the rules of a container fit their buffer and carry its mark, and that removing a container's
  rules deletes exactly the rules that carry it.
\<close>

section \<open>Running the tool\<close>

definition nft_path :: "kernel \<Rightarrow> string action" where
  "nft_path K =
     act_catch (act_bind (call K (Access ''/usr/sbin/nft'')) (\<lambda>_. act_return ''/usr/sbin/nft''))
       (\<lambda>e. act_return ''/usr/bin/nft'')"

text \<open>A process that exits does not return.\<close>

definition exit_process :: "int \<Rightarrow> 'a action" where
  "exit_process code = act_bind (record_event (Exit_process code)) (\<lambda>_. act_stuck)"

definition or_exit :: "int \<Rightarrow> 'a action \<Rightarrow> 'a action" where
  "or_exit code m = act_catch m (\<lambda>e. exit_process code)"

definition exec_nft :: "kernel \<Rightarrow> string list \<Rightarrow> 'a action" where
  "exec_nft K arguments =
     act_bind (nft_path K) (\<lambda>path. act_bind (act_catch (call K (Execv path arguments)) (\<lambda>e. exit_process 127)) (\<lambda>_. act_stuck))"

text \<open>The two descriptors of a pipe are a number and its successor.\<close>

definition nft_child :: "kernel \<Rightarrow> string list \<Rightarrow> int option \<Rightarrow> bool \<Rightarrow> 'a action" where
  "nft_child K arguments input quiet =
     act_bind
       (case input of
          None \<Rightarrow> act_return ()
        | Some fd \<Rightarrow> act_bind (discard K (Close (fd + 1))) (\<lambda>_.
            act_bind (or_exit 126 (call K (Dup2 fd 0))) (\<lambda>_. discard K (Close fd)))) (\<lambda>_.
     act_bind
       (if quiet
        then act_bind (or_exit 126 (sys K (Open ''/dev/null'' (O_WRONLY OR O_CLOEXEC) 0))) (\<lambda>null.
               act_bind (or_exit 126 (act_all [call K (Dup2 null 1), call K (Dup2 null 2)])) (\<lambda>_. discard K (Close null)))
        else act_return ()) (\<lambda>_.
     exec_nft K arguments))"

text \<open>Writing the input, giving up at the first error other than \<open>EINTR\<close>.\<close>

fun feed :: "kernel \<Rightarrow> nat \<Rightarrow> int \<Rightarrow> string \<Rightarrow> unit action" where
  "feed K n fd [] = act_return ()"
| "feed K 0 fd (b # bs) = act_stuck"
| "feed K (Suc n) fd (b # bs) =
     act_bind (act_catch (act_bind (sys K (Write fd (b # bs))) (\<lambda>v. act_return (Inr v))) (\<lambda>e. act_return (Inl e)))
       (\<lambda>r. case r of
          Inl e \<Rightarrow> if e = EINTR then feed K n fd (b # bs) else act_return ()
        | Inr v \<Rightarrow> feed K n fd (drop (nat v) (b # bs)))"

fun wait_nft :: "kernel \<Rightarrow> nat \<Rightarrow> int \<Rightarrow> int action" where
  "wait_nft K 0 child = act_stuck"
| "wait_nft K (Suc n) child =
     act_bind (act_catch (act_bind (sys K (Waitpid child False)) (\<lambda>v. act_return (Inr v))) (\<lambda>e. act_return (Inl e)))
       (\<lambda>r. case r of
          Inl e \<Rightarrow> if e = EINTR then wait_nft K n child else act_return (- 1)
        | Inr v \<Rightarrow> act_bind (fetch_status K) (\<lambda>status.
            act_return (case status of WIFEXITED code \<Rightarrow> int code | _ \<Rightarrow> 125)))"

definition execute_nft :: "kernel \<Rightarrow> string list \<Rightarrow> string option \<Rightarrow> bool \<Rightarrow> int action" where
  "execute_nft K arguments input quiet =
     act_catch
       (act_bind (if input = None then act_return (- 1) else sys K Pipe) (\<lambda>fd.
          act_bind
            (act_catch (sys K Fork)
               (\<lambda>e. act_bind (if input = None then act_return () else act_all [discard K (Close fd), discard K (Close (fd + 1))])
                      (\<lambda>_. act_fail e)))
            (\<lambda>child.
               if child = 0 then nft_child K arguments (if input = None then None else Some fd) quiet
               else act_bind
                 (case input of
                    None \<Rightarrow> act_return ()
                  | Some script \<Rightarrow> act_all [discard K (Close fd), feed K (k_rounds K) (fd + 1) script, discard K (Close (fd + 1))])
                 (\<lambda>_. wait_nft K (k_rounds K) child))))
       (\<lambda>e. act_return (- 1))"

text \<open>Reading the output of the tool, up to the capacity of the buffer.\<close>

fun collect :: "kernel \<Rightarrow> nat \<Rightarrow> int \<Rightarrow> nat \<Rightarrow> string \<Rightarrow> string action" where
  "collect K 0 fd capacity output = act_stuck"
| "collect K (Suc n) fd capacity output =
     (if length output + 1 \<ge> capacity then act_return output
      else
        act_bind
          (act_catch
             (act_bind (sys K (Read fd (capacity - length output - 1))) (\<lambda>v.
                act_bind (fetch_text K) (\<lambda>t. act_return (Inr (take (nat v) t)))))
             (\<lambda>e. act_return (Inl e)))
          (\<lambda>r. case r of
             Inl e \<Rightarrow> if e = EINTR then collect K n fd capacity output else act_return output
           | Inr bytes \<Rightarrow> if bytes = [] then act_return output else collect K n fd capacity (output @ bytes)))"

definition capture_nft :: "kernel \<Rightarrow> string list \<Rightarrow> nat \<Rightarrow> (int \<times> string) action" where
  "capture_nft K arguments capacity =
     act_catch
       (act_bind (sys K Pipe) (\<lambda>fd.
          act_bind (act_catch (act_bind (sys K Fork) (\<lambda>v. act_return (Inr v))) (\<lambda>e. act_return (Inl e))) (\<lambda>r.
            if r = Inr 0
            then act_bind (act_catch (sys K (Open ''/dev/null'' (O_WRONLY OR O_CLOEXEC) 0)) (\<lambda>e. act_return (- 1))) (\<lambda>null.
              act_bind (discard K (Close fd)) (\<lambda>_.
              act_bind (or_exit 126 (act_all [call K (Dup2 (fd + 1) 1), if null < 0 then act_stale K else call K (Dup2 null 2)])) (\<lambda>_.
              act_bind (act_all [discard K (Close (fd + 1)), discard K (Close null)]) (\<lambda>_. exec_nft K arguments))))
            else act_bind (discard K (Close (fd + 1))) (\<lambda>_.
              case r of
                Inl e \<Rightarrow> act_bind (discard K (Close fd)) (\<lambda>_. act_return (- 1, []))
              | Inr child \<Rightarrow> act_bind (collect K (k_rounds K) fd capacity []) (\<lambda>output.
                  act_bind (discard K (Close fd)) (\<lambda>_.
                  act_bind (wait_nft K (k_rounds K) child) (\<lambda>status. act_return (status, output))))))))
       (\<lambda>e. act_return (- 1, []))"

section \<open>The lock and the forwarding switches\<close>

definition nft_lock_path :: "kernel \<Rightarrow> string" where
  "nft_lock_path K = snprintf_buf PATH_MAX (mc_runtime_dir (k_getenv K) @ ''/nft.lock'')"

definition take_nft_lock :: "kernel \<Rightarrow> int action" where
  "take_nft_lock K =
     act_bind (sys K (Open (nft_lock_path K) (O_RDWR OR O_CREAT OR O_CLOEXEC) 0x180)) (\<lambda>descriptor.
       act_catch (act_bind (call K (Flock descriptor True)) (\<lambda>_. act_return descriptor))
         (\<lambda>e. act_bind (discard K (Close descriptor)) (\<lambda>_. act_fail e)))"

definition release_nft_lock :: "kernel \<Rightarrow> int \<Rightarrow> unit action" where
  "release_nft_lock K descriptor =
     (if descriptor \<ge> 0 then act_all [discard K (Flock descriptor False), discard K (Close descriptor)] else act_return ())"

definition write_sysctl :: "kernel \<Rightarrow> string \<Rightarrow> unit action" where
  "write_sysctl K path =
     act_bind (sys K (Open path (O_WRONLY OR O_CLOEXEC) 0)) (\<lambda>descriptor.
       act_bind
         (act_catch
            (act_bind (sys K (Write descriptor (''1'' @ [CHR 0x0A]))) (\<lambda>n. if n \<noteq> 2 then act_stale K else act_return ()))
            (\<lambda>e. act_bind (discard K (Close descriptor)) (\<lambda>_. act_fail e)))
         (\<lambda>_. call K (Close descriptor)))"

definition write_forwarding :: "kernel \<Rightarrow> unit action" where
  "write_forwarding K =
     act_all [write_sysctl K ''/proc/sys/net/ipv4/ip_forward'',
              write_sysctl K ''/proc/sys/net/ipv4/conf/all/route_localnet'',
              write_sysctl K ''/proc/sys/net/ipv4/conf/lo/route_localnet'']"

section \<open>The base rules\<close>

definition base_rules :: string where
  "base_rules = concat (map text_line
     [''add table inet minicontainer'',
      ''add chain inet minicontainer prerouting { type nat hook prerouting priority dstnat; policy accept; }'',
      ''add chain inet minicontainer output { type nat hook output priority -100; policy accept; }'',
      ''add chain inet minicontainer forward { type filter hook forward priority filter; policy drop; }'',
      ''add chain inet minicontainer postrouting { type nat hook postrouting priority srcnat; policy accept; }'',
      ''add rule inet minicontainer forward ct state established,related accept comment '' @ quoted ''minicontainer-base-return'',
      ''add rule inet minicontainer forward iifname '' @ quoted ''mcbr0'' @ '' accept comment '' @ quoted ''minicontainer-base-egress'',
      ''add rule inet minicontainer postrouting ip saddr 10.44.0.0/24 oifname != '' @ quoted ''mcbr0'' @
        '' masquerade comment '' @ quoted ''minicontainer-base-nat'',
      ''add rule inet minicontainer postrouting ip saddr 127.0.0.0/8 ip daddr 10.44.0.0/24 masquerade comment '' @
        quoted ''minicontainer-base-hairpin''])"

definition nft_base_error :: "errno \<Rightarrow> mc_error" where
  "nft_base_error e = mk_error MC_EXIT_RUNTIME e ''nftables'' (Some ''inet minicontainer'')
     ''cannot install forwarding and masquerade policy''"

text \<open>\<open>mc_mkdir_p\<close> on the kernel's answers.\<close>

definition kernel_mkdir_p :: "kernel \<Rightarrow> string \<Rightarrow> u32 \<Rightarrow> unit action" where
  "kernel_mkdir_p K path mode p =
     (case mc_mkdir_p (\<lambda>d. case k_call K (ps_history p) (Mkdir d mode) of Inl e \<Rightarrow> e | Inr v \<Rightarrow> 0) path of
        None \<Rightarrow> (p\<lparr>ps_history := ps_history p @ [(Mkdir path mode, Inr 0)]\<rparr>, Some (Inr ()))
      | Some err \<Rightarrow> (p\<lparr>ps_history := ps_history p @ [(Mkdir path mode, Inl (saved_errno err))], ps_error := Some err\<rparr>,
                     Some (Inl (saved_errno err))))"

text \<open>After the lock was taken the descriptor is closed, and closed again on the failure path: the errno that
  is reported there is the one of the second close, \<open>EBADF\<close>.\<close>

definition mc_nft_ensure_base :: "kernel \<Rightarrow> unit action" where
  "mc_nft_ensure_base K =
     act_catch
       (act_bind (kernel_mkdir_p K (mc_runtime_dir (k_getenv K)) 0x1C0) (\<lambda>_.
        act_bind (take_nft_lock K) (\<lambda>lock_descriptor.
        act_bind (execute_nft K [''nft'', ''list'', ''table'', ''inet'', ''minicontainer''] None True) (\<lambda>listed.
        act_bind (if listed \<noteq> 0 then execute_nft K [''nft'', ''-f'', ''-''] (Some base_rules) False else act_return listed) (\<lambda>loaded.
        act_bind (if loaded = 0 then act_catch (act_bind (write_forwarding K) (\<lambda>_. act_return 0)) (\<lambda>e. act_return (- 1))
                  else act_return loaded) (\<lambda>result.
        act_bind (act_all [discard K (Flock lock_descriptor False), discard K (Close lock_descriptor)]) (\<lambda>_.
        if result = 0 then act_return ()
        else act_bind (discard K (Close lock_descriptor)) (\<lambda>_. act_fail 9))))))))
       (\<lambda>e. act_bind (set_error (nft_base_error e)) (\<lambda>_. act_fail e))"

section \<open>The rules of a container\<close>

text \<open>The comment that marks the rules of a container.\<close>

definition nft_marker :: "string \<Rightarrow> string" where
  "nft_marker cid = ''comment '' @ quoted (''minicontainer:'' @ cid)"

definition publish_rules :: "string \<Rightarrow> string \<Rightarrow> mc_publish \<Rightarrow> string" where
  "publish_rules cid container_ip p =
     (let proto = (if protocol p = IPPROTO_TCP then ''tcp'' else ''udp''); any = (host_ipv4 p = 0);
          host_ip = (if any then [] else show_ipv4 (host_ipv4 p)); gap = (if any then [] else '' '');
          forward_to = '' '' @ proto @ '' dport '' @ show_nat (unat (host_port p)) @ '' dnat ip to '' @ container_ip @ '':'' @
            show_nat (unat (container_port p)) @ '' '' @ nft_marker cid in
      concat (map text_line
        [''add rule inet minicontainer prerouting '' @ (if any then [] else ''ip daddr '') @ host_ip @ gap @ forward_to,
         ''add rule inet minicontainer output '' @ (if any then ''fib daddr type local '' else ''ip daddr '') @ host_ip @ gap @ forward_to,
         ''add rule inet minicontainer forward ip daddr '' @ container_ip @ '' '' @ proto @ '' dport '' @
           show_nat (unat (container_port p)) @ '' accept '' @ nft_marker cid]))"

text \<open>Appending to the buffer; \<open>None\<close> when a piece does not fit.\<close>

fun append_rules :: "string \<Rightarrow> string \<Rightarrow> nat \<Rightarrow> string \<Rightarrow> mc_publish list \<Rightarrow> string option" where
  "append_rules cid container_ip capacity rules [] = Some rules"
| "append_rules cid container_ip capacity rules (p # ps) =
     (let piece = publish_rules cid container_ip p in
      if length piece \<ge> capacity - length rules then None
      else append_rules cid container_ip capacity (rules @ piece) ps)"

definition nft_publish_error :: "errno \<Rightarrow> string \<Rightarrow> mc_error" where
  "nft_publish_error e cid = mk_error MC_EXIT_RUNTIME e ''nftables-publish'' (Some cid) ''cannot install published-port rules''"

definition mc_nft_add_container :: "kernel \<Rightarrow> string \<Rightarrow> u32 \<Rightarrow> mc_publish list \<Rightarrow> unit action" where
  "mc_nft_add_container K cid ipv4_host publishes =
     (if publishes = [] then act_return ()
      else
        act_catch
          (case append_rules cid (show_ipv4 ipv4_host) (length publishes * 1024 + 1) [] publishes of
             None \<Rightarrow> act_stale K
           | Some rules \<Rightarrow>
               act_bind (take_nft_lock K) (\<lambda>lock_descriptor.
                 act_bind (execute_nft K [''nft'', ''-f'', ''-''] (Some rules) False) (\<lambda>result.
                   act_bind (release_nft_lock K lock_descriptor) (\<lambda>_.
                     if result \<noteq> 0 then act_stale K else act_return ()))))
          (\<lambda>e. act_bind (set_error (nft_publish_error e cid)) (\<lambda>_. act_fail e)))"

section \<open>Removing the rules of a container\<close>

text \<open>The handle of a listed rule that carries the marker.\<close>

definition owned_handle :: "string \<Rightarrow> string \<Rightarrow> nat option" where
  "owned_handle marker line =
     (case strstr line marker of
        None \<Rightarrow> None
      | Some owned \<Rightarrow> (case strstr owned ''# handle '' of
          None \<Rightarrow> None
        | Some handle \<Rightarrow>
            let number = unat (st_val (strtoull (drop 9 handle))) in
            if number > 0 then Some number else None))"

definition delete_command :: "string \<Rightarrow> nat \<Rightarrow> string" where
  "delete_command chain number =
     text_line (''delete rule inet minicontainer '' @ chain @ '' handle '' @ show_nat number)"

text \<open>The script buffer: the used length and its text. A command that does not fit leaves a cut copy behind
  the used part, which the next one overwrites.\<close>

definition script_add :: "string \<Rightarrow> nat \<times> string \<Rightarrow> nat \<times> string" where
  "script_add command buffer =
     (case buffer of (used, script) \<Rightarrow>
        let room = 8192 - used; script' = take used script @ snprintf_buf room command in
        if length command < room then (used + length command, script') else (used, script'))"

definition scan_chain :: "string \<Rightarrow> string \<Rightarrow> string \<Rightarrow> nat \<times> string \<Rightarrow> nat \<times> string" where
  "scan_chain marker chain output buffer =
     fold (\<lambda>line b. case owned_handle marker line of None \<Rightarrow> b | Some number \<Rightarrow> script_add (delete_command chain number) b)
       (strtok_all (\<lambda>c. c = CHR 0x0A) output) buffer"

definition removal_chains :: "string list" where
  "removal_chains = [''prerouting'', ''output'', ''forward'']"

fun scan_chains :: "kernel \<Rightarrow> string \<Rightarrow> string list \<Rightarrow> nat \<times> string \<Rightarrow> (nat \<times> string) action" where
  "scan_chains K marker [] buffer = act_return buffer"
| "scan_chains K marker (chain # rest) buffer =
     act_bind (capture_nft K [''nft'', ''-a'', ''list'', ''chain'', ''inet'', ''minicontainer'', chain] 32768) (\<lambda>(status, output).
       scan_chains K marker rest
         (if status \<noteq> 0 then buffer else scan_chain marker chain (takeWhile (\<lambda>c. c \<noteq> CHR 0x00) output) buffer))"

definition mc_nft_remove_container :: "kernel \<Rightarrow> string \<Rightarrow> unit action" where
  "mc_nft_remove_container K cid =
     act_catch
       (act_bind (take_nft_lock K) (\<lambda>lock_descriptor.
        act_bind (scan_chains K (snprintf_buf 80 (nft_marker cid)) removal_chains (0, [])) (\<lambda>(used, script).
        act_bind (if used > 0 then act_ignore (execute_nft K [''nft'', ''-f'', ''-''] (Some script) True) else act_return ()) (\<lambda>_.
        release_nft_lock K lock_descriptor))))
       (\<lambda>e. act_return ())"

section \<open>Lemmas\<close>

text \<open>Every step extends the history.\<close>

lemma extends_nft_tool [emits_intros]:
  "extends (exit_process code)" "extends (exec_nft K arguments)" "extends (nft_child K arguments input quiet)"
  "extends m \<Longrightarrow> extends (or_exit code m)"
proof -
  show x: "extends (exit_process c)" for c by (auto simp: exit_process_def intro!: emits_intros)
  show o: "extends m \<Longrightarrow> extends (or_exit c m)" for c m by (auto simp: or_exit_def intro!: emits_intros x)
  show e: "extends (exec_nft K arguments)" by (auto simp: exec_nft_def nft_path_def intro!: emits_intros x)
  show "extends (nft_child K arguments input quiet)"
    by (auto simp: nft_child_def intro!: emits_intros o e split: option.splits)
qed

lemma extends_nft_loops [emits_intros]:
  "extends (feed K n fd bs)" "extends (wait_nft K n child)" "extends (collect K n fd capacity acc)"
proof -
  show "extends (feed K n fd bs)" by (induction K n fd bs rule: feed.induct) (auto intro!: emits_intros split: sum.splits)
  show "extends (wait_nft K n child)" by (induction K n child rule: wait_nft.induct) (auto intro!: emits_intros split: sum.splits)
  show "extends (collect K n fd capacity acc)"
    by (induction K n fd capacity acc rule: collect.induct) (auto intro!: emits_intros split: sum.splits)
qed

lemma extends_nft_runs [emits_intros]: "extends (execute_nft K arguments script quiet)" "extends (capture_nft K arguments capacity)"
  by (auto simp: execute_nft_def capture_nft_def intro!: emits_intros split: option.splits sum.splits)

lemma extends_nft_lock [emits_intros]:
  "extends (take_nft_lock K)" "extends (release_nft_lock K d)" "extends (write_forwarding K)" "extends (kernel_mkdir_p K path mode)"
  by (auto simp: take_nft_lock_def release_nft_lock_def write_forwarding_def write_sysctl_def intro!: emits_intros)
    (auto simp: emits_def kernel_mkdir_p_def split: option.splits)

lemma extends_scan_chains [emits_intros]: "extends (scan_chains K marker cs buffer)"
  by (induction K marker cs buffer rule: scan_chains.induct) (auto intro!: emits_intros split: prod.splits)

lemma extends_nft_operations [emits_intros]:
  "extends (mc_nft_ensure_base K)" "extends (mc_nft_add_container K cid ipv4 publishes)" "extends (mc_nft_remove_container K cid)"
  by (auto simp: mc_nft_ensure_base_def mc_nft_add_container_def mc_nft_remove_container_def
      intro!: emits_intros split: option.splits prod.splits)

lemma length_show_port: "length (show_nat (unat (w :: u16))) \<le> 5"
  using unat_u16_less [of w] by (intro length_show_nat) simp_all

lemma length_publish_rules: "length (publish_rules cid ip p) \<le> 420 + 3 * length cid + 3 * length ip"
proof -
  have "length (show_ipv4 (host_ipv4 p)) \<le> 15" by (rule length_show_ipv4)
  then show ?thesis
    using length_show_port [of "host_port p"] length_show_port [of "container_port p"]
    by (simp add: publish_rules_def Let_def text_line_def nft_marker_def quoted_def)
qed

lemma append_rules_fit:
  assumes "\<And>p. length (publish_rules cid ip p) \<le> 1024" "length rules + 1024 * length ps < capacity"
  shows "append_rules cid ip capacity rules ps = Some (rules @ concat (map (publish_rules cid ip) ps))"
  using assms(2)
proof (induction ps arbitrary: rules)
  case (Cons p ps)
  have "\<not> capacity - length rules \<le> length (publish_rules cid ip p)"
    using assms(1) [of p] Cons.prems by simp
  moreover have "length (rules @ publish_rules cid ip p) + 1024 * length ps < capacity"
    using assms(1) [of p] Cons.prems by simp
  ultimately show ?case using Cons.IH [of "rules @ publish_rules cid ip p"] by (simp add: Let_def not_le)
qed simp

text \<open>The rules of a container with an identifier of ordinary length always fit the buffer.\<close>

lemma container_rules_fit:
  assumes "length cid \<le> 32"
  shows "append_rules cid (show_ipv4 ip) (length ps * 1024 + 1) [] ps = Some (concat (map (publish_rules cid (show_ipv4 ip)) ps))"
  using append_rules_fit [of cid "show_ipv4 ip" "[]" ps "length ps * 1024 + 1"] length_publish_rules [of cid "show_ipv4 ip"]
    length_show_ipv4(1) [of ip] assms
  by (simp add: order.trans [of _ "420 + 3 * length cid + 3 * length (show_ipv4 ip)" 1024])

subsection \<open>Listed rules\<close>

text \<open>A rule as \<open>nft -a list chain\<close> prints it: its text, its comment and its handle.\<close>

record nft_rule =
  nr_body :: string
  nr_comment :: string
  nr_handle :: nat

definition listed_rule :: "nft_rule \<Rightarrow> string" where
  "listed_rule r = nr_body r @ '' comment '' @ quoted (nr_comment r) @ '' # handle '' @ show_nat (nr_handle r)"

definition comment_word :: string where
  "comment_word = ''comment '' @ [CHR 0x22]"

definition listable :: "nft_rule \<Rightarrow> bool" where
  "listable r \<longleftrightarrow> CHR 0x22 \<notin> set (nr_comment r) \<and> CHR '' '' \<notin> set (nr_comment r) \<and> CHR 0x0A \<notin> set (nr_comment r) \<and>
     CHR 0x0A \<notin> set (nr_body r) \<and> strstr (nr_body r) comment_word = None \<and> 0 < nr_handle r \<and> nr_handle r < 2 ^ 64"

lemma strstr_skip: "c \<notin> set a \<Longrightarrow> prefix (c # n) (c # b) \<Longrightarrow> strstr (a @ c # b) (c # n) = Some (c # b)"
  by (induction a) auto

lemma comment_in_tail:
  assumes eq: "us @ comment_word @ y = comment_word @ c @ CHR 0x22 # t"
    and c: "CHR 0x22 \<notin> set c" "CHR '' '' \<notin> set c" and t: "CHR 0x22 \<notin> set t"
  shows "us = []"
proof (rule ccontr)
  assume us: "us \<noteq> []"
  let ?q = "CHR 0x22" and ?w = "''comment ''"
  have eq': "us @ ?w @ ?q # y = ?w @ ?q # c @ ?q # t" using eq by (simp add: comment_word_def)
  show False
  proof (cases rule: split_at_sep [of ?q us])
    case 1
    then have "us @ ?w = ?w" using split_sep_unique [of "us @ ?w" ?q y ?w "c @ ?q # t"] eq' by simp
    then show False using us by simp
  next
    case (2 a b)
    then have b: "b @ ?w @ ?q # y = c @ ?q # t"
      using split_sep_unique [of a ?q "b @ ?w @ ?q # y" ?w "c @ ?q # t"] eq' by simp
    show False
    proof (cases rule: split_at_sep [of ?q b])
      case 1
      then have "b @ ?w = c" using split_sep_unique [of "b @ ?w" ?q y c t] b c(1) by simp
      then show False using c(2) by auto
    next
      case (2 d e)
      then have "e @ ?w @ ?q # y = t" using split_sep_unique [of d ?q "e @ ?w @ ?q # y" c t] b c(1) by simp
      then show False using t by auto
    qed
  qed
qed

lemma comment_in_body:
  assumes eq: "x @ us = body @ '' ''" "comment_word @ y = us @ comment_word @ z" and body: "strstr body comment_word = None"
  shows "us = []"
proof (rule ccontr)
  assume us: "us \<noteq> []"
  have len: "length comment_word = 9" by (simp add: comment_word_def)
  have last: "last us = CHR '' ''" using eq(1) us by (metis last_appendR last_snoc)
  show False
  proof (cases "length us < 9")
    case True
    have "us = take (length us) comment_word" using eq(2) True len by (metis append_eq_conv_conj nat_less_le take_append take_all_iff diff_is_0_eq take0 append_Nil2)
    moreover have "length us = 1 \<or> length us = 2 \<or> length us = 3 \<or> length us = 4 \<or> length us = 5 \<or> length us = 6 \<or>
        length us = 7 \<or> length us = 8"
    proof -
      have "0 < length us" using us by simp
      with True show ?thesis by presburger
    qed
    ultimately have "length us = 8" using last by (auto simp: comment_word_def eval_nat_numeral)
    then have "us = ''comment ''" using \<open>us = take (length us) comment_word\<close> by (simp add: comment_word_def eval_nat_numeral)
    then show False using eq(2) by (simp add: comment_word_def)
  next
    case False
    then have "comment_word = take 9 us" using eq(2) len
      by (metis append_eq_append_conv_if linorder_not_le append_eq_conv_conj nat_le_linear take_all_iff)
    then obtain r where "us = comment_word @ r" by (metis append_take_drop_id)
    then have "sublist comment_word (body @ '' '')" using eq(1) unfolding sublist_def by metis
    then have "sublist comment_word body" by (auto simp: sublist_append comment_word_def prefix_Cons append_eq_Cons_conv sublist_code)
    then show False using body strstr_sublist by blast
  qed
qed

lemma comment_unique:
  assumes "listable r" "listed_rule r = x @ comment_word @ y"
  shows "y = nr_comment r @ CHR 0x22 # '' # handle '' @ show_nat (nr_handle r)"
proof -
  define t where "t = '' # handle '' @ show_nat (nr_handle r)"
  have t: "CHR 0x22 \<notin> set t" using show_nat_digits [of "CHR 0x22" "nr_handle r"] by (auto simp: t_def isdigit_def)
  let ?rest = "nr_comment r @ CHR 0x22 # t"
  have line: "listed_rule r = (nr_body r @ '' '') @ comment_word @ ?rest"
    by (simp add: listed_rule_def quoted_def comment_word_def t_def)
  then have "x @ comment_word @ y = (nr_body r @ '' '') @ comment_word @ ?rest" using assms(2) by simp
  then consider us where "x = (nr_body r @ '' '') @ us" "us @ comment_word @ y = comment_word @ ?rest"
    | us where "x @ us = nr_body r @ '' ''" "comment_word @ y = us @ comment_word @ ?rest"
    using append_eq_append_conv2 [of x "comment_word @ y" "nr_body r @ '' ''" "comment_word @ ?rest"] by blast
  then have "comment_word @ y = comment_word @ ?rest"
  proof cases
    case (1 us)
    then have "us = []" using comment_in_tail [OF 1(2)] assms(1) t by (simp add: listable_def)
    then show ?thesis using 1 by simp
  next
    case (2 us)
    then have "us = []" using comment_in_body [OF 2] assms(1) by (simp add: listable_def)
    then show ?thesis using 2 by simp
  qed
  then show ?thesis by (simp add: t_def)
qed

definition plain_id :: "string \<Rightarrow> bool" where
  "plain_id cid \<longleftrightarrow> length cid \<le> 32 \<and> CHR 0x22 \<notin> set cid \<and> CHR ''#'' \<notin> set cid"

lemma nft_marker_short: "plain_id cid \<Longrightarrow> snprintf_buf 80 (nft_marker cid) = nft_marker cid"
  by (simp add: plain_id_def nft_marker_def quoted_def)

lemma owned_handle_listed:
  assumes r: "listable r" and cid: "plain_id cid"
  shows "owned_handle (nft_marker cid) (listed_rule r) =
    (if nr_comment r = ''minicontainer:'' @ cid then Some (nr_handle r) else None)"
proof -
  let ?m = "''minicontainer:'' @ cid"
  have marker: "nft_marker cid = comment_word @ ?m @ [CHR 0x22]" by (simp add: nft_marker_def comment_word_def quoted_def)
  have occ: "y = '' # handle '' @ show_nat (nr_handle r) \<and> nr_comment r = ?m" if "listed_rule r = x @ nft_marker cid @ y" for x y
  proof -
    have "?m @ CHR 0x22 # y = nr_comment r @ CHR 0x22 # '' # handle '' @ show_nat (nr_handle r)"
      using comment_unique [OF r, of x "?m @ CHR 0x22 # y"] that by (simp add: marker)
    then show ?thesis
      using split_sep_unique [of ?m "CHR 0x22" y "nr_comment r"] cid r by (simp add: plain_id_def listable_def)
  qed
  show ?thesis
  proof (cases "strstr (listed_rule r) (nft_marker cid)")
    case None
    have "nr_comment r \<noteq> ?m"
    proof
      assume "nr_comment r = ?m"
      then have "listed_rule r = (nr_body r @ '' '') @ nft_marker cid @ '' # handle '' @ show_nat (nr_handle r)"
        by (simp add: listed_rule_def marker comment_word_def quoted_def)
      then have "sublist (nft_marker cid) (listed_rule r)" unfolding sublist_def by blast
      then show False using None strstr_sublist by metis
    qed
    then show ?thesis using None by (simp add: owned_handle_def)
  next
    case (Some owned)
    then obtain x y where xy: "listed_rule r = x @ owned" "owned = nft_marker cid @ y"
      using strstr_first by blast
    then have y: "y = '' # handle '' @ show_nat (nr_handle r)" and c: "nr_comment r = ?m" using occ by blast+
    have "CHR ''#'' \<notin> set (nft_marker cid @ '' '')" using cid by (auto simp: plain_id_def nft_marker_def quoted_def)
    then have "strstr owned ''# handle '' = Some (''# handle '' @ show_nat (nr_handle r))"
      using strstr_skip [of "CHR ''#''" "nft_marker cid @ '' ''" "'' handle ''" "'' handle '' @ show_nat (nr_handle r)"] xy y by simp
    moreover have "strtoull (show_nat (nr_handle r)) = \<lparr>st_val = word_of_nat (nr_handle r), st_end = [], st_range = False\<rparr>"
      using strtoull_show_nat [of "nr_handle r" "[]"] r by (simp add: listable_def nondigit_start_def)
    ultimately show ?thesis using Some r c by (simp add: owned_handle_def Let_def listable_def)
  qed
qed

text \<open>The listing of a chain: lines without a comment around the lines of its rules.\<close>

definition other_line :: "string \<Rightarrow> bool" where
  "other_line l \<longleftrightarrow> l \<noteq> [] \<and> CHR 0x0A \<notin> set l \<and> strstr l comment_word = None"

definition chain_listing :: "string list \<times> nft_rule list \<times> string list \<Rightarrow> string" where
  "chain_listing contents = (case contents of (heading, rules, closing) \<Rightarrow>
     concat (map text_line (heading @ map listed_rule rules @ closing)))"

definition chain_ok :: "string list \<times> nft_rule list \<times> string list \<Rightarrow> bool" where
  "chain_ok contents = (case contents of (heading, rules, closing) \<Rightarrow>
     list_all other_line heading \<and> list_all listable rules \<and> list_all other_line closing)"

text \<open>The commands that delete the rules of one container from a chain.\<close>

definition owned_deletes :: "string \<Rightarrow> string \<Rightarrow> nft_rule list \<Rightarrow> string" where
  "owned_deletes cid chain rules =
     concat (map (\<lambda>r. delete_command chain (nr_handle r)) (filter (\<lambda>r. nr_comment r = ''minicontainer:'' @ cid) rules))"

lemma owned_handle_other: "other_line l \<Longrightarrow> owned_handle (nft_marker cid) l = None"
proof -
  assume "other_line l"
  then have "\<not> sublist comment_word l" using strstr_sublist [of l comment_word] by (auto simp: other_line_def)
  moreover have "sublist comment_word (nft_marker cid)"
    unfolding sublist_def by (rule exI [of _ "[]"], rule exI [of _ "''minicontainer:'' @ cid @ [CHR 0x22]"]) (simp add: nft_marker_def comment_word_def quoted_def)
  ultimately have "\<not> sublist (nft_marker cid) l" using sublist_order.order.trans by blast
  then show ?thesis using strstr_sublist [of l "nft_marker cid"] by (auto simp: owned_handle_def split: option.split)
qed

lemma script_add_fits: "length s + length c < 8192 \<Longrightarrow> script_add c (length s, s) = (length (s @ c), s @ c)"
  by (simp add: script_add_def Let_def)

lemma scan_rules:
  assumes "list_all listable rules" "plain_id cid" "length s + length (owned_deletes cid chain rules) < 8192"
  shows "fold (\<lambda>line b. case owned_handle (nft_marker cid) line of None \<Rightarrow> b | Some number \<Rightarrow> script_add (delete_command chain number) b)
      (map listed_rule rules) (length s, s) = (length (s @ owned_deletes cid chain rules), s @ owned_deletes cid chain rules)"
  using assms(1,3)
proof (induction rules arbitrary: s)
  case (Cons r rules)
  show ?case
  proof (cases "nr_comment r = ''minicontainer:'' @ cid")
    case True
    let ?c = "delete_command chain (nr_handle r)"
    have len: "length (s @ ?c) + length (owned_deletes cid chain rules) < 8192"
      using Cons.prems(2) True by (simp add: owned_deletes_def)
    then have "script_add ?c (length s, s) = (length (s @ ?c), s @ ?c)" by (intro script_add_fits) simp
    then show ?thesis using Cons.IH [OF _ len] Cons.prems(1) True owned_handle_listed [of r cid] assms(2)
      by (simp add: owned_deletes_def)
  next
    case False
    then show ?thesis using Cons.IH [of s] Cons.prems owned_handle_listed [of r cid] assms(2) by (simp add: owned_deletes_def)
  qed
qed (simp add: owned_deletes_def)

lemma scan_others:
  "list_all other_line ls \<Longrightarrow>
     fold (\<lambda>line b. case owned_handle (nft_marker cid) line of None \<Rightarrow> b | Some number \<Rightarrow> script_add (delete_command chain number) b) ls b = b"
  by (induction ls arbitrary: b) (simp_all add: owned_handle_other)

lemma scan_chain_listing:
  assumes "chain_ok (heading, rules, closing)" "plain_id cid" "length s + length (owned_deletes cid chain rules) < 8192"
  shows "scan_chain (nft_marker cid) chain (chain_listing (heading, rules, closing)) (length s, s) =
    (length (s @ owned_deletes cid chain rules), s @ owned_deletes cid chain rules)"
proof -
  have "list_all (\<lambda>l. l \<noteq> [] \<and> CHR 0x0A \<notin> set l) (heading @ map listed_rule rules @ closing)"
    using assms(1) show_nat_digits
    by (fastforce simp: chain_ok_def list_all_iff other_line_def listable_def listed_rule_def quoted_def isdigit_def)
  then have "strtok_all (\<lambda>c. c = CHR 0x0A) (chain_listing (heading, rules, closing)) = heading @ map listed_rule rules @ closing"
    unfolding chain_listing_def prod.case by (rule strtok_lines)
  then show ?thesis
    using assms scan_rules [of rules cid s chain] scan_others by (simp add: scan_chain_def chain_ok_def)
qed


definition example_listing :: "string list \<times> nft_rule list \<times> string list" where
  "example_listing =
     ([''table inet minicontainer { # handle 3'', ''chain forward { # handle 3''],
      [\<lparr>nr_body = ''ct state established,related accept'', nr_comment = ''minicontainer-base-return'', nr_handle = 5\<rparr>,
       \<lparr>nr_body = ''ip daddr 10.44.0.2 tcp dport 80 accept'', nr_comment = ''minicontainer:ab'', nr_handle = 12\<rparr>,
       \<lparr>nr_body = ''ip daddr 10.44.0.3 tcp dport 80 accept'', nr_comment = ''minicontainer:abc'', nr_handle = 13\<rparr>],
      [''}'', ''}''])"


text \<open>A listing that is cut at the capacity of the buffer in the middle of a handle leads to a command for
  another rule.\<close>

lemma cut_handle_names_other_rule:
  "owned_handle (nft_marker ''ab'') (butlast (listed_rule (fst (snd example_listing) ! 1))) = Some 1"
  by code_simp

end
