(* ===== verification/MC_Netlink.thy ===== *)
theory MC_Netlink
  imports MC_Nft
begin

text \<open>
  \<open>src/network/netlink.c\<close>: the route netlink messages that create the bridge and the veth pair of a container,
  their exchange with the kernel, and the set-up and removal of a container's network. Messages are byte
  lists in the layout of the LP64 little-endian targets. The results are that the messages decode to the
  intended attribute trees, that an acknowledgement is found wherever it stands in a response, and what
  a failed set-up leaves behind.
\<close>

section \<open>Bytes\<close>

definition le16 :: "u16 \<Rightarrow> u8 list" where
  "le16 w = [ucast w, ucast (drop_bit 8 w)]"

definition le32 :: "u32 \<Rightarrow> u8 list" where
  "le32 w = [ucast w, ucast (drop_bit 8 w), ucast (drop_bit 16 w), ucast (drop_bit 24 w)]"

fun get16 :: "u8 list \<Rightarrow> u16" where
  "get16 (a # b # bs) = ucast a OR push_bit 8 (ucast b)"
| "get16 bs = 0"

fun get32 :: "u8 list \<Rightarrow> u32" where
  "get32 (a # b # c # d # bs) = ucast a OR push_bit 8 (ucast b) OR push_bit 16 (ucast c) OR push_bit 24 (ucast d)"
| "get32 bs = 0"

definition align4 :: "nat \<Rightarrow> nat" where
  "align4 n = (n + 3) div 4 * 4"

text \<open>A C string with its terminator.\<close>

definition c_bytes :: "string \<Rightarrow> u8 list" where
  "c_bytes s = map of_char s @ [0]"

section \<open>Building requests\<close>

text \<open>A request: the header fields and what follows the 16 bytes of the header, zero-filled up to its length.\<close>

record nl_request =
  nl_type :: u16
  nl_flags :: u16
  nl_body :: "u8 list"

definition nlmsg_len :: "nl_request \<Rightarrow> nat" where
  "nlmsg_len m = 16 + length (nl_body m)"

definition add_attribute :: "nat \<Rightarrow> u16 \<Rightarrow> u8 list \<Rightarrow> nl_request \<Rightarrow> errno + nl_request" where
  "add_attribute capacity type data m =
     (let offset = align4 (nlmsg_len m); attribute_length = 4 + length data in
      if offset + align4 attribute_length > capacity then Inl EOVERFLOW
      else Inr (m\<lparr>nl_body := nl_body m @ replicate (offset - nlmsg_len m) 0 @ le16 (word_of_nat attribute_length) @ le16 type @
                     data @ replicate (align4 attribute_length - attribute_length) 0\<rparr>))"

text \<open>Opening and closing a nested attribute, which is named by its position.\<close>

definition begin_nested :: "nat \<Rightarrow> u16 \<Rightarrow> nl_request \<Rightarrow> errno + nl_request \<times> nat" where
  "begin_nested capacity type m =
     (let offset = align4 (nlmsg_len m) in
      if offset + 4 > capacity then Inl EOVERFLOW
      else Inr (m\<lparr>nl_body := nl_body m @ replicate (offset - nlmsg_len m) 0 @ le16 4 @ le16 (type OR 0x8000)\<rparr>, offset - 16))"

definition end_nested :: "nat \<Rightarrow> nl_request \<Rightarrow> nl_request" where
  "end_nested nested m =
     m\<lparr>nl_body := take nested (nl_body m) @ le16 (word_of_nat (length (nl_body m) - nested)) @ drop (nested + 2) (nl_body m)\<rparr>"

text \<open>\<open>struct ifinfomsg\<close>, \<open>struct ifaddrmsg\<close> and \<open>struct rtmsg\<close>.\<close>

definition ifinfomsg :: "int \<Rightarrow> u32 \<Rightarrow> u32 \<Rightarrow> u8 list" where
  "ifinfomsg index flags change = [0, 0, 0, 0] @ le32 (word_of_int index) @ le32 flags @ le32 change"

definition link_message :: "u16 \<Rightarrow> u16 \<Rightarrow> int \<Rightarrow> u32 \<Rightarrow> nl_request" where
  "link_message type flags index up = \<lparr>nl_type = type, nl_flags = flags, nl_body = ifinfomsg index up up\<rparr>"

abbreviation (input) RTM_NEWLINK :: u16 where "RTM_NEWLINK \<equiv> 16"
abbreviation (input) RTM_DELLINK :: u16 where "RTM_DELLINK \<equiv> 17"
abbreviation (input) RTM_NEWADDR :: u16 where "RTM_NEWADDR \<equiv> 20"
abbreviation (input) RTM_NEWROUTE :: u16 where "RTM_NEWROUTE \<equiv> 24"
abbreviation (input) NLM_F_REQUEST_ACK :: u16 where "NLM_F_REQUEST_ACK \<equiv> 0x5"
abbreviation (input) NLM_F_CREATE_EXCL :: u16 where "NLM_F_CREATE_EXCL \<equiv> 0x605"
abbreviation (input) IFLA_IFNAME :: u16 where "IFLA_IFNAME \<equiv> 3"
abbreviation (input) IFLA_MASTER :: u16 where "IFLA_MASTER \<equiv> 10"
abbreviation (input) IFLA_LINKINFO :: u16 where "IFLA_LINKINFO \<equiv> 18"
abbreviation (input) IFLA_NET_NS_PID :: u16 where "IFLA_NET_NS_PID \<equiv> 19"
abbreviation (input) IFLA_INFO_KIND :: u16 where "IFLA_INFO_KIND \<equiv> 1"
abbreviation (input) IFLA_INFO_DATA :: u16 where "IFLA_INFO_DATA \<equiv> 2"
abbreviation (input) VETH_INFO_PEER :: u16 where "VETH_INFO_PEER \<equiv> 1"

abbreviation (input) LINK_SIZE :: nat where "LINK_SIZE \<equiv> 2080"
abbreviation (input) ADDRESS_SIZE :: nat where "ADDRESS_SIZE \<equiv> 280"
abbreviation (input) ROUTE_SIZE :: nat where "ROUTE_SIZE \<equiv> 284"

definition bridge_message :: "errno + nl_request" where
  "bridge_message =
     ebind (add_attribute LINK_SIZE IFLA_IFNAME (c_bytes ''mcbr0'') (link_message RTM_NEWLINK NLM_F_CREATE_EXCL 0 0)) (\<lambda>m.
     ebind (begin_nested LINK_SIZE IFLA_LINKINFO m) (\<lambda>(m, link_info).
     ebind (add_attribute LINK_SIZE IFLA_INFO_KIND (c_bytes ''bridge'') m) (\<lambda>m. Inr (end_nested link_info m))))"

definition configure_message :: "int \<Rightarrow> bool \<Rightarrow> int \<Rightarrow> int \<Rightarrow> string option \<Rightarrow> errno + nl_request" where
  "configure_message index up master netns_pid new_name =
     ebind (let m = link_message RTM_NEWLINK NLM_F_REQUEST_ACK index (if up then 1 else 0) in
            if master > 0 then add_attribute LINK_SIZE IFLA_MASTER (le32 (word_of_int master)) m else Inr m) (\<lambda>m.
     ebind (if netns_pid > 0 then add_attribute LINK_SIZE IFLA_NET_NS_PID (le32 (word_of_int netns_pid)) m else Inr m) (\<lambda>m.
     case new_name of None \<Rightarrow> Inr m | Some name \<Rightarrow> add_attribute LINK_SIZE IFLA_IFNAME (c_bytes name) m))"

text \<open>The bytes of an address in network order.\<close>

definition network_bytes :: "u32 \<Rightarrow> u8 list" where
  "network_bytes a = rev (le32 a)"

definition address_message :: "int \<Rightarrow> u32 \<Rightarrow> u8 \<Rightarrow> errno + nl_request" where
  "address_message index ipv4_host address_prefix =
     (let m = \<lparr>nl_type = RTM_NEWADDR, nl_flags = NLM_F_CREATE_EXCL,
               nl_body = [2, address_prefix, 0, 0] @ le32 (word_of_int index)\<rparr> in
      ebind (add_attribute ADDRESS_SIZE 2 (network_bytes ipv4_host) m)
        (add_attribute ADDRESS_SIZE 1 (network_bytes ipv4_host)))"

definition veth_message :: "string \<Rightarrow> string \<Rightarrow> errno + nl_request" where
  "veth_message host peer =
     ebind (add_attribute LINK_SIZE IFLA_IFNAME (c_bytes host) (link_message RTM_NEWLINK NLM_F_CREATE_EXCL 0 0)) (\<lambda>m.
     ebind (begin_nested LINK_SIZE IFLA_LINKINFO m) (\<lambda>(m, link_info).
     ebind (add_attribute LINK_SIZE IFLA_INFO_KIND (c_bytes ''veth'') m) (\<lambda>m.
     ebind (begin_nested LINK_SIZE IFLA_INFO_DATA m) (\<lambda>(m, info_data).
     ebind (begin_nested LINK_SIZE VETH_INFO_PEER m) (\<lambda>(m, peer_data).
     if nlmsg_len m + 16 > LINK_SIZE then Inl EOVERFLOW
     else
       ebind (add_attribute LINK_SIZE IFLA_IFNAME (c_bytes peer) (m\<lparr>nl_body := nl_body m @ ifinfomsg 0 0 0\<rparr>)) (\<lambda>m.
       Inr (end_nested link_info (end_nested info_data (end_nested peer_data m)))))))))"

definition route_message :: "int \<Rightarrow> errno + nl_request" where
  "route_message interface_index =
     (let m = \<lparr>nl_type = RTM_NEWROUTE, nl_flags = NLM_F_CREATE_EXCL, nl_body = [2, 0, 0, 0, 254, 3, 0, 1] @ le32 0\<rparr> in
      ebind (add_attribute ROUTE_SIZE 5 (network_bytes 0x0a2c0001) m) (add_attribute ROUTE_SIZE 4 (le32 (word_of_int interface_index))))"

definition delete_message :: "int \<Rightarrow> nl_request" where
  "delete_message index = link_message RTM_DELLINK NLM_F_REQUEST_ACK index 0"

text \<open>The bytes on the wire.\<close>

definition wire :: "u32 \<Rightarrow> nl_request \<Rightarrow> u8 list" where
  "wire seq m = le32 (word_of_nat (nlmsg_len m)) @ le16 (nl_type m) @ le16 (nl_flags m) @ le32 seq @ le32 0 @ nl_body m"

section \<open>The exchange with the kernel\<close>

text \<open>Looking for the acknowledgement among the messages of a response: its error code, or \<open>None\<close> when it is
  not among them. An error code that the response does not hold in full is read as zero.\<close>

function scan_response :: "u32 \<Rightarrow> u8 list \<Rightarrow> int option" where
  "scan_response seq bytes =
     (let len = unat (get32 bytes); kind = get16 (drop 4 bytes); mseq = get32 (drop 8 bytes) in
      if length bytes < 16 \<or> len < 16 \<or> len > length bytes then None
      else if mseq = seq \<and> kind = 2 then Some (sint (get32 (drop 16 bytes)))
      else if align4 len > length bytes then None
      else scan_response seq (drop (align4 len) bytes))"
  by pat_completeness auto
termination
proof (relation "measure (length \<circ> snd)", goal_cases)
  case (2 seq bytes len kind mseq)
  have "len \<le> align4 len" by (simp add: align4_def)
  then show ?case using 2 by (simp only: in_measure comp_apply snd_conv length_drop) linarith
qed simp

declare scan_response.simps [simp del]

definition text_bytes :: "string \<Rightarrow> u8 list" where
  "text_bytes s = map of_char s"

fun receive_ack :: "kernel \<Rightarrow> nat \<Rightarrow> int \<Rightarrow> u32 \<Rightarrow> unit action" where
  "receive_ack K 0 descriptor seq = act_stuck"
| "receive_ack K (Suc n) descriptor seq =
     act_bind
       (act_catch
          (act_bind (sys K (Netlink_recv descriptor)) (\<lambda>count. act_bind (fetch_text K) (\<lambda>t. act_return (Inr (take (nat count) t)))))
          (\<lambda>e. act_return (Inl e)))
       (\<lambda>r. case r of
          Inl e \<Rightarrow> if e = EINTR then receive_ack K n descriptor seq
                   else act_bind (discard K (Close descriptor)) (\<lambda>_. act_fail e)
        | Inr response \<Rightarrow> (case scan_response seq (text_bytes response) of
            None \<Rightarrow> receive_ack K n descriptor seq
          | Some failure \<Rightarrow> act_bind (discard K (Close descriptor)) (\<lambda>_.
              if failure = 0 then act_return () else act_fail (nat (- failure)))))"

text \<open>The sequence number counts the exchanges of the process, each of which begins with opening a socket.\<close>

definition next_sequence :: "history \<Rightarrow> u32" where
  "next_sequence h = word_of_nat (Suc (length (filter (\<lambda>(c, r). c = Socket 16) h)))"

definition netlink_exchange :: "kernel \<Rightarrow> nl_request \<Rightarrow> unit action" where
  "netlink_exchange K m p =
     (let seq = next_sequence (ps_history p) in
      act_bind (sys K (Socket 16)) (\<lambda>descriptor.
        act_bind
          (act_catch (call K (Netlink_send descriptor (wire seq m)))
             (\<lambda>e. act_bind (discard K (Close descriptor)) (\<lambda>_. act_fail e)))
          (\<lambda>_. receive_ack K (k_rounds K) descriptor seq))) p"

section \<open>Operations\<close>

definition tolerate :: "errno \<Rightarrow> unit action \<Rightarrow> unit action" where
  "tolerate expected m = act_catch m (\<lambda>e. if e = expected then act_return () else act_fail e)"

definition create_bridge :: "kernel \<Rightarrow> unit action" where
  "create_bridge K = act_bind (act_lift bridge_message) (\<lambda>m. tolerate EEXIST (netlink_exchange K m))"

definition configure_link :: "kernel \<Rightarrow> int \<Rightarrow> bool \<Rightarrow> int \<Rightarrow> int \<Rightarrow> string option \<Rightarrow> unit action" where
  "configure_link K index up master netns_pid new_name =
     act_bind (act_lift (configure_message index up master netns_pid new_name)) (netlink_exchange K)"

definition add_ipv4_address :: "kernel \<Rightarrow> int \<Rightarrow> u32 \<Rightarrow> u8 \<Rightarrow> unit action" where
  "add_ipv4_address K index ipv4_host address_prefix =
     act_bind (act_lift (address_message index ipv4_host address_prefix)) (\<lambda>m. tolerate EEXIST (netlink_exchange K m))"

definition create_veth :: "kernel \<Rightarrow> string \<Rightarrow> string \<Rightarrow> unit action" where
  "create_veth K host peer = act_bind (act_lift (veth_message host peer)) (netlink_exchange K)"

definition add_default_route :: "kernel \<Rightarrow> int \<Rightarrow> unit action" where
  "add_default_route K interface_index =
     act_bind (act_lift (route_message interface_index)) (\<lambda>m. tolerate EEXIST (netlink_exchange K m))"

definition nametoindex :: "kernel \<Rightarrow> string \<Rightarrow> int action" where
  "nametoindex K name = act_catch (sys K (If_nametoindex name)) (\<lambda>e. act_return 0)"

definition require_index :: "kernel \<Rightarrow> string \<Rightarrow> int action" where
  "require_index K name = act_bind (sys K (If_nametoindex name)) (\<lambda>index. if index \<le> 0 then act_stale K else act_return index)"

definition configure_peer_namespace :: "kernel \<Rightarrow> int \<Rightarrow> string \<Rightarrow> u32 \<Rightarrow> unit action" where
  "configure_peer_namespace K namespace_pid peer ipv4_host =
     act_bind (sys K (Open (snprintf_buf 64 (''/proc/'' @ show_int namespace_pid @ ''/ns/net'')) (O_RDONLY OR O_CLOEXEC) 0)) (\<lambda>descriptor.
     act_bind (act_catch (call K (Setns descriptor (ucast CLONE_NEWNET)))
                 (\<lambda>e. act_bind (discard K (Close descriptor)) (\<lambda>_. act_fail e))) (\<lambda>_.
     act_bind (discard K (Close descriptor)) (\<lambda>_.
     act_bind (require_index K peer) (\<lambda>index.
     act_bind (configure_link K index False 0 0 (Some ''eth0'')) (\<lambda>_.
     act_bind (require_index K ''eth0'') (\<lambda>index.
     act_bind (act_all [configure_link K index True 0 0 None, add_ipv4_address K index ipv4_host 24, add_default_route K index]) (\<lambda>_.
     act_bind (require_index K ''lo'') (\<lambda>index. configure_link K index True 0 0 None))))))))"

definition delete_link :: "kernel \<Rightarrow> string \<Rightarrow> unit action" where
  "delete_link K name =
     act_bind (nametoindex K name) (\<lambda>index.
       if index \<le> 0 then act_return () else netlink_exchange K (delete_message index))"

section \<open>The network of a container\<close>

record mc_network =
  nw_host_interface :: string
  nw_peer_interface :: string
  nw_ipv4_host :: u32
  nw_id :: string
  nw_active :: bool

definition zero_network :: mc_network where
  "zero_network = \<lparr>nw_host_interface = [], nw_peer_interface = [], nw_ipv4_host = 0, nw_id = [], nw_active = False\<rparr>"

definition host_interface_of :: "string \<Rightarrow> string" where
  "host_interface_of cid = snprintf_buf 16 (''mch'' @ take 8 cid)"

definition network_of :: "string \<Rightarrow> u32 \<Rightarrow> mc_network" where
  "network_of cid ipv4_host =
     \<lparr>nw_host_interface = host_interface_of cid, nw_peer_interface = snprintf_buf 16 (''mcc'' @ take 8 cid),
      nw_ipv4_host = ipv4_host, nw_id = snprintf_buf 33 cid, nw_active = False\<rparr>"

text \<open>The helper that configures the interface inside the container's namespace is a process of its own.\<close>

definition run_helper :: "kernel \<Rightarrow> int \<Rightarrow> string \<Rightarrow> u32 \<Rightarrow> unit action" where
  "run_helper K namespace_pid peer ipv4_host =
     act_bind (sys K Fork) (\<lambda>helper.
       if helper = 0
       then act_bind (act_catch (act_bind (configure_peer_namespace K namespace_pid peer ipv4_host) (\<lambda>_. act_return 0))
                        (\<lambda>e. act_return 1)) exit_process
       else act_bind (call K (Waitpid helper False)) (\<lambda>_.
              act_bind (fetch_status K) (\<lambda>status. if status = WIFEXITED 0 then act_return () else act_stale K)))"

definition network_error :: "errno \<Rightarrow> string \<Rightarrow> mc_error" where
  "network_error e cid = mk_error MC_EXIT_RUNTIME e ''network-setup'' (Some cid) ''rtnetlink bridge/veth configuration failed''"

definition connect_container :: "kernel \<Rightarrow> string \<Rightarrow> int \<Rightarrow> u32 \<Rightarrow> mc_publish list \<Rightarrow> unit action" where
  "connect_container K cid namespace_pid ipv4_host publishes =
     (let network = network_of cid ipv4_host in
      act_bind (act_all [create_bridge K, mc_nft_ensure_base K]) (\<lambda>_.
      act_bind (require_index K ''mcbr0'') (\<lambda>bridge_index.
      act_bind (act_all [configure_link K bridge_index True 0 0 None, add_ipv4_address K bridge_index 0x0a2c0001 24,
                         create_veth K (nw_host_interface network) (nw_peer_interface network)]) (\<lambda>_.
      act_bind (require_index K (nw_host_interface network)) (\<lambda>host_index.
      act_bind (require_index K (nw_peer_interface network)) (\<lambda>peer_index.
      act_all [configure_link K host_index True bridge_index 0 None, configure_link K peer_index False 0 namespace_pid None,
               run_helper K namespace_pid (nw_peer_interface network) ipv4_host,
               mc_nft_add_container K cid ipv4_host publishes]))))))"

definition mc_network_setup :: "kernel \<Rightarrow> string \<Rightarrow> int \<Rightarrow> u32 \<Rightarrow> mc_publish list \<Rightarrow> mc_network action" where
  "mc_network_setup K cid namespace_pid ipv4_host publishes =
     act_catch
       (act_bind (connect_container K cid namespace_pid ipv4_host publishes) (\<lambda>_.
          act_return ((network_of cid ipv4_host)\<lparr>nw_active := True\<rparr>)))
       (\<lambda>saved.
          act_bind (mc_nft_remove_container K cid) (\<lambda>_.
          act_bind (act_ignore (delete_link K (host_interface_of cid))) (\<lambda>_.
          act_bind (set_first_error (network_error saved cid)) (\<lambda>_. act_fail saved))))"

definition mc_network_destroy :: "kernel \<Rightarrow> mc_network \<Rightarrow> mc_network action" where
  "mc_network_destroy K network =
     (if \<not> nw_active network then act_return network
      else act_bind (act_ignore (delete_link K (nw_host_interface network))) (\<lambda>_.
           act_bind (mc_nft_remove_container K (nw_id network)) (\<lambda>_. act_return (network\<lparr>nw_active := False\<rparr>))))"

definition mc_network_cleanup_owned :: "kernel \<Rightarrow> string \<Rightarrow> unit action" where
  "mc_network_cleanup_owned K cid =
     (if length cid \<noteq> 32 then act_return ()
      else act_all [act_ignore (delete_link K (host_interface_of cid)), mc_nft_remove_container K cid])"

section \<open>The messages decode to the intended attributes\<close>

text \<open>One attribute on the wire, and the walk over a sequence of attributes that the receiver makes.\<close>

definition attribute :: "u16 \<Rightarrow> u8 list \<Rightarrow> u8 list" where
  "attribute t d = le16 (word_of_nat (4 + length d)) @ le16 t @ d @ replicate (align4 (length d) - length d) 0"

function parse_attributes :: "u8 list \<Rightarrow> (u16 \<times> u8 list) list option" where
  "parse_attributes bs =
     (let len = unat (get16 bs) in
      if bs = [] then Some []
      else if length bs < 4 \<or> len < 4 \<or> len > length bs then None
      else map_option (Cons (get16 (drop 2 bs), take (len - 4) (drop 4 bs))) (parse_attributes (drop (align4 len) bs)))"
  by pat_completeness auto
termination
proof (relation "measure length", goal_cases)
  case (2 bs len)
  have "len \<le> align4 len" by (simp add: align4_def)
  then show ?case using 2 by (simp only: in_measure length_drop) linarith
qed simp

declare parse_attributes.simps [simp del]

definition encode_attributes :: "(u16 \<times> u8 list) list \<Rightarrow> u8 list" where
  "encode_attributes as = concat (map (\<lambda>(t, d). attribute t d) as)"

definition attribute_fits :: "u16 \<times> u8 list \<Rightarrow> bool" where
  "attribute_fits a \<longleftrightarrow> length (snd a) + 4 < 65536"

lemma length_le [simp]: "length (le16 w) = 2" "length (le32 v) = 4"
  by (simp_all add: le16_def le32_def)

lemma get16_le16 [simp]: "get16 (le16 w @ bs) = w"
proof -
  have "ucast (ucast w :: u8) OR push_bit 8 (ucast (ucast (drop_bit 8 w) :: u8)) = w"
    by (rule bit_word_eqI) (auto simp: bit_or_iff bit_push_bit_iff bit_ucast_iff bit_drop_bit_eq)
  then show ?thesis by (simp add: le16_def)
qed

lemma get32_le32 [simp]: "get32 (le32 w @ bs) = w"
proof -
  have "ucast (ucast w :: u8) OR push_bit 8 (ucast (ucast (drop_bit 8 w) :: u8)) OR
        push_bit 16 (ucast (ucast (drop_bit 16 w) :: u8)) OR push_bit 24 (ucast (ucast (drop_bit 24 w) :: u8)) = w"
  proof (rule bit_word_eqI)
    fix n assume "n < LENGTH(32)"
    then consider "n < 8" | "8 \<le> n" "n < 16" | "16 \<le> n" "n < 24" | "24 \<le> n" "n < 32" by force
    then show "bit ((ucast (ucast w :: u8) :: u32) OR push_bit 8 (ucast (ucast (drop_bit 8 w) :: u8)) OR
        push_bit 16 (ucast (ucast (drop_bit 16 w) :: u8)) OR push_bit 24 (ucast (ucast (drop_bit 24 w) :: u8))) n = bit w n"
      by cases (auto simp: bit_or_iff bit_push_bit_iff bit_ucast_iff bit_drop_bit_eq)
  qed
  then show ?thesis by (simp add: le32_def)
qed

lemma align4_add: "align4 (4 + n) = 4 + align4 n" "align4 (n + 4) = align4 n + 4"
  unfolding align4_def by presburger+

lemma align4_bounds: "n \<le> align4 n" "align4 n < n + 4"
  by (simp_all add: align4_def)

lemma align4_dvd [simp]: "4 dvd n \<Longrightarrow> align4 n = n"
  by (auto simp: align4_def)

lemma dvd_align4 [simp]: "4 dvd align4 n"
  by (simp add: align4_def)

lemma length_attribute: "length (attribute t d) = 4 + align4 (length d)"
  using align4_bounds(1) [of "length d"] by (simp add: attribute_def)

lemma unat_word_of_nat:
  "n < 65536 \<Longrightarrow> unat (word_of_nat n :: u16) = n" "n < 4294967296 \<Longrightarrow> unat (word_of_nat n :: u32) = n"
  by (simp_all add: unat_of_nat take_bit_nat_eq_self)

lemma parse_attribute_Cons:
  assumes "attribute_fits (t, d)"
  shows "parse_attributes (attribute t d @ bs) = map_option (Cons (t, d)) (parse_attributes bs)"
proof -
  have len: "unat (word_of_nat (4 + length d) :: u16) = 4 + length d"
    using assms by (intro unat_word_of_nat) (simp add: attribute_fits_def)
  have a: "attribute t d @ bs = le16 (word_of_nat (4 + length d)) @ (le16 t @ (d @ replicate (align4 (length d) - length d) 0 @ bs))"
    by (simp add: attribute_def)
  have g: "get16 (attribute t d @ bs) = word_of_nat (4 + length d)" unfolding a by (rule get16_le16)
  have k: "get16 (drop 2 (attribute t d @ bs)) = t" unfolding a by simp
  have t: "take (length d) (drop 4 (attribute t d @ bs)) = d" unfolding a by simp
  have r: "drop (align4 (4 + length d)) (attribute t d @ bs) = bs"
    using length_attribute [of t d] by (simp add: align4_add)
  have l: "length (attribute t d @ bs) = 4 + align4 (length d) + length bs" by (simp add: length_attribute)
  have ne: "attribute t d @ bs \<noteq> []" using l by (metis add_is_0 list.size(3) zero_neq_numeral)
  show ?thesis
    using ne l align4_bounds(1) [of "length d"]
    by (subst parse_attributes.simps) (simp only: g len k t r Let_def if_False if_True diff_add_inverse, simp)
qed

lemma parse_attributes_Nil [simp]: "parse_attributes [] = Some []"
  by (simp add: parse_attributes.simps)

lemma parse_encode_attributes: "list_all attribute_fits as \<Longrightarrow> parse_attributes (encode_attributes as) = Some as"
  by (induction as) (auto simp: encode_attributes_def parse_attribute_Cons)

interpretation attributes: codec encode_attributes parse_attributes "list_all attribute_fits"
  by unfold_locales (rule parse_encode_attributes)

text \<open>The three building steps append attributes to an aligned message.\<close>

lemma add_attribute_appends:
  assumes "4 dvd length (nl_body m)" "nlmsg_len m + 4 + align4 (length d) \<le> capacity"
  shows "add_attribute capacity t d m = Inr (m\<lparr>nl_body := nl_body m @ attribute t d\<rparr>)"
proof -
  have "4 dvd nlmsg_len m" using assms(1) by (simp add: nlmsg_len_def)
  then show ?thesis using assms(2) by (simp add: add_attribute_def attribute_def Let_def align4_add)
qed

lemma begin_nested_appends:
  assumes "4 dvd length (nl_body m)" "nlmsg_len m + 4 \<le> capacity"
  shows "begin_nested capacity t m = Inr (m\<lparr>nl_body := nl_body m @ le16 4 @ le16 (t OR 0x8000)\<rparr>, length (nl_body m))"
proof -
  have "4 dvd nlmsg_len m" using assms(1) by (simp add: nlmsg_len_def)
  then show ?thesis using assms(2) by (simp add: begin_nested_def Let_def) (simp add: nlmsg_len_def)
qed

lemma end_nested_wraps:
  assumes "nl_body m = outer @ le16 4 @ le16 t @ inner" "4 dvd length inner"
  shows "end_nested (length outer) m = m\<lparr>nl_body := outer @ attribute t inner\<rparr>"
  using assms by (simp add: end_nested_def attribute_def)

text \<open>The bytes of the message that creates the pair.\<close>

definition peer_info :: "string \<Rightarrow> u8 list" where
  "peer_info peer = ifinfomsg 0 0 0 @ encode_attributes [(IFLA_IFNAME, c_bytes peer)]"

definition veth_data :: "string \<Rightarrow> u8 list" where
  "veth_data peer = encode_attributes [(VETH_INFO_PEER OR 0x8000, peer_info peer)]"

definition veth_info :: "string \<Rightarrow> u8 list" where
  "veth_info peer = encode_attributes [(IFLA_INFO_KIND, c_bytes ''veth''), (IFLA_INFO_DATA OR 0x8000, veth_data peer)]"

definition interface_name :: "string \<Rightarrow> bool" where
  "interface_name s \<longleftrightarrow> length s < 16"

lemma length_ifinfomsg [simp]: "length (ifinfomsg i f c) = 16"
  by (simp add: ifinfomsg_def)

lemma align4_name: "length (c_bytes s) \<le> 16 \<Longrightarrow> align4 (length (c_bytes s)) \<le> 16"
  by (simp add: align4_def)

lemma length_name: "interface_name s \<Longrightarrow> length (c_bytes s) \<le> 16"
  by (simp add: interface_name_def c_bytes_def)

lemma encode_attributes_simps [simp]:
  "encode_attributes [] = []" "encode_attributes ((t, d) # as) = attribute t d @ encode_attributes as"
  by (simp_all add: encode_attributes_def)

lemma dvd_length_attribute [simp]: "4 dvd length (attribute t d)"
  by (simp add: length_attribute)

lemma dvd_veth [simp]: "4 dvd length (peer_info peer)" "4 dvd length (veth_data peer)" "4 dvd length (veth_info peer)"
  by (simp_all add: peer_info_def veth_data_def veth_info_def)

lemma length_veth:
  assumes "interface_name peer"
  shows "length (peer_info peer) \<le> 36" "length (veth_data peer) \<le> 40" "length (veth_info peer) \<le> 56"
proof -
  note n = align4_name [OF length_name [OF assms]]
  show p: "length (peer_info peer) \<le> 36" using n by (simp add: peer_info_def length_attribute)
  show d: "length (veth_data peer) \<le> 40" using p by (simp add: veth_data_def length_attribute)
  show "length (veth_info peer) \<le> 56"
    using d by (simp add: veth_info_def length_attribute c_bytes_def) (simp add: align4_def)
qed

lemma veth_message_bytes:
  assumes "interface_name host" "interface_name peer"
  shows "veth_message host peer =
    Inr ((link_message RTM_NEWLINK NLM_F_CREATE_EXCL 0 0)\<lparr>nl_body := ifinfomsg 0 0 0 @
      encode_attributes [(IFLA_IFNAME, c_bytes host), (IFLA_LINKINFO OR 0x8000, veth_info peer)]\<rparr>)"
proof -
  note n = align4_name [OF length_name [OF assms(1)]] align4_name [OF length_name [OF assms(2)]]
  define M where "M b = (link_message RTM_NEWLINK NLM_F_CREATE_EXCL 0 0)\<lparr>nl_body := b\<rparr>" for b
  define start where "start = ifinfomsg 0 0 0 @ attribute IFLA_IFNAME (c_bytes host)"
  define kind where "kind = attribute IFLA_INFO_KIND (c_bytes ''veth'')"
  define link where "link = start @ le16 4 @ le16 (IFLA_LINKINFO OR 0x8000) @ kind"
  define data where "data = link @ le16 4 @ le16 (IFLA_INFO_DATA OR 0x8000)"
  define peers where "peers = data @ le16 4 @ le16 (VETH_INFO_PEER OR 0x8000)"
  have kind_len: "align4 (length (c_bytes ''veth'')) = 8" by (simp add: c_bytes_def align4_def)
  have len: "length start \<le> 36" "length kind = 12" "4 dvd length start" "4 dvd length kind"
    using n(1) kind_len by (simp_all add: start_def kind_def length_attribute)
  have lens: "length link = length start + 16" "length data = length start + 20" "length peers = length start + 24"
    using len by (simp_all add: link_def data_def peers_def)
  have M [simp]: "nl_body (M b) = b" "(M b)\<lparr>nl_body := c\<rparr> = M c" "nlmsg_len (M b) = 16 + length b" for b c
    by (simp_all add: M_def nlmsg_len_def)
  have first: "add_attribute LINK_SIZE IFLA_IFNAME (c_bytes host) (link_message RTM_NEWLINK NLM_F_CREATE_EXCL 0 0) = Inr (M start)"
    using add_attribute_appends [of "M (ifinfomsg 0 0 0)" "c_bytes host" LINK_SIZE IFLA_IFNAME] n(1)
    by (simp add: start_def) (simp add: M_def link_message_def)
  have adds: "add_attribute LINK_SIZE IFLA_INFO_KIND (c_bytes ''veth'') (M (start @ le16 4 @ le16 (IFLA_LINKINFO OR 0x8000))) = Inr (M link)"
      "add_attribute LINK_SIZE IFLA_IFNAME (c_bytes peer) (M (peers @ ifinfomsg 0 0 0)) = Inr (M (peers @ peer_info peer))"
    using len lens n(2) kind_len by (simp_all add: add_attribute_appends link_def kind_def peer_info_def)
  have begins: "begin_nested LINK_SIZE IFLA_LINKINFO (M start) = Inr (M (start @ le16 4 @ le16 (IFLA_LINKINFO OR 0x8000)), length start)"
      "begin_nested LINK_SIZE IFLA_INFO_DATA (M link) = Inr (M data, length link)"
      "begin_nested LINK_SIZE VETH_INFO_PEER (M data) = Inr (M peers, length data)"
    using len lens by (simp_all add: begin_nested_appends data_def peers_def)
  have ends: "end_nested (length data) (M (peers @ peer_info peer)) = M (data @ veth_data peer)"
      "end_nested (length link) (M (data @ veth_data peer)) = M (start @ le16 4 @ le16 (IFLA_LINKINFO OR 0x8000) @ veth_info peer)"
      "end_nested (length start) (M (start @ le16 4 @ le16 (IFLA_LINKINFO OR 0x8000) @ veth_info peer)) =
       M (start @ attribute (IFLA_LINKINFO OR 0x8000) (veth_info peer))"
    using end_nested_wraps [of "M (peers @ peer_info peer)" data "VETH_INFO_PEER OR 0x8000" "peer_info peer"]
      end_nested_wraps [of "M (data @ veth_data peer)" link "IFLA_INFO_DATA OR 0x8000" "veth_data peer"]
      end_nested_wraps [of "M (start @ le16 4 @ le16 (IFLA_LINKINFO OR 0x8000) @ veth_info peer)" start "IFLA_LINKINFO OR 0x8000" "veth_info peer"]
    by (simp_all add: peers_def data_def veth_data_def veth_info_def link_def kind_def)
  have fits: "\<not> 16 + length peers + 16 > LINK_SIZE" using len(1) lens(3) by linarith
  show ?thesis
    unfolding veth_message_def first ebind_simps begins adds prod.case if_not_P [OF fits] M ends
    by (simp add: M_def start_def)
qed

text \<open>
  C24: the message of \<open>create_veth\<close> for two interface names is built without overflow, and the receiver decodes it
  to the request for a pair of links: the name of the host side, the kind \<open>veth\<close>, and nested three levels
  deep the link header and the name of the peer. Every nested length is patched to what the attribute holds.
\<close>

theorem veth_message_decodes:
  assumes "interface_name host" "interface_name peer"
  shows "\<exists>m info data peer_attribute.
    veth_message host peer = Inr m \<and> nl_type m = RTM_NEWLINK \<and> nl_flags m = NLM_F_CREATE_EXCL \<and>
    take 16 (nl_body m) = ifinfomsg 0 0 0 \<and>
    parse_attributes (drop 16 (nl_body m)) = Some [(IFLA_IFNAME, c_bytes host), (IFLA_LINKINFO OR 0x8000, info)] \<and>
    parse_attributes info = Some [(IFLA_INFO_KIND, c_bytes ''veth''), (IFLA_INFO_DATA OR 0x8000, data)] \<and>
    parse_attributes data = Some [(VETH_INFO_PEER OR 0x8000, peer_attribute)] \<and>
    take 16 peer_attribute = ifinfomsg 0 0 0 \<and>
    parse_attributes (drop 16 peer_attribute) = Some [(IFLA_IFNAME, c_bytes peer)]"
proof -
  have fits: "attribute_fits (t, c_bytes host)" "attribute_fits (t, c_bytes peer)" "attribute_fits (t, c_bytes ''veth'')"
    "attribute_fits (t, peer_info peer)" "attribute_fits (t, veth_data peer)" "attribute_fits (t, veth_info peer)" for t
    using length_veth [OF assms(2)] length_name [OF assms(1)] length_name [OF assms(2)]
    by (simp_all add: attribute_fits_def c_bytes_def)
  have "parse_attributes (encode_attributes [(IFLA_IFNAME, c_bytes host), (IFLA_LINKINFO OR 0x8000, veth_info peer)]) =
      Some [(IFLA_IFNAME, c_bytes host), (IFLA_LINKINFO OR 0x8000, veth_info peer)]"
    by (simp add: attributes.dec_enc fits del: encode_attributes_simps)
  moreover have "parse_attributes (veth_info peer) =
      Some [(IFLA_INFO_KIND, c_bytes ''veth''), (IFLA_INFO_DATA OR 0x8000, veth_data peer)]"
    unfolding veth_info_def by (simp add: attributes.dec_enc fits del: encode_attributes_simps)
  moreover have "parse_attributes (veth_data peer) = Some [(VETH_INFO_PEER OR 0x8000, peer_info peer)]"
    unfolding veth_data_def by (simp add: attributes.dec_enc fits del: encode_attributes_simps)
  moreover have "parse_attributes (drop 16 (peer_info peer)) = Some [(IFLA_IFNAME, c_bytes peer)]"
    by (simp add: peer_info_def attributes.dec_enc fits del: encode_attributes_simps)
  moreover have "take 16 (peer_info peer) = ifinfomsg 0 0 0" by (simp add: peer_info_def)
  ultimately show ?thesis
    using veth_message_bytes [OF assms]
    by (intro exI [of _ "veth_info peer"] exI [of _ "veth_data peer"] exI [of _ "peer_info peer"]
          exI [of _ "(link_message RTM_NEWLINK NLM_F_CREATE_EXCL 0 0)\<lparr>nl_body := ifinfomsg 0 0 0 @
            encode_attributes [(IFLA_IFNAME, c_bytes host), (IFLA_LINKINFO OR 0x8000, veth_info peer)]\<rparr>"])
      (simp add: link_message_def del: encode_attributes_simps)
qed

theorem veth_message_decodes_witness:
  "interface_name ''mch01234567'' \<and> interface_name ''mcc01234567'' \<and>
   (\<exists>m. veth_message ''mch01234567'' ''mcc01234567'' = Inr m \<and> nl_type m = RTM_NEWLINK)"
  using veth_message_decodes [of "''mch01234567''" "''mcc01234567''"] by (auto simp: interface_name_def)

section \<open>Finding the acknowledgement\<close>

text \<open>A message of a response.\<close>

record nl_message =
  ms_type :: u16
  ms_flags :: u16
  ms_seq :: u32
  ms_pid :: u32
  ms_payload :: "u8 list"

definition message_bytes :: "nl_message \<Rightarrow> u8 list" where
  "message_bytes m =
     le32 (word_of_nat (16 + length (ms_payload m))) @ le16 (ms_type m) @ le16 (ms_flags m) @ le32 (ms_seq m) @ le32 (ms_pid m) @
     ms_payload m @ replicate (align4 (length (ms_payload m)) - length (ms_payload m)) 0"

definition message_fits :: "nl_message \<Rightarrow> bool" where
  "message_fits m \<longleftrightarrow> length (ms_payload m) < 8192"

definition answers :: "u32 \<Rightarrow> nl_message \<Rightarrow> bool" where
  "answers seq m \<longleftrightarrow> ms_seq m = seq \<and> ms_type m = 2"

lemma length_message_bytes: "length (message_bytes m) = 16 + align4 (length (ms_payload m))"
  using align4_bounds(1) [of "length (ms_payload m)"] by (simp add: message_bytes_def)

lemma message_fields:
  assumes "message_fits m"
  shows "unat (get32 (message_bytes m @ bs)) = 16 + length (ms_payload m)" "get16 (drop 4 (message_bytes m @ bs)) = ms_type m"
    "get32 (drop 8 (message_bytes m @ bs)) = ms_seq m"
    "drop 16 (message_bytes m @ bs) = ms_payload m @ replicate (align4 (length (ms_payload m)) - length (ms_payload m)) 0 @ bs"
proof -
  have "unat (word_of_nat (16 + length (ms_payload m)) :: u32) = 16 + length (ms_payload m)"
    using assms by (intro unat_word_of_nat) (simp add: message_fits_def)
  then show "unat (get32 (message_bytes m @ bs)) = 16 + length (ms_payload m)" by (simp add: message_bytes_def)
qed (simp_all add: message_bytes_def)

lemma align4_16: "align4 (16 + n) = 16 + align4 n"
  unfolding align4_def by presburger

lemma scan_response_step:
  assumes "message_fits m"
  shows "scan_response seq (message_bytes m @ bs) =
    (if answers seq m then Some (sint (get32 (ms_payload m @ replicate (align4 (length (ms_payload m)) - length (ms_payload m)) 0 @ bs)))
     else scan_response seq bs)"
proof -
  have l: "length (message_bytes m @ bs) = 16 + align4 (length (ms_payload m)) + length bs"
    by (simp add: length_message_bytes)
  have d: "drop (16 + align4 (length (ms_payload m))) (message_bytes m @ bs) = bs"
    by (simp add: length_message_bytes)
  note f = message_fields [OF assms, of bs]
  show ?thesis
    using align4_bounds(1) [of "length (ms_payload m)"]
    by (subst scan_response.simps) (simp only: Let_def f l align4_16 d answers_def, simp)
qed

text \<open>
  C34: the loop of \<open>netlink_exchange\<close> over a response finds the acknowledgement of its own request wherever it
  stands: messages of other kinds or with other sequence numbers before it are skipped whatever they hold,
  nothing behind it matters, and the result is the error number of the acknowledgement.
\<close>

theorem acknowledgement_found:
  assumes "list_all message_fits before" "list_all (\<lambda>m. \<not> answers seq m) before"
    and "message_fits m" "answers seq m" "ms_payload m = le32 (word_of_int failure) @ original"
    and "- (2 ^ 31) \<le> failure" "failure < 2 ^ 31"
  shows "scan_response seq (concat (map message_bytes before) @ message_bytes m @ rest) = Some failure"
  using assms(1, 2)
proof (induction before)
  case Nil
  have "sint (word_of_int failure :: u32) = failure"
    using assms(6, 7) by (simp add: signed_of_int signed_take_bit_int_eq_self)
  then show ?case using assms(3-5) by (simp add: scan_response_step)
next
  case (Cons a before)
  then show ?case by (simp add: scan_response_step)
qed

definition example_ack :: nl_message where
  "example_ack = \<lparr>ms_type = 2, ms_flags = 0, ms_seq = 7, ms_pid = 0, ms_payload = le32 (word_of_int (- 17)) @ [1, 2]\<rparr>"

theorem acknowledgement_found_witness:
  "scan_response 7 (concat (map message_bytes [example_ack\<lparr>ms_seq := 6\<rparr>, example_ack\<lparr>ms_type := 3\<rparr>]) @ message_bytes example_ack @ [9])
    = Some (- 17)"
  by (rule acknowledgement_found [where original = "[1, 2]"])
    (simp_all add: example_ack_def message_fits_def answers_def)

section \<open>A failed set-up\<close>

lemma extends_netlink_exchange [emits_intros]: "extends (netlink_exchange K m)"
proof -
  have r: "extends (receive_ack K n d seq)" for n d seq
    by (induction n) (auto intro!: emits_intros split: sum.splits option.splits)
  have "extends (act_bind (sys K (Socket 16)) (\<lambda>descriptor. act_bind
      (act_catch (call K (Netlink_send descriptor (wire seq m)))
        (\<lambda>e. act_bind (discard K (Close descriptor)) (\<lambda>_. act_fail e)))
      (\<lambda>_. receive_ack K (k_rounds K) descriptor seq)))" for seq
    by (intro emits_intros r TrueI)
  then show ?thesis unfolding emits_def netlink_exchange_def Let_def by blast
qed

text \<open>What the deletion of a link asks for: the index of the name, and, when there is one, a netlink socket on
  which the request to delete the link with this index is sent.\<close>

definition deletion_requested :: "string \<Rightarrow> history \<Rightarrow> bool" where
  "deletion_requested name h \<longleftrightarrow>
     (\<exists>r h1. h = (If_nametoindex name, r) # h1 \<and>
        (\<forall>index. r = Inr index \<and> index > 0 \<longrightarrow>
           (\<exists>s h2. h1 = (Socket 16, s) # h2 \<and>
              (\<forall>descriptor. s = Inr descriptor \<longrightarrow>
                 (\<exists>seq r' h3. h2 = (Netlink_send descriptor (wire seq (delete_message index)), r') # h3)))))"

lemma netlink_exchange_sends:
  "\<exists>s h. ps_history (fst (netlink_exchange K m p)) = ps_history p @ (Socket 16, s) # h \<and>
     (\<forall>descriptor. s = Inr descriptor \<longrightarrow> (\<exists>seq r h'. h = (Netlink_send descriptor (wire seq m), r) # h'))"
proof -
  have r: "extends (receive_ack K n d seq)" for n d seq
    by (induction n) (auto intro!: emits_intros split: sum.splits option.splits)
  have c: "extends (act_bind (discard K (Close d)) (\<lambda>_. act_fail e) :: unit action)" for d e
    by (intro emits_intros TrueI)
  define seq where "seq = next_sequence (ps_history p)"
  obtain s where s: "k_call K (ps_history p) (Socket 16) = s" by simp
  show ?thesis
  proof (cases s)
    case (Inl e)
    then show ?thesis using s by (simp add: netlink_exchange_def act_bind_def sys_def Let_def)
  next
    case (Inr d)
    define q where "q = p\<lparr>ps_history := ps_history p @ [(Socket 16, Inr d)]\<rparr>"
    define b where "b = k_call K (ps_history q) (Netlink_send d (wire seq m))"
    define q' where "q' = q\<lparr>ps_history := ps_history q @ [(Netlink_send d (wire seq m), b)]\<rparr>"
    have "\<exists>h. ps_history (fst (netlink_exchange K m p)) = ps_history q' @ h"
    proof (cases b)
      case fail: (Inl e)
      then have "fst (netlink_exchange K m p) = fst ((act_bind (discard K (Close d)) (\<lambda>_. act_fail e) :: unit action) q')"
        using s Inr by (simp add: netlink_exchange_def act_defs Let_def q_def q'_def b_def seq_def split: sum.split)
      then show ?thesis using emitsD [OF c, where p = q'] by auto
    next
      case (Inr v)
      then have "netlink_exchange K m p = receive_ack K (k_rounds K) d seq q'"
        using s \<open>s = Inr d\<close> by (simp add: netlink_exchange_def act_bind_def sys_def Let_def act_catch_def call_def act_return_def
            q_def q'_def b_def seq_def)
      then show ?thesis using emitsD [OF r, where p = q'] by metis
    qed
    then show ?thesis unfolding q'_def q_def using Inr by auto
  qed
qed

lemma delete_link_requests:
  "\<exists>h. ps_history (fst (delete_link K name p)) = ps_history p @ h \<and> deletion_requested name h"
proof -
  define r where "r = k_call K (ps_history p) (If_nametoindex name)"
  define q where "q = p\<lparr>ps_history := ps_history p @ [(If_nametoindex name, r)]\<rparr>"
  define index where "index = (case r of Inl e \<Rightarrow> 0 | Inr i \<Rightarrow> i)"
  have d: "delete_link K name p = (if index \<le> 0 then act_return () q else netlink_exchange K (delete_message index) q)"
    by (cases r) (simp_all add: delete_link_def nametoindex_def act_bind_def act_catch_def act_return_def sys_def Let_def
        q_def r_def [symmetric] index_def)
  have q: "ps_history q = ps_history p @ [(If_nametoindex name, r)]" by (simp add: q_def)
  show ?thesis
  proof (cases "index \<le> 0")
    case True
    then show ?thesis using d q
      by (intro exI [of _ "[(If_nametoindex name, r)]"]) (auto simp: deletion_requested_def act_return_def index_def)
  next
    case False
    then have "r = Inr index" by (cases r) (simp_all add: index_def)
    moreover obtain s h where "ps_history (fst (netlink_exchange K (delete_message index) q)) = ps_history q @ (Socket 16, s) # h"
        "\<forall>descriptor. s = Inr descriptor \<longrightarrow> (\<exists>seq r h'. h = (Netlink_send descriptor (wire seq (delete_message index)), r) # h')"
      using netlink_exchange_sends by blast
    ultimately show ?thesis using d q False
      by (intro exI [of _ "(If_nametoindex name, r) # (Socket 16, s) # h"]) (simp add: deletion_requested_def)
  qed
qed

lemma extends_delete_link [emits_intros]: "extends (delete_link K name)"
  by (auto simp: delete_link_def nametoindex_def intro!: emits_intros)

lemma extends_peer [emits_intros]: "extends (configure_peer_namespace K pid peer ip)"
  by (auto simp: configure_peer_namespace_def require_index_def configure_link_def add_ipv4_address_def add_default_route_def
      tolerate_def intro!: emits_intros)

lemma extends_connect [emits_intros]: "extends (connect_container K cid pid ip ps)"
  by (auto simp: connect_container_def Let_def create_bridge_def require_index_def configure_link_def add_ipv4_address_def
      create_veth_def run_helper_def tolerate_def intro!: emits_intros)

lemma act_ignore_bind:
  "act_bind (act_ignore m) f p = (p', Some r) \<Longrightarrow> \<exists>q x. m p = (q, Some x) \<and> f () q = (p', Some r)"
  by (cases "m p") (auto simp: act_ignore_def act_bind_def act_catch_def act_return_def split: option.splits sum.splits)

lemma nft_remove_never_fails: "mc_nft_remove_container K cid p \<noteq> (q, Some (Inl e))"
  unfolding mc_nft_remove_container_def act_catch_def
  by (auto simp: act_return_def split: prod.splits option.splits sum.splits)

text \<open>
  C23: a set-up of the network that fails has recorded an error, and has made the attempt to undo itself: after
  everything else the host side of the container's pair is looked up by name, and when it exists the
  request to delete exactly this link is sent (deleting one side of a pair deletes both). The failing
  calls, the answers of the kernel and the state of the packet filter are arbitrary.
\<close>

theorem network_setup_undone:
  assumes "mc_network_setup K cid pid ip publishes p = (p', Some (Inl e))"
  shows "ps_error p' \<noteq> None \<and>
    (\<exists>h undo. ps_history p' = ps_history p @ h @ undo \<and> deletion_requested (host_interface_of cid) undo)"
proof -
  define build :: "mc_network action" where "build = act_bind (connect_container K cid pid ip publishes) (\<lambda>_.
    act_return ((network_of cid ip)\<lparr>nw_active := True\<rparr>))"
  obtain q saved where q: "build p = (q, Some (Inl saved))"
      "act_bind (mc_nft_remove_container K cid) (\<lambda>_.
        act_bind (act_ignore (delete_link K (host_interface_of cid))) (\<lambda>_.
        act_bind (set_first_error (network_error saved cid)) (\<lambda>_. act_fail saved))) q = (p', Some (Inl e) :: (errno + mc_network) option)"
    using assms unfolding mc_network_setup_def build_def [symmetric] act_catch_def
    by (auto split: prod.splits option.splits sum.splits)
  obtain q1 where q1: "mc_nft_remove_container K cid q = (q1, Some (Inr ()))"
    using q(2) nft_remove_never_fails [of K cid q]
    by (cases "mc_nft_remove_container K cid q") (auto simp: act_bind_def [of "mc_nft_remove_container K cid"] split: option.splits sum.splits)
  have tail: "act_bind (act_ignore (delete_link K (host_interface_of cid))) (\<lambda>_.
      act_bind (set_first_error (network_error saved cid)) (\<lambda>_. act_fail saved)) q1 = (p', Some (Inl e :: errno + mc_network))"
    using q(2) by (simp add: act_bind_def [of "mc_nft_remove_container K cid"] q1)
  obtain q2 r where q2: "delete_link K (host_interface_of cid) q1 = (q2, Some r)"
      "act_bind (set_first_error (network_error saved cid)) (\<lambda>_. act_fail saved) q2 = (p', Some (Inl e :: errno + mc_network))"
    using act_ignore_bind [OF tail] by blast
  have p': "ps_history p' = ps_history q2" "ps_error p' \<noteq> None"
    using q2(2) by (auto simp: act_bind_def set_first_error_def act_fail_def split: option.splits)
  have "extends build" unfolding build_def by (intro emits_intros)
  then obtain h where "ps_history q = ps_history p @ h" using q(1) emitsD by (metis fst_conv)
  moreover obtain h1 where "ps_history q1 = ps_history q @ h1"
    using q1 emitsD [OF extends_nft_operations(3), where p = q] by (metis fst_conv)
  moreover obtain undo where "ps_history q2 = ps_history q1 @ undo" "deletion_requested (host_interface_of cid) undo"
    using delete_link_requests [of K "host_interface_of cid" q1] q2(1) by auto
  ultimately have "ps_history p' = ps_history p @ (h @ h1) @ undo \<and> deletion_requested (host_interface_of cid) undo"
    using p' by simp
  then show ?thesis using p'(2) by blast
qed

text \<open>A kernel on which every system call fails.\<close>

definition refusing_kernel :: kernel where
  "refusing_kernel = example_kernel\<lparr>k_call := \<lambda>h c. Inl 1\<rparr>"

theorem network_setup_undone_witness:
  "ps_error (fst (mc_network_setup refusing_kernel ''0123456789abcdef'' 42 0x0a2c0002 [] example_process)) \<noteq> None"
proof -
  have "\<exists>p' e. mc_network_setup refusing_kernel ''0123456789abcdef'' 42 0x0a2c0002 [] example_process = (p', Some (Inl e))"
  proof -
    have "\<exists>m. bridge_message = Inr m"
      by (simp add: bridge_message_def add_attribute_def begin_nested_def nlmsg_len_def link_message_def c_bytes_def align4_def Let_def)
    then obtain m where m: "bridge_message = Inr m" ..
    show ?thesis
      by (simp add: mc_network_setup_def connect_container_def create_bridge_def m tolerate_def netlink_exchange_def act_defs Let_def
          refusing_kernel_def mc_nft_remove_container_def take_nft_lock_def delete_link_def nametoindex_def act_all.simps)
  qed
  then obtain p' e where r: "mc_network_setup refusing_kernel ''0123456789abcdef'' 42 0x0a2c0002 [] example_process = (p', Some (Inl e))"
    by blast
  show ?thesis using network_setup_undone [OF r] r by simp
qed

end
