(* ===== verification/MC_Stats.thy ===== *)
theory MC_Stats
  imports MC_Fs
begin

text \<open>
  \<open>src/linux/stats.c\<close> and \<open>src/runtime/info.c\<close>: reading the counters of a running container from its control group,
  and the report on the host. The files are a parameter; the main result is that the counters the kernel
  shows in its formats are the ones that are reported.
\<close>

section \<open>Reading files\<close>

datatype file_result = Unopened errno | Broken | Contents string

text \<open>The files as the successive reads of one run find them, the environment, and what \<open>errno\<close> holds when a path
  does not fit its buffer.\<close>

record stats_env =
  se_read :: "nat \<Rightarrow> string \<Rightarrow> file_result"
  se_getenv :: "string \<Rightarrow> string option"
  se_errno :: errno

text \<open>The end of the file is seen only when it is shorter than the buffer; the caller reads up to the first
  zero byte.\<close>

definition read_text :: "stats_env \<Rightarrow> nat \<Rightarrow> string \<Rightarrow> nat \<Rightarrow> errno + string" where
  "read_text E k path capacity =
     (case se_read E k path of
        Unopened e \<Rightarrow> Inl e
      | Broken \<Rightarrow> Inl EIO
      | Contents t \<Rightarrow> if length t \<ge> capacity - 1 then Inl EOVERFLOW else Inr (takeWhile (\<lambda>c. c \<noteq> CHR 0x00) t))"

definition read_at :: "stats_env \<Rightarrow> nat \<Rightarrow> string \<Rightarrow> nat \<Rightarrow> errno + string" where
  "read_at E k path capacity = (if length path \<ge> PATH_MAX then Inl (se_errno E) else read_text E k path capacity)"

definition cgroup_marker :: string where
  "cgroup_marker = [CHR 0x22] @ ''cgroup_path'' @ [CHR 0x22, CHR '':'', CHR 0x22]"

definition state_cgroup :: "stats_env \<Rightarrow> string \<Rightarrow> errno + string" where
  "state_cgroup E cid =
     ebind (read_at E 0 (mc_state_dir (se_getenv E) @ ''/containers/'' @ cid @ ''/state.json'') 4096) (\<lambda>document.
       case strstr document cgroup_marker of
         None \<Rightarrow> Inl EINVAL
       | Some s \<Rightarrow>
           let start = drop (length cgroup_marker) s; value = takeWhile (\<lambda>c. c \<noteq> CHR 0x22) start in
           if strchr start CHR 0x22 = None \<or> value = [] \<or> length value \<ge> PATH_MAX then Inl EINVAL else Inr value)"

definition read_u64 :: "stats_env \<Rightarrow> nat \<Rightarrow> string \<Rightarrow> string \<Rightarrow> errno + u64" where
  "read_u64 E k directory name =
     ebind (read_at E k (directory @ ''/'' @ name) 128) (\<lambda>t.
       if strncmp_eq t ''max'' 3 then Inr (- 1)
       else
         let r = strtoull t in
         if st_range r \<or> st_end r = t \<or> (case st_end r of [] \<Rightarrow> False | c # cs \<Rightarrow> c \<noteq> CHR 0x0A) then Inl EINVAL
         else Inr (st_val r))"

text \<open>\<open>sscanf (line, "%63s %llu", ...)\<close> when both conversions are assigned.\<close>

definition scan_field :: "string \<Rightarrow> (string \<times> u64) option" where
  "scan_field line =
     (let s = dropWhile isspace line; key = take 63 (takeWhile (\<lambda>c. \<not> isspace c) s); rest = drop (length key) s;
          r = strtoull rest in
      if key = [] \<or> st_end r = rest then None else Some (key, st_val r))"

fun find_field :: "string \<Rightarrow> string list \<Rightarrow> errno + u64" where
  "find_field field [] = Inl ENOENT"
| "find_field field (line # rest) =
     (case scan_field line of
        Some (key, v) \<Rightarrow> if key = field then Inr v else find_field field rest
      | None \<Rightarrow> find_field field rest)"

definition cpu_field :: "stats_env \<Rightarrow> nat \<Rightarrow> string \<Rightarrow> string \<Rightarrow> errno + u64" where
  "cpu_field E k directory field =
     ebind (read_at E k (directory @ ''/cpu.stat'') 2048) (\<lambda>t. find_field field (strtok_all (\<lambda>c. c = CHR 0x0A) t))"

text \<open>The sum of all the numbers that follow the name of a field, as a word of its own or after an equals
  sign.\<close>

fun named_sum :: "string \<Rightarrow> string list \<Rightarrow> u64 \<Rightarrow> u64" where
  "named_sum field [] acc = acc"
| "named_sum field (token # rest) acc =
     (if strncmp_eq token field (length field) \<and> (drop (length field) token = [] \<or> token ! length field = CHR ''='')
      then let number = drop (length field + 1) token in
           if number = []
           then (case rest of [] \<Rightarrow> acc | next # rest' \<Rightarrow> named_sum field rest' (acc + st_val (strtoull next)))
           else named_sum field rest (acc + st_val (strtoull number))
      else named_sum field rest acc)"

definition named_field :: "stats_env \<Rightarrow> nat \<Rightarrow> string \<Rightarrow> string \<Rightarrow> string \<Rightarrow> errno + u64" where
  "named_field E k directory file field =
     ebind (read_at E k (directory @ ''/'' @ file) 4096) (\<lambda>t.
       Inr (named_sum field (strtok_all (\<lambda>c. c = CHR '' '' \<or> c = CHR 0x0A) t) 0))"

section \<open>The statistics of a container\<close>

record mc_stats =
  memory_current :: u64
  memory_max :: u64
  swap_current :: u64
  swap_max :: u64
  cpu_usage :: u64
  cpu_throttled :: u64
  cpu_throttled_usec :: u64
  pids_current :: u64
  pids_max :: u64
  memory_oom :: u64
  memory_oom_kill :: u64
  io_read :: u64
  io_write :: u64

definition gather_stats :: "stats_env \<Rightarrow> string \<Rightarrow> errno + mc_stats" where
  "gather_stats E cid =
     ebind (state_cgroup E cid) (\<lambda>cgroup.
     ebind (read_u64 E 1 cgroup ''memory.current'') (\<lambda>mc.
     ebind (read_u64 E 2 cgroup ''memory.max'') (\<lambda>mm.
     ebind (read_u64 E 3 cgroup ''memory.swap.current'') (\<lambda>sc.
     ebind (read_u64 E 4 cgroup ''memory.swap.max'') (\<lambda>sm.
     ebind (cpu_field E 5 cgroup ''usage_usec'') (\<lambda>cu.
     ebind (cpu_field E 6 cgroup ''nr_throttled'') (\<lambda>ct.
     ebind (cpu_field E 7 cgroup ''throttled_usec'') (\<lambda>cx.
     ebind (read_u64 E 8 cgroup ''pids.current'') (\<lambda>pc.
     ebind (read_u64 E 9 cgroup ''pids.max'') (\<lambda>pm.
     ebind (named_field E 10 cgroup ''memory.events'' ''oom'') (\<lambda>mo.
     ebind (named_field E 11 cgroup ''memory.events'' ''oom_kill'') (\<lambda>mk.
     ebind (named_field E 12 cgroup ''io.stat'' ''rbytes'') (\<lambda>ir.
     ebind (named_field E 13 cgroup ''io.stat'' ''wbytes'') (\<lambda>iw.
       Inr \<lparr>memory_current = mc, memory_max = mm, swap_current = sc, swap_max = sm, cpu_usage = cu, cpu_throttled = ct,
            cpu_throttled_usec = cx, pids_current = pc, pids_max = pm, memory_oom = mo, memory_oom_kill = mk,
            io_read = ir, io_write = iw\<rparr>))))))))))))))"

definition show_u64 :: "u64 \<Rightarrow> string" where
  "show_u64 v = show_nat (unat v)"

definition print_limit :: "u64 \<Rightarrow> string" where
  "print_limit v = (if v = - 1 then ''max'' else show_u64 v)"

definition json_key :: "string \<Rightarrow> string" where
  "json_key k = [CHR 0x22] @ k @ [CHR 0x22, CHR '':'']"

definition stats_json :: "string \<Rightarrow> mc_stats \<Rightarrow> string" where
  "stats_json cid s =
     ''{'' @ json_key ''schema_version'' @ ''1,'' @ json_key ''id'' @ [CHR 0x22] @ cid @ [CHR 0x22] @ '','' @ json_key ''memory'' @
     ''{'' @ json_key ''current'' @ show_u64 (memory_current s) @ '','' @ json_key ''max'' @ print_limit (memory_max s) @
     '','' @ json_key ''swap_current'' @ show_u64 (swap_current s) @ '','' @ json_key ''swap_max'' @ print_limit (swap_max s) @
     '','' @ json_key ''oom'' @ show_u64 (memory_oom s) @ '','' @ json_key ''oom_kill'' @ show_u64 (memory_oom_kill s) @
     ''},'' @ json_key ''cpu'' @ ''{'' @ json_key ''usage_usec'' @ show_u64 (cpu_usage s) @
     '','' @ json_key ''nr_throttled'' @ show_u64 (cpu_throttled s) @ '','' @ json_key ''throttled_usec'' @ show_u64 (cpu_throttled_usec s) @
     ''},'' @ json_key ''pids'' @ ''{'' @ json_key ''current'' @ show_u64 (pids_current s) @ '','' @ json_key ''max'' @ print_limit (pids_max s) @
     ''},'' @ json_key ''io'' @ ''{'' @ json_key ''read_bytes'' @ show_u64 (io_read s) @ '','' @ json_key ''write_bytes'' @ show_u64 (io_write s) @
     ''}}'' @ [CHR 0x0A]"

definition stats_table :: "string \<Rightarrow> mc_stats \<Rightarrow> string" where
  "stats_table cid s =
     (let tab = [CHR 0x09] in
      ''ID'' @ tab @ ''MEMORY'' @ tab @ ''SWAP'' @ tab @ ''CPU USEC'' @ tab @ ''THROTTLED'' @ tab @ ''PIDS'' @ [CHR 0x0A] @
      cid @ tab @ show_u64 (memory_current s) @ ''/'' @ print_limit (memory_max s) @
      tab @ show_u64 (swap_current s) @ ''/'' @ print_limit (swap_max s) @
      tab @ show_u64 (cpu_usage s) @ tab @ show_u64 (cpu_throttled s) @ tab @ show_u64 (pids_current s) @ ''/'' @
      print_limit (pids_max s) @ [CHR 0x0A])"

definition mc_stats_print :: "stats_env \<Rightarrow> string \<Rightarrow> bool \<Rightarrow> mc_error + string" where
  "mc_stats_print E cid json =
     (case gather_stats E cid of
        Inl e \<Rightarrow> Inl (mk_error MC_EXIT_NOT_FOUND e ''stats'' (Some cid) ''container is not running or its cgroup is unavailable'')
      | Inr s \<Rightarrow> Inr (if json then stats_json cid s else stats_table cid s))"

section \<open>The report on the host\<close>

record host_facts =
  hf_sysname :: "string option"
  hf_controllers :: bool
  hf_bridge_index :: u32
  hf_executable :: "string \<Rightarrow> bool"

definition linux_host :: "host_facts \<Rightarrow> bool" where
  "linux_host h \<longleftrightarrow> (case hf_sysname h of Some (c # cs) \<Rightarrow> c = CHR ''L'' | _ \<Rightarrow> False)"

definition mc_print_info :: "host_facts \<Rightarrow> bool \<Rightarrow> int \<times> string" where
  "mc_print_info h json =
     (let linux = linux_host h; cgroup_v2 = hf_controllers h; bridge_ready = (hf_bridge_index h \<noteq> 0);
          nft_available = (hf_executable h ''/usr/sbin/nft'' \<or> hf_executable h ''/usr/bin/nft'');
          truth = (\<lambda>b. if b then ''true'' else ''false''); yes = (\<lambda>b. if b then ''yes'' else ''no'') in
      (if linux \<and> cgroup_v2 then 0 else 3,
       if json
       then ''{'' @ json_key ''linux'' @ truth linux @ '','' @ json_key ''cgroup_version'' @ (if cgroup_v2 then ''2'' else ''0'') @
            '','' @ json_key ''bridge_ready'' @ truth bridge_ready @ '','' @ json_key ''nftables_available'' @ truth nft_available @
            '','' @ json_key ''ready'' @ truth (linux \<and> cgroup_v2) @ ''}'' @ [CHR 0x0A]
       else text_line (''linux: '' @ yes linux) @ text_line (''cgroup v2: '' @ yes cgroup_v2) @
            text_line (''bridge: '' @ (if bridge_ready then ''ready'' else ''not initialized'')) @
            text_line (''nftables: '' @ (if nft_available then ''available'' else ''missing'')) @
            text_line (''ready: '' @ yes (linux \<and> cgroup_v2))))"

section \<open>The files of the kernel\<close>

text \<open>The formats in which the kernel shows its counters: a number or \<open>max\<close> on a line, lines of a key and a
  number, and lines of a device with assignments.\<close>

definition number_file :: "u64 \<Rightarrow> string" where
  "number_file v = text_line (show_u64 v)"

definition limit_file :: "u64 option \<Rightarrow> string" where
  "limit_file l = (case l of None \<Rightarrow> text_line ''max'' | Some v \<Rightarrow> number_file v)"

definition keyed_file :: "(string \<times> u64) list \<Rightarrow> string" where
  "keyed_file kvs = concat (map (\<lambda>(k, v). text_line (k @ '' '' @ show_u64 v)) kvs)"

definition device_line :: "string \<times> (string \<times> u64) list \<Rightarrow> string" where
  "device_line d = text_line (fst d @ concat (map (\<lambda>(k, v). '' '' @ k @ ''='' @ show_u64 v) (snd d)))"

definition device_file :: "(string \<times> (string \<times> u64) list) list \<Rightarrow> string" where
  "device_file ds = concat (map device_line ds)"

definition key_ok :: "string \<Rightarrow> bool" where
  "key_ok k \<longleftrightarrow> k \<noteq> [] \<and> length k \<le> 63 \<and> list_all (\<lambda>c. \<not> isspace c \<and> c \<noteq> CHR ''='' \<and> c \<noteq> CHR 0x00) k \<and> \<not> isdigit (hd k)"

definition device_ok :: "string \<Rightarrow> bool" where
  "device_ok d \<longleftrightarrow> d \<noteq> [] \<and> list_all (\<lambda>c. \<not> isspace c \<and> c \<noteq> CHR 0x00) d \<and> isdigit (hd d)"

text \<open>The counters of a group; a limit that is not set is \<open>None\<close>.\<close>

record group_counters =
  gc_memory :: u64
  gc_memory_max :: "u64 option"
  gc_swap :: u64
  gc_swap_max :: "u64 option"
  gc_pids :: u64
  gc_pids_max :: "u64 option"
  gc_cpu :: "(string \<times> u64) list"
  gc_events :: "(string \<times> u64) list"
  gc_io :: "(string \<times> (string \<times> u64) list) list"

definition group_ok :: "group_counters \<Rightarrow> bool" where
  "group_ok g \<longleftrightarrow> list_all (key_ok \<circ> fst) (gc_cpu g) \<and> length (keyed_file (gc_cpu g)) < 2047 \<and>
     list_all (key_ok \<circ> fst) (gc_events g) \<and> length (keyed_file (gc_events g)) < 4095 \<and>
     list_all (\<lambda>d. device_ok (fst d) \<and> list_all (key_ok \<circ> fst) (snd d)) (gc_io g) \<and> length (device_file (gc_io g)) < 4095"

definition group_file :: "group_counters \<Rightarrow> string \<Rightarrow> string option" where
  "group_file g = map_of
     [(''memory.current'', number_file (gc_memory g)), (''memory.max'', limit_file (gc_memory_max g)),
      (''memory.swap.current'', number_file (gc_swap g)), (''memory.swap.max'', limit_file (gc_swap_max g)),
      (''cpu.stat'', keyed_file (gc_cpu g)), (''pids.current'', number_file (gc_pids g)), (''pids.max'', limit_file (gc_pids_max g)),
      (''memory.events'', keyed_file (gc_events g)), (''io.stat'', device_file (gc_io g))]"

definition limit_value :: "u64 option \<Rightarrow> u64" where
  "limit_value l = (case l of None \<Rightarrow> - 1 | Some v \<Rightarrow> v)"

definition key_total :: "string \<Rightarrow> (string \<times> u64) list \<Rightarrow> u64" where
  "key_total field kvs = sum_list (map snd (filter (\<lambda>kv. fst kv = field) kvs))"

section \<open>Lemmas\<close>

lemma show_u64_word: "c \<in> set (show_u64 v) \<Longrightarrow> isdigit c"
  by (auto simp: show_u64_def dest: show_nat_digits)

lemma show_u64_nonempty [simp]: "show_u64 v \<noteq> []"
  by (simp add: show_u64_def)

lemma strtoull_show_u64:
  assumes "r = [] \<or> hd r = CHR 0x0A"
  shows "strtoull (show_u64 v @ r) = \<lparr>st_val = v, st_end = r, st_range = False\<rparr>"
proof -
  have "nondigit_start r" using assms by (cases r) (auto simp: nondigit_start_def ctype_defs)
  then show ?thesis using strtoull_show_nat [of "unat v" r] unat_u64_less [of v] by (simp add: show_u64_def)
qed

lemma digit_facts: "isdigit c \<Longrightarrow> c \<noteq> CHR 0x00 \<and> c \<noteq> CHR 0x0A \<and> c \<noteq> CHR '' '' \<and> c \<noteq> CHR ''='' \<and> c \<noteq> CHR ''m'' \<and> \<not> isspace c"
  by (auto simp: ctype_defs)

lemma space_facts: "\<not> isspace c \<Longrightarrow> c \<noteq> CHR '' '' \<and> c \<noteq> CHR 0x0A"
  by (auto simp: ctype_defs)

lemma no_nul_id: "CHR 0x00 \<notin> set t \<Longrightarrow> takeWhile (\<lambda>c. c \<noteq> CHR 0x00) t = t"
  by (rule takeWhile_nosep)

lemma length_counter_text: "length (show_u64 v) \<le> 20"
  unfolding show_u64_def using unat_u64_less [of v] by (intro length_show_nat) auto

lemma read_number:
  assumes "read_at E k (directory @ ''/'' @ name) 128 = Inr (number_file v)"
  shows "read_u64 E k directory name = Inr v"
proof -
  obtain c cs where c: "show_u64 v = c # cs" "isdigit c" using show_u64_word [of _ v] by (cases "show_u64 v") auto
  then have "c \<noteq> CHR ''m''" using digit_facts by blast
  then have "\<not> strncmp_eq (number_file v) ''max'' 3" using c by (auto simp: strncmp_eq_def number_file_def text_line_def)
  moreover have "strtoull (number_file v) = \<lparr>st_val = v, st_end = [CHR 0x0A], st_range = False\<rparr>"
    unfolding number_file_def text_line_def by (rule strtoull_show_u64) simp
  moreover have "number_file v \<noteq> [CHR 0x0A]" by (simp add: number_file_def text_line_def)
  ultimately show ?thesis using assms by (simp add: read_u64_def Let_def)
qed

lemma read_limit:
  assumes "read_at E k (directory @ ''/'' @ name) 128 = Inr (limit_file l)"
  shows "read_u64 E k directory name = Inr (limit_value l)"
proof (cases l)
  case None
  then show ?thesis using assms by (simp add: read_u64_def limit_file_def limit_value_def strncmp_eq_def text_line_def)
next
  case (Some v)
  then show ?thesis using read_number assms by (simp add: limit_file_def limit_value_def)
qed

lemma key_facts:
  assumes "key_ok k"
  shows "k \<noteq> []" "c \<in> set k \<Longrightarrow> \<not> isspace c \<and> c \<noteq> CHR '' '' \<and> c \<noteq> CHR 0x0A \<and> c \<noteq> CHR ''='' \<and> c \<noteq> CHR 0x00" "length k \<le> 63"
  using assms space_facts by (auto simp: key_ok_def list_all_iff)

lemma scan_field_line:
  assumes "key_ok k"
  shows "scan_field (k @ '' '' @ show_u64 v) = Some (k, v)"
proof -
  note k = key_facts [OF assms]
  obtain x xs where x: "k = x # xs" using k(1) by (cases k) auto
  have d: "dropWhile isspace (k @ '' '' @ show_u64 v) = k @ '' '' @ show_u64 v" using k(2) [of x] x by simp
  have t: "takeWhile (\<lambda>c. \<not> isspace c) (k @ '' '' @ show_u64 v) = k"
    using k(2) by (auto simp: takeWhile_append2 isspace_def)
  have "strtoull ('' '' @ show_u64 v) = strtoull (show_u64 v)"
  proof -
    have "dropWhile isspace ('' '' @ show_u64 v) = dropWhile isspace (show_u64 v)" by (simp add: isspace_def)
    moreover have "strtoull (show_u64 v) = \<lparr>st_val = v, st_end = [], st_range = False\<rparr>" using strtoull_show_u64 [of "[]" v] by simp
    ultimately show ?thesis by (auto simp: strtoull_def Let_def split: prod.splits if_splits)
  qed
  moreover have "strtoull (show_u64 v) = \<lparr>st_val = v, st_end = [], st_range = False\<rparr>" using strtoull_show_u64 [of "[]" v] by simp
  ultimately show ?thesis using k(1, 3) by (simp add: scan_field_def Let_def d [simplified] t [simplified])
qed

lemma find_field_lines:
  assumes "list_all (key_ok \<circ> fst) kvs" "map_of kvs field = Some v"
  shows "find_field field (map (\<lambda>(k, v). k @ '' '' @ show_u64 v) kvs) = Inr v"
  using assms by (induction kvs) (auto simp: scan_field_line simp del: append.simps split: if_splits)

lemma cpu_lines:
  assumes "list_all (key_ok \<circ> fst) kvs"
  shows "strtok_all (\<lambda>c. c = CHR 0x0A) (keyed_file kvs) = map (\<lambda>(k, v). k @ '' '' @ show_u64 v) kvs"
proof -
  have "list_all (\<lambda>l. l \<noteq> [] \<and> CHR 0x0A \<notin> set l) (map (\<lambda>(k, v). k @ '' '' @ show_u64 v) kvs)"
    using assms key_facts digit_facts show_u64_word by (fastforce simp: list_all_iff)
  then have "strtok_all (\<lambda>c. c = CHR 0x0A) (concat (map text_line (map (\<lambda>(k, v). k @ '' '' @ show_u64 v) kvs)))
      = map (\<lambda>(k, v). k @ '' '' @ show_u64 v) kvs" by (rule strtok_lines)
  then show ?thesis by (simp add: keyed_file_def comp_def case_prod_unfold)
qed

abbreviation blank :: "char \<Rightarrow> bool" where
  "blank \<equiv> \<lambda>c. c = CHR '' '' \<or> c = CHR 0x0A"

lemma number_not_blank: "\<not> list_ex blank (show_u64 v)"
  using digit_facts show_u64_word by (fastforce simp: list_ex_iff)

lemma key_not_blank: "key_ok k \<Longrightarrow> \<not> list_ex blank k"
  using key_facts(2) by (fastforce simp: list_ex_iff)

lemma keyed_tokens:
  "list_all (key_ok \<circ> fst) kvs \<Longrightarrow> strtok_all blank (keyed_file kvs) = concat (map (\<lambda>(k, v). [k, show_u64 v]) kvs)"
proof (induction kvs)
  case (Cons kv kvs)
  obtain k v where kv: "kv = (k, v)" by fastforce
  then have k: "key_ok k" using Cons.prems by simp
  have "strtok_all blank (k @ CHR '' '' # (show_u64 v @ CHR 0x0A # keyed_file kvs)) = k # show_u64 v # strtok_all blank (keyed_file kvs)"
    using k by (simp add: strtok_cut key_facts(1) key_not_blank number_not_blank del: strtok_all.simps)
  then show ?case using Cons kv by (simp add: keyed_file_def text_line_def)
qed (simp add: keyed_file_def)

lemma named_sum_number:
  assumes "\<not> isdigit (hd field)" "field \<noteq> []"
  shows "\<not> strncmp_eq (show_u64 v) field (length field)"
proof -
  obtain c cs where "show_u64 v = c # cs" "isdigit c" using show_u64_word [of _ v] by (cases "show_u64 v") auto
  then show ?thesis using assms by (cases field) (auto simp: strncmp_eq_def)
qed

lemma strncmp_eq_prefix: "strncmp_eq t f (length f) \<longleftrightarrow> prefix f t"
proof
  assume "strncmp_eq t f (length f)"
  then show "prefix f t" by (metis strncmp_eq_def order_refl take_all take_is_prefix)
qed (auto simp: strncmp_eq_def prefix_def)

lemma nth_in_tail: "prefix f t \<Longrightarrow> drop (length f) t \<noteq> [] \<Longrightarrow> t ! length f \<in> set t"
  by (auto simp: prefix_def)

lemma named_sum_keyed:
  assumes "key_ok field" "list_all (key_ok \<circ> fst) kvs"
  shows "named_sum field (concat (map (\<lambda>(k, v). [k, show_u64 v]) kvs)) acc = acc + key_total field kvs"
  using assms(2)
proof (induction kvs arbitrary: acc)
  case (Cons kv kvs)
  obtain k v where kv: "kv = (k, v)" by fastforce
  then have k: "key_ok k" using Cons.prems by simp
  have v: "strtoull (show_u64 v) = \<lparr>st_val = v, st_end = [], st_range = False\<rparr>" using strtoull_show_u64 [of "[]" v] by simp
  have f: "\<not> isdigit (hd field)" "field \<noteq> []" using assms(1) by (auto simp: key_ok_def)
  show ?case
  proof (cases "k = field")
    case True
    then show ?thesis using Cons kv v by (simp add: strncmp_eq_def key_total_def add.assoc)
  next
    case False
    have "\<not> (strncmp_eq k field (length field) \<and> (drop (length field) k = [] \<or> k ! length field = CHR ''=''))"
    proof
      assume a: "strncmp_eq k field (length field) \<and> (drop (length field) k = [] \<or> k ! length field = CHR ''='')"
      then have p: "prefix field k" by (simp add: strncmp_eq_prefix)
      then have "drop (length field) k \<noteq> []" using False by (auto simp: prefix_def)
      then show False using a nth_in_tail [OF p] key_facts(2) [OF k] by auto
    qed
    then have "named_sum field (k # show_u64 v # ts) acc = named_sum field ts acc" for ts
      using named_sum_number [OF f, of v] by (simp only: named_sum.simps if_False) simp
    then show ?thesis using Cons kv False by (simp add: key_total_def del: named_sum.simps)
  qed
qed (simp add: key_total_def)

lemma named_sum_assignments:
  assumes "key_ok field" "list_all (key_ok \<circ> fst) kvs"
  shows "named_sum field (map (\<lambda>(k, v). k @ ''='' @ show_u64 v) kvs @ ts) acc = named_sum field ts (acc + key_total field kvs)"
  using assms(2)
proof (induction kvs arbitrary: acc)
  case (Cons kv kvs)
  obtain k v where kv: "kv = (k, v)" by fastforce
  then have k: "key_ok k" using Cons.prems by simp
  have v: "strtoull (show_u64 v) = \<lparr>st_val = v, st_end = [], st_range = False\<rparr>" using strtoull_show_u64 [of "[]" v] by simp
  show ?case
  proof (cases "k = field")
    case True
    then show ?thesis using Cons kv v by (simp add: strncmp_eq_def key_total_def add.assoc)
  next
    case False
    have "\<not> (strncmp_eq t field (length field) \<and> (drop (length field) t = [] \<or> t ! length field = CHR ''=''))"
      if t: "t = k @ ''='' @ show_u64 v" for t
    proof
      assume a: "strncmp_eq t field (length field) \<and> (drop (length field) t = [] \<or> t ! length field = CHR ''='')"
      then obtain r where r: "t = field @ r" by (auto simp: strncmp_eq_prefix prefix_def)
      have "CHR ''='' \<notin> set field" "CHR ''='' \<notin> set k" using key_facts(2) [OF assms(1)] key_facts(2) [OF k] by blast+
      moreover have "r \<noteq> []" using r t \<open>CHR ''='' \<notin> set field\<close> by (metis append_Nil2 in_set_conv_decomp append_Cons append_Nil)
      then obtain r' where "r = CHR ''='' # r'" using a r by (cases r) (auto simp: nth_append)
      ultimately have "k = field" using split_sep_unique [of k "CHR ''=''" "show_u64 v" field r'] r t by simp
      then show False using False by simp
    qed
    then have "named_sum field ((k @ ''='' @ show_u64 v) # ts) acc = named_sum field ts acc" for ts
      by (simp only: named_sum.simps if_False)
    then show ?thesis using Cons kv False by (simp add: key_total_def del: named_sum.simps)
  qed
qed (simp add: key_total_def)

lemma device_tokens:
  assumes "device_ok d" "list_all (key_ok \<circ> fst) kvs"
  shows "strtok_all blank (device_line (d, kvs) @ s) = d # map (\<lambda>(k, v). k @ ''='' @ show_u64 v) kvs @ strtok_all blank s"
proof -
  have e: "strtok_all blank (w @ concat (map (\<lambda>(k, v). '' '' @ k @ ''='' @ show_u64 v) kvs) @ CHR 0x0A # s) =
      w # map (\<lambda>(k, v). k @ ''='' @ show_u64 v) kvs @ strtok_all blank s"
    if "w \<noteq> []" "\<not> list_ex blank w" for w
    using assms(2) that
  proof (induction kvs arbitrary: w)
    case Nil
    then show ?case by (simp add: strtok_cut)
  next
    case (Cons kv kvs)
    obtain k v where kv: "kv = (k, v)" by fastforce
    then have k: "key_ok k" using Cons.prems by simp
    have "\<not> list_ex blank (k @ ''='' @ show_u64 v)" using key_not_blank [OF k] number_not_blank [of v] by simp
    then have "strtok_all blank ((k @ ''='' @ show_u64 v) @ concat (map (\<lambda>(k, v). '' '' @ k @ ''='' @ show_u64 v) kvs) @ CHR 0x0A # s) =
        (k @ ''='' @ show_u64 v) # map (\<lambda>(k, v). k @ ''='' @ show_u64 v) kvs @ strtok_all blank s"
      using Cons by (intro Cons.IH) auto
    then show ?case using Cons.prems kv strtok_cut [of w blank "CHR '' ''"] by simp
  qed
  have "d \<noteq> []" "\<not> list_ex blank d"
    using assms(1) space_facts by (auto simp: device_ok_def list_ex_iff list_all_iff)
  from e [OF this] show ?thesis by (simp add: device_line_def text_line_def)
qed

lemma named_sum_devices:
  assumes "key_ok field" "list_all (\<lambda>d. device_ok (fst d) \<and> list_all (key_ok \<circ> fst) (snd d)) ds"
  shows "named_sum field (strtok_all blank (device_file ds)) acc = acc + key_total field (concat (map snd ds))"
  using assms(2)
proof (induction ds arbitrary: acc)
  case Nil
  then show ?case by (simp add: device_file_def key_total_def)
next
  case (Cons d ds)
  obtain n kvs where d: "d = (n, kvs)" by fastforce
  have n: "device_ok n" "list_all (key_ok \<circ> fst) kvs" using Cons.prems d by (simp_all add: comp_def)
  have "\<not> strncmp_eq n field (length field)"
    using n(1) assms(1) by (cases n; cases field) (auto simp: strncmp_eq_def device_ok_def key_ok_def)
  then have "named_sum field (n # ts) acc = named_sum field ts acc" for ts by simp
  then show ?case
    using Cons d device_tokens [OF n, of "device_file ds"] named_sum_assignments [OF assms(1) n(2)]
    by (simp add: device_file_def key_total_def add.assoc del: named_sum.simps)
qed

lemma text_no_nul:
  "CHR 0x00 \<notin> set (number_file v)" "CHR 0x00 \<notin> set (limit_file l)"
  "list_all (key_ok \<circ> fst) kvs \<Longrightarrow> CHR 0x00 \<notin> set (keyed_file kvs)"
  "list_all (\<lambda>d. device_ok (fst d) \<and> list_all (key_ok \<circ> fst) (snd d)) ds \<Longrightarrow> CHR 0x00 \<notin> set (device_file ds)"
proof -
  have u: "CHR 0x00 \<notin> set (show_u64 v)" for v using show_u64_word digit_facts by blast
  have k: "CHR 0x00 \<notin> set k" if "key_ok k" for k using key_facts(2) [OF that] by blast
  show "CHR 0x00 \<notin> set (number_file v)" "CHR 0x00 \<notin> set (limit_file l)"
    using u by (auto simp: number_file_def limit_file_def text_line_def split: option.splits)
  show "CHR 0x00 \<notin> set (keyed_file kvs)" if "list_all (key_ok \<circ> fst) kvs"
    using that by (induction kvs) (auto simp: keyed_file_def text_line_def u k)
  have l: "CHR 0x00 \<notin> set (device_line (d, kvs))" if "list_all (key_ok \<circ> fst) kvs" "device_ok d" for d kvs
  proof -
    have "CHR 0x00 \<notin> set d" using that(2) by (auto simp: device_ok_def list_all_iff)
    then show ?thesis using that(1) by (induction kvs) (auto simp: device_line_def text_line_def u k)
  qed
  show "CHR 0x00 \<notin> set (device_file ds)" if "list_all (\<lambda>d. device_ok (fst d) \<and> list_all (key_ok \<circ> fst) (snd d)) ds"
    using that l by (induction ds) (auto simp: device_file_def)
qed

lemma length_files: "length (number_file v) < 127" "length (limit_file l) < 127"
proof -
  show "length (number_file v) < 127" for v using length_counter_text [of v] by (simp add: number_file_def text_line_def)
  then show "length (limit_file l) < 127" by (simp add: limit_file_def text_line_def split: option.split)
qed

text \<open>The files that the statistics are read from: the state document of the container names the group, and
  the files of the group show its counters, the same at every reading.\<close>

definition shows_group :: "stats_env \<Rightarrow> string \<Rightarrow> string \<Rightarrow> group_counters \<Rightarrow> bool" where
  "shows_group E cid cgroup g \<longleftrightarrow>
     state_cgroup E cid = Inr cgroup \<and> length cgroup < 4000 \<and>
     (\<forall>k name t. group_file g name = Some t \<longrightarrow> se_read E k (cgroup @ ''/'' @ name) = Contents t)"

definition group_stats :: "group_counters \<Rightarrow> u64 \<Rightarrow> u64 \<Rightarrow> u64 \<Rightarrow> mc_stats" where
  "group_stats g usage throttled throttled_usec =
     \<lparr>memory_current = gc_memory g, memory_max = limit_value (gc_memory_max g), swap_current = gc_swap g,
      swap_max = limit_value (gc_swap_max g), cpu_usage = usage, cpu_throttled = throttled, cpu_throttled_usec = throttled_usec,
      pids_current = gc_pids g, pids_max = limit_value (gc_pids_max g), memory_oom = key_total ''oom'' (gc_events g),
      memory_oom_kill = key_total ''oom_kill'' (gc_events g), io_read = key_total ''rbytes'' (concat (map snd (gc_io g))),
      io_write = key_total ''wbytes'' (concat (map snd (gc_io g)))\<rparr>"

lemma shown_read:
  assumes "shows_group E cid cgroup g" "group_file g name = Some t" "length name \<le> 20"
    and "length t < capacity - 1" "CHR 0x00 \<notin> set t"
  shows "read_at E k (cgroup @ ''/'' @ name) capacity = Inr t"
  using assms no_nul_id by (simp add: shows_group_def read_at_def read_text_def)

lemma field_keys: "key_ok ''oom''" "key_ok ''oom_kill''" "key_ok ''rbytes''" "key_ok ''wbytes''"
  by (simp_all add: key_ok_def ctype_defs)

text \<open>
  C35: the statistics that are reported for a container are the counters its control group shows: numbers
  and limits exactly, an unset limit as \<open>max\<close>, the three values of the processor from their lines, and the
  events and the traffic as the sums over all lines and devices, modulo $2^{64}$. A field whose name is
  a prefix of another one (\<open>oom\<close> and \<open>oom_kill\<close>) is not confused with it.
\<close>

theorem stats_exact:
  assumes "shows_group E cid cgroup g" "group_ok g"
    and "map_of (gc_cpu g) ''usage_usec'' = Some usage" "map_of (gc_cpu g) ''nr_throttled'' = Some throttled"
    and "map_of (gc_cpu g) ''throttled_usec'' = Some throttled_usec"
  shows "mc_stats_print E cid json =
    (let s = group_stats g usage throttled throttled_usec in Inr (if json then stats_json cid s else stats_table cid s))"
proof -
  have ok: "list_all (key_ok \<circ> fst) (gc_cpu g)" "length (keyed_file (gc_cpu g)) < 2047"
    "list_all (key_ok \<circ> fst) (gc_events g)" "length (keyed_file (gc_events g)) < 4095"
    "list_all (\<lambda>d. device_ok (fst d) \<and> list_all (key_ok \<circ> fst) (snd d)) (gc_io g)" "length (device_file (gc_io g)) < 4095"
    using assms(2) by (auto simp: group_ok_def)
  have numbers: "read_u64 E k cgroup ''memory.current'' = Inr (gc_memory g)" "read_u64 E k cgroup ''memory.swap.current'' = Inr (gc_swap g)"
    "read_u64 E k cgroup ''pids.current'' = Inr (gc_pids g)" for k
    by (rule read_number, rule shown_read [OF assms(1)], simp_all add: group_file_def length_files text_no_nul)+
  have limits: "read_u64 E k cgroup ''memory.max'' = Inr (limit_value (gc_memory_max g))"
    "read_u64 E k cgroup ''memory.swap.max'' = Inr (limit_value (gc_swap_max g))"
    "read_u64 E k cgroup ''pids.max'' = Inr (limit_value (gc_pids_max g))" for k
    by (rule read_limit, rule shown_read [OF assms(1)], simp_all add: group_file_def length_files text_no_nul)+
  have "read_at E k (cgroup @ ''/cpu.stat'') 2048 = Inr (keyed_file (gc_cpu g))" for k
    using shown_read [OF assms(1), of "''cpu.stat''" "keyed_file (gc_cpu g)" 2048 k] ok text_no_nul(3) [OF ok(1)]
    by (simp add: group_file_def)
  then have cpu: "cpu_field E k cgroup field = Inr v" if "map_of (gc_cpu g) field = Some v" for k field v
    using find_field_lines [OF ok(1) that] by (simp add: cpu_field_def cpu_lines [OF ok(1)])
  have "read_at E k (cgroup @ ''/memory.events'') 4096 = Inr (keyed_file (gc_events g))"
    "read_at E k (cgroup @ ''/io.stat'') 4096 = Inr (device_file (gc_io g))" for k
    using shown_read [OF assms(1), of "''memory.events''" "keyed_file (gc_events g)" 4096 k]
      shown_read [OF assms(1), of "''io.stat''" "device_file (gc_io g)" 4096 k] ok text_no_nul(3) [OF ok(3)] text_no_nul(4) [OF ok(5)]
    by (simp_all add: group_file_def)
  then have events: "named_field E k cgroup ''memory.events'' field = Inr (key_total field (gc_events g))"
    "named_field E k cgroup ''io.stat'' field = Inr (key_total field (concat (map snd (gc_io g))))" if "key_ok field" for k field
    by (simp_all add: named_field_def keyed_tokens [OF ok(3)] named_sum_keyed [OF that ok(3)] named_sum_devices [OF that ok(5)])
  have "gather_stats E cid = Inr (group_stats g usage throttled throttled_usec)"
    using assms(1) by (simp add: gather_stats_def shows_group_def numbers limits cpu [OF assms(3)] cpu [OF assms(4)] cpu [OF assms(5)]
        events field_keys group_stats_def)
  then show ?thesis by (simp add: mc_stats_print_def Let_def)
qed

definition example_group :: group_counters where
  "example_group =
     \<lparr>gc_memory = 4096, gc_memory_max = None, gc_swap = 0, gc_swap_max = Some 0, gc_pids = 3, gc_pids_max = Some 64,
      gc_cpu = [(''usage_usec'', 17), (''nr_throttled'', 0), (''throttled_usec'', 0)], gc_events = [(''oom'', 2), (''oom_kill'', 1)],
      gc_io = [(''8:0'', [(''rbytes'', 10), (''wbytes'', 1)]), (''8:16'', [(''rbytes'', 5)])]\<rparr>"

definition example_stats_env :: stats_env where
  "example_stats_env =
     \<lparr>se_read = (\<lambda>k path. if prefix ''/g/'' path then (case group_file example_group (drop 3 path) of None \<Rightarrow> Broken | Some t \<Rightarrow> Contents t)
        else Contents (cgroup_marker @ ''/g'' @ [CHR 0x22])),
      se_getenv = (\<lambda>_. None), se_errno = 0\<rparr>"

theorem stats_exact_witness:
  "\<exists>s. mc_stats_print example_stats_env ''0123'' True = Inr (stats_json ''0123'' s) \<and> memory_max s = - 1 \<and>
     memory_oom s = 2 \<and> memory_oom_kill s = 1 \<and> io_read s = 15"
proof -
  have sg: "state_cgroup example_stats_env ''0123'' = Inr ''/g''"
    by (simp add: state_cgroup_def read_at_def read_text_def example_stats_env_def mc_state_dir_def directory_of_def cgroup_marker_def
        strchr_eq Let_def)
  have "shows_group example_stats_env ''0123'' ''/g'' example_group"
    unfolding shows_group_def using sg by (simp add: example_stats_env_def)
  moreover have "group_ok example_group" by code_simp
  ultimately have "mc_stats_print example_stats_env ''0123'' True = Inr (stats_json ''0123'' (group_stats example_group 17 0 0))"
    using stats_exact [of example_stats_env "''0123''" "''/g''" example_group 17 0 0 True]
    by (simp add: example_group_def Let_def)
  moreover have "memory_max (group_stats example_group 17 0 0) = - 1 \<and> memory_oom (group_stats example_group 17 0 0) = 2 \<and>
      memory_oom_kill (group_stats example_group 17 0 0) = 1 \<and> io_read (group_stats example_group 17 0 0) = 15"
    by (simp add: group_stats_def example_group_def limit_value_def key_total_def)
  ultimately show ?thesis by blast
qed

end
