(* ===== verification/MC_Forward.thy ===== *)
theory MC_Forward
  imports MC_Kernel
begin

text \<open>
  The forwarding of signals in \<open>src/runtime/launch.c\<close> (to the shim) and \<open>src/linux/container.c\<close> (to the init
  process of the container): both install a handler for four signals, all or none, and restore what was
  there before. A handler is a number; the kernel answers a successful \<open>sigaction\<close> with the handler it has
  replaced. The result is that the table of handlers is the one from before whenever the calls that
  restore it succeed.
\<close>

section \<open>Definitions\<close>


definition forwarded_signals :: "int list" where
  "forwarded_signals = [SIGTERM, SIGINT, SIGHUP, SIGQUIT]"

text \<open>The handler: the signal goes to the target, if there is one.\<close>

definition forward_signal :: "kernel \<Rightarrow> int \<Rightarrow> int \<Rightarrow> unit action" where
  "forward_signal K target signal_number = (if target > 0 then discard K (Kill target signal_number) else act_return ())"

text \<open>The number that stands for the forwarding handler.\<close>

definition forward_handler :: int where
  "forward_handler = 2"

text \<open>Putting back the handlers that were replaced.\<close>

definition restore_handlers :: "kernel \<Rightarrow> (int \<times> int) list \<Rightarrow> unit action" where
  "restore_handlers K previous = act_all (map (\<lambda>(s, handler). discard K (Sigaction s handler)) previous)"

text \<open>The loop over the signals, with those already replaced, the latest first.\<close>

fun install_handlers :: "kernel \<Rightarrow> (int \<times> int) list \<Rightarrow> int list \<Rightarrow> (int \<times> int) list action" where
  "install_handlers K replaced [] = act_return (rev replaced)"
| "install_handlers K replaced (s # ss) =
     act_bind
       (act_catch (sys K (Sigaction s forward_handler)) (\<lambda>e. act_bind (restore_handlers K replaced) (\<lambda>_. act_fail e)))
       (\<lambda>previous. install_handlers K ((s, previous) # replaced) ss)"

definition install_forwarders :: "kernel \<Rightarrow> (int \<times> int) list action" where
  "install_forwarders K = install_handlers K [] forwarded_signals"

definition restore_forwarders :: "kernel \<Rightarrow> (int \<times> int) list \<Rightarrow> unit action" where
  "restore_forwarders K previous = restore_handlers K previous"

text \<open>The copies of the launcher.\<close>

definition shim_signals :: "int list" where
  "shim_signals = [SIGTERM, SIGINT, SIGHUP, SIGQUIT]"

definition install_signal_forwarding :: "kernel \<Rightarrow> (int \<times> int) list action" where
  "install_signal_forwarding K = install_handlers K [] shim_signals"

definition restore_signal_forwarding :: "kernel \<Rightarrow> (int \<times> int) list \<Rightarrow> unit action" where
  "restore_signal_forwarding K previous = restore_handlers K previous"

section \<open>The table of handlers\<close>

definition handler_step :: "kcall \<times> (errno + int) \<Rightarrow> (int \<Rightarrow> int) \<Rightarrow> int \<Rightarrow> int" where
  "handler_step e tab = (case e of (Sigaction s handler, Inr _) \<Rightarrow> tab(s := handler) | _ \<Rightarrow> tab)"

definition handlers :: "(int \<Rightarrow> int) \<Rightarrow> history \<Rightarrow> int \<Rightarrow> int" where
  "handlers tab h = fold handler_step h tab"

text \<open>A kernel that reports the handler it replaces.\<close>

definition reports_handlers :: "kernel \<Rightarrow> (int \<Rightarrow> int) \<Rightarrow> bool" where
  "reports_handlers K tab \<longleftrightarrow>
     (\<forall>h s handler v. k_call K h (Sigaction s handler) = Inr v \<longrightarrow> v = handlers tab h s)"

definition restores :: "kernel \<Rightarrow> bool" where
  "restores K \<longleftrightarrow> (\<forall>h s handler. handler \<noteq> forward_handler \<longrightarrow> \<not> isl (k_call K h (Sigaction s handler)))"

lemma handlers_simps [simp]:
  "handlers tab [] = tab" "handlers tab (a @ b) = handlers (handlers tab a) b"
  "handlers tab ((Sigaction s v, Inr r) # h) = handlers (tab(s := v)) h" "handlers tab ((c, Inl e) # h) = handlers tab h"
  by (auto simp: handlers_def handler_step_def split: kcall.split)

lemma extends_restore_handlers [emits_intros]: "extends (restore_handlers K previous)"
  by (auto simp: restore_handlers_def intro!: emits_intros)

lemma extends_install_handlers [emits_intros]: "extends (install_handlers K replaced ss)"
  by (induction K replaced ss rule: install_handlers.induct) (auto intro!: emits_intros)

lemma restore_handlers_table:
  assumes "restores K" "\<forall>(s, v) \<in> set previous. v \<noteq> forward_handler" "distinct (map fst previous)"
  shows "\<exists>q. restore_handlers K previous p = (q, Some (Inr ())) \<and>
    handlers tab (ps_history q) = (\<lambda>s. case map_of previous s of None \<Rightarrow> handlers tab (ps_history p) s | Some v \<Rightarrow> v)"
  using assms(2, 3)
proof (induction previous arbitrary: p)
  case Nil
  then show ?case by (simp add: restore_handlers_def act_all.simps act_return_def)
next
  case (Cons sv previous)
  obtain s v where sv: "sv = (s, v)" by fastforce
  have "v \<noteq> forward_handler" using Cons.prems sv by simp
  then obtain r where r: "k_call K (ps_history p) (Sigaction s v) = Inr r" using assms(1) unfolding restores_def by (metis isl_def sum.exhaust_sel)
  define p1 where "p1 = p\<lparr>ps_history := ps_history p @ [(Sigaction s v, Inr r)]\<rparr>"
  obtain q where q: "restore_handlers K previous p1 = (q, Some (Inr ()))"
      "handlers tab (ps_history q) = (\<lambda>s. case map_of previous s of None \<Rightarrow> handlers tab (ps_history p1) s | Some v \<Rightarrow> v)"
    using Cons by (metis (no_types, lifting) distinct.simps(2) list.set_intros(2) list.simps(9))
  have "restore_handlers K (sv # previous) p = restore_handlers K previous p1"
    using r by (simp add: restore_handlers_def act_all.simps sv act_defs p1_def Let_def)
  moreover have "map_of previous s = None" using Cons.prems sv by (simp add: map_of_eq_None_iff)
  ultimately show ?case using q by (auto simp: sv p1_def fun_eq_iff split: option.splits)
qed

text \<open>While handlers are being installed, the replaced ones are remembered and the others are as before.\<close>

lemma install_handlers_table:
  assumes K: "reports_handlers K tab" "restores K"
    and "handlers tab (ps_history p) = (\<lambda>s. if s \<in> fst ` set replaced then forward_handler else orig s)"
    and "\<forall>(s, v) \<in> set replaced. v = orig s" "distinct (map fst replaced @ ss)"
    and "\<forall>s \<in> fst ` set replaced \<union> set ss. orig s \<noteq> forward_handler"
  shows "(\<exists>q e. install_handlers K replaced ss p = (q, Some (Inl e)) \<and> handlers tab (ps_history q) = orig) \<or>
    (\<exists>q. install_handlers K replaced ss p = (q, Some (Inr (map (\<lambda>s. (s, orig s)) (rev (map fst replaced) @ ss)))) \<and>
      handlers tab (ps_history q) = (\<lambda>s. if s \<in> fst ` set replaced \<union> set ss then forward_handler else orig s))"
  using assms(3-6)
proof (induction ss arbitrary: replaced p)
  case Nil
  have "map (\<lambda>s. (s, orig s)) (map fst replaced) = replaced"
    using Nil.prems(2) by (induction replaced) auto
  then have "map (\<lambda>s. (s, orig s)) (rev (map fst replaced)) = rev replaced" by (metis rev_map)
  then show ?case using Nil by (simp add: act_return_def)
next
  case (Cons s ss)
  define r where "r = k_call K (ps_history p) (Sigaction s forward_handler)"
  define p1 where "p1 = p\<lparr>ps_history := ps_history p @ [(Sigaction s forward_handler, r)]\<rparr>"
  have orig: "\<forall>(s, v) \<in> set replaced. v \<noteq> forward_handler"
  proof clarify
    fix t assume "(t, forward_handler) \<in> set replaced"
    then have "orig t = forward_handler" "t \<in> fst ` set replaced" using Cons.prems(2) by force+
    then show False using Cons.prems(4) by simp
  qed
  show ?case
  proof (cases r)
    case (Inl e)
    obtain q where q: "restore_handlers K replaced p1 = (q, Some (Inr ()))"
        "handlers tab (ps_history q) = (\<lambda>s. case map_of replaced s of None \<Rightarrow> handlers tab (ps_history p1) s | Some v \<Rightarrow> v)"
      using restore_handlers_table [OF K(2) orig, where tab = tab and p = p1] Cons.prems(3) by auto
    have "install_handlers K replaced (s # ss) p = (q, Some (Inl e))"
      using Inl q(1) by (simp add: act_defs r_def p1_def Let_def)
    moreover have "(case map_of replaced t of None \<Rightarrow> handlers tab (ps_history p1) t | Some v \<Rightarrow> v) = orig t" for t
      using Cons.prems(1, 2) Inl
      by (auto simp: p1_def map_of_eq_None_iff split: option.split dest!: map_of_SomeD)
    ultimately show ?thesis using q(2) by auto
  next
    case (Inr v)
    have s: "s \<notin> fst ` set replaced" using Cons.prems(3) by auto
    then have v: "v = orig s" using K(1) Inr Cons.prems(1) unfolding reports_handlers_def r_def by (metis (full_types))
    have step: "install_handlers K replaced (s # ss) p = install_handlers K ((s, v) # replaced) ss p1"
      using Inr by (simp add: act_defs r_def p1_def Let_def)
    have "handlers tab (ps_history p1) = (\<lambda>t. if t \<in> fst ` set ((s, v) # replaced) then forward_handler else orig t)"
      using Cons.prems(1) Inr by (auto simp: p1_def fun_eq_iff)
    moreover have "\<forall>(t, w) \<in> set ((s, v) # replaced). w = orig t" using Cons.prems(2) v by simp
    moreover have "distinct (map fst ((s, v) # replaced) @ ss)" using Cons.prems(3) by auto
    moreover have "\<forall>t \<in> fst ` set ((s, v) # replaced) \<union> set ss. orig t \<noteq> forward_handler" using Cons.prems(4) by auto
    ultimately show ?thesis using Cons.IH [of p1 "(s, v) # replaced"] unfolding step by simp
  qed
qed

text \<open>
  C29: installing the handlers that forward signals is all or nothing: when one of the four calls fails, every
  handler is the one from before; otherwise exactly the four signals are forwarded, and restoring what
  the installation returned gives the table from before again.
\<close>

theorem forwarding_restored:
  assumes "reports_handlers K tab" "restores K"
    and "list_all (\<lambda>s. handlers tab (ps_history p) s \<noteq> forward_handler) forwarded_signals"
  shows "(\<exists>q e. install_forwarders K p = (q, Some (Inl e)) \<and> handlers tab (ps_history q) = handlers tab (ps_history p)) \<or>
    (\<exists>q previous. install_forwarders K p = (q, Some (Inr previous)) \<and>
      handlers tab (ps_history q) = (\<lambda>s. if s \<in> set forwarded_signals then forward_handler else handlers tab (ps_history p) s) \<and>
      (\<forall>later. handlers tab (ps_history later) = handlers tab (ps_history q) \<longrightarrow>
        (\<exists>q'. restore_forwarders K previous later = (q', Some (Inr ())) \<and>
           handlers tab (ps_history q') = handlers tab (ps_history p))))"
proof -
  define orig where "orig = handlers tab (ps_history p)"
  let ?prev = "map (\<lambda>s. (s, orig s)) forwarded_signals"
  have d: "distinct forwarded_signals" by (simp add: forwarded_signals_def)
  have o: "\<forall>s \<in> set forwarded_signals. orig s \<noteq> forward_handler" using assms(3) by (simp add: list_all_iff orig_def)
  consider q e where "install_forwarders K p = (q, Some (Inl e))" "handlers tab (ps_history q) = orig"
    | q where "install_forwarders K p = (q, Some (Inr ?prev))"
        "handlers tab (ps_history q) = (\<lambda>s. if s \<in> set forwarded_signals then forward_handler else orig s)"
    using install_handlers_table [OF assms(1, 2), of p "[]" orig forwarded_signals] d o
    unfolding install_forwarders_def orig_def by auto
  then show ?thesis
  proof cases
    case 1
    then show ?thesis unfolding orig_def by blast
  next
    case (2 q)
    have "\<exists>q'. restore_forwarders K ?prev later = (q', Some (Inr ())) \<and> handlers tab (ps_history q') = orig"
      if "handlers tab (ps_history later) = handlers tab (ps_history q)" for later
    proof -
      obtain q' where q': "restore_handlers K ?prev later = (q', Some (Inr ()))"
          "handlers tab (ps_history q') = (\<lambda>s. case map_of ?prev s of None \<Rightarrow> handlers tab (ps_history later) s | Some v \<Rightarrow> v)"
        using restore_handlers_table [OF assms(2), of ?prev later tab] o d by (auto simp: comp_def)
      have "(case map_of ?prev s of None \<Rightarrow> handlers tab (ps_history later) s | Some v \<Rightarrow> v) = orig s" for s
        using that 2(2) by (auto simp: map_of_map_restrict restrict_map_def)
      then show ?thesis using q' unfolding restore_forwarders_def by auto
    qed
    then show ?thesis using 2 unfolding orig_def by blast
  qed
qed

text \<open>A kernel that refuses the third signal.\<close>

definition refusing_sighup :: kernel where
  "refusing_sighup = example_kernel\<lparr>k_call := \<lambda>h c. (case c of
     Sigaction s handler \<Rightarrow> if s = SIGHUP \<and> handler = forward_handler then Inl EINVAL else Inr (handlers (\<lambda>_. 0) h s)
   | _ \<Rightarrow> Inr 0)\<rparr>"

theorem forwarding_restored_witness:
  "\<exists>q e. install_forwarders refusing_sighup example_process = (q, Some (Inl e)) \<and> handlers (\<lambda>_. 0) (ps_history q) = (\<lambda>_. 0)"
proof -
  have "reports_handlers refusing_sighup (\<lambda>_. 0)" by (simp add: reports_handlers_def refusing_sighup_def)
  moreover have "restores refusing_sighup" by (simp add: restores_def refusing_sighup_def)
  moreover have "list_all (\<lambda>s. handlers (\<lambda>_. 0) (ps_history example_process) s \<noteq> forward_handler) forwarded_signals"
    by (simp add: forwarded_signals_def example_process_def forward_handler_def)
  ultimately have f: "(\<exists>q e. install_forwarders refusing_sighup example_process = (q, Some (Inl e)) \<and>
        handlers (\<lambda>_. 0) (ps_history q) = handlers (\<lambda>_. 0) (ps_history example_process)) \<or>
      (\<exists>q previous. install_forwarders refusing_sighup example_process = (q, Some (Inr previous)))"
    using forwarding_restored [of refusing_sighup "\<lambda>_. 0" example_process] by blast
  have "\<exists>q e. install_forwarders refusing_sighup example_process = (q, Some (Inl e))"
    by (simp add: install_forwarders_def forwarded_signals_def act_defs refusing_sighup_def Let_def restore_handlers_def act_all.simps)
  then show ?thesis using f by (auto simp: example_process_def)
qed

end
