(* ===== verification/MC_Run.thy ===== *)
theory MC_Run
  imports MC_Ident MC_Control MC_Cgroup MC_Stats MC_Forward MC_Init MC_Netlink
begin

text \<open>
  \<open>mc_container_run\<close> of \<open>src/linux/container.c\<close>: the shim prepares the control group and the directories of a
  container, clones its init process into new namespaces, maps its identities, connects its network,
  lets it start, records its state, serves the control socket until it ends, and cleans up. The pieces
  with theories of their own (control group, network, control protocol, atomic replacement) are composed
  here. The results: whatever happens after the clone, everything is released; a result other than \<open>-1\<close>
  is the exit code of the cloned process, which was let go only after its identity maps were written;
  and the run returns when the container ends.
\<close>

section \<open>The environment of a run\<close>

text \<open>What the run finds besides the kernel's answers, as functions of the history: the JSON library, the
  control group file system, the files with subordinate identities, the descriptor of the cloned process,
  the client of the control socket, the disk and the outcomes of its calls, \<open>/proc\<close>, the inode of the
  last file looked at, the clock, the signals that have arrived, and the strings of the build.\<close>

record run_env =
  re_json :: jsonc
  re_cgroup :: cgroup_env
  re_subids :: "string \<Rightarrow> errno + string"
  re_pidfd :: "history \<Rightarrow> int"
  re_control :: "history \<Rightarrow> control_env"
  re_write :: "history \<Rightarrow> write_env"
  re_disk :: "history \<Rightarrow> disk"
  re_proc :: "history \<Rightarrow> int \<Rightarrow> string option"
  re_inode :: "history \<Rightarrow> u64"
  re_now :: "history \<Rightarrow> u64 \<times> u64"
  re_signals :: "history \<Rightarrow> int list"
  re_version :: string
  re_commit :: string

text \<open>Looking at the environment.\<close>

definition observe :: "(history \<Rightarrow> 'a) \<Rightarrow> 'a action" where
  "observe f p = (p, Some (Inr (f (ps_history p))))"

section \<open>Namespaces\<close>

record namespace_identity =
  ni_user :: u64
  ni_pid :: u64
  ni_mount :: u64
  ni_uts :: u64
  ni_ipc :: u64
  ni_network :: u64
  ni_cgroup :: u64

definition no_namespaces :: namespace_identity where
  "no_namespaces = \<lparr>ni_user = 0, ni_pid = 0, ni_mount = 0, ni_uts = 0, ni_ipc = 0, ni_network = 0, ni_cgroup = 0\<rparr>"

definition namespace_inode :: "kernel \<Rightarrow> run_env \<Rightarrow> int \<Rightarrow> string \<Rightarrow> u64 action" where
  "namespace_inode K E pid name =
     (let path = ''/proc/'' @ show_int pid @ ''/ns/'' @ name in
      if length path \<ge> 128 then act_return 0
      else act_catch (act_bind (call K (Stat path)) (\<lambda>_. observe (re_inode E))) (\<lambda>e. act_return 0))"

definition capture_namespaces :: "kernel \<Rightarrow> run_env \<Rightarrow> int \<Rightarrow> namespace_identity action" where
  "capture_namespaces K E pid =
     act_bind (namespace_inode K E pid ''user'') (\<lambda>user.
     act_bind (namespace_inode K E pid ''pid'') (\<lambda>pid_ns.
     act_bind (namespace_inode K E pid ''mnt'') (\<lambda>mount.
     act_bind (namespace_inode K E pid ''uts'') (\<lambda>uts.
     act_bind (namespace_inode K E pid ''ipc'') (\<lambda>ipc.
     act_bind (namespace_inode K E pid ''net'') (\<lambda>network.
     act_bind (namespace_inode K E pid ''cgroup'') (\<lambda>cgroup.
       act_return \<lparr>ni_user = user, ni_pid = pid_ns, ni_mount = mount, ni_uts = uts, ni_ipc = ipc, ni_network = network,
                   ni_cgroup = cgroup\<rparr>)))))))"

section \<open>Directories and the control socket\<close>

definition runtime_paths_of :: "kernel \<Rightarrow> string \<Rightarrow> errno + string \<times> runtime_paths" where
  "runtime_paths_of K cid =
     ebind (container_path (mc_state_dir (k_getenv K)) ''containers'') (\<lambda>containers.
     ebind (container_path containers cid) (\<lambda>base.
     ebind (container_path base ''upper'') (\<lambda>upper.
     ebind (container_path base ''work'') (\<lambda>work.
     ebind (container_path base ''merged'') (\<lambda>merged.
     ebind (container_path base ''state.json'') (\<lambda>state.
     ebind (container_path (mc_runtime_dir (k_getenv K)) cid) (\<lambda>runtime.
     ebind (container_path runtime ''control.sock'') (\<lambda>control.
       Inr (containers, \<lparr>rp_base = base, rp_upper = upper, rp_work = work, rp_merged = merged, rp_state = state,
                         rp_runtime = runtime, rp_control = control\<rparr>)))))))))"

definition prepare_paths :: "kernel \<Rightarrow> string \<Rightarrow> u32 \<Rightarrow> u32 \<Rightarrow> runtime_paths action" where
  "prepare_paths K cid uid gid =
     act_bind
       (act_catch (act_lift (runtime_paths_of K cid))
          (\<lambda>e. act_bind (set_error (mk_error MC_EXIT_USAGE e ''prepare-runtime'' (Some cid) ''runtime path is too long''))
                 (\<lambda>_. act_fail e)))
       (\<lambda>(containers, paths).
          act_bind (act_all [kernel_mkdir_p K (rp_upper paths) 0x1ED, kernel_mkdir_p K (rp_work paths) 0x1C0,
                             kernel_mkdir_p K (rp_merged paths) 0x1ED]) (\<lambda>_.
          act_bind
            (act_catch
               (act_all [call K (Chmod containers 0x1C9), call K (Chown (rp_base paths) uid gid), call K (Chown (rp_upper paths) uid gid),
                         call K (Chown (rp_work paths) uid gid), call K (Chown (rp_merged paths) uid gid)])
               (\<lambda>e. act_bind (set_error (mk_error MC_EXIT_PERMISSION e ''prepare-runtime'' (Some (rp_base paths))
                               ''cannot assign overlay directories to subordinate root''))
                      (\<lambda>_. act_fail e))) (\<lambda>_.
          act_return paths)))"

definition control_error :: "errno \<Rightarrow> runtime_paths \<Rightarrow> mc_error" where
  "control_error e paths =
     mk_error MC_EXIT_RUNTIME e ''control-socket'' (Some (rp_control paths)) ''cannot create root-only shim control socket''"

definition open_control_socket :: "kernel \<Rightarrow> runtime_paths \<Rightarrow> int action" where
  "open_control_socket K paths =
     (if length (rp_control paths) \<ge> 108 then act_stale K
      else
        act_bind (kernel_mkdir_p K (rp_runtime paths) 0x1C0) (\<lambda>_.
        act_bind (discard K (Chmod (rp_runtime paths) 0x1C0)) (\<lambda>_.
        act_catch
          (act_bind (sys K (Socket 1)) (\<lambda>listener.
           act_bind (discard K (Unlink (rp_control paths))) (\<lambda>_.
           act_bind
             (act_catch (act_all [call K (Bind_unix listener (rp_control paths)), call K (Chmod (rp_control paths) 0x180),
                                  call K (Listen listener 8)])
                (\<lambda>e. act_bind (discard K (Close listener)) (\<lambda>_. act_fail e))) (\<lambda>_.
           act_return listener))))
          (\<lambda>e. act_bind (set_error (control_error e paths)) (\<lambda>_. act_fail e)))))"

section \<open>Identity maps\<close>

definition write_text :: "kernel \<Rightarrow> string \<Rightarrow> string \<Rightarrow> unit action" where
  "write_text K path value =
     act_bind (sys K (Open path (O_WRONLY OR O_CLOEXEC) 0)) (\<lambda>descriptor.
       act_bind (write_rest K (k_rounds K) descriptor value) (\<lambda>_. call K (Close descriptor)))"

definition proc_file :: "int \<Rightarrow> string \<Rightarrow> string" where
  "proc_file pid name = snprintf_buf 128 (''/proc/'' @ show_int pid @ ''/'' @ name)"

definition id_mapping :: "u32 \<Rightarrow> string" where
  "id_mapping start = snprintf_buf 64 (text_line (''0 '' @ show_nat (unat start) @ '' 65536''))"

definition configure_id_maps :: "kernel \<Rightarrow> int \<Rightarrow> u32 \<Rightarrow> u32 \<Rightarrow> unit action" where
  "configure_id_maps K pid uid gid =
     act_all [tolerate ENOENT (write_text K (proc_file pid ''setgroups'') ''deny''),
              write_text K (proc_file pid ''uid_map'') (id_mapping uid),
              write_text K (proc_file pid ''gid_map'') (id_mapping gid)]"

section \<open>The state document\<close>

definition json_string :: "string \<Rightarrow> string \<Rightarrow> string" where
  "json_string key value = json_key key @ quoted value"

definition json_number :: "string \<Rightarrow> string \<Rightarrow> string" where
  "json_number key digits = json_key key @ digits"

record state_facts =
  sf_status :: string
  sf_shim_pid :: int
  sf_shim_start :: u64
  sf_init_pid :: int
  sf_exit_code :: int
  sf_init_start :: u64
  sf_updated :: u64
  sf_version :: string
  sf_commit :: string

definition state_document :: "mc_run_config \<Rightarrow> mc_cgroup \<Rightarrow> namespace_identity \<Rightarrow> mc_network \<Rightarrow> state_facts \<Rightarrow> string" where
  "state_document c cgroup ns network f =
     ''{'' @ json_number ''schema_version'' ''1'' @ '','' @ json_string ''id'' (printf_string (cfg_id c)) @ '','' @
     json_string ''status'' (sf_status f) @ '','' @ json_number ''shim_pid'' (show_int (sf_shim_pid f)) @ '','' @
     json_number ''shim_start_time'' (show_u64 (sf_shim_start f)) @ '','' @
     json_number ''init_pid'' (show_int (sf_init_pid f)) @ '','' @ json_number ''exit_code'' (show_int (sf_exit_code f)) @ '','' @
     json_number ''init_start_time'' (show_u64 (sf_init_start f)) @ '','' @
     json_key ''resources'' @ ''{'' @ json_number ''memory_max'' (show_u64 (cfg_memory_max c)) @ '','' @
     json_number ''swap_max'' (show_u64 (cfg_swap_max c)) @ '','' @ json_number ''cpu_quota'' (show_u64 (cfg_cpu_quota c)) @ '','' @
     json_number ''cpu_period'' ''100000'' @ '','' @ json_number ''pids_max'' (show_u64 (cfg_pids_max c)) @ ''},'' @
     json_key ''namespaces'' @ ''{'' @ json_number ''user'' (show_u64 (ni_user ns)) @ '','' @ json_number ''pid'' (show_u64 (ni_pid ns)) @ '','' @
     json_number ''mount'' (show_u64 (ni_mount ns)) @ '','' @ json_number ''uts'' (show_u64 (ni_uts ns)) @ '','' @
     json_number ''ipc'' (show_u64 (ni_ipc ns)) @ '','' @ json_number ''network'' (show_u64 (ni_network ns)) @ '','' @
     json_number ''cgroup'' (show_u64 (ni_cgroup ns)) @ ''},'' @
     json_number ''updated_at_unix_ns'' (show_u64 (sf_updated f)) @ '','' @ json_string ''build_version'' (sf_version f) @ '','' @
     json_string ''git_commit'' (sf_commit f) @ '','' @
     json_string ''network_mode'' (if cfg_network_bridge c then ''bridge'' else ''none'') @ '','' @
     json_number ''ipv4_host'' (show_nat (unat (cfg_ipv4_host c))) @ '','' @
     json_string ''host_interface'' (nw_host_interface network) @ '','' @
     json_string ''cgroup_path'' (cgr_payload cgroup) @ ''}'' @ [CHR 0x0A]"

text \<open>The atomic replacement of a file, with what the disk and its calls are at this moment.\<close>

definition replace_file :: "run_env \<Rightarrow> string \<Rightarrow> string \<Rightarrow> unit action" where
  "replace_file E path data p =
     (case mc_write_atomic (re_write E (ps_history p)) path data (re_disk E (ps_history p)) of
        (trace, None) \<Rightarrow> (p, None)
      | (trace, Some (Inl err)) \<Rightarrow>
          (p\<lparr>ps_history := ps_history p @ [(Replace path data, Inl (saved_errno err))], ps_error := Some err\<rparr>,
           Some (Inl (saved_errno err)))
      | (trace, Some (Inr _)) \<Rightarrow> (p\<lparr>ps_history := ps_history p @ [(Replace path data, Inr 0)]\<rparr>, Some (Inr ())))"

definition state_facts_of :: "kernel \<Rightarrow> run_env \<Rightarrow> string \<Rightarrow> int \<Rightarrow> int \<Rightarrow> state_facts action" where
  "state_facts_of K E status init_pid exit_code =
     act_bind (observe (re_now E)) (\<lambda>(tv_sec, tv_nsec).
     act_bind (sys K Getpid) (\<lambda>pid.
     act_bind (observe (re_proc E)) (\<lambda>proc.
       act_return \<lparr>sf_status = status, sf_shim_pid = pid, sf_shim_start = process_start_time proc pid, sf_init_pid = init_pid,
         sf_exit_code = exit_code, sf_init_start = (if init_pid > 0 then process_start_time proc init_pid else 0),
         sf_updated = tv_sec * 1000000000 + tv_nsec, sf_version = re_version E, sf_commit = re_commit E\<rparr>)))"

definition write_state ::
  "kernel \<Rightarrow> run_env \<Rightarrow> runtime_paths \<Rightarrow> mc_run_config \<Rightarrow> mc_cgroup \<Rightarrow> namespace_identity \<Rightarrow> mc_network \<Rightarrow> string \<Rightarrow> int \<Rightarrow> int
     \<Rightarrow> unit action" where
  "write_state K E paths c cgroup ns network status init_pid exit_code =
     act_bind (state_facts_of K E status init_pid exit_code) (\<lambda>f.
       let document = state_document c cgroup ns network f in
       if length document \<ge> 2048
       then act_bind (set_error (mk_error MC_EXIT_INTERNAL EOVERFLOW ''write-state'' (cfg_id c) ''state document is too large''))
              (\<lambda>_. act_fail EOVERFLOW)
       else replace_file E (rp_state paths) document)"

section \<open>Control group, cleaning up, control requests\<close>

definition create_cgroup :: "run_env \<Rightarrow> mc_run_config \<Rightarrow> mc_cgroup action" where
  "create_cgroup E c p =
     (case mc_cgroup_create (re_cgroup E) c of
        None \<Rightarrow> (p, None)
      | Some (ws, r) \<Rightarrow>
          let p' = p\<lparr>ps_history := ps_history p @ map (\<lambda>(path, value). (Cgroup_write path value, Inr 0)) ws\<rparr> in
          (case r of
             Inl err \<Rightarrow> (p'\<lparr>ps_error := Some err\<rparr>, Some (Inl (saved_errno err)))
           | Inr cgroup \<Rightarrow> (p', Some (Inr cgroup))))"

fun effect_call :: "cgroup_effect \<Rightarrow> kcall" where
  "effect_call (ClosePayload descriptor) = Close descriptor"
| "effect_call (KillPayload path) = Cgroup_write path ''1''"
| "effect_call (RemovePayload path) = Rmdir path"

definition destroy_cgroup :: "kernel \<Rightarrow> mc_cgroup \<Rightarrow> mc_cgroup action" where
  "destroy_cgroup K cgroup =
     act_bind (act_all (map (\<lambda>e. discard K (effect_call e)) (fst (mc_cgroup_destroy cgroup))))
       (\<lambda>_. act_return (snd (mc_cgroup_destroy cgroup)))"

definition cleanup_ephemeral :: "kernel \<Rightarrow> runtime_paths \<Rightarrow> unit action" where
  "cleanup_ephemeral K paths =
     act_all [discard K (Chmod (rp_work paths) 0x1C0), discard K (Remove_tree (rp_work paths)), discard K (Remove_tree (rp_merged paths))]"

definition ownership_error :: "errno \<Rightarrow> runtime_paths \<Rightarrow> mc_error" where
  "ownership_error e paths =
     mk_error MC_EXIT_RUNTIME e ''cleanup'' (Some (rp_base paths)) ''cannot restore state directory ownership''"

definition close_if :: "kernel \<Rightarrow> int \<Rightarrow> unit action" where
  "close_if K descriptor = (if descriptor \<ge> 0 then discard K (Close descriptor) else act_return ())"

text \<open>Serving one client. The request is handled by the control protocol; a crash ends the shim.\<close>

fun delivery_call :: "int \<Rightarrow> delivery \<Rightarrow> kcall" where
  "delivery_call pidfd (CgroupKill path) = Cgroup_write path ''1''"
| "delivery_call pidfd (PidfdSignal n) = Pidfd_signal pidfd n"

definition serve_control :: "kernel \<Rightarrow> run_env \<Rightarrow> int \<Rightarrow> int \<Rightarrow> mc_cgroup \<Rightarrow> unit action" where
  "serve_control K E listener pidfd cgroup =
     act_bind (attempt (sys K (Accept listener))) (\<lambda>r. case r of
       Inl e \<Rightarrow> act_return ()
     | Inr connection \<Rightarrow> act_bind (observe (re_control E)) (\<lambda>C.
         case handle_control (re_json E) (C\<lparr>ct_active := cgr_active cgroup, ct_payload := cgr_payload cgroup\<rparr>) of
           Shim_crash \<Rightarrow> act_stuck
         | Handled deliveries reply \<Rightarrow>
             act_bind (act_all (map (\<lambda>d. discard K (delivery_call pidfd d)) deliveries)) (\<lambda>_.
             act_bind (case reply of None \<Rightarrow> act_return () | Some t \<Rightarrow> discard K (Send connection t)) (\<lambda>_.
             discard K (Close connection)))))"

section \<open>The run\<close>

datatype run_outcome = In_child ending | Returned int

definition run_error :: "mc_exit_code \<Rightarrow> errno \<Rightarrow> string \<Rightarrow> mc_run_config \<Rightarrow> string \<Rightarrow> mc_error" where
  "run_error code e op c txt = mk_error code e op (cfg_id c) txt"

definition fail_with :: "mc_error \<Rightarrow> errno \<Rightarrow> 'a action" where
  "fail_with err e = act_bind (set_error err) (\<lambda>_. act_fail e)"

text \<open>Everything before the directories: privileges, identities and the control group.\<close>

definition acquire :: "kernel \<Rightarrow> run_env \<Rightarrow> mc_run_config \<Rightarrow> (u32 \<times> u32 \<times> mc_cgroup) action" where
  "acquire K E c =
     act_bind (sys K Geteuid) (\<lambda>euid.
     if euid \<noteq> 0 then fail_with (run_error MC_EXIT_PERMISSION EPERM ''run'' c ''container execution requires root'') EPERM
     else
       act_bind (act_catch (call K Setgroups)
                   (\<lambda>e. fail_with (run_error MC_EXIT_PERMISSION e ''run'' c ''cannot clear supplementary groups'') e)) (\<lambda>_.
       if strchr (c_str (cfg_rootfs c)) CHR '','' \<noteq> None then act_stale K
       else case mc_subid_range (k_getenv K) (re_subids E) of
         Inl err \<Rightarrow> fail_with err (saved_errno err)
       | Inr (uid, gid) \<Rightarrow> act_bind (create_cgroup E c) (\<lambda>cgroup. act_return (uid, gid, cgroup))))"

text \<open>The directories and the two pipes, each a descriptor and its successor.\<close>

definition prepare_resources :: "kernel \<Rightarrow> mc_run_config \<Rightarrow> u32 \<Rightarrow> u32 \<Rightarrow> mc_cgroup \<Rightarrow> (runtime_paths \<times> int \<times> int) action" where
  "prepare_resources K c uid gid cgroup =
     act_catch
       (act_bind (prepare_paths K (c_str (cfg_id c)) uid gid) (\<lambda>paths.
        act_bind (sys K Pipe) (\<lambda>barrier.
        act_bind (sys K Pipe) (\<lambda>ready. act_return (paths, barrier, ready)))))
       (\<lambda>e. act_bind (set_first_error (run_error MC_EXIT_RUNTIME e ''run'' c ''cannot create synchronization barrier'')) (\<lambda>_.
            act_bind (destroy_cgroup K cgroup) (\<lambda>_. act_fail e)))"

definition clone_flags :: "mc_cgroup \<Rightarrow> u64" where
  "clone_flags cgroup =
     CLONE_NEWUSER OR CLONE_NEWPID OR CLONE_NEWNS OR CLONE_NEWUTS OR CLONE_NEWIPC OR CLONE_NEWNET OR CLONE_NEWCGROUP OR CLONE_PIDFD OR
     (if cgr_active cgroup then CLONE_INTO_CGROUP else 0)"

definition clone_cgroup :: "mc_cgroup \<Rightarrow> int" where
  "clone_cgroup cgroup = (if cgr_active cgroup then cgr_payload_fd cgroup else 0)"

text \<open>The new process.\<close>

definition run_child :: "kernel \<Rightarrow> child_context \<Rightarrow> int \<Rightarrow> int \<Rightarrow> run_outcome action" where
  "run_child K ctx barrier ready =
     act_bind (act_all [discard K (Close (barrier + 1)), discard K (Close ready)]) (\<lambda>_.
     act_bind (child_main K ctx) (\<lambda>e. act_return (In_child e)))"

definition give_back :: "kernel \<Rightarrow> runtime_paths \<Rightarrow> unit action" where
  "give_back K paths = act_catch (call K (Chown (rp_base paths) 0 0)) (\<lambda>e. set_first_error (ownership_error e paths))"

definition abandon_clone :: "kernel \<Rightarrow> mc_run_config \<Rightarrow> mc_cgroup \<Rightarrow> runtime_paths \<Rightarrow> int \<Rightarrow> int \<Rightarrow> errno \<Rightarrow> run_outcome action" where
  "abandon_clone K c cgroup paths barrier ready saved =
     act_bind (act_all [discard K (Close (barrier + 1)), discard K (Close ready), cleanup_ephemeral K paths, give_back K paths]) (\<lambda>_.
     act_bind (destroy_cgroup K cgroup) (\<lambda>_.
     act_bind (set_error (run_error MC_EXIT_RUNTIME saved ''clone3'' c ''cannot create container namespaces'')) (\<lambda>_.
     act_return (Returned (- 1)))))"

definition abandon_start ::
  "kernel \<Rightarrow> mc_run_config \<Rightarrow> mc_cgroup \<Rightarrow> runtime_paths \<Rightarrow> int \<Rightarrow> int \<Rightarrow> int \<Rightarrow> int \<Rightarrow> mc_network \<Rightarrow> errno \<Rightarrow> run_outcome action" where
  "abandon_start K c cgroup paths barrier ready child pidfd network saved =
     act_bind (act_all [discard K (Kill child 9), discard K (Waitpid child False), discard K (Close (barrier + 1)), discard K (Close ready),
                        close_if K (cfg_ready_fd c), close_if K pidfd, cleanup_ephemeral K paths]) (\<lambda>_.
     act_bind (mc_network_destroy K network) (\<lambda>_.
     act_bind (give_back K paths) (\<lambda>_.
     act_bind (destroy_cgroup K cgroup) (\<lambda>_.
     act_bind (set_first_error (run_error MC_EXIT_RUNTIME saved ''runtime-setup'' c
                                  ''cannot configure identity mapping or network barrier'')) (\<lambda>_.
     act_return (Returned (- 1)))))))"

text \<open>Identities and network, in this order, before the barrier is opened.\<close>

definition connect_run :: "kernel \<Rightarrow> mc_run_config \<Rightarrow> int \<Rightarrow> u32 \<Rightarrow> u32 \<Rightarrow> mc_network action" where
  "connect_run K c child uid gid =
     act_bind (configure_id_maps K child uid gid) (\<lambda>_.
     if cfg_network_bridge c
     then mc_network_setup K (c_str (cfg_id c)) child (cfg_ipv4_host c) (cfg_publishes c)
     else act_return zero_network)"

definition write_byte :: "kernel \<Rightarrow> int \<Rightarrow> unit action" where
  "write_byte K descriptor = act_bind (sys K (Write descriptor ''1'')) (\<lambda>n. if n \<noteq> 1 then act_stale K else act_return ())"

text \<open>Waiting for the byte of the init process: whether one byte came, and which.\<close>

fun read_ready_byte :: "kernel \<Rightarrow> nat \<Rightarrow> int \<Rightarrow> string option action" where
  "read_ready_byte K 0 descriptor = act_stuck"
| "read_ready_byte K (Suc n) descriptor =
     act_bind (attempt (act_bind (sys K (Read descriptor 1)) (\<lambda>count. act_bind (fetch_text K) (\<lambda>t. act_return (count, t))))) (\<lambda>r.
       case r of
         Inl e \<Rightarrow> if e = EINTR then read_ready_byte K n descriptor else act_return None
       | Inr (count, t) \<Rightarrow> act_return (if count = 1 then Some (take 1 t) else None))"

text \<open>Recording and announcing a container that is ready: the listener (negative when there is none), the
  namespaces, and whether it is still considered started.\<close>

definition record_running ::
  "kernel \<Rightarrow> run_env \<Rightarrow> mc_run_config \<Rightarrow> mc_cgroup \<Rightarrow> runtime_paths \<Rightarrow> mc_network \<Rightarrow> int \<Rightarrow> (namespace_identity \<times> int \<times> bool) action" where
  "record_running K E c cgroup paths network child =
     act_bind (capture_namespaces K E child) (\<lambda>ns.
     act_bind (attempt (open_control_socket K paths)) (\<lambda>r.
     case r of
       Inl e \<Rightarrow> act_bind (discard K (Kill child 9)) (\<lambda>_. act_return (ns, - 1, False))
     | Inr listener \<Rightarrow>
         act_bind (attempt (write_state K E paths c cgroup ns network ''running'' child 0)) (\<lambda>r.
         if isl r then act_bind (discard K (Kill child 9)) (\<lambda>_. act_return (ns, listener, False))
         else act_return (ns, listener, True))))"

definition announce_running :: "kernel \<Rightarrow> mc_run_config \<Rightarrow> int \<Rightarrow> bool \<Rightarrow> bool action" where
  "announce_running K c child started =
     (if cfg_ready_fd c \<ge> 0 \<and> started
      then act_bind (attempt (write_byte K (cfg_ready_fd c))) (\<lambda>r.
           act_bind (if isl r then discard K (Kill child 9) else act_return ()) (\<lambda>_.
           act_bind (discard K (Close (cfg_ready_fd c))) (\<lambda>_. act_return (\<not> isl r))))
      else act_bind (close_if K (cfg_ready_fd c)) (\<lambda>_. act_return started))"

definition await_ready ::
  "kernel \<Rightarrow> run_env \<Rightarrow> mc_run_config \<Rightarrow> mc_cgroup \<Rightarrow> runtime_paths \<Rightarrow> mc_network \<Rightarrow> int \<Rightarrow> int \<Rightarrow> (namespace_identity \<times> int \<times> bool) action" where
  "await_ready K E c cgroup paths network child ready =
     act_bind (read_ready_byte K (k_rounds K) ready) (\<lambda>byte.
     act_bind (discard K (Close ready)) (\<lambda>_.
     if byte = Some ''1''
     then act_bind (record_running K E c cgroup paths network child) (\<lambda>(ns, listener, started).
          act_bind (announce_running K c child started) (\<lambda>started. act_return (ns, listener, started)))
     else act_bind (close_if K (cfg_ready_fd c)) (\<lambda>_. act_return (no_namespaces, - 1, byte \<noteq> None))))"

definition wait_error :: "errno \<Rightarrow> mc_run_config \<Rightarrow> mc_error" where
  "wait_error e c = run_error MC_EXIT_RUNTIME e ''wait-container'' c ''cannot wait for container init''"

text \<open>A pause between two looks at the process, in which the control socket is served.\<close>

definition idle :: "kernel \<Rightarrow> run_env \<Rightarrow> mc_cgroup \<Rightarrow> int \<Rightarrow> int \<Rightarrow> unit action" where
  "idle K E cgroup pidfd listener =
     (if listener \<ge> 0
      then act_bind (attempt (sys K (Poll pidfd listener))) (\<lambda>r.
           case r of Inr events \<Rightarrow> if events > 1 then serve_control K E listener pidfd cgroup else act_return () | Inl e \<Rightarrow> act_return ())
      else discard K (Usleep 10000))"

text \<open>The main loop; \<open>None\<close> when waiting failed. The handlers of the signals that have arrived run before the
  wait. A positive answer of \<open>poll\<close> is 1 for the process only, more when the listener is readable.\<close>

fun wait_container :: "kernel \<Rightarrow> run_env \<Rightarrow> nat \<Rightarrow> mc_run_config \<Rightarrow> mc_cgroup \<Rightarrow> int \<Rightarrow> int \<Rightarrow> int \<Rightarrow> bool \<Rightarrow> wait_status option action" where
  "wait_container K E 0 c cgroup child pidfd listener forwarding = act_stuck"
| "wait_container K E (Suc n) c cgroup child pidfd listener forwarding =
     act_bind (observe (re_signals E)) (\<lambda>arrived.
     act_bind (if forwarding then act_all (map (forward_signal K child) (filter (\<lambda>s. s \<in> set forwarded_signals) arrived))
               else act_return ()) (\<lambda>_.
     act_bind (attempt (sys K (Waitpid child True))) (\<lambda>r.
     if r = Inr child then act_bind (fetch_status K) (\<lambda>status. act_return (Some status))
     else case r of
       Inl e \<Rightarrow>
         if e \<noteq> EINTR then act_bind (set_error (wait_error e c)) (\<lambda>_. act_return None)
         else act_bind (idle K E cgroup pidfd listener) (\<lambda>_. wait_container K E n c cgroup child pidfd listener forwarding)
     | Inr _ \<Rightarrow> act_bind (idle K E cgroup pidfd listener) (\<lambda>_. wait_container K E n c cgroup child pidfd listener forwarding))))"

definition run_exit_code :: "wait_status option \<Rightarrow> int" where
  "run_exit_code status =
     (case status of
        Some (WIFEXITED n) \<Rightarrow> int n
      | Some (WIFSIGNALED n) \<Rightarrow> 128 + int n
      | _ \<Rightarrow> exit_value MC_EXIT_RUNTIME)"

definition finish_run ::
  "kernel \<Rightarrow> run_env \<Rightarrow> mc_run_config \<Rightarrow> mc_cgroup \<Rightarrow> runtime_paths \<Rightarrow> mc_network \<Rightarrow> namespace_identity \<Rightarrow> int \<Rightarrow> int \<Rightarrow> int \<Rightarrow> bool
     \<Rightarrow> wait_status option \<Rightarrow> run_outcome action" where
  "finish_run K E c cgroup paths network ns child pidfd listener started status =
     act_bind (act_all [close_if K pidfd, close_if K listener, discard K (Unlink (rp_control paths)), discard K (Rmdir (rp_runtime paths))]) (\<lambda>_.
     act_bind (destroy_cgroup K cgroup) (\<lambda>cgroup.
     act_bind (mc_network_destroy K network) (\<lambda>network.
     act_bind (act_all [cleanup_ephemeral K paths,
                        act_catch (call K (Chown (rp_base paths) 0 0)) (\<lambda>e. set_error (ownership_error e paths)),
                        discard K (Chmod (rp_base paths) 0x1C0),
                        act_ignore (write_state K E paths c cgroup ns network (if started then ''stopped'' else ''failed'') child
                                      (run_exit_code status))]) (\<lambda>_.
     act_return (Returned (if status = None then - 1 else run_exit_code status))))))"

text \<open>From the opened barrier to the end of the container.\<close>

definition attend ::
  "kernel \<Rightarrow> run_env \<Rightarrow> mc_run_config \<Rightarrow> mc_cgroup \<Rightarrow> runtime_paths \<Rightarrow> mc_network \<Rightarrow> int \<Rightarrow> int \<Rightarrow> int \<Rightarrow> run_outcome action" where
  "attend K E c cgroup paths network child pidfd ready =
     act_bind (await_ready K E c cgroup paths network child ready) (\<lambda>(ns, listener, started).
     act_bind (attempt (install_forwarders K)) (\<lambda>previous.
     act_bind (if isl previous then discard K (Kill child 9) else act_return ()) (\<lambda>_.
     act_bind (wait_container K E (k_rounds K) c cgroup child pidfd listener (\<not> isl previous)) (\<lambda>status.
     act_bind (case previous of Inl e \<Rightarrow> act_return () | Inr replaced \<Rightarrow> restore_forwarders K replaced) (\<lambda>_.
     finish_run K E c cgroup paths network ns child pidfd listener started status)))))"

definition run_parent ::
  "kernel \<Rightarrow> run_env \<Rightarrow> mc_run_config \<Rightarrow> u32 \<Rightarrow> u32 \<Rightarrow> mc_cgroup \<Rightarrow> runtime_paths \<Rightarrow> int \<Rightarrow> int \<Rightarrow> int \<Rightarrow> int \<Rightarrow> run_outcome action" where
  "run_parent K E c uid gid cgroup paths barrier ready child pidfd =
     act_bind (attempt (connect_run K c child uid gid)) (\<lambda>r.
     case r of
       Inl saved \<Rightarrow> abandon_start K c cgroup paths barrier ready child pidfd zero_network saved
     | Inr network \<Rightarrow>
         act_bind (attempt (write_byte K (barrier + 1))) (\<lambda>r.
         case r of
           Inl saved \<Rightarrow> abandon_start K c cgroup paths barrier ready child pidfd network saved
         | Inr _ \<Rightarrow> act_bind (discard K (Close (barrier + 1))) (\<lambda>_. attend K E c cgroup paths network child pidfd ready)))"

definition clone_run :: "kernel \<Rightarrow> run_env \<Rightarrow> mc_run_config \<Rightarrow> u32 \<Rightarrow> u32 \<Rightarrow> mc_cgroup \<Rightarrow> runtime_paths \<Rightarrow> int \<Rightarrow> int \<Rightarrow> run_outcome action" where
  "clone_run K E c uid gid cgroup paths barrier ready =
     act_bind (attempt (sys K (Clone3 (clone_flags cgroup) (clone_cgroup cgroup)))) (\<lambda>r.
     if r = Inr 0
     then run_child K \<lparr>cc_config = c, cc_paths = paths, cc_barrier = barrier, cc_ready = ready + 1\<rparr> barrier ready
     else act_bind (observe (re_pidfd E)) (\<lambda>pidfd.
          act_bind (act_all [discard K (Close barrier), discard K (Close (ready + 1))]) (\<lambda>_.
          case r of
            Inl saved \<Rightarrow> abandon_clone K c cgroup paths barrier ready saved
          | Inr child \<Rightarrow> run_parent K E c uid gid cgroup paths barrier ready child pidfd)))"

definition set_up :: "kernel \<Rightarrow> run_env \<Rightarrow> mc_run_config \<Rightarrow> (u32 \<times> u32 \<times> mc_cgroup \<times> runtime_paths \<times> int \<times> int) action" where
  "set_up K E c =
     act_bind (acquire K E c) (\<lambda>(uid, gid, cgroup).
     act_bind (prepare_resources K c uid gid cgroup) (\<lambda>(paths, barrier, ready). act_return (uid, gid, cgroup, paths, barrier, ready)))"

definition mc_container_run :: "kernel \<Rightarrow> run_env \<Rightarrow> mc_run_config \<Rightarrow> run_outcome action" where
  "mc_container_run K E c =
     act_bind (attempt (set_up K E c)) (\<lambda>r.
     case r of
       Inl e \<Rightarrow> act_return (Returned (- 1))
     | Inr (uid, gid, cgroup, paths, barrier, ready) \<Rightarrow> clone_run K E c uid gid cgroup paths barrier ready)"

section \<open>Lemmas\<close>

lemma case_sum_rules:
  "(\<And>e. emits S (f e)) \<Longrightarrow> (\<And>x. emits S (g x)) \<Longrightarrow> emits S (case r of Inl e \<Rightarrow> f e | Inr x \<Rightarrow> g x)"
  "(\<And>e. unfailing (f e)) \<Longrightarrow> (\<And>x. unfailing (g x)) \<Longrightarrow> unfailing (case r of Inl e \<Rightarrow> f e | Inr x \<Rightarrow> g x)"
  "(\<And>e. attempts L (f e)) \<Longrightarrow> (\<And>x. attempts L (g x)) \<Longrightarrow> attempts L (case r of Inl e \<Rightarrow> f e | Inr x \<Rightarrow> g x)"
  by (simp_all split: sum.split)

lemma case_prod_rules:
  "(\<And>a b. emits S (h a b)) \<Longrightarrow> emits S (case z of (a, b) \<Rightarrow> h a b)"
  "(\<And>a b. unfailing (h a b)) \<Longrightarrow> unfailing (case z of (a, b) \<Rightarrow> h a b)"
  "(\<And>a b. attempts L (h a b)) \<Longrightarrow> attempts L (case z of (a, b) \<Rightarrow> h a b)"
  by (simp_all split: prod.split)

lemmas [emits_intros] = case_sum_rules(1) case_prod_rules(1)
lemmas [unfailing_intros] = case_sum_rules(2) case_prod_rules(2)

lemma observe_rules [emits_intros, unfailing_intros]: "emits S (observe f)" "unfailing (observe f)"
  by (auto simp: emits_def unfailing_def observe_def)

lemma extends_cgroup [emits_intros]: "extends (create_cgroup E c)" "extends (destroy_cgroup K cgroup)"
proof -
  show "extends (create_cgroup E c)"
    by (auto simp: emits_def create_cgroup_def Let_def list_all_iff split: option.splits prod.splits sum.splits)
  show "extends (destroy_cgroup K cgroup)" by (auto simp: destroy_cgroup_def intro!: emits_intros)
qed

lemma unfailing_cgroup [unfailing_intros]: "unfailing (destroy_cgroup K cgroup)"
  by (auto simp: destroy_cgroup_def intro!: unfailing_intros)

lemma unfailing_network [unfailing_intros]: "unfailing (mc_nft_remove_container K cid)" "unfailing (mc_network_destroy K network)"
  by (auto simp: mc_network_destroy_def mc_nft_remove_container_def intro!: unfailing_intros)

lemma extends_network [emits_intros]: "extends (mc_network_destroy K network)" "extends (mc_network_setup K cid pid ip ps)"
  by (auto simp: mc_network_destroy_def mc_network_setup_def intro!: emits_intros)

lemma unfailing_small [unfailing_intros]:
  "unfailing (close_if K d)" "unfailing (cleanup_ephemeral K paths)" "unfailing (give_back K paths)" "unfailing (forward_signal K t s)"
  "unfailing (restore_forwarders K previous)"
  by (auto simp: close_if_def cleanup_ephemeral_def give_back_def forward_signal_def restore_forwarders_def restore_handlers_def
      intro!: unfailing_intros)

lemma extends_small [emits_intros]:
  "extends (close_if K d)" "extends (cleanup_ephemeral K paths)" "extends (give_back K paths)" "extends (forward_signal K t s)"
  "extends (restore_forwarders K previous)" "extends (install_forwarders K)"
  by (auto simp: close_if_def cleanup_ephemeral_def give_back_def forward_signal_def restore_forwarders_def restore_handlers_def
      install_forwarders_def intro!: emits_intros)

lemma extends_replace_file [emits_intros]: "extends (replace_file E path data)"
  by (auto simp: emits_def replace_file_def split: prod.splits option.splits sum.splits)

lemma extends_write_state [emits_intros]: "extends (write_state K E paths c cgroup ns network status init_pid code)"
  by (auto simp: write_state_def state_facts_of_def Let_def intro!: emits_intros)

lemma serve_control_rules [emits_intros, unfailing_intros]:
  "extends (serve_control K E listener pidfd cgroup)" "unfailing (serve_control K E listener pidfd cgroup)"
  by (auto simp: serve_control_def intro!: emits_intros unfailing_intros split: control_outcome.split option.split)

lemma idle_rules [emits_intros, unfailing_intros]:
  "extends (idle K E cgroup pidfd listener)" "unfailing (idle K E cgroup pidfd listener)"
  by (auto simp: idle_def intro!: emits_intros unfailing_intros)

lemma wait_container_rules [emits_intros, unfailing_intros]:
  "extends (wait_container K E n c cgroup child pidfd listener forwarding)"
  "unfailing (wait_container K E n c cgroup child pidfd listener forwarding)"
  by (induction n) (auto intro!: emits_intros unfailing_intros)

lemma namespace_rules [emits_intros, unfailing_intros]:
  "extends (capture_namespaces K E pid)" "unfailing (capture_namespaces K E pid)"
proof -
  have "extends (namespace_inode K E pid name)" "unfailing (namespace_inode K E pid name)" for name
    by (auto simp: namespace_inode_def Let_def intro!: emits_intros unfailing_intros)
  then show "extends (capture_namespaces K E pid)" "unfailing (capture_namespaces K E pid)"
    by (auto simp: capture_namespaces_def intro!: emits_intros unfailing_intros)
qed

lemma extends_control_socket [emits_intros]: "extends (open_control_socket K paths)"
  by (auto simp: open_control_socket_def intro!: emits_intros)

lemma read_ready_rules [emits_intros, unfailing_intros]:
  "extends (read_ready_byte K n d)" "unfailing (read_ready_byte K n d)"
  by (induction n) (auto intro!: emits_intros unfailing_intros)

lemma await_ready_rules [emits_intros, unfailing_intros]:
  "extends (await_ready K E c cgroup paths network child ready)" "unfailing (await_ready K E c cgroup paths network child ready)"
  by (auto simp: await_ready_def record_running_def announce_running_def write_byte_def intro!: emits_intros unfailing_intros)

lemma extends_connect_run [emits_intros]: "extends (connect_run K c child uid gid)"
  by (auto simp: connect_run_def configure_id_maps_def write_text_def tolerate_def intro!: emits_intros)

section \<open>Everything is released\<close>

definition release_calls :: "runtime_paths \<Rightarrow> mc_cgroup \<Rightarrow> kcall list" where
  "release_calls paths cgroup =
     [Chmod (rp_work paths) 0x1C0, Remove_tree (rp_work paths), Remove_tree (rp_merged paths), Chown (rp_base paths) 0 0] @
     map effect_call (fst (mc_cgroup_destroy cgroup))"

lemma attempts_discard [attempts_intros]: "attempts [c] (discard K c)"
  by (intro attempts_intros)

lemma attempts_cleanup [attempts_intros]:
  "attempts [Chmod (rp_work paths) 0x1C0, Remove_tree (rp_work paths), Remove_tree (rp_merged paths)] (cleanup_ephemeral K paths)"
  unfolding cleanup_ephemeral_def
  using attempts_all [of "[[Chmod (rp_work paths) 0x1C0], [Remove_tree (rp_work paths)], [Remove_tree (rp_merged paths)]]"
      "[discard K (Chmod (rp_work paths) 0x1C0), discard K (Remove_tree (rp_work paths)), discard K (Remove_tree (rp_merged paths))]"]
  by (simp add: attempts_intros unfailing_intros)

lemma attempts_give_back [attempts_intros]: "attempts [Chown (rp_base paths) 0 0] (give_back K paths)"
  unfolding give_back_def by (intro attempts_catch attempts_intros emits_intros)

lemma attempts_destroy [attempts_intros]: "attempts (map effect_call (fst (mc_cgroup_destroy cgroup))) (destroy_cgroup K cgroup)"
proof -
  have "attempts (concat (map (\<lambda>e. [effect_call e]) es)) (act_all (map (\<lambda>e. discard K (effect_call e)) es))" for es
    by (rule attempts_all) (auto simp: list_all2_conv_all_nth intro!: attempts_intros unfailing_intros)
  then have "attempts (map effect_call es) (act_all (map (\<lambda>e. discard K (effect_call e)) es))" for es
    by (metis concat_map_singleton)
  then show ?thesis unfolding destroy_cgroup_def by (intro attempts_bind_left emits_intros)
qed

lemma attempts_close_if [attempts_intros]: "attempts (if d \<ge> 0 then [Close d] else []) (close_if K d)"
  by (auto simp: close_if_def intro!: attempts_intros attempts_Nil emits_intros)

lemma attempts_abandon_clone:
  "attempts (Close (barrier + 1) # Close ready # release_calls paths cgroup) (abandon_clone K c cgroup paths barrier ready saved)"
proof -
  have "attempts (concat [[Close (barrier + 1)], [Close ready],
      [Chmod (rp_work paths) 0x1C0, Remove_tree (rp_work paths), Remove_tree (rp_merged paths)], [Chown (rp_base paths) 0 0]])
    (act_all [discard K (Close (barrier + 1)), discard K (Close ready), cleanup_ephemeral K paths, give_back K paths])"
    by (rule attempts_all) (simp add: attempts_intros unfailing_intros)
  moreover have "attempts (map effect_call (fst (mc_cgroup_destroy cgroup))) (act_bind (destroy_cgroup K cgroup) (\<lambda>_.
     act_bind (set_error (run_error MC_EXIT_RUNTIME saved ''clone3'' c ''cannot create container namespaces'')) (\<lambda>_.
     act_return (Returned (- 1)))))"
    by (intro attempts_bind_left attempts_intros emits_intros)
  ultimately have "attempts (concat [[Close (barrier + 1)], [Close ready],
      [Chmod (rp_work paths) 0x1C0, Remove_tree (rp_work paths), Remove_tree (rp_merged paths)], [Chown (rp_base paths) 0 0]] @
      map effect_call (fst (mc_cgroup_destroy cgroup))) (abandon_clone K c cgroup paths barrier ready saved)"
    unfolding abandon_clone_def by (intro attempts_bind) (auto intro!: unfailing_intros)
  then show ?thesis by (rule attempts_weaken) (auto simp: release_calls_def)
qed

lemma attempts_abandon_start:
  "attempts (Kill child 9 # Waitpid child False # Close (barrier + 1) # Close ready # (if pidfd \<ge> 0 then [Close pidfd] else []) @
     release_calls paths cgroup) (abandon_start K c cgroup paths barrier ready child pidfd network saved)"
proof -
  have first: "attempts (concat [[Kill child 9], [Waitpid child False], [Close (barrier + 1)], [Close ready],
      (if cfg_ready_fd c \<ge> 0 then [Close (cfg_ready_fd c)] else []), (if pidfd \<ge> 0 then [Close pidfd] else []),
      [Chmod (rp_work paths) 0x1C0, Remove_tree (rp_work paths), Remove_tree (rp_merged paths)]])
    (act_all [discard K (Kill child 9), discard K (Waitpid child False), discard K (Close (barrier + 1)), discard K (Close ready),
       close_if K (cfg_ready_fd c), close_if K pidfd, cleanup_ephemeral K paths])"
    by (rule attempts_all) (simp add: attempts_intros unfailing_intros)
  have "attempts (map effect_call (fst (mc_cgroup_destroy cgroup))) (act_bind (destroy_cgroup K cgroup) (\<lambda>_.
     act_bind (set_first_error err) (\<lambda>_. act_return (Returned (- 1)))))" for err
    by (intro attempts_bind_left attempts_intros emits_intros)
  then have rest: "attempts ([Chown (rp_base paths) 0 0] @ map effect_call (fst (mc_cgroup_destroy cgroup)))
      (act_bind (mc_network_destroy K network) (\<lambda>_. act_bind (give_back K paths) (\<lambda>_. act_bind (destroy_cgroup K cgroup) (\<lambda>_.
        act_bind (set_first_error err) (\<lambda>_. act_return (Returned (- 1)))))))" for err
    by (rule attempts_bind_right [OF extends_network(1) unfailing_network(2) attempts_bind [OF attempts_give_back unfailing_small(3)]])
  have "attempts (concat [[Kill child 9], [Waitpid child False], [Close (barrier + 1)], [Close ready],
      (if cfg_ready_fd c \<ge> 0 then [Close (cfg_ready_fd c)] else []), (if pidfd \<ge> 0 then [Close pidfd] else []),
      [Chmod (rp_work paths) 0x1C0, Remove_tree (rp_work paths), Remove_tree (rp_merged paths)]] @
      ([Chown (rp_base paths) 0 0] @ map effect_call (fst (mc_cgroup_destroy cgroup))))
      (abandon_start K c cgroup paths barrier ready child pidfd network saved)"
    unfolding abandon_start_def by (rule attempts_bind [OF first _ rest]) (auto intro!: unfailing_intros)
  then show ?thesis by (rule attempts_weaken) (auto simp: release_calls_def)
qed

lemma attempts_finish_run:
  "attempts ((if pidfd \<ge> 0 then [Close pidfd] else []) @ (if listener \<ge> 0 then [Close listener] else []) @
     [Unlink (rp_control paths), Rmdir (rp_runtime paths)] @ release_calls paths cgroup)
     (finish_run K E c cgroup paths network ns child pidfd listener started status)"
proof -
  have a: "attempts (concat [if pidfd \<ge> 0 then [Close pidfd] else [], if listener \<ge> 0 then [Close listener] else [],
      [Unlink (rp_control paths)], [Rmdir (rp_runtime paths)]])
    (act_all [close_if K pidfd, close_if K listener, discard K (Unlink (rp_control paths)), discard K (Rmdir (rp_runtime paths))])"
    by (rule attempts_all) (simp add: attempts_intros unfailing_intros)
  have b: "attempts (concat [[Chmod (rp_work paths) 0x1C0, Remove_tree (rp_work paths), Remove_tree (rp_merged paths)],
      [Chown (rp_base paths) 0 0], [Chmod (rp_base paths) 0x1C0], []])
    (act_all [cleanup_ephemeral K paths, act_catch (call K (Chown (rp_base paths) 0 0)) (\<lambda>e. set_error (ownership_error e paths)),
       discard K (Chmod (rp_base paths) 0x1C0), act_ignore (write_state K E paths c g ns nw st child code)])" for g nw st code
    by (rule attempts_all) (auto intro!: attempts_intros unfailing_intros attempts_catch emits_intros attempts_Nil)
  have "attempts (concat [if pidfd \<ge> 0 then [Close pidfd] else [], if listener \<ge> 0 then [Close listener] else [],
      [Unlink (rp_control paths)], [Rmdir (rp_runtime paths)]] @ map effect_call (fst (mc_cgroup_destroy cgroup)) @
      concat [[Chmod (rp_work paths) 0x1C0, Remove_tree (rp_work paths), Remove_tree (rp_merged paths)],
      [Chown (rp_base paths) 0 0], [Chmod (rp_base paths) 0x1C0], []])
    (finish_run K E c cgroup paths network ns child pidfd listener started status)"
    unfolding finish_run_def
    by (rule attempts_bind [OF a _ attempts_bind [OF attempts_destroy unfailing_cgroup
            attempts_bind_right [OF extends_network(1) unfailing_network(2) attempts_bind_left [OF b]]]])
      (auto intro!: unfailing_intros emits_intros)
  then show ?thesis by (rule attempts_weaken) (auto simp: release_calls_def)
qed

lemma attempts_wait_container [attempts_intros]:
  "attempts [Waitpid child True] (wait_container K E n c cgroup child pidfd listener forwarding)"
proof (cases n)
  case 0
  then show ?thesis by (simp add: attempts_def act_stuck_def)
next
  case (Suc m)
  show ?thesis unfolding Suc wait_container.simps
    by (rule attempts_bind_right [OF observe_rules attempts_bind_right [OF _ _ attempts_bind_left [OF attempts_attempt [OF attempts_sys]]]])
      (auto intro!: emits_intros unfailing_intros)
qed

lemma attempts_attend:
  "attempts (Waitpid child True # Close ready # (if pidfd \<ge> 0 then [Close pidfd] else []) @
     [Unlink (rp_control paths), Rmdir (rp_runtime paths)] @ release_calls paths cgroup)
     (attend K E c cgroup paths network child pidfd ready)"
proof -
  let ?finish = "(if pidfd \<ge> 0 then [Close pidfd] else []) @ [Unlink (rp_control paths), Rmdir (rp_runtime paths)] @ release_calls paths cgroup"
  have f: "attempts ?finish (finish_run K E c cgroup paths network ns child pidfd listener started status)" for ns listener started status
    by (rule attempts_weaken [OF attempts_finish_run]) auto
  have w: "attempts ([Waitpid child True] @ ?finish)
      (act_bind (wait_container K E (k_rounds K) c cgroup child pidfd listener b) (\<lambda>status.
       act_bind (case previous of Inl e \<Rightarrow> act_return () | Inr replaced \<Rightarrow> restore_forwarders K replaced) (\<lambda>_.
       finish_run K E c cgroup paths network ns child pidfd listener started status)))" for listener b previous ns started
    by (rule attempts_bind [OF attempts_wait_container wait_container_rules(2) attempts_bind_right [OF _ _ f]])
      (auto intro!: emits_intros unfailing_intros)
  have a: "attempts [Close ready] (await_ready K E c cgroup paths network child ready)"
    unfolding await_ready_def
    by (rule attempts_bind_right [OF read_ready_rules attempts_bind_left [OF attempts_discard]])
      (auto simp: record_running_def announce_running_def write_byte_def intro!: emits_intros)
  have "attempts ([Close ready] @ ([Waitpid child True] @ ?finish)) (attend K E c cgroup paths network child pidfd ready)"
    unfolding attend_def
    by (rule attempts_bind [OF a await_ready_rules(2) case_prod_rules(3) [OF case_prod_rules(3)
            [OF attempts_bind_right [OF _ _ attempts_bind_right [OF _ _ w]]]]])
      (auto intro!: emits_intros unfailing_intros)
  then show ?thesis by (rule attempts_weaken) auto
qed

lemma attempt_bind_cases:
  assumes "act_bind (attempt m) f p = (p', Some r)"
  obtains q e where "m p = (q, Some (Inl e))" "f (Inl e) q = (p', Some r)"
    | q x where "m p = (q, Some (Inr x))" "f (Inr x) q = (p', Some r)"
  using assms by (cases "m p") (auto simp: attempt_def act_bind_def act_catch_def act_return_def split: option.splits sum.splits)

lemma run_parent_releases:
  assumes "run_parent K E c uid gid cgroup paths barrier ready child pidfd p = (p', Some r)"
  shows "\<exists>new. ps_history p' = ps_history p @ new \<and>
    set (Close (barrier + 1) # Close ready # (if pidfd \<ge> 0 then [Close pidfd] else []) @ release_calls paths cgroup) \<subseteq> fst ` set new \<and>
    (\<exists>b. Waitpid child b \<in> fst ` set new)"
  using assms unfolding run_parent_def
proof (cases rule: attempt_bind_cases)
  case (1 q e)
  have "extends (connect_run K c child uid gid)" by (intro emits_intros)
  then obtain h where h: "ps_history q = ps_history p @ h" using 1(1) emitsD by (metis fst_conv)
  have "abandon_start K c cgroup paths barrier ready child pidfd zero_network e q = (p', Some r)" using 1(2) by simp
  then obtain new where "ps_history p' = ps_history q @ new"
      "set (Kill child 9 # Waitpid child False # Close (barrier + 1) # Close ready # (if pidfd \<ge> 0 then [Close pidfd] else []) @
       release_calls paths cgroup) \<subseteq> fst ` set new"
    by (rule attemptsD [OF attempts_abandon_start])
  then show ?thesis using h by (intro exI [of _ "h @ new"]) (auto simp: image_Un)
next
  case (2 q network)
  have "extends (connect_run K c child uid gid)" by (intro emits_intros)
  then obtain h where h: "ps_history q = ps_history p @ h" using 2(1) emitsD by (metis fst_conv)
  have "act_bind (attempt (write_byte K (barrier + 1))) (\<lambda>r. case r of
        Inl saved \<Rightarrow> abandon_start K c cgroup paths barrier ready child pidfd network saved
      | Inr _ \<Rightarrow> act_bind (discard K (Close (barrier + 1))) (\<lambda>_. attend K E c cgroup paths network child pidfd ready)) q = (p', Some r)"
    using 2(2) by simp
  then show ?thesis
  proof (cases rule: attempt_bind_cases)
    case w: (1 q' e)
    have "extends (write_byte K (barrier + 1))" by (auto simp: write_byte_def intro!: emits_intros)
    then obtain h' where h': "ps_history q' = ps_history q @ h'" using w(1) emitsD by (metis fst_conv)
    have "abandon_start K c cgroup paths barrier ready child pidfd network e q' = (p', Some r)" using w(2) by simp
    then obtain new where "ps_history p' = ps_history q' @ new"
        "set (Kill child 9 # Waitpid child False # Close (barrier + 1) # Close ready # (if pidfd \<ge> 0 then [Close pidfd] else []) @
         release_calls paths cgroup) \<subseteq> fst ` set new"
      by (rule attemptsD [OF attempts_abandon_start])
    then show ?thesis using h h' by (intro exI [of _ "h @ h' @ new"]) (auto simp: image_Un)
  next
    case w: (2 q' x)
    have "extends (write_byte K (barrier + 1))" by (auto simp: write_byte_def intro!: emits_intros)
    then obtain h' where h': "ps_history q' = ps_history q @ h'" using w(1) emitsD by (metis fst_conv)
    have "act_bind (discard K (Close (barrier + 1))) (\<lambda>_. attend K E c cgroup paths network child pidfd ready) q' = (p', Some r)"
      using w(2) by simp
    then obtain new where "ps_history p' = ps_history q' @ new"
        "set ([Close (barrier + 1)] @ (Waitpid child True # Close ready # (if pidfd \<ge> 0 then [Close pidfd] else []) @
         [Unlink (rp_control paths), Rmdir (rp_runtime paths)] @ release_calls paths cgroup)) \<subseteq> fst ` set new"
      by (rule attemptsD [OF attempts_bind [OF attempts_discard unfailing_pure(7) attempts_attend]])
    then show ?thesis using h h' by (intro exI [of _ "h @ h' @ new"]) (auto simp: image_Un)
  qed
qed

lemma clone_run_parent:
  assumes run: "clone_run K E c uid gid cgroup paths barrier ready q = (p', Some (Inr (Returned n)))"
  obtains r q2 h where "r \<noteq> Inr 0" "ps_history q2 = ps_history q @ (Clone3 (clone_flags cgroup) (clone_cgroup cgroup), r) # h"
    "{Close barrier, Close (ready + 1)} \<subseteq> fst ` set h" "r = k_call K (ps_history q) (Clone3 (clone_flags cgroup) (clone_cgroup cgroup))"
    "(case r of Inl saved \<Rightarrow> abandon_clone K c cgroup paths barrier ready saved
      | Inr child \<Rightarrow> run_parent K E c uid gid cgroup paths barrier ready child
          (re_pidfd E (ps_history q @ [(Clone3 (clone_flags cgroup) (clone_cgroup cgroup), r)]))) q2 = (p', Some (Inr (Returned n)))"
proof -
  define clone where "clone = Clone3 (clone_flags cgroup) (clone_cgroup cgroup)"
  define r where "r = k_call K (ps_history q) clone"
  define q1 where "q1 = q\<lparr>ps_history := ps_history q @ [(clone, r)]\<rparr>"
  define tail where "tail = (case r of Inl saved \<Rightarrow> abandon_clone K c cgroup paths barrier ready saved
    | Inr child \<Rightarrow> run_parent K E c uid gid cgroup paths barrier ready child (re_pidfd E (ps_history q1)))"
  note step = clone_run_def attempt_def act_bind_def [of "act_catch _ _"] act_catch_def act_bind_def [of "sys _ _"]
    act_bind_def [of "observe _"] observe_def sys_def Let_def act_return_def q1_def r_def clone_def tail_def
  have nz: "r \<noteq> Inr 0"
  proof
    assume "r = Inr 0"
    then have "run_child K \<lparr>cc_config = c, cc_paths = paths, cc_barrier = barrier, cc_ready = ready + 1\<rparr> barrier ready q1 = (p', Some (Inr (Returned n)))"
      using run by (simp add: step)
    then show False by (auto simp: run_child_def act_bind_Inr)
  qed
  then have "act_bind (act_all [discard K (Close barrier), discard K (Close (ready + 1))]) (\<lambda>_. tail) q1 = (p', Some (Inr (Returned n)))"
    using run by (simp add: step split: sum.splits)
  then obtain q2 where q2: "act_all [discard K (Close barrier), discard K (Close (ready + 1))] q1 = (q2, Some (Inr ()))"
      "tail q2 = (p', Some (Inr (Returned n)))"
    by (auto simp: act_bind_Inr)
  obtain h where "ps_history q2 = ps_history q1 @ h" "set [Close barrier, Close (ready + 1)] \<subseteq> fst ` set h"
    using attemptsD [OF attempts_all [of "[[Close barrier], [Close (ready + 1)]]"] q2(1)] by (auto simp: attempts_intros unfailing_intros)
  then have h: "ps_history q2 = ps_history q @ (clone, r) # h" "{Close barrier, Close (ready + 1)} \<subseteq> fst ` set h"
    by (simp_all add: q1_def)
  have "tail = (case r of Inl saved \<Rightarrow> abandon_clone K c cgroup paths barrier ready saved
    | Inr child \<Rightarrow> run_parent K E c uid gid cgroup paths barrier ready child (re_pidfd E (ps_history q @ [(clone, r)])))"
    unfolding tail_def q1_def by (simp split: sum.split)
  with that [OF nz h(1) [unfolded clone_def] h(2) r_def [unfolded clone_def]] q2(2) show thesis
    by (simp only: clone_def)
qed

section \<open>An example run\<close>

text \<open>A kernel on which the run of a container without a network ends with the given exit code.\<close>

definition run_kernel :: "nat \<Rightarrow> kernel" where
  "run_kernel code = example_kernel\<lparr>
     k_call := \<lambda>h c. (case c of
         Clone3 flags descriptor \<Rightarrow> Inr 77 | Waitpid pid nohang \<Rightarrow> Inr pid | Read descriptor n \<Rightarrow> Inr 1
       | Write descriptor s \<Rightarrow> Inr (int (length s)) | Pipe \<Rightarrow> Inr (10 + int (length h)) | _ \<Rightarrow> Inr 0),
     k_text := \<lambda>h. ''1'', k_status := \<lambda>h. WIFEXITED code,
     k_getenv := \<lambda>name. if name = ''MC_SUBUID_START'' \<or> name = ''MC_SUBGID_START'' then Some ''100000'' else None,
     k_rounds := 64\<rparr>"

definition example_run_env :: run_env where
  "example_run_env =
     \<lparr>re_json = example_jsonc, re_cgroup = example_cgroup_env\<lparr>cg_skip := True\<rparr>, re_subids = (\<lambda>_. Inl ENOENT), re_pidfd = (\<lambda>_. 8),
      re_control = (\<lambda>_. example_control\<lparr>ct_recv := Inl EINTR\<rparr>), re_write = (\<lambda>_. example_write_env\<lparr>we_write := [Inr 4096]\<rparr>), re_disk = (\<lambda>_. example_disk),
      re_proc = (\<lambda>_ _. None), re_inode = (\<lambda>_. 4), re_now = (\<lambda>_. (1, 0)), re_signals = (\<lambda>_. []), re_version = ''1'', re_commit = ''0''\<rparr>"

definition example_run_config :: mc_run_config where
  "example_run_config = zero_config\<lparr>cfg_id := Some ''0123'', cfg_rootfs := Some ''/images/a'', cfg_ready_fd := 5\<rparr>"

section \<open>The run returns\<close>

named_theorems returns_intros "actions that return"

definition returns :: "'a action \<Rightarrow> bool" where
  "returns m \<longleftrightarrow> (\<forall>p. snd (m p) \<noteq> None)"

lemma returns_pure [returns_intros]:
  "returns (act_return x)" "returns (act_fail e)" "returns (act_lift r)" "returns (act_stale K)" "returns (sys K c)" "returns (call K c)"
  "returns (fetch_text K)" "returns (fetch_status K)" "returns (set_error err)" "returns (set_first_error err)" "returns (observe f)"
  by (auto simp: returns_def act_defs observe_def Let_def split: sum.split)

lemma returnsE:
  assumes "returns m"
  obtains q r where "m p = (q, Some r)"
  using assms unfolding returns_def by (metis option.exhaust prod.collapse)

lemma returns_bind [returns_intros]:
  assumes "returns m" "\<And>x. returns (f x)"
  shows "returns (act_bind m f)"
  unfolding returns_def
proof
  fix p
  obtain q r where "m p = (q, Some r)" by (rule returnsE [OF assms(1)])
  moreover obtain q' r' where "f (projr r) q = (q', Some r')" by (rule returnsE [OF assms(2)])
  ultimately show "snd (act_bind m f p) \<noteq> None" by (cases r) (auto simp: act_bind_def)
qed

lemma returns_catch [returns_intros]:
  assumes "returns m" "\<And>e. returns (f e)"
  shows "returns (act_catch m f)"
  unfolding returns_def
proof
  fix p
  obtain q r where "m p = (q, Some r)" by (rule returnsE [OF assms(1)])
  moreover obtain q' r' where "f (projl r) q = (q', Some r')" by (rule returnsE [OF assms(2)])
  ultimately show "snd (act_catch m f p) \<noteq> None" by (cases r) (auto simp: act_catch_def)
qed

lemma returns_observe: "(\<And>h. returns (f (g h))) \<Longrightarrow> returns (act_bind (observe g) f)"
  by (simp add: returns_def act_bind_def observe_def)

lemma returns_ignore [returns_intros]: "returns m \<Longrightarrow> returns (act_ignore m)" "returns m \<Longrightarrow> returns (attempt m)"
  by (auto simp: act_ignore_def attempt_def intro!: returns_intros)

lemma returns_cases [returns_intros]:
  "(b \<Longrightarrow> returns m) \<Longrightarrow> (\<not> b \<Longrightarrow> returns n) \<Longrightarrow> returns (if b then m else n)"
  "(\<And>e. returns (f e)) \<Longrightarrow> (\<And>x. returns (g x)) \<Longrightarrow> returns (case r of Inl e \<Rightarrow> f e | Inr x \<Rightarrow> g x)"
  "(\<And>a b. returns (h a b)) \<Longrightarrow> returns (case z of (a, b) \<Rightarrow> h a b)"
  by (simp_all split: sum.split prod.split)

lemma returns_all [returns_intros]: "(\<And>m. m \<in> set ms \<Longrightarrow> returns m) \<Longrightarrow> returns (act_all ms)"
  by (induction ms) (auto simp: act_all.simps intro!: returns_intros)

text \<open>A kernel that keeps moving: a write accepts something, waiting for a byte is not interrupted, and there are
  rounds enough for the identity files.\<close>

definition prompt :: "kernel \<Rightarrow> bool" where
  "prompt K \<longleftrightarrow> k_rounds K \<ge> 64 \<and>
     (\<forall>h d s n. k_call K h (Write d s) = Inr n \<and> s \<noteq> [] \<longrightarrow> n > 0) \<and> (\<forall>h d n. k_call K h (Read d n) \<noteq> Inl EINTR)"

text \<open>The process has ended when it has been looked for \<open>m\<close> times.\<close>

definition waits :: "int \<Rightarrow> history \<Rightarrow> nat" where
  "waits child h = length (filter (\<lambda>(c, r). c = Waitpid child True) h)"

definition ends_by :: "kernel \<Rightarrow> nat \<Rightarrow> bool" where
  "ends_by K m \<longleftrightarrow> (\<forall>h child. waits child h \<ge> m \<longrightarrow> k_call K h (Waitpid child True) = Inr child)"

text \<open>No request crashes the shim, replacing a file ends, creating the control group ends.\<close>

definition well_behaved :: "run_env \<Rightarrow> mc_run_config \<Rightarrow> bool" where
  "well_behaved E c \<longleftrightarrow> mc_cgroup_create (re_cgroup E) c \<noteq> None \<and>
     (\<forall>h path data. length data < 2048 \<longrightarrow> snd (mc_write_atomic (re_write E h) path data (re_disk E h)) \<noteq> None) \<and>
     (\<forall>h active payload. handle_control (re_json E) ((re_control E h)\<lparr>ct_active := active, ct_payload := payload\<rparr>) \<noteq> Shim_crash)"

lemma returns_write_rest: "prompt K \<Longrightarrow> length s \<le> n \<Longrightarrow> returns (write_rest K n d s)"
proof (induction n arbitrary: s)
  case 0
  then show ?case by (auto intro!: returns_intros)
next
  case (Suc n)
  show ?case
  proof (cases s)
    case Nil
    then show ?thesis by (auto intro!: returns_intros)
  next
    case (Cons b bs)
    have w: "returns (act_catch (sys K (Write d s)) (\<lambda>e. act_bind (discard K (Close d)) (\<lambda>_. act_fail e)))"
      by (intro returns_intros)
    show ?thesis unfolding returns_def
    proof
      fix p
      obtain q r where q: "act_catch (sys K (Write d s)) (\<lambda>e. act_bind (discard K (Close d)) (\<lambda>_. act_fail e)) p = (q, Some r)"
        by (rule returnsE [OF w])
      show "snd (write_rest K (Suc n) d s p) \<noteq> None"
      proof (cases r)
        case (Inl e)
        then show ?thesis using q Cons by (simp add: act_bind_def)
      next
        case (Inr v)
        then have "k_call K (ps_history p) (Write d s) = Inr v"
          using q by (auto simp: act_catch_Inr sys_Inr act_bind_Inr)
        then have "v > 0" using Suc.prems(1) Cons unfolding prompt_def by blast
        then have "length (drop (nat v) s) \<le> n" using Suc.prems(2) Cons by simp
        then have "snd (write_rest K n d (drop (nat v) s) q) \<noteq> None" using Suc.IH [OF Suc.prems(1)] unfolding returns_def by blast
        then show ?thesis using q Inr Cons by (simp add: act_bind_def)
      qed
    qed
  qed
qed

lemma returns_id_maps: "prompt K \<Longrightarrow> returns (configure_id_maps K pid uid gid)"
proof -
  assume K: "prompt K"
  have "returns (write_text K path s)" if "length s \<le> 64" for path s
    using returns_write_rest [OF K] K that unfolding write_text_def prompt_def by (auto intro!: returns_intros)
  moreover have "length (id_mapping start) \<le> 64" for start by (simp add: id_mapping_def snprintf_buf_def)
  ultimately show ?thesis unfolding configure_id_maps_def tolerate_def by (auto intro!: returns_intros)
qed

lemma returns_mkdir [returns_intros]: "returns (kernel_mkdir_p K path mode)"
  by (auto simp: returns_def kernel_mkdir_p_def split: option.split)

lemma returns_env:
  assumes "well_behaved E c"
  shows "length data < 2048 \<Longrightarrow> returns (replace_file E path data)" "returns (create_cgroup E c)" "returns (serve_control K E listener pidfd cgroup)"
proof -
  show "returns (replace_file E path data)" if "length data < 2048"
    unfolding returns_def
  proof
    fix p :: process
    have "snd (mc_write_atomic (re_write E (ps_history p)) path data (re_disk E (ps_history p))) \<noteq> None"
      using assms that unfolding well_behaved_def by blast
    then obtain trace r where "mc_write_atomic (re_write E (ps_history p)) path data (re_disk E (ps_history p)) = (trace, Some r)"
      by (metis option.exhaust prod.collapse)
    then show "snd (replace_file E path data p) \<noteq> None" by (cases r) (simp_all add: replace_file_def)
  qed
  show "returns (create_cgroup E c)"
    using assms by (auto simp: returns_def well_behaved_def create_cgroup_def Let_def split: sum.split)
  have "returns (case handle_control (re_json E) ((re_control E h)\<lparr>ct_active := cgr_active cgroup, ct_payload := cgr_payload cgroup\<rparr>) of
      Shim_crash \<Rightarrow> act_stuck
    | Handled deliveries reply \<Rightarrow>
        act_bind (act_all (map (\<lambda>d. discard K (delivery_call pidfd d)) deliveries)) (\<lambda>_.
        act_bind (case reply of None \<Rightarrow> act_return () | Some t \<Rightarrow> discard K (Send connection t)) (\<lambda>_.
        discard K (Close connection))))" (is "returns (?handle h connection)") for h connection
  proof -
    obtain deliveries reply where
      "handle_control (re_json E) ((re_control E h)\<lparr>ct_active := cgr_active cgroup, ct_payload := cgr_payload cgroup\<rparr>) = Handled deliveries reply"
      using assms unfolding well_behaved_def by (metis control_outcome.exhaust)
    then show ?thesis by (cases reply) (auto intro!: returns_intros)
  qed
  then show "returns (serve_control K E listener pidfd cgroup)"
    unfolding serve_control_def by (intro returns_intros returns_observe)
qed

lemma waits_mono: "waits child (a @ b) = waits child a + waits child b"
  by (simp add: waits_def)

lemma returns_idle: "well_behaved E c \<Longrightarrow> returns (idle K E cgroup pidfd listener)"
  unfolding idle_def by (auto intro!: returns_intros returns_env(3))

lemma settlesE:
  assumes "returns m" "unfailing m" "extends m"
  obtains q x h where "m p = (q, Some (Inr x))" "ps_history q = ps_history p @ h"
proof -
  obtain q r where q: "m p = (q, Some r)" by (rule returnsE [OF assms(1)])
  then obtain x where "r = Inr x" using assms(2) unfolding unfailing_def by (cases r) auto
  moreover obtain h where "ps_history q = ps_history p @ h" using emitsD [OF assms(3), of p] q by auto
  ultimately show thesis using that q by blast
qed

lemma bind_settled: "m p = (q, Some (Inr x)) \<Longrightarrow> act_bind m f p = f x q"
  by (simp add: act_bind_def)

lemma attempt_sys: "attempt (sys K c) p =
  (p\<lparr>ps_history := ps_history p @ [(c, k_call K (ps_history p) c)]\<rparr>, Some (Inr (k_call K (ps_history p) c)))"
  by (auto simp: attempt_def act_catch_def act_bind_def sys_def Let_def act_return_def split: sum.split)

text \<open>One round of the main loop: the signals that have arrived are forwarded, then the process is looked for.\<close>

lemma wait_container_step:
  obtains q h r where "ps_history q = ps_history p @ h @ [(Waitpid child True, r)]" "r = k_call K (ps_history p @ h) (Waitpid child True)"
    "wait_container K E (Suc n) c cgroup child pidfd listener forwarding p =
      (if r = Inr child then act_bind (fetch_status K) (\<lambda>status. act_return (Some status))
       else case r of
         Inl e \<Rightarrow> if e \<noteq> EINTR then act_bind (set_error (wait_error e c)) (\<lambda>_. act_return None)
           else act_bind (idle K E cgroup pidfd listener) (\<lambda>_. wait_container K E n c cgroup child pidfd listener forwarding)
       | Inr _ \<Rightarrow> act_bind (idle K E cgroup pidfd listener) (\<lambda>_. wait_container K E n c cgroup child pidfd listener forwarding)) q"
proof -
  define signals where "signals = filter (\<lambda>s. s \<in> set forwarded_signals) (re_signals E (ps_history p))"
  define forward where "forward = (if forwarding then act_all (map (forward_signal K child) signals) else act_return ())"
  have "returns forward" "unfailing forward" "extends forward"
    unfolding forward_def forward_signal_def by (auto intro!: returns_intros emits_intros unfailing_intros)
  then obtain q x h where q: "forward p = (q, Some (Inr x))" "ps_history q = ps_history p @ h" by (rule settlesE)
  define r where "r = k_call K (ps_history p @ h) (Waitpid child True)"
  define q1 where "q1 = q\<lparr>ps_history := ps_history q @ [(Waitpid child True, r)]\<rparr>"
  have o: "observe (re_signals E) p = (p, Some (Inr (re_signals E (ps_history p))))" by (simp add: observe_def)
  have a: "attempt (sys K (Waitpid child True)) q = (q1, Some (Inr r))" by (simp add: attempt_sys q1_def r_def q(2))
  show thesis
  proof (rule that [of q1 h r])
    show "ps_history q1 = ps_history p @ h @ [(Waitpid child True, r)]" by (simp add: q1_def q(2))
  qed (simp_all only: r_def wait_container.simps(2) bind_settled [where m = "observe (re_signals E)", OF o] signals_def [symmetric]
      forward_def [symmetric] bind_settled [where m = forward, OF q(1)]
      bind_settled [where m = "attempt (sys K (Waitpid child True))", OF a])
qed

lemma wait_container_returns:
  assumes E: "well_behaved E c" and K: "ends_by K m" and "m < n + waits child (ps_history p)" "n > 0"
  shows "snd (wait_container K E n c cgroup child pidfd listener forwarding p) \<noteq> None"
  using assms(3, 4)
proof (induction n arbitrary: p)
  case (Suc n)
  define again where "again = act_bind (idle K E cgroup pidfd listener) (\<lambda>_. wait_container K E n c cgroup child pidfd listener forwarding)"
  obtain q h r where q: "ps_history q = ps_history p @ h @ [(Waitpid child True, r)]" "r = k_call K (ps_history p @ h) (Waitpid child True)"
    and step: "wait_container K E (Suc n) c cgroup child pidfd listener forwarding p =
      (if r = Inr child then act_bind (fetch_status K) (\<lambda>status. act_return (Some status))
       else case r of
         Inl e \<Rightarrow> if e \<noteq> EINTR then act_bind (set_error (wait_error e c)) (\<lambda>_. act_return None) else again
       | Inr _ \<Rightarrow> again) q"
    unfolding again_def by (rule wait_container_step)
  have loop: "snd (again q) \<noteq> None" if "r \<noteq> Inr child"
  proof -
    have "waits child (ps_history p @ h) < m" using that K q(2) unfolding ends_by_def by (metis not_less)
    moreover have "waits child (ps_history q) = Suc (waits child (ps_history p @ h))" by (simp add: q(1) waits_def)
    moreover have "waits child (ps_history p) \<le> waits child (ps_history p @ h)" by (simp add: waits_mono)
    ultimately have n: "m < n + waits child (ps_history q)" "n > 0" using Suc.prems by linarith+
    obtain q2 y h2 where q2: "idle K E cgroup pidfd listener q = (q2, Some (Inr y))" "ps_history q2 = ps_history q @ h2"
      by (rule settlesE [OF returns_idle [OF E] idle_rules(2) idle_rules(1)])
    have "m < n + waits child (ps_history q2)" using n q2(2) by (simp add: waits_mono)
    then have "snd (wait_container K E n c cgroup child pidfd listener forwarding q2) \<noteq> None" using Suc.IH n(2) by blast
    then show ?thesis unfolding again_def bind_settled [where m = "idle K E cgroup pidfd listener", OF q2(1)] .
  qed
  have "returns (act_bind (fetch_status K) (\<lambda>status. act_return (Some status)))"
    "\<And>e. returns (act_bind (set_error (wait_error e c)) (\<lambda>_. act_return (None :: wait_status option)))"
    by (intro returns_intros)+
  then show ?case unfolding step returns_def using loop by (cases r) (simp_all split: if_splits)
qed simp

lemma returns_forwarders [returns_intros]: "returns (install_forwarders K)" "returns (restore_forwarders K replaced)"
proof -
  have restore: "returns (restore_handlers K replaced)" for replaced
    unfolding restore_handlers_def by (auto intro!: returns_intros)
  have "returns (install_handlers K replaced signals)" for signals replaced
    by (induction signals arbitrary: replaced) (auto intro!: returns_intros restore)
  then show "returns (install_forwarders K)" unfolding install_forwarders_def by (auto intro!: returns_intros)
  show "returns (restore_forwarders K replaced)" unfolding restore_forwarders_def using restore by (auto intro!: returns_intros)
qed

lemma returns_small [returns_intros]:
  "returns (close_if K d)" "returns (give_back K paths)" "returns (cleanup_ephemeral K paths)" "returns (destroy_cgroup K cgroup)"
  "returns (fail_with err e)" "returns (write_byte K d)" "returns (namespace_inode K E pid name)" "returns (open_control_socket K paths)"
  "returns (announce_running K c child started)" "returns (state_facts_of K E status pid code)"
  unfolding close_if_def give_back_def cleanup_ephemeral_def destroy_cgroup_def fail_with_def write_byte_def namespace_inode_def
    open_control_socket_def announce_running_def state_facts_of_def Let_def
  by (auto intro!: returns_intros)

lemma returns_read_ready:
  assumes "prompt K"
  shows "returns (read_ready_byte K (k_rounds K) d)"
proof -
  obtain n where n: "k_rounds K = Suc n" using assms unfolding prompt_def by (cases "k_rounds K") auto
  have "k_call K h (Read d 1) \<noteq> Inl EINTR" for h using assms unfolding prompt_def by blast
  then show ?thesis
    unfolding n returns_def
    by (auto simp: attempt_def act_bind_def act_catch_def sys_def fetch_text_def Let_def act_return_def split: sum.split)
qed

lemma returns_set_up:
  assumes "well_behaved E c"
  shows "returns (set_up K E c)"
proof -
  have [returns_intros]: "returns (prepare_paths K cid uid gid)" for cid uid gid
    unfolding prepare_paths_def by (auto intro!: returns_intros)
  have "returns (acquire K E c)"
    unfolding acquire_def using returns_env(2) [OF assms] by (auto intro!: returns_intros)
  moreover have "returns (prepare_resources K c uid gid cgroup)" for uid gid cgroup
    unfolding prepare_resources_def by (auto intro!: returns_intros)
  ultimately show ?thesis unfolding set_up_def by (auto intro!: returns_intros)
qed

lemma returns_write_state:
  assumes "well_behaved E c"
  shows "returns (write_state K E paths c cgroup ns network status pid code)"
  unfolding write_state_def Let_def by (auto intro!: returns_intros returns_env(1) [OF assms])

lemma returns_await_ready:
  assumes "well_behaved E c" "prompt K"
  shows "returns (await_ready K E c cgroup paths network child ready)"
proof -
  have "returns (record_running K E c cgroup paths network child)"
    unfolding record_running_def capture_namespaces_def by (auto intro!: returns_intros returns_write_state [OF assms(1)])
  then show ?thesis
    unfolding await_ready_def using returns_read_ready [OF assms(2)] by (auto intro!: returns_intros)
qed

lemma returns_attend:
  assumes "well_behaved E c" "prompt K" "ends_by K m" "m < k_rounds K" "\<not> nw_active network"
  shows "returns (attend K E c cgroup paths network child pidfd ready)"
proof -
  have "returns (finish_run K E c cgroup paths network ns child pidfd listener started status)" for ns listener started status
    unfolding finish_run_def mc_network_destroy_def if_P [OF assms(5)] by (auto intro!: returns_intros returns_write_state [OF assms(1)])
  moreover have "returns (wait_container K E (k_rounds K) c cgroup child pidfd listener forwarding)" for listener forwarding
    unfolding returns_def using wait_container_returns [OF assms(1, 3)] assms(4) by fastforce
  ultimately show ?thesis
    unfolding attend_def using returns_await_ready [OF assms(1, 2)] by (auto intro!: returns_intros)
qed

lemma returns_attempt_constant:
  assumes "returns m" "\<And>e. returns (f (Inl e))" "returns (f (Inr x))"
  shows "returns (act_bind (attempt (act_bind m (\<lambda>_. act_return x))) f)"
  unfolding returns_def
proof
  fix p
  obtain q r where q: "m p = (q, Some r)" by (rule returnsE [OF assms(1)])
  show "snd (act_bind (attempt (act_bind m (\<lambda>_. act_return x))) f p) \<noteq> None"
    using assms(2, 3) unfolding returns_def
    by (cases r) (auto simp: attempt_def act_bind_def [of m] act_bind_def [of "act_bind m _"] act_bind_def [of "act_catch _ _"] act_catch_def
        act_return_def q)
qed

lemma returns_run_parent:
  assumes "well_behaved E c" "prompt K" "ends_by K m" "m < k_rounds K" "\<not> cfg_network_bridge c"
  shows "returns (run_parent K E c uid gid cgroup paths barrier ready child pidfd)"
proof -
  have abandon: "returns (abandon_start K c cgroup paths barrier ready child pidfd zero_network e)" for e
    unfolding abandon_start_def mc_network_destroy_def by (auto simp: zero_network_def intro!: returns_intros)
  have attend: "returns (attend K E c cgroup paths zero_network child pidfd ready)"
    by (rule returns_attend [OF assms(1-4)]) (simp add: zero_network_def)
  have connect: "connect_run K c child uid gid = act_bind (configure_id_maps K child uid gid) (\<lambda>_. act_return zero_network)"
    using assms(5) by (simp add: connect_run_def)
  show ?thesis
    unfolding run_parent_def connect
    by (rule returns_attempt_constant [OF returns_id_maps [OF assms(2)]]) (auto intro!: returns_intros abandon attend)
qed

text \<open>Actions that return to the caller of the run when they return.\<close>

definition hands_back :: "run_outcome action \<Rightarrow> bool" where
  "hands_back m \<longleftrightarrow> (\<forall>p p' r. m p = (p', Some r) \<longrightarrow> (\<exists>n. r = Inr (Returned n)))"

lemma hands_back_return: "hands_back (act_return (Returned n))"
  by (simp add: hands_back_def act_return_def)

lemma hands_back_bind: "unfailing m \<Longrightarrow> (\<And>x. hands_back (f x)) \<Longrightarrow> hands_back (act_bind m f)"
  unfolding hands_back_def unfailing_def act_bind_def by (auto split: prod.splits option.splits sum.splits)

lemma hands_back_cases:
  "(\<And>e. hands_back (f e)) \<Longrightarrow> (\<And>x. hands_back (g x)) \<Longrightarrow> hands_back (case r of Inl e \<Rightarrow> f e | Inr x \<Rightarrow> g x)"
  "(\<And>a b. hands_back (h a b)) \<Longrightarrow> hands_back (case z of (a, b) \<Rightarrow> h a b)"
  by (simp_all split: sum.split prod.split)

lemmas hands_back_intros = hands_back_return hands_back_bind hands_back_cases

lemma hands_back_parent:
  "hands_back (abandon_clone K c cgroup paths barrier ready e)"
  "hands_back (run_parent K E c uid gid cgroup paths barrier ready child pidfd)"
  unfolding abandon_clone_def run_parent_def abandon_start_def attend_def finish_run_def
  by (auto intro!: hands_back_intros unfailing_intros)

lemma clone_run_settled:
  assumes "\<And>h flags d. k_call K h (Clone3 flags d) \<noteq> Inr 0"
  obtains r pidfd q' where "clone_run K E c uid gid cgroup paths barrier ready q =
    (case r of Inl saved \<Rightarrow> abandon_clone K c cgroup paths barrier ready saved
     | Inr child \<Rightarrow> run_parent K E c uid gid cgroup paths barrier ready child pidfd) q'"
proof -
  define clone where "clone = Clone3 (clone_flags cgroup) (clone_cgroup cgroup)"
  define r where "r = k_call K (ps_history q) clone"
  define q1 where "q1 = q\<lparr>ps_history := ps_history q @ [(clone, r)]\<rparr>"
  define closing where "closing = act_all [discard K (Close barrier), discard K (Close (ready + 1))]"
  have a: "attempt (sys K clone) q = (q1, Some (Inr r))" by (simp add: attempt_sys q1_def r_def)
  have o: "observe (re_pidfd E) q1 = (q1, Some (Inr (re_pidfd E (ps_history q1))))" by (simp add: observe_def)
  have "returns closing" "unfailing closing" "extends closing"
    unfolding closing_def by (auto intro!: returns_intros unfailing_intros emits_intros)
  then obtain q' x h where q': "closing q1 = (q', Some (Inr x))" by (rule settlesE)
  have nz: "r \<noteq> Inr 0" using assms unfolding r_def clone_def by blast
  show thesis
    by (rule that [where r = r and pidfd = "re_pidfd E (ps_history q1)" and q' = q'])
      (simp only: clone_run_def clone_def [symmetric] bind_settled [where m = "attempt (sys K clone)", OF a] nz if_False
        bind_settled [where m = "observe (re_pidfd E)", OF o] closing_def [symmetric] bind_settled [where m = closing, OF q'])
qed

lemma run_settles:
  assumes "prompt K" "ends_by K m" "m < k_rounds K" "well_behaved E c" "\<not> cfg_network_bridge c"
    "\<And>h flags d. k_call K h (Clone3 flags d) \<noteq> Inr 0"
  shows "\<exists>p' n. mc_container_run K E c p = (p', Some (Inr (Returned n)))"
proof -
  obtain q r where q: "set_up K E c p = (q, Some r)" by (rule returnsE [OF returns_set_up [OF assms(4)]])
  show ?thesis
  proof (cases r)
    case (Inl e)
    then show ?thesis using q by (simp add: mc_container_run_def attempt_def act_bind_def act_catch_def act_return_def)
  next
    case (Inr x)
    obtain uid gid cgroup paths barrier ready where x: "x = (uid, gid, cgroup, paths, barrier, ready)" by (cases x)
    have run: "mc_container_run K E c p = clone_run K E c uid gid cgroup paths barrier ready q"
      using q Inr x by (simp add: mc_container_run_def attempt_def act_bind_def act_catch_def act_return_def)
    obtain r' pidfd q' where tail: "clone_run K E c uid gid cgroup paths barrier ready q =
        (case r' of Inl saved \<Rightarrow> abandon_clone K c cgroup paths barrier ready saved
         | Inr child \<Rightarrow> run_parent K E c uid gid cgroup paths barrier ready child pidfd) q'"
      by (rule clone_run_settled [OF assms(6)])
    have "returns (abandon_clone K c cgroup paths barrier ready e)" for e
      unfolding abandon_clone_def by (auto intro!: returns_intros)
    then have "returns (case r' of Inl saved \<Rightarrow> abandon_clone K c cgroup paths barrier ready saved
        | Inr child \<Rightarrow> run_parent K E c uid gid cgroup paths barrier ready child pidfd)"
      using returns_run_parent [OF assms(4, 1-3, 5)] by (rule returns_cases(2))
    then obtain p' r'' where "(case r' of Inl saved \<Rightarrow> abandon_clone K c cgroup paths barrier ready saved
         | Inr child \<Rightarrow> run_parent K E c uid gid cgroup paths barrier ready child pidfd) q' = (p', Some r'')" by (rule returnsE)
    moreover have "hands_back (case r' of Inl saved \<Rightarrow> abandon_clone K c cgroup paths barrier ready saved
         | Inr child \<Rightarrow> run_parent K E c uid gid cgroup paths barrier ready child pidfd)"
      by (intro hands_back_cases hands_back_parent)
    ultimately obtain n where "clone_run K E c uid gid cgroup paths barrier ready q = (p', Some (Inr (Returned n)))"
      unfolding hands_back_def tail by blast
    then show ?thesis using run by auto
  qed
qed

lemma example_prompt: "prompt (run_kernel code)" "ends_by (run_kernel code) 0"
  by (simp_all add: prompt_def ends_by_def run_kernel_def)

lemma example_well_behaved: "well_behaved example_run_env c"
proof -
  have "snd (mc_write_atomic (example_write_env\<lparr>we_write := [Inr 4096]\<rparr>) path data example_disk) \<noteq> None" if "length data < 2048" for path data
    using that by (cases data) (auto simp: mc_write_atomic_def example_write_env_def sync_parent_def atomic_error_def Let_def split: prod.split)
  then show ?thesis
    by (simp add: well_behaved_def example_run_env_def mc_cgroup_create_def example_cgroup_env_def handle_control_def example_control_def)
qed

lemma example_set_up: "case snd (set_up (run_kernel 3) example_run_env example_run_config example_process) of Some (Inr _) \<Rightarrow> True | _ \<Rightarrow> False"
  by code_simp

lemma example_run_settles:
  "\<not> cfg_network_bridge c \<Longrightarrow> \<exists>p' n. mc_container_run (run_kernel code) example_run_env c p = (p', Some (Inr (Returned n)))"
  by (rule run_settles [OF example_prompt(1) example_prompt(2) _ example_well_behaved]) (simp_all add: run_kernel_def)

lemma example_unconnected: "\<not> cfg_network_bridge example_run_config"
  by (simp add: example_run_config_def zero_config_def)

section \<open>The result is the status of the process\<close>

text \<open>The status the process ended with is what the kernel reports right after the wait that found it, and some
  calls have succeeded before.\<close>

definition reaped :: "kernel \<Rightarrow> int \<Rightarrow> kcall list \<Rightarrow> history \<Rightarrow> history \<Rightarrow> wait_status \<Rightarrow> bool" where
  "reaped K child L h h' status \<longleftrightarrow>
     (\<exists>new rest. h' = h @ new @ (Waitpid child True, Inr child) # rest \<and> subseq L (successes new) \<and>
        status = k_status K (h @ new @ [(Waitpid child True, Inr child)]))"

lemma reaped_after:
  assumes "h1 = h @ a" "h2 = h1' @ b" "subseq L (successes a)" "reaped K child L' h1 h1' status"
  shows "reaped K child (L @ L') h h2 status"
proof -
  obtain new rest where "h1' = h1 @ new @ (Waitpid child True, Inr child) # rest" "subseq L' (successes new)"
    "status = k_status K (h1 @ new @ [(Waitpid child True, Inr child)])"
    using assms(4) unfolding reaped_def by blast
  then show ?thesis
    using assms(1-3) unfolding reaped_def
    by (intro exI [of _ "a @ new"] exI [of _ "rest @ b"]) (simp add: list_emb_append_mono)
qed

lemma extends_history: "extends m \<Longrightarrow> m p = (q, r) \<Longrightarrow> \<exists>h. ps_history q = ps_history p @ h"
  using emitsD by (metis fst_conv)

lemma wait_container_reaped:
  assumes "wait_container K E n c cgroup child pidfd listener forwarding p = (p', Some (Inr (Some status)))"
  shows "reaped K child [] (ps_history p) (ps_history p') status"
  using assms
proof (induction n arbitrary: p)
  case 0
  then show ?case by (simp add: act_stuck_def)
next
  case (Suc n)
  obtain q h r where q: "ps_history q = ps_history p @ h @ [(Waitpid child True, r)]"
    and step: "wait_container K E (Suc n) c cgroup child pidfd listener forwarding p =
      (if r = Inr child then act_bind (fetch_status K) (\<lambda>status. act_return (Some status))
       else case r of
         Inl e \<Rightarrow> if e \<noteq> EINTR then act_bind (set_error (wait_error e c)) (\<lambda>_. act_return None)
           else act_bind (idle K E cgroup pidfd listener) (\<lambda>_. wait_container K E n c cgroup child pidfd listener forwarding)
       | Inr _ \<Rightarrow> act_bind (idle K E cgroup pidfd listener) (\<lambda>_. wait_container K E n c cgroup child pidfd listener forwarding)) q"
    by (rule wait_container_step)
  show ?case
  proof (cases "r = Inr child")
    case True
    then have "status = k_status K (ps_history q)" "ps_history p' = ps_history q"
      using Suc.prems unfolding step by (auto simp: act_bind_def fetch_status_def act_return_def)
    then show ?thesis using True q unfolding reaped_def by auto
  next
    case False
    then have "act_bind (idle K E cgroup pidfd listener) (\<lambda>_. wait_container K E n c cgroup child pidfd listener forwarding) q =
        (p', Some (Inr (Some status)))"
      using Suc.prems unfolding step by (auto simp: act_bind_Inr split: sum.splits if_splits)
    then obtain q2 where q2: "idle K E cgroup pidfd listener q = (q2, Some (Inr ()))"
        "wait_container K E n c cgroup child pidfd listener forwarding q2 = (p', Some (Inr (Some status)))"
      by (auto simp: act_bind_Inr)
    obtain h2 where "ps_history q2 = ps_history q @ h2" using extends_history [OF idle_rules(1) q2(1)] by blast
    then have "ps_history q2 = ps_history p @ (h @ (Waitpid child True, r) # h2)" using q by simp
    from reaped_after [OF this _ _ Suc.IH [OF q2(2)], of _ "[]" "[]"] show ?thesis by simp
  qed
qed

text \<open>Actions whose result, unless it is \<open>-1\<close>, is the status of the process.\<close>

definition reports :: "kernel \<Rightarrow> int \<Rightarrow> kcall list \<Rightarrow> run_outcome action \<Rightarrow> bool" where
  "reports K child L m \<longleftrightarrow>
     (\<forall>p p' n. m p = (p', Some (Inr (Returned n))) \<and> n \<noteq> - 1 \<longrightarrow>
        (\<exists>status. reaped K child L (ps_history p) (ps_history p') status \<and> n = run_exit_code (Some status)))"

lemma reports_bind:
  assumes m: "reaches L m" and f: "\<And>x. reports K child L' (f x)"
  shows "reports K child (L @ L') (act_bind m f)"
  unfolding reports_def
proof (intro allI impI, elim conjE)
  fix p p' n assume "act_bind m f p = (p', Some (Inr (Returned n)))" and n: "n \<noteq> - 1"
  then obtain q x where q: "m p = (q, Some (Inr x))" "f x q = (p', Some (Inr (Returned n)))" by (auto simp: act_bind_Inr)
  obtain new where "ps_history q = ps_history p @ new" "subseq L (successes new)" by (rule reachesD [OF m q(1)])
  moreover obtain status where "reaped K child L' (ps_history q) (ps_history p') status" "n = run_exit_code (Some status)"
    using f q(2) n unfolding reports_def by blast
  ultimately show "\<exists>status. reaped K child (L @ L') (ps_history p) (ps_history p') status \<and> n = run_exit_code (Some status)"
    using reaped_after [of _ _ _ _ _ "[]"] by fastforce
qed

lemma reports_skip: "extends m \<Longrightarrow> (\<And>x. reports K child L (f x)) \<Longrightarrow> reports K child L (act_bind m f)"
  using reports_bind [OF reaches_Nil] by fastforce

lemma reports_attempt:
  assumes "reaches L m" "\<And>e p p' n. f e p = (p', Some (Inr (Returned n))) \<Longrightarrow> n = - 1" "\<And>x. reports K child L' (g x)"
  shows "reports K child (L @ L') (act_bind (attempt m) (\<lambda>r. case r of Inl e \<Rightarrow> f e | Inr x \<Rightarrow> g x))"
  unfolding reports_def
proof (intro allI impI, elim conjE)
  fix p p' n
  assume "act_bind (attempt m) (\<lambda>r. case r of Inl e \<Rightarrow> f e | Inr x \<Rightarrow> g x) p = (p', Some (Inr (Returned n)))" and n: "n \<noteq> - 1"
  then show "\<exists>status. reaped K child (L @ L') (ps_history p) (ps_history p') status \<and> n = run_exit_code (Some status)"
  proof (cases rule: attempt_bind_cases)
    case (1 q e)
    then show ?thesis using assms(2) n by auto
  next
    case (2 q x)
    then have "act_bind m g p = (p', Some (Inr (Returned n)))" by (simp add: act_bind_def)
    then show ?thesis using reports_bind [OF assms(1), of K child L' g] assms(3) n unfolding reports_def by blast
  qed
qed

lemma reports_wait:
  assumes "\<And>s. extends (m s)" "\<And>s p p' n. m s p = (p', Some (Inr (Returned n))) \<Longrightarrow> n = (if s = None then - 1 else run_exit_code s)"
  shows "reports K child [] (act_bind (wait_container K E k c cgroup child pidfd listener forwarding) m)"
  unfolding reports_def
proof (intro allI impI, elim conjE)
  fix p p' n
  assume "act_bind (wait_container K E k c cgroup child pidfd listener forwarding) m p = (p', Some (Inr (Returned n)))" and n: "n \<noteq> - 1"
  then obtain q s where q: "wait_container K E k c cgroup child pidfd listener forwarding p = (q, Some (Inr s))"
      "m s q = (p', Some (Inr (Returned n)))" by (auto simp: act_bind_Inr)
  then obtain status where s: "s = Some status" "n = run_exit_code (Some status)" using assms(2) [OF q(2)] n by (cases s) auto
  obtain h where "ps_history p' = ps_history q @ h" using extends_history [OF assms(1) q(2)] by blast
  with reaped_after [OF _ this _ wait_container_reaped [OF q(1) [unfolded s(1)]], of "ps_history p" "[]" "[]"] s(2)
  show "\<exists>status. reaped K child [] (ps_history p) (ps_history p') status \<and> n = run_exit_code (Some status)" by auto
qed

lemma reports_attend: "reports K child [] (attend K E c cgroup paths network child pidfd ready)"
proof -
  have finish: "extends (finish_run K E c cgroup paths network ns child pidfd listener started status)" for ns listener started status
    unfolding finish_run_def by (auto intro!: emits_intros)
  have wait: "reports K child [] (act_bind (wait_container K E k c cgroup child pidfd listener forwarding) (\<lambda>status.
      act_bind (case previous of Inl e \<Rightarrow> act_return () | Inr replaced \<Rightarrow> restore_forwarders K replaced) (\<lambda>_.
      finish_run K E c cgroup paths network ns child pidfd listener started status)))" for k listener forwarding previous ns started
    by (rule reports_wait) (auto intro!: emits_intros finish simp: act_bind_Inr finish_run_def)
  have "reports K child [] (act_bind (attempt (install_forwarders K)) (\<lambda>previous.
     act_bind (if isl previous then discard K (Kill child 9) else act_return ()) (\<lambda>_.
     act_bind (wait_container K E (k_rounds K) c cgroup child pidfd listener (\<not> isl previous)) (\<lambda>status.
     act_bind (case previous of Inl e \<Rightarrow> act_return () | Inr replaced \<Rightarrow> restore_forwarders K replaced) (\<lambda>_.
     finish_run K E c cgroup paths network ns child pidfd listener started status)))))" for listener ns started
    by (rule reports_skip, force intro!: emits_intros, rule reports_skip, force intro!: emits_intros, rule wait)
  then show ?thesis
    unfolding attend_def by (intro reports_skip await_ready_rules) (simp split: prod.split)
qed

lemma reaches_id_maps:
  "reaches [Open (proc_file pid ''uid_map'') (O_WRONLY OR O_CLOEXEC) 0, Open (proc_file pid ''gid_map'') (O_WRONLY OR O_CLOEXEC) 0]
     (configure_id_maps K pid uid gid)"
proof -
  have rest: "extends (act_bind (write_rest K n d s) (\<lambda>_. call K (Close d)))" for n d s by (auto intro!: emits_intros)
  have whole: "reaches [Open path (O_WRONLY OR O_CLOEXEC) 0] (write_text K path s)" for path s
    unfolding write_text_def by (rule reaches_bind_left [OF reaches_sys rest])
  have "extends (tolerate ENOENT (write_text K path s))" for path s
    unfolding tolerate_def write_text_def by (auto intro!: emits_intros)
  then have "reaches ([] @ [Open (proc_file pid ''uid_map'') (O_WRONLY OR O_CLOEXEC) 0] @ [Open (proc_file pid ''gid_map'') (O_WRONLY OR O_CLOEXEC) 0] @ [])
      (configure_id_maps K pid uid gid)"
    unfolding configure_id_maps_def by (intro reaches_Cons reaches_all_Nil whole reaches_Nil)
  then show ?thesis by simp
qed

lemma abandon_start_code:
  "abandon_start K c cgroup paths barrier ready child pidfd network e p = (p', Some (Inr (Returned n))) \<Longrightarrow> n = - 1"
  unfolding abandon_start_def by (auto simp: act_bind_Inr)

definition opening_calls :: "int \<Rightarrow> int \<Rightarrow> kcall list" where
  "opening_calls child barrier =
     [Open (proc_file child ''uid_map'') (O_WRONLY OR O_CLOEXEC) 0, Open (proc_file child ''gid_map'') (O_WRONLY OR O_CLOEXEC) 0,
      Write (barrier + 1) ''1'']"

lemma reports_run_parent: "reports K child (opening_calls child barrier) (run_parent K E c uid gid cgroup paths barrier ready child pidfd)"
proof -
  have connect: "reaches [Open (proc_file child ''uid_map'') (O_WRONLY OR O_CLOEXEC) 0, Open (proc_file child ''gid_map'') (O_WRONLY OR O_CLOEXEC) 0]
      (connect_run K c child uid gid)"
    unfolding connect_run_def by (rule reaches_bind_left [OF reaches_id_maps]) (auto intro!: emits_intros)
  have byte: "reaches [Write (barrier + 1) ''1''] (write_byte K (barrier + 1))"
    unfolding write_byte_def by (rule reaches_bind_left [OF reaches_sys]) (auto intro!: emits_intros)
  have "reports K child [] (act_bind (discard K (Close (barrier + 1))) (\<lambda>_. attend K E c cgroup paths network child pidfd ready))" for network
    by (rule reports_skip [OF _ reports_attend]) (auto intro!: emits_intros)
  note second = reports_attempt [OF byte abandon_start_code this]
  have "reports K child (([Open (proc_file child ''uid_map'') (O_WRONLY OR O_CLOEXEC) 0, Open (proc_file child ''gid_map'') (O_WRONLY OR O_CLOEXEC) 0]) @
      [Write (barrier + 1) ''1''] @ []) (run_parent K E c uid gid cgroup paths barrier ready child pidfd)"
    unfolding run_parent_def by (rule reports_attempt [OF connect abandon_start_code second])
  then show ?thesis by (simp add: opening_calls_def)
qed

lemma reaches_set_up: "reaches [Setgroups] (set_up K E c)"
proof -
  have "reaches [Setgroups] (act_catch (call K Setgroups) (\<lambda>e. fail_with (run_error MC_EXIT_PERMISSION e ''run'' c t) e))" for t
    unfolding fail_with_def by (rule reaches_catch_fail [OF reaches_call])
  note clear = this
  have refused: "reaches [Setgroups] (fail_with err e)" for err e
    unfolding fail_with_def by (auto simp: reaches_def act_bind_Inr)
  have later: "extends (case mc_subid_range (k_getenv K) (re_subids E) of
      Inl err \<Rightarrow> fail_with err (saved_errno err)
    | Inr (uid, gid) \<Rightarrow> act_bind (create_cgroup E c) (\<lambda>cgroup. act_return (uid, gid, cgroup)))"
    unfolding fail_with_def by (auto intro!: emits_intros split: sum.split prod.split)
  have "reaches [Setgroups] (acquire K E c)"
    unfolding acquire_def
    by (rule reaches_bind_right [OF emits_sys], simp, rule reaches_if, rule refused, rule reaches_bind_left [OF clear])
      (auto intro!: emits_intros later)
  then show ?thesis
    unfolding set_up_def prepare_resources_def prepare_paths_def by (intro reaches_bind_left) (auto intro!: emits_intros split: prod.split)
qed

lemma abandon_clone_code: "abandon_clone K c cgroup paths barrier ready e p = (p', Some (Inr (Returned n))) \<Longrightarrow> n = - 1"
  unfolding abandon_clone_def by (auto simp: act_bind_Inr)

lemma attend_code:
  assumes "ends_by K 0" "k_rounds K > 0" "\<And>h. k_status K h = status"
    "attend K E c cgroup paths network child pidfd ready p = (p', Some (Inr (Returned n)))"
  shows "n = run_exit_code (Some status)"
proof -
  obtain rounds where rounds: "k_rounds K = Suc rounds" using assms(2) by (cases "k_rounds K") auto
  have found: "s = Some status" if "wait_container K E (Suc rounds) c cgroup child pidfd listener forwarding q = (q', Some (Inr s))"
    for s q q' listener forwarding
  proof (rule wait_container_step [where p = q and K = K and child = child and E = E and n = rounds and c = c and cgroup = cgroup and
        pidfd = pidfd and listener = listener and forwarding = forwarding])
    fix q1 h r
    assume "r = k_call K (ps_history q @ h) (Waitpid child True)"
    then have "r = Inr child" using assms(1) by (simp add: ends_by_def)
    moreover assume "wait_container K E (Suc rounds) c cgroup child pidfd listener forwarding q = (if r = Inr child
      then act_bind (fetch_status K) (\<lambda>status. act_return (Some status))
      else case r of
        Inl e \<Rightarrow> if e \<noteq> EINTR then act_bind (set_error (wait_error e c)) (\<lambda>_. act_return None)
          else act_bind (idle K E cgroup pidfd listener) (\<lambda>_. wait_container K E rounds c cgroup child pidfd listener forwarding)
      | Inr _ \<Rightarrow> act_bind (idle K E cgroup pidfd listener) (\<lambda>_. wait_container K E rounds c cgroup child pidfd listener forwarding)) q1"
    ultimately show "s = Some status" using that assms(3) by (simp add: act_bind_def fetch_status_def act_return_def)
  qed
  show ?thesis using assms(4) unfolding attend_def rounds by (auto simp: act_bind_Inr finish_run_def simp del: wait_container.simps dest!: found)
qed

lemma example_connects: "\<not> cfg_network_bridge c \<Longrightarrow> snd (connect_run (run_kernel code) c child uid gid p) = Some (Inr zero_network)"
proof -
  assume none: "\<not> cfg_network_bridge c"
  have "\<exists>q. write_text (run_kernel code) path s p = (q, Some (Inr ()))" if "s \<noteq> []" for path s p
    using that by (cases s) (simp_all add: write_text_def run_kernel_def act_bind_def sys_def call_def Let_def act_catch_def act_return_def numeral_eq_Suc)
  then have w: "\<exists>q. write_text (run_kernel code) path ''deny'' p = (q, Some (Inr ()))" "\<exists>q. write_text (run_kernel code) path (id_mapping u) p = (q, Some (Inr ()))"
    for path p u by (simp_all add: id_mapping_def snprintf_buf_def text_line_def)
  obtain q1 where q1: "write_text (run_kernel code) (proc_file child ''setgroups'') ''deny'' p = (q1, Some (Inr ()))" using w(1) by blast
  obtain q2 where q2: "write_text (run_kernel code) (proc_file child ''uid_map'') (id_mapping uid) q1 = (q2, Some (Inr ()))" using w(2) by blast
  obtain q3 where q3: "write_text (run_kernel code) (proc_file child ''gid_map'') (id_mapping gid) q2 = (q3, Some (Inr ()))" using w(2) by blast
  show ?thesis
    by (simp add: connect_run_def configure_id_maps_def tolerate_def act_all.simps act_bind_def act_catch_def act_return_def q1 q2 q3 none)
qed

lemma example_run_code:
  assumes "mc_container_run (run_kernel code) example_run_env c p = (p', Some (Inr (Returned n)))" "\<not> cfg_network_bridge c"
    and set_up: "case snd (set_up (run_kernel code) example_run_env c p) of Some (Inr _) \<Rightarrow> True | _ \<Rightarrow> False"
  shows "n = int code"
  using assms(1) unfolding mc_container_run_def
proof (cases rule: attempt_bind_cases)
  case (1 q e)
  then show ?thesis using set_up by simp
next
  case (2 q x)
  obtain uid gid cgroup paths barrier ready where x: "x = (uid, gid, cgroup, paths, barrier, ready)" by (cases x)
  have "clone_run (run_kernel code) example_run_env c uid gid cgroup paths barrier ready q = (p', Some (Inr (Returned n)))"
    using 2(2) x by simp
  then obtain q2 pidfd where "run_parent (run_kernel code) example_run_env c uid gid cgroup paths barrier ready 77 pidfd q2 =
      (p', Some (Inr (Returned n)))"
    by (rule clone_run_parent) (simp add: run_kernel_def)
  then show ?thesis unfolding run_parent_def
  proof (cases rule: attempt_bind_cases)
    case (1 q3 e)
    then show ?thesis using example_connects [OF assms(2), of code 77 uid gid q2] by simp
  next
    case (2 q3 network)
    have "act_bind (attempt (write_byte (run_kernel code) (barrier + 1))) (\<lambda>r. case r of
          Inl saved \<Rightarrow> abandon_start (run_kernel code) c cgroup paths barrier ready 77 pidfd network saved
        | Inr _ \<Rightarrow> act_bind (discard (run_kernel code) (Close (barrier + 1)))
            (\<lambda>_. attend (run_kernel code) example_run_env c cgroup paths network 77 pidfd ready)) q3 = (p', Some (Inr (Returned n)))"
      using 2(2) by simp
    then show ?thesis
    proof (cases rule: attempt_bind_cases)
      case (1 q4 e)
      then show ?thesis by (simp add: write_byte_def act_bind_def sys_def Let_def act_return_def run_kernel_def)
    next
      case (2 q4 u)
      then obtain q5 where "attend (run_kernel code) example_run_env c cgroup paths network 77 pidfd ready q5 = (p', Some (Inr (Returned n)))"
        by (auto simp: act_bind_Inr)
      from attend_code [OF example_prompt(2) _ _ this, of "WIFEXITED code"] show ?thesis by (simp add: run_kernel_def run_exit_code_def)
    qed
  qed
qed

lemma run_reported:
  assumes "mc_container_run K E c p = (p', Some (Inr (Returned n)))" "n \<noteq> - 1"
  shows "\<exists>q uid gid cgroup paths barrier ready child setting before after.
    set_up K E c p = (q, Some (Inr (uid, gid, cgroup, paths, barrier, ready))) \<and>
    ps_history q = ps_history p @ setting \<and> Setgroups \<in> set (successes setting) \<and>
    ps_history p' = ps_history q @ (Clone3 (clone_flags cgroup) (clone_cgroup cgroup), Inr child) # before @ (Waitpid child True, Inr child) # after \<and>
    subseq (opening_calls child barrier) (successes before) \<and>
    n = run_exit_code (Some (k_status K (ps_history q @ (Clone3 (clone_flags cgroup) (clone_cgroup cgroup), Inr child) # before @
                                         [(Waitpid child True, Inr child)])))"
  using assms(1) unfolding mc_container_run_def
proof (cases rule: attempt_bind_cases)
  case (1 q e)
  then show ?thesis using assms(2) by (simp add: act_return_def)
next
  case (2 q x)
  obtain uid gid cgroup paths barrier ready where x: "x = (uid, gid, cgroup, paths, barrier, ready)" by (cases x)
  have "clone_run K E c uid gid cgroup paths barrier ready q = (p', Some (Inr (Returned n)))" using 2(2) x by simp
  then obtain r q2 h where r: "ps_history q2 = ps_history q @ (Clone3 (clone_flags cgroup) (clone_cgroup cgroup), r) # h"
    "(case r of Inl saved \<Rightarrow> abandon_clone K c cgroup paths barrier ready saved
      | Inr child \<Rightarrow> run_parent K E c uid gid cgroup paths barrier ready child
          (re_pidfd E (ps_history q @ [(Clone3 (clone_flags cgroup) (clone_cgroup cgroup), r)]))) q2 = (p', Some (Inr (Returned n)))"
    by (rule clone_run_parent)
  obtain child where child: "r = Inr child" using r(2) assms(2) abandon_clone_code by (cases r) auto
  then obtain status where status: "reaped K child (opening_calls child barrier) (ps_history q2) (ps_history p') status" "n = run_exit_code (Some status)"
    using r(2) reports_run_parent assms(2) unfolding reports_def by fastforce
  then obtain new rest where new: "ps_history p' = ps_history q2 @ new @ (Waitpid child True, Inr child) # rest"
      "subseq (opening_calls child barrier) (successes new)" "status = k_status K (ps_history q2 @ new @ [(Waitpid child True, Inr child)])"
    unfolding reaped_def by blast
  obtain setting where setting: "ps_history q = ps_history p @ setting" "subseq [Setgroups] (successes setting)"
    by (rule reachesD [OF reaches_set_up 2(1)])
  have "subseq (opening_calls child barrier) (successes (h @ new))" using new(2) by (simp add: list_emb_append2)
  moreover have "Setgroups \<in> set (successes setting)" using setting(2) by (simp add: subseq_singleton_left)
  ultimately show ?thesis
    using 2(1) setting(1) new(1,3) status(2) r(1) child unfolding x
    by (intro exI [of _ q] exI [of _ uid] exI [of _ gid] exI [of _ cgroup] exI [of _ paths] exI [of _ barrier] exI [of _ ready] exI [of _ child]
        exI [of _ setting] exI [of _ "h @ new"] exI [of _ rest]) simp
qed

section \<open>Properties\<close>



text \<open>
  C15: a run without network returns to its caller, whatever fails on the way: if the kernel keeps moving, the
  process ends within the rounds the model allows, replacing a file ends and no request of a client
  crashes the shim, then \<open>mc_container_run\<close> returns a result.
\<close>

theorem run_terminates:
  assumes "prompt K" "ends_by K m" "m < k_rounds K" "well_behaved E c" "\<not> cfg_network_bridge c"
    "\<And>h flags d. k_call K h (Clone3 flags d) \<noteq> Inr 0"
  shows "\<exists>p' n. mc_container_run K E c p = (p', Some (Inr (Returned n)))"
  using assms by (rule run_settles)

theorem run_terminates_witness:
  "\<exists>p' n. mc_container_run (run_kernel 3) example_run_env example_run_config example_process = (p', Some (Inr (Returned n)))"
  by (rule run_terminates [OF example_prompt(1) example_prompt(2) _ example_well_behaved])
    (simp_all add: run_kernel_def example_run_config_def zero_config_def)

text \<open>
  C4: when \<open>mc_container_run\<close> returns a result other than \<open>-1\<close>, the supplementary groups were dropped before
  the new process was created, both identity maps were opened for writing and the barrier byte was written
  afterwards in this order, and the result is the exit code of the status that the kernel reported for
  exactly this process.
\<close>

theorem run_result:
  assumes "mc_container_run K E c p = (p', Some (Inr (Returned n)))" "n \<noteq> - 1"
  shows "\<exists>q uid gid cgroup paths barrier ready child setting before after.
    set_up K E c p = (q, Some (Inr (uid, gid, cgroup, paths, barrier, ready))) \<and>
    ps_history q = ps_history p @ setting \<and> Setgroups \<in> set (successes setting) \<and>
    ps_history p' = ps_history q @ (Clone3 (clone_flags cgroup) (clone_cgroup cgroup), Inr child) # before @ (Waitpid child True, Inr child) # after \<and>
    subseq (opening_calls child barrier) (successes before) \<and>
    n = run_exit_code (Some (k_status K (ps_history q @ (Clone3 (clone_flags cgroup) (clone_cgroup cgroup), Inr child) # before @
                                         [(Waitpid child True, Inr child)])))"
  using assms by (rule run_reported)

theorem run_result_witness:
  "\<exists>p' before after child. mc_container_run (run_kernel 3) example_run_env example_run_config example_process = (p', Some (Inr (Returned 3))) \<and>
     ps_history p' = before @ (Waitpid child True, Inr child) # after"
proof -
  obtain p' where run: "mc_container_run (run_kernel 3) example_run_env example_run_config example_process = (p', Some (Inr (Returned 3)))"
    using example_run_settles [OF example_unconnected] example_run_code [OF _ example_unconnected example_set_up] by fastforce
  from run_result [OF run] show ?thesis using run by (metis append.assoc append_Cons neg_equal_zero numeral_neq_neg_one one_neq_neg_one)
qed

end
