(* ===== verification/MC_State.thy ===== *)
theory MC_State
  imports MC_Run
begin

text \<open>
  The state document across components. \<open>write_state\<close> of \<open>src/linux/container.c\<close> prints it field by field; the
  readers in \<open>src/state/store.c\<close> parse it with json-c, and \<open>src/linux/stats.c\<close> searches its text. The text of a
  JSON tree is defined for the trees that occur (objects, integers and strings without escapes), and what
  is relied on of json-c is that it reads this text. The results: every field of the document has the
  type its readers expect, and what a run has recorded is what the readers find.
\<close>

section \<open>The text of a tree\<close>

fun comma_separated :: "string list \<Rightarrow> string" where
  "comma_separated [] = []"
| "comma_separated [s] = s"
| "comma_separated (s # ss) = s @ '','' @ comma_separated ss"

fun json_text :: "json \<Rightarrow> string" where
  "json_text (JInt n) = show_int n"
| "json_text (JString s) = quoted s"
| "json_text (JObject kvs) = ''{'' @ comma_separated (map (\<lambda>kv. json_key (fst kv) @ json_text (snd kv)) kvs) @ ''}''"
| "json_text _ = ''null''"

definition plain_text :: "string \<Rightarrow> bool" where
  "plain_text s \<longleftrightarrow> list_all (\<lambda>c. 32 \<le> (of_char c :: nat) \<and> (of_char c :: nat) < 127 \<and> c \<noteq> CHR 0x22 \<and> c \<noteq> CHR 0x5C) s"

fun plain_json :: "json \<Rightarrow> bool" where
  "plain_json (JInt n) \<longleftrightarrow> True"
| "plain_json (JString s) \<longleftrightarrow> plain_text s"
| "plain_json (JObject kvs) \<longleftrightarrow> kvs \<noteq> [] \<and> list_all (plain_text \<circ> fst) kvs \<and> list_all (plain_json \<circ> snd) kvs"
| "plain_json _ \<longleftrightarrow> False"

text \<open>A file that holds the text of a tree is read as that tree.\<close>

definition reads_json :: "jsonc \<Rightarrow> bool" where
  "reads_json J \<longleftrightarrow>
     (\<forall>kvs. json_wf (JObject kvs) \<and> json_depth (JObject kvs) < 32 \<and> plain_json (JObject kvs) \<longrightarrow>
        jc_parse J (json_text (JObject kvs) @ [CHR 0x0A]) = JObject kvs)"

section \<open>A reader of this text\<close>

fun read_value :: "nat \<Rightarrow> string \<Rightarrow> (json \<times> string) option"
  and read_members :: "nat \<Rightarrow> string \<Rightarrow> ((string \<times> json) list \<times> string) option" where
  "read_value 0 s = None"
| "read_value (Suc n) s =
     (case s of
        [] \<Rightarrow> None
      | c # cs \<Rightarrow>
          if c = CHR 0x22 then Some (JString (takeWhile (\<lambda>c. c \<noteq> CHR 0x22) cs), drop 1 (dropWhile (\<lambda>c. c \<noteq> CHR 0x22) cs))
          else if c = CHR ''{'' then (case read_members n cs of None \<Rightarrow> None | Some (kvs, r) \<Rightarrow> Some (JObject kvs, r))
          else if c = CHR ''-'' then Some (JInt (- int (digits_val (takeWhile isdigit cs))), dropWhile isdigit cs)
          else Some (JInt (int (digits_val (takeWhile isdigit s))), dropWhile isdigit s))"
| "read_members 0 s = None"
| "read_members (Suc n) s =
     (case read_value n (drop 2 (dropWhile (\<lambda>c. c \<noteq> CHR 0x22) (drop 1 s))) of
        None \<Rightarrow> None
      | Some (v, []) \<Rightarrow> None
      | Some (v, c # r) \<Rightarrow>
          let kv = (takeWhile (\<lambda>c. c \<noteq> CHR 0x22) (drop 1 s), v) in
          if c = CHR '','' then (case read_members n r of None \<Rightarrow> None | Some (kvs, r') \<Rightarrow> Some (kv # kvs, r'))
          else Some ([kv], r))"

lemma plain_text_quote: "plain_text s \<Longrightarrow> CHR 0x22 \<notin> set s"
  by (auto simp: plain_text_def list_all_iff)

lemma read_quoted:
  "plain_text s \<Longrightarrow> takeWhile (\<lambda>c. c \<noteq> CHR 0x22) (s @ CHR 0x22 # r) = s"
  "plain_text s \<Longrightarrow> dropWhile (\<lambda>c. c \<noteq> CHR 0x22) (s @ CHR 0x22 # r) = CHR 0x22 # r"
  by (induction s) (auto simp: plain_text_def)

lemma show_int_start:
  obtains "n \<ge> 0" "show_int n = show_nat (nat n)" | "n < 0" "show_int n = CHR ''-'' # show_nat (nat (- n))"
  by (cases "n < 0") (auto simp: show_int_def)

lemma read_integer:
  assumes "nondigit_start r"
  shows "read_value (Suc n) (show_int i @ r) = Some (JInt i, r)"
proof (cases i rule: show_int_start)
  case 1
  obtain c cs where c: "show_nat (nat i) = c # cs" "isdigit c" by (rule show_nat_Cons)
  have "c \<noteq> CHR 0x22" "c \<noteq> CHR ''{''" "c \<noteq> CHR ''-''" using c(2) by (auto simp: isdigit_def)
  moreover have "takeWhile isdigit (c # cs @ r) = c # cs" "dropWhile isdigit (c # cs @ r) = r" "digits_val (c # cs) = nat i"
    using takeWhile_show_nat [OF assms, of "nat i"] digits_val_show_nat [of "nat i"] c(1) by simp_all
  ultimately show ?thesis using 1 c(1) by simp
next
  case 2
  then show ?thesis using takeWhile_show_nat [OF assms] digits_val_show_nat by simp
qed

lemma comma_separated_Cons: "ss \<noteq> [] \<Longrightarrow> comma_separated (s # ss) = s @ '','' @ comma_separated ss"
  by (cases ss) auto

lemma json_text_nonempty: "plain_json j \<Longrightarrow> length (json_text j) > 0"
  by (cases j) (auto simp: quoted_def show_int_def)

lemma read_members_text:
  assumes "\<And>kv n r. kv \<in> set kvs \<Longrightarrow> nondigit_start r \<Longrightarrow> length (json_text (snd kv)) \<le> n \<Longrightarrow>
      read_value n (json_text (snd kv) @ r) = Some (snd kv, r)"
    and "kvs \<noteq> []" "list_all (plain_text \<circ> fst) kvs"
    and "length (comma_separated (map (\<lambda>kv. json_key (fst kv) @ json_text (snd kv)) kvs)) \<le> n"
  shows "read_members n (comma_separated (map (\<lambda>kv. json_key (fst kv) @ json_text (snd kv)) kvs) @ CHR ''}'' # r) = Some (kvs, r)"
  using assms
proof (induction kvs arbitrary: n)
  case (Cons kv kvs)
  let ?members = "\<lambda>kvs. comma_separated (map (\<lambda>kv. json_key (fst kv) @ json_text (snd kv)) kvs)"
  have plain: "plain_text (fst kv)" using Cons.prems(3) by simp
  note reads = Cons.prems(1) [of kv, OF list.set_intros(1)]
  note split = read_quoted [OF plain]
  show ?case
  proof (cases "kvs = []")
    case True
    then obtain m where "n = Suc m" "length (json_text (snd kv)) \<le> m" using Cons.prems(4) by (cases n) (auto simp: json_key_def)
    with reads [of "CHR ''}'' # r" m] True split show ?thesis by (simp add: json_key_def nondigit_start_def isdigit_def)
  next
    case False
    then have all: "?members (kv # kvs) = json_key (fst kv) @ json_text (snd kv) @ '','' @ ?members kvs" by (simp add: comma_separated_Cons)
    then obtain m where m: "n = Suc m" "length (json_text (snd kv)) \<le> m" "length (?members kvs) \<le> m"
      using Cons.prems(4) by (cases n) (auto simp: json_key_def)
    have "read_members m (?members kvs @ CHR ''}'' # r) = Some (kvs, r)"
      using Cons.IH [OF Cons.prems(1) False _ m(3)] Cons.prems(3) by simp
    with reads [of "CHR '','' # ?members kvs @ CHR ''}'' # r" m] m(1,2) split show ?thesis
      unfolding all by (simp add: json_key_def nondigit_start_def isdigit_def)
  qed
qed simp

lemma read_value_text:
  assumes "plain_json j" "nondigit_start r" "length (json_text j) \<le> n"
  shows "read_value n (json_text j @ r) = Some (j, r)"
  using assms
proof (induction j arbitrary: n r)
  case (JInt i)
  then obtain m where "n = Suc m" using json_text_nonempty [of "JInt i"] by (cases n) auto
  then show ?case using read_integer [OF JInt.prems(2)] by simp
next
  case (JString s)
  then obtain m where "n = Suc m" using json_text_nonempty [of "JString s"] by (cases n) auto
  then show ?case using JString.prems(1) read_quoted [of s r] by (simp add: quoted_def)
next
  case (JObject kvs)
  obtain m where m: "n = Suc m" using JObject.prems json_text_nonempty [of "JObject kvs"] by (cases n) auto
  have "read_value k (json_text (snd kv) @ t) = Some (snd kv, t)"
    if "kv \<in> set kvs" "nondigit_start t" "length (json_text (snd kv)) \<le> k" for kv k t
    using JObject.IH [OF that(1) _ _ that(2,3)] JObject.prems(1) that(1) by (auto simp: list_all_iff snds.intros)
  from read_members_text [of kvs, OF this] show ?case using JObject.prems m by simp
qed simp_all

lemma json_read_back: "plain_json j \<Longrightarrow> read_value (length (json_text j @ [CHR 0x0A])) (json_text j @ [CHR 0x0A]) = Some (j, [CHR 0x0A])"
  by (rule read_value_text) (simp_all add: nondigit_start_def isdigit_def)

text \<open>The text of the plain trees is an encoding that this reader decodes.\<close>

interpretation json_texts: codec "\<lambda>j. json_text j @ [CHR 0x0A]" "\<lambda>s. map_option fst (read_value (length s) s)" plain_json
  by unfold_locales (simp only: json_read_back option.map fst_conv)

text \<open>The reader, guarded so that it yields well-formed trees, as an instance of the library.\<close>

definition text_jsonc :: jsonc where
  "text_jsonc = jsonc_ref\<lparr>jc_parse := \<lambda>s.
     if s \<noteq> [] \<and> hd s = CHR ''{''
     then (case read_value (length s) s of
             Some (j, r) \<Rightarrow> if r = [CHR 0x0A] \<and> json_wf j \<and> json_depth j < 32 then j else JNull
           | None \<Rightarrow> JNull)
     else jc_parse jsonc_ref s\<rparr>"

lemma text_jsonc_ok: "jsonc_ok text_jsonc"
proof -
  have other: "jc_parse text_jsonc (replicate k CHR ''1'') = jc_parse jsonc_ref (replicate k CHR ''1'')" for k
    by (cases k) (simp_all add: text_jsonc_def)
  have "jc_parse text_jsonc (jc_print jsonc_ref j) = jc_parse jsonc_ref (jc_print jsonc_ref j)"
    "jc_parse text_jsonc (jc_print_plain jsonc_ref j) = jc_parse jsonc_ref (jc_print_plain jsonc_ref j)" for j
    using other [of "to_nat j"] by (simp_all add: jsonc_ref_def)
  moreover have "json_wf (jc_parse text_jsonc s) \<and> json_depth (jc_parse text_jsonc s) < 32" for s
    using jsonc_ok_parsed [OF jsonc_ref_ok, of s] by (auto simp: text_jsonc_def split: option.split)
  ultimately show ?thesis
    using jsonc_ref_ok unfolding jsonc_ok_def by (auto simp: text_jsonc_def)
qed

lemma text_jsonc_reads: "reads_json text_jsonc"
  unfolding reads_json_def
proof (intro allI impI, elim conjE)
  fix kvs assume *: "json_wf (JObject kvs)" "json_depth (JObject kvs) < 32" "plain_json (JObject kvs)"
  have "hd (json_text (JObject kvs) @ [CHR 0x0A]) = CHR ''{''" by simp
  with json_read_back [OF *(3)] *(1,2) show "jc_parse text_jsonc (json_text (JObject kvs) @ [CHR 0x0A]) = JObject kvs"
    by (simp add: text_jsonc_def)
qed

section \<open>The state document as a tree\<close>

definition state_tree :: "mc_run_config \<Rightarrow> mc_cgroup \<Rightarrow> namespace_identity \<Rightarrow> mc_network \<Rightarrow> state_facts \<Rightarrow> (string \<times> json) list" where
  "state_tree c cgroup ns network f =
     [(''schema_version'', JInt 1), (''id'', JString (printf_string (cfg_id c))), (''status'', JString (sf_status f)),
      (''shim_pid'', JInt (sf_shim_pid f)), (''shim_start_time'', JInt (uint (sf_shim_start f))), (''init_pid'', JInt (sf_init_pid f)),
      (''exit_code'', JInt (sf_exit_code f)), (''init_start_time'', JInt (uint (sf_init_start f))),
      (''resources'', JObject
        [(''memory_max'', JInt (uint (cfg_memory_max c))), (''swap_max'', JInt (uint (cfg_swap_max c))),
         (''cpu_quota'', JInt (uint (cfg_cpu_quota c))), (''cpu_period'', JInt 100000), (''pids_max'', JInt (uint (cfg_pids_max c)))]),
      (''namespaces'', JObject
        [(''user'', JInt (uint (ni_user ns))), (''pid'', JInt (uint (ni_pid ns))), (''mount'', JInt (uint (ni_mount ns))),
         (''uts'', JInt (uint (ni_uts ns))), (''ipc'', JInt (uint (ni_ipc ns))), (''network'', JInt (uint (ni_network ns))),
         (''cgroup'', JInt (uint (ni_cgroup ns)))]),
      (''updated_at_unix_ns'', JInt (uint (sf_updated f))), (''build_version'', JString (sf_version f)),
      (''git_commit'', JString (sf_commit f)), (''network_mode'', JString (if cfg_network_bridge c then ''bridge'' else ''none'')),
      (''ipv4_host'', JInt (uint (cfg_ipv4_host c))), (''host_interface'', JString (nw_host_interface network)),
      (''cgroup_path'', JString (cgr_payload cgroup))]"

lemma show_int_uint: "show_int (uint w) = show_nat (unat w)"
  by (simp add: show_int_def)

lemma show_int_literal: "show_int 1 = ''1''" "show_int 100000 = ''100000''"
  by code_simp+

lemma state_document_text: "state_document c cgroup ns network f = json_text (JObject (state_tree c cgroup ns network f)) @ [CHR 0x0A]"
  by (simp add: state_document_def state_tree_def json_number_def json_string_def show_u64_def show_int_uint show_int_literal)

text \<open>What may be recorded: texts without escapes, numbers in the ranges of their C types.\<close>

definition recordable :: "mc_run_config \<Rightarrow> mc_cgroup \<Rightarrow> mc_network \<Rightarrow> state_facts \<Rightarrow> bool" where
  "recordable c cgroup network f \<longleftrightarrow>
     plain_text (printf_string (cfg_id c)) \<and> plain_text (sf_status f) \<and> plain_text (sf_version f) \<and> plain_text (sf_commit f) \<and>
     plain_text (nw_host_interface network) \<and> plain_text (cgr_payload cgroup) \<and>
     (\<forall>n \<in> {sf_shim_pid f, sf_init_pid f, sf_exit_code f}. - (2 ^ 31) \<le> n \<and> n < 2 ^ 31)"

lemma uint_low: "- (2 ^ 63) \<le> uint w"
  by (rule order_trans [OF _ uint_ge_0]) simp

lemma state_tree_wf:
  assumes "recordable c cgroup network f"
  shows "json_wf (JObject (state_tree c cgroup ns network f))" "json_depth (JObject (state_tree c cgroup ns network f)) < 32"
    "plain_json (JObject (state_tree c cgroup ns network f))"
proof -
  have u: "uint w < 2 ^ 64" for w :: u64 using uint_lt2p [of w] by simp
  have v: "uint w < 2 ^ 64" for w :: u32 using uint_lt2p [of w] by simp
  show "json_wf (JObject (state_tree c cgroup ns network f))"
    using assms u v unfolding recordable_def by (simp add: state_tree_def uint_low [simplified])
  show "json_depth (JObject (state_tree c cgroup ns network f)) < 32" by (simp add: state_tree_def)
  show "plain_json (JObject (state_tree c cgroup ns network f))"
    using assms by (simp add: state_tree_def recordable_def) (simp add: plain_text_def)
qed

lemma state_document_parsed:
  assumes "reads_json J" "recordable c cgroup network f"
  shows "jc_parse J (state_document c cgroup ns network f) = JObject (state_tree c cgroup ns network f)"
  using assms state_tree_wf [OF assms(2)] unfolding reads_json_def state_document_text by blast

section \<open>Searching the text\<close>

text \<open>A search for the marker passes over everything before the member it names.\<close>

lemma strstr_unquoted:
  assumes "CHR 0x22 \<notin> set s"
  shows "strstr (s @ r) cgroup_marker = strstr r cgroup_marker"
  using assms by (induction s) (auto simp: cgroup_marker_def)

lemma strstr_member:
  assumes "CHR 0x22 \<notin> set s" "CHR 0x22 \<notin> set v" "s \<noteq> ''cgroup_path''"
  shows "strstr (json_key s @ v @ r) cgroup_marker = strstr r cgroup_marker"
proof -
  have "\<not> prefix cgroup_marker (CHR 0x22 # s @ CHR 0x22 # t)" for t
  proof
    assume "prefix cgroup_marker (CHR 0x22 # s @ CHR 0x22 # t)"
    then have "prefix (''cgroup_path'' @ [CHR 0x22]) (s @ CHR 0x22 # t)" by (auto simp: cgroup_marker_def prefix_def)
    then obtain u where u: "''cgroup_path'' @ CHR 0x22 # u = s @ CHR 0x22 # t" by (auto simp: prefix_def)
    have "takeWhile (\<lambda>c. c \<noteq> CHR 0x22) (''cgroup_path'' @ CHR 0x22 # u) = ''cgroup_path''" by simp
    moreover have "takeWhile (\<lambda>c. c \<noteq> CHR 0x22) (s @ CHR 0x22 # t) = s" using assms(1) by (induction s) auto
    ultimately show False using u assms(3) by argo
  qed
  then have "strstr (CHR 0x22 # s @ CHR 0x22 # CHR '':'' # v @ r) cgroup_marker = strstr (s @ CHR 0x22 # CHR '':'' # v @ r) cgroup_marker" by simp
  also have "\<dots> = strstr (CHR 0x22 # CHR '':'' # v @ r) cgroup_marker" by (rule strstr_unquoted [OF assms(1)])
  also have "\<dots> = strstr (v @ r) cgroup_marker" by (simp add: cgroup_marker_def)
  also have "\<dots> = strstr r cgroup_marker" by (rule strstr_unquoted [OF assms(2)])
  finally show ?thesis by (simp add: json_key_def)
qed

lemma strstr_key:
  assumes "CHR 0x22 \<notin> set s" "s \<noteq> ''cgroup_path''" "c \<noteq> CHR 0x22"
  shows "strstr (json_key s @ c # r) cgroup_marker = strstr r cgroup_marker"
  using strstr_member [OF assms(1) _ assms(2), of "[c]" r] assms(3) by simp

lemma strstr_text:
  assumes "CHR 0x22 \<notin> set s" "CHR 0x22 \<notin> set v" "s \<noteq> ''cgroup_path''"
  shows "strstr (json_key s @ quoted v @ CHR '','' # r) cgroup_marker = strstr r cgroup_marker"
proof -
  have "\<not> prefix cgroup_marker (quoted v @ CHR '','' # r)"
  proof
    assume "prefix cgroup_marker (quoted v @ CHR '','' # r)"
    then obtain u where u: "''cgroup_path'' @ CHR 0x22 # CHR '':'' # u = v @ CHR 0x22 # CHR '','' # r"
      by (auto simp: cgroup_marker_def prefix_def quoted_def)
    have "dropWhile (\<lambda>c. c \<noteq> CHR 0x22) (''cgroup_path'' @ CHR 0x22 # CHR '':'' # u) = CHR 0x22 # CHR '':'' # u" by simp
    moreover have "dropWhile (\<lambda>c. c \<noteq> CHR 0x22) (v @ CHR 0x22 # CHR '','' # r) = CHR 0x22 # CHR '','' # r" using assms(2) by (induction v) auto
    ultimately have "CHR 0x22 # CHR '':'' # u = CHR 0x22 # CHR '','' # r" unfolding u by argo
    then show False by simp
  qed
  then have "strstr (quoted v @ CHR '','' # r) cgroup_marker = strstr (v @ CHR 0x22 # CHR '','' # r) cgroup_marker" by (simp add: quoted_def)
  also have "\<dots> = strstr (CHR 0x22 # CHR '','' # r) cgroup_marker" by (rule strstr_unquoted [OF assms(2)])
  also have "\<dots> = strstr r cgroup_marker" by (simp add: cgroup_marker_def)
  finally show ?thesis using strstr_member [OF assms(1) _ assms(3), of "[]" "quoted v @ CHR '','' # r"] by simp
qed

lemma strstr_character: "c \<noteq> CHR 0x22 \<Longrightarrow> strstr (c # r) cgroup_marker = strstr r cgroup_marker"
  by (simp add: cgroup_marker_def)

lemma number_quote: "CHR 0x22 \<notin> set (show_nat n)" "CHR 0x22 \<notin> set (show_int i)" "CHR 0x22 \<notin> set (show_u64 w)"
proof -
  show "CHR 0x22 \<notin> set (show_nat n)" for n using show_nat_digits [of "CHR 0x22" n] by (auto simp: isdigit_def)
  then show "CHR 0x22 \<notin> set (show_int i)" "CHR 0x22 \<notin> set (show_u64 w)" by (simp_all add: show_int_def show_u64_def)
qed

lemma state_document_cgroup:
  assumes "recordable c cgroup network f"
  shows "strstr (state_document c cgroup ns network f) cgroup_marker = Some (json_key ''cgroup_path'' @ quoted (cgr_payload cgroup) @ [CHR ''}'', CHR 0x0A])"
proof -
  have clean: "CHR 0x22 \<notin> set (printf_string (cfg_id c))" "CHR 0x22 \<notin> set (sf_status f)" "CHR 0x22 \<notin> set (sf_version f)"
      "CHR 0x22 \<notin> set (sf_commit f)" "CHR 0x22 \<notin> set (nw_host_interface network)"
    using assms plain_text_quote unfolding recordable_def by blast+
  have last: "strstr (json_key ''cgroup_path'' @ quoted v @ r) cgroup_marker = Some (json_key ''cgroup_path'' @ quoted v @ r)" for v r
    by (simp add: json_key_def quoted_def cgroup_marker_def)
  show ?thesis
    unfolding state_document_def json_number_def json_string_def
    by (simp add: strstr_member strstr_key strstr_text strstr_character number_quote clean last del: strstr.simps)
qed

lemma comma_separated_set: "set (comma_separated ss) \<subseteq> insert CHR '','' (\<Union> (set ` set ss))"
  by (induction ss rule: comma_separated.induct) auto

lemma plain_text_zero: "plain_text s \<Longrightarrow> CHR 0x00 \<notin> set s"
  by (induction s) (auto simp: plain_text_def)

lemma json_text_zero: "plain_json j \<Longrightarrow> CHR 0x00 \<notin> set (json_text j)"
proof (induction j)
  case (JInt i)
  have "CHR 0x00 \<notin> set (show_nat n)" for n using show_nat_digits [of "CHR 0x00" n] by (auto simp: isdigit_def)
  then show ?case by (simp add: show_int_def)
next
  case (JString s)
  then show ?case using plain_text_zero [of s] by (simp add: quoted_def)
next
  case (JObject kvs)
  have "CHR 0x00 \<notin> set (json_key (fst kv) @ json_text (snd kv))" if "kv \<in> set kvs" for kv
  proof -
    have plain: "plain_text (fst kv)" "plain_json (snd kv)" using JObject.prems that by (simp_all add: list_all_iff)
    have "CHR 0x00 \<notin> set (json_text (snd kv))" by (rule JObject.IH [OF that _ plain(2)]) (cases kv, simp add: snds.intros)
    moreover have "CHR 0x00 \<notin> set (fst kv)" by (rule plain_text_zero [OF plain(1)])
    ultimately show ?thesis by (simp add: json_key_def)
  qed
  then have "CHR 0x00 \<notin> insert CHR '','' (\<Union> (set ` set (map (\<lambda>kv. json_key (fst kv) @ json_text (snd kv)) kvs)))" by simp
  then have "CHR 0x00 \<notin> set (comma_separated (map (\<lambda>kv. json_key (fst kv) @ json_text (snd kv)) kvs))"
    using comma_separated_set by (rule contra_subsetD [rotated])
  then show ?case by simp
qed simp_all

lemma state_document_zero: "recordable c cgroup network f \<Longrightarrow> CHR 0x00 \<notin> set (state_document c cgroup ns network f)"
  using json_text_zero [OF state_tree_wf(3), of c cgroup network f ns] unfolding state_document_text by (simp del: json_text.simps)

section \<open>Readers\<close>

lemma to_pid_small: "- (2 ^ 31) \<le> n \<Longrightarrow> n < 2 ^ 31 \<Longrightarrow> to_pid n = n"
  unfolding to_pid_def by (simp add: sint_sbintrunc' signed_take_bit_int_eq_self)

lemma runtime_reads_state:
  assumes J: "jsonc_ok J" "reads_json J" and ok: "recordable c cgroup network f" "sf_status f = ''running''" "length (cgr_payload cgroup) < PATH_MAX"
    and R: "mc_state_resolve J R (Some reference) = Inr cid" "make_path (rg_dir R) (Some cid) ''state.json'' = Some path"
      "disk_read (rg_disk R) path = Some (state_document c cgroup ns network f)"
    and current: "identity_current (lf_proc L) (sf_init_pid f) (sf_init_start f)"
  shows "mc_state_runtime J L R reference = Inr (cid, sf_init_pid f, sf_init_start f, cgr_payload cgroup)"
proof -
  have root: "file_json J R path = JObject (state_tree c cgroup ns network f)"
    using R(3) state_document_parsed [OF J(2) ok(1)] by (simp add: file_json_def)
  have fields: "map_of (state_tree c cgroup ns network f) ''status'' = Some (JString ''running'')"
    "map_of (state_tree c cgroup ns network f) ''init_pid'' = Some (JInt (sf_init_pid f))"
    "map_of (state_tree c cgroup ns network f) ''init_start_time'' = Some (JInt (uint (sf_init_start f)))"
    "map_of (state_tree c cgroup ns network f) ''cgroup_path'' = Some (JString (cgr_payload cgroup))"
    using ok(2) by (simp_all add: state_tree_def)
  have pid: "- (2 ^ 31) \<le> sf_init_pid f" "sf_init_pid f < 2 ^ 31" using ok(1) by (simp_all add: recordable_def)
  then have "jc_int64 J (JInt (sf_init_pid f)) = sf_init_pid f" using J(1) by (intro jsonc_ok_int64) simp_all
  moreover have "jc_uint64 J (JInt (uint (sf_init_start f))) = sf_init_start f"
    using jsonc_ok_uint64 [OF J(1), of "uint (sf_init_start f)"] uint_lt2p [of "sf_init_start f"] by simp
  ultimately show ?thesis
    using R(1,2) current ok(3) to_pid_small [OF pid] J(1)
    by (simp add: mc_state_runtime_def root state_status_def json_object_get_def fields Let_def snprintf_buf_def)
qed

lemma stats_reads_state:
  assumes ok: "recordable c cgroup network f" "cgr_payload cgroup \<noteq> []" "length (state_document c cgroup ns network f) < 2048"
    and path: "length (mc_state_dir (se_getenv S) @ ''/containers/'' @ cid @ ''/state.json'') < PATH_MAX"
      "se_read S 0 (mc_state_dir (se_getenv S) @ ''/containers/'' @ cid @ ''/state.json'') = Contents (state_document c cgroup ns network f)"
  shows "state_cgroup S cid = Inr (cgr_payload cgroup)"
proof -
  have "takeWhile (\<lambda>c. c \<noteq> CHR 0x00) (state_document c cgroup ns network f) = state_document c cgroup ns network f"
    using state_document_zero [OF ok(1)] by (simp add: takeWhile_eq_all_conv) blast
  then have "read_at S 0 (mc_state_dir (se_getenv S) @ ''/containers/'' @ cid @ ''/state.json'') 4096 = Inr (state_document c cgroup ns network f)"
    using path ok(3) by (simp add: read_at_def read_text_def)
  moreover have "drop (length cgroup_marker) (json_key ''cgroup_path'' @ quoted v @ r) = v @ CHR 0x22 # r" for v r
    by (simp add: json_key_def quoted_def cgroup_marker_def)
  moreover have "plain_text (cgr_payload cgroup)" using ok(1) by (simp add: recordable_def)
  moreover have "length (cgr_payload cgroup) < PATH_MAX"
    using ok(3) by (simp add: state_document_def json_string_def quoted_def)
  ultimately show ?thesis
    using ok(2) read_quoted(1) [of "cgr_payload cgroup"] unfolding state_cgroup_def state_document_cgroup [OF ok(1)]
    by (simp add: state_document_cgroup [OF ok(1)] Let_def strchr_eq)
qed

lemma write_state_recorded:
  assumes "write_state K E paths c cgroup ns network status init_pid code p = (p', Some (Inr ()))"
  obtains pid f where "ps_history p' = ps_history p @ [(Getpid, Inr pid), (Replace (rp_state paths) (state_document c cgroup ns network f), Inr 0)]"
    "length (state_document c cgroup ns network f) < 2048" "k_call K (ps_history p) Getpid = Inr pid"
    "sf_status f = status" "sf_shim_pid f = pid" "sf_init_pid f = init_pid" "sf_exit_code f = code" "sf_version f = re_version E" "sf_commit f = re_commit E"
    "sf_init_start f = (if init_pid > 0 then process_start_time (re_proc E (ps_history p @ [(Getpid, Inr pid)])) init_pid else 0)"
proof -
  obtain q f where f: "state_facts_of K E status init_pid code p = (q, Some (Inr f))"
      "(let document = state_document c cgroup ns network f in
       if length document \<ge> 2048
       then act_bind (set_error (mk_error MC_EXIT_INTERNAL EOVERFLOW ''write-state'' (cfg_id c) ''state document is too large''))
              (\<lambda>_. act_fail EOVERFLOW)
       else replace_file E (rp_state paths) document) q = (p', Some (Inr ()))"
    using assms unfolding write_state_def by (auto simp: act_bind_Inr)
  have len: "length (state_document c cgroup ns network f) < 2048" and rep: "replace_file E (rp_state paths) (state_document c cgroup ns network f) q = (p', Some (Inr ()))"
    using f(2) by (auto simp: Let_def act_bind_Inr split: if_splits)
  then have "ps_history p' = ps_history q @ [(Replace (rp_state paths) (state_document c cgroup ns network f), Inr 0)]"
    unfolding replace_file_def by (auto split: prod.splits option.splits sum.splits)
  moreover obtain pid where "k_call K (ps_history p) Getpid = Inr pid" "ps_history q = ps_history p @ [(Getpid, Inr pid)]"
      "sf_status f = status" "sf_shim_pid f = pid" "sf_init_pid f = init_pid" "sf_exit_code f = code" "sf_version f = re_version E" "sf_commit f = re_commit E"
      "sf_init_start f = (if init_pid > 0 then process_start_time (re_proc E (ps_history q)) init_pid else 0)"
    using f(1) unfolding state_facts_of_def by (cases "re_now E (ps_history p)") (auto simp: act_bind_Inr observe_def sys_Inr)
  ultimately show thesis using that [of pid f] len by simp
qed

section \<open>An example\<close>

definition example_state_env :: run_env where
  "example_state_env = example_run_env\<lparr>re_proc := (\<lambda>_. example_proc)\<rparr>"

definition example_state_config :: mc_run_config where
  "example_state_config = example_run_config\<lparr>cfg_id := Some example_entry\<rparr>"

definition example_state_cgroup :: mc_cgroup where
  "example_state_cgroup = zero_cgroup\<lparr>cgr_payload := ''/cg''\<rparr>"

definition example_state_paths :: runtime_paths where
  "example_state_paths = \<lparr>rp_base = ''/s/c'', rp_upper = ''/s/c/upper'', rp_work = ''/s/c/work'', rp_merged = ''/s/c/merged'',
     rp_state = ''/s/c/state.json'', rp_runtime = ''/r/c'', rp_control = ''/r/c/control.sock''\<rparr>"

definition document_registry :: "string \<Rightarrow> registry" where
  "document_registry document =
     \<lparr>rg_dir = ''/s'', rg_opendir = 0, rg_entries = [example_entry],
      rg_disk = \<lparr>dk_content = (\<lambda>_. document), dk_stable = (\<lambda>_. None), dk_next = 1,
        dk_dir = [''/s/containers/'' @ example_entry @ ''/state.json'' \<mapsto> 0],
        dk_survivors = [[''/s/containers/'' @ example_entry @ ''/state.json'' \<mapsto> 0]]\<rparr>\<rparr>"

lemma example_write_state:
  "snd (write_state (run_kernel 3) example_state_env example_state_paths example_state_config example_state_cgroup no_namespaces zero_network
     ''running'' 7 0 example_process) = Some (Inr ())"
  by code_simp

lemma example_resolved: "mc_state_resolve J (document_registry document) (Some example_entry) = Inr example_entry"
  by (rule resolve_identifier) (simp_all add: document_registry_def registry_ok_def disk_wf_def entry_ok_def hidden_def example_entry_def)

lemma example_current: "identity_current example_proc 7 4711"
proof -
  have "process_start_time example_proc 7 = 4711" by code_simp
  then show ?thesis by (simp add: identity_current_def)
qed

lemma example_plain:
  "s \<in> {printf_string (cfg_id example_state_config), re_version example_state_env, re_commit example_state_env, nw_host_interface zero_network,
     cgr_payload example_state_cgroup} \<Longrightarrow> plain_text s"
  by (auto simp: plain_text_def example_state_config_def example_entry_def printf_string_def example_state_env_def example_run_env_def
      zero_network_def example_state_cgroup_def)

section \<open>Properties\<close>

datatype json_type = Integer | Text | Object | Other

fun json_type_of :: "json \<Rightarrow> json_type" where
  "json_type_of (JInt n) = Integer"
| "json_type_of (JString s) = Text"
| "json_type_of (JObject kvs) = Object"
| "json_type_of _ = Other"

definition state_schema :: "(string \<times> json_type) list" where
  "state_schema =
     [(''schema_version'', Integer), (''id'', Text), (''status'', Text), (''shim_pid'', Integer), (''shim_start_time'', Integer),
      (''init_pid'', Integer), (''exit_code'', Integer), (''init_start_time'', Integer), (''resources'', Object), (''namespaces'', Object),
      (''updated_at_unix_ns'', Integer), (''build_version'', Text), (''git_commit'', Text), (''network_mode'', Text), (''ipv4_host'', Integer),
      (''host_interface'', Text), (''cgroup_path'', Text)]"

text \<open>
  C16: the state document that \<open>write_state\<close> prints is typed. Whatever numbers and whatever texts without
  characters that need an escape it records, json-c reads it as one well-formed object with exactly the
  members of the schema, in this order and each of its type; the nested objects hold integers only.
\<close>

theorem state_typed:
  assumes "reads_json J" "recordable c cgroup network f"
  shows "\<exists>kvs. jc_parse J (state_document c cgroup ns network f) = JObject kvs \<and> json_wf (JObject kvs) \<and>
    map (\<lambda>(key, v). (key, json_type_of v)) kvs = state_schema \<and>
    (\<forall>key members. (key, JObject members) \<in> set kvs \<longrightarrow> list_all (\<lambda>(_, v). json_type_of v = Integer) members)"
proof (intro exI conjI)
  show "jc_parse J (state_document c cgroup ns network f) = JObject (state_tree c cgroup ns network f)"
    by (rule state_document_parsed [OF assms])
  show "json_wf (JObject (state_tree c cgroup ns network f))" by (rule state_tree_wf(1) [OF assms(2)])
qed (auto simp: state_tree_def state_schema_def)

theorem state_typed_witness:
  "\<exists>kvs. jc_parse text_jsonc (state_document example_state_config example_state_cgroup no_namespaces zero_network
       \<lparr>sf_status = ''running'', sf_shim_pid = 6, sf_shim_start = 1, sf_init_pid = 7, sf_exit_code = 0, sf_init_start = 4711, sf_updated = 2,
        sf_version = ''1'', sf_commit = ''0''\<rparr>) = JObject kvs \<and> map (\<lambda>(key, v). (key, json_type_of v)) kvs = state_schema"
proof -
  have "recordable example_state_config example_state_cgroup zero_network
      \<lparr>sf_status = ''running'', sf_shim_pid = 6, sf_shim_start = 1, sf_init_pid = 7, sf_exit_code = 0, sf_init_start = 4711, sf_updated = 2,
       sf_version = ''1'', sf_commit = ''0''\<rparr>"
    by (simp add: recordable_def plain_text_def example_state_config_def example_entry_def printf_string_def example_state_cgroup_def zero_network_def)
  from state_typed [OF text_jsonc_reads this] show ?thesis by blast
qed

text \<open>
  C10: what a run records is what the other commands find. When \<open>write_state\<close> has succeeded for a running
  container, the state file holds a document from which \<open>mc_state_runtime\<close>, used by \<open>exec\<close>, gets the identifier
  of the container, the process and start time of its init process and its control group, as long as that
  process is still the one recorded; and from which the statistics get the same control group.
\<close>

theorem recorded_state_found:
  assumes J: "jsonc_ok J" "reads_json J"
    and K: "\<And>h n. k_call K h Getpid = Inr n \<Longrightarrow> 0 \<le> n \<and> n < 2 ^ 31" and pid: "0 < init_pid" "init_pid < 2 ^ 31"
    and plain: "\<And>s. s \<in> {printf_string (cfg_id c), re_version E, re_commit E, nw_host_interface network, cgr_payload cgroup} \<Longrightarrow> plain_text s"
    and written: "write_state K E paths c cgroup ns network ''running'' init_pid 0 p = (p', Some (Inr ()))"
  shows "\<exists>document start h. ps_history p' = h @ [(Replace (rp_state paths) document, Inr 0)] \<and>
    start = process_start_time (re_proc E h) init_pid \<and>
    (\<forall>L R reference cid path.
       mc_state_resolve J R (Some reference) = Inr cid \<and> make_path (rg_dir R) (Some cid) ''state.json'' = Some path \<and>
       disk_read (rg_disk R) path = Some document \<and> identity_current (lf_proc L) init_pid start \<longrightarrow>
       mc_state_runtime J L R reference = Inr (cid, init_pid, start, cgr_payload cgroup)) \<and>
    (\<forall>S cid.
       length (mc_state_dir (se_getenv S) @ ''/containers/'' @ cid @ ''/state.json'') < PATH_MAX \<and> cgr_payload cgroup \<noteq> [] \<and>
       se_read S 0 (mc_state_dir (se_getenv S) @ ''/containers/'' @ cid @ ''/state.json'') = Contents document \<longrightarrow>
       state_cgroup S cid = Inr (cgr_payload cgroup))"
proof -
  obtain own f where h: "ps_history p' = ps_history p @ [(Getpid, Inr own), (Replace (rp_state paths) (state_document c cgroup ns network f), Inr 0)]"
    and len: "length (state_document c cgroup ns network f) < 2048" and own: "k_call K (ps_history p) Getpid = Inr own"
    and f: "sf_status f = ''running''" "sf_shim_pid f = own" "sf_init_pid f = init_pid" "sf_exit_code f = 0"
      "sf_version f = re_version E" "sf_commit f = re_commit E"
      "sf_init_start f = (if init_pid > 0 then process_start_time (re_proc E (ps_history p @ [(Getpid, Inr own)])) init_pid else 0)"
    by (rule write_state_recorded [OF written])
  have running: "plain_text ''running''" by (simp add: plain_text_def)
  have ok: "recordable c cgroup network f"
    using plain K [OF own] pid running unfolding recordable_def f by simp
  have payload: "length (cgr_payload cgroup) < PATH_MAX" using len by (simp add: state_document_def json_string_def quoted_def)
  have start: "sf_init_start f = process_start_time (re_proc E (ps_history p @ [(Getpid, Inr own)])) init_pid" using f(7) pid(1) by simp
  show ?thesis
  proof (intro exI conjI allI impI)
    show "ps_history p' = (ps_history p @ [(Getpid, Inr own)]) @ [(Replace (rp_state paths) (state_document c cgroup ns network f), Inr 0)]"
      using h by simp
  next
    fix L :: life_env and R reference cid path
    assume *: "mc_state_resolve J R (Some reference) = Inr cid \<and> make_path (rg_dir R) (Some cid) ''state.json'' = Some path \<and>
      disk_read (rg_disk R) path = Some (state_document c cgroup ns network f) \<and>
      identity_current (lf_proc L) init_pid (process_start_time (re_proc E (ps_history p @ [(Getpid, Inr own)])) init_pid)"
    show "mc_state_runtime J L R reference =
        Inr (cid, init_pid, process_start_time (re_proc E (ps_history p @ [(Getpid, Inr own)])) init_pid, cgr_payload cgroup)"
      using runtime_reads_state [OF J ok f(1) payload, of R reference cid path ns L] * unfolding start f(3) by blast
  next
    fix S :: stats_env and cid
    assume "length (mc_state_dir (se_getenv S) @ ''/containers/'' @ cid @ ''/state.json'') < PATH_MAX \<and> cgr_payload cgroup \<noteq> [] \<and>
      se_read S 0 (mc_state_dir (se_getenv S) @ ''/containers/'' @ cid @ ''/state.json'') = Contents (state_document c cgroup ns network f)"
    then show "state_cgroup S cid = Inr (cgr_payload cgroup)" using stats_reads_state [OF ok _ len] by blast
  qed (rule refl)
qed

theorem recorded_state_found_witness:
  "\<exists>p' document h.
     write_state (run_kernel 3) example_state_env example_state_paths example_state_config example_state_cgroup no_namespaces zero_network
       ''running'' 7 0 example_process = (p', Some (Inr ())) \<and>
     ps_history p' = h @ [(Replace ''/s/c/state.json'' document, Inr 0)] \<and>
     mc_state_runtime text_jsonc (example_life example_proc) (document_registry document) example_entry = Inr (example_entry, 7, 4711, ''/cg'')"
proof -
  obtain p' where w: "write_state (run_kernel 3) example_state_env example_state_paths example_state_config example_state_cgroup no_namespaces zero_network
      ''running'' 7 0 example_process = (p', Some (Inr ()))"
    using example_write_state by (metis prod.collapse)
  have start: "process_start_time (re_proc example_state_env h) 7 = 4711" for h
    using example_current by (simp add: example_state_env_def identity_current_def)
  have path: "make_path (rg_dir (document_registry document)) (Some example_entry) ''state.json'' = Some (''/s/containers/'' @ example_entry @ ''/state.json'')"
    "disk_read (rg_disk (document_registry document)) (''/s/containers/'' @ example_entry @ ''/state.json'') = Some document" for document
    by (simp_all add: make_path_def document_registry_def example_entry_def disk_read_def)
  have "identity_current (lf_proc (example_life example_proc)) 7 4711" using example_current by (simp add: example_life_def)
  note current = this
  have "\<exists>document start h. ps_history p' = h @ [(Replace (rp_state example_state_paths) document, Inr 0)] \<and>
      start = process_start_time (re_proc example_state_env h) 7 \<and>
      mc_state_runtime text_jsonc (example_life example_proc) (document_registry document) example_entry =
        Inr (example_entry, 7, start, cgr_payload example_state_cgroup)"
    using recorded_state_found [OF text_jsonc_ok text_jsonc_reads, of "run_kernel 3" 7 example_state_config example_state_env zero_network
        example_state_cgroup example_state_paths no_namespaces example_process p', OF _ _ _ _ w] example_plain current path example_resolved
    unfolding start by (auto simp: run_kernel_def)
  then show ?thesis using w unfolding start by (auto simp: example_state_paths_def example_state_cgroup_def)
qed

end
