(* ===== verification/MC_Spawn.thy ===== *)
theory MC_Spawn
  imports MC_Shim MC_Log MC_Run
begin

text \<open>
  The processes around a run, on the kernel. \<open>mc_launch_shim\<close> of \<open>src/runtime/launch.c\<close> forks: the child gets the
  streams of a detached container and executes the shim, the parent waits for the readiness byte or
  forwards signals until the shim ends. \<open>main\<close> of \<open>src/runtime/shim_main.c\<close> starts the log pump, runs the
  container and turns the outcome into an exit code. What precedes the fork, the argument vector and the
  opened descriptors, is in \<open>MC_Launch\<close>. The results: a detached shim is executed in a session of its own
  with its streams redirected; the launcher returns the code of the shim; and the shim exits with 0 only
  if the kernel reported that the init process of the container exited with 0.
\<close>

section \<open>The launcher\<close>

text \<open>The descriptors of a detached launch: the pipe of the readiness byte, the log and \<open>/dev/null\<close>; negative
  when there are none.\<close>

record launch_streams =
  ls_readiness :: int
  ls_log :: int
  ls_null :: int

definition detach_child :: "kernel \<Rightarrow> launch_streams \<Rightarrow> unit action" where
  "detach_child K s =
     act_bind (discard K (Close (ls_readiness s))) (\<lambda>_.
     act_all [call K Setsid, call K (Dup2 (ls_null s) 0), call K (Dup2 (ls_log s) 1), call K (Dup2 (ls_log s) 2),
              discard K (Close (ls_null s)), discard K (Close (ls_log s))])"

definition shim_child :: "kernel \<Rightarrow> mc_run_config \<Rightarrow> launch_streams \<Rightarrow> string \<Rightarrow> ending action" where
  "shim_child K c s path =
     guard_exit 125 (if cfg_detach c then detach_child K s else act_return ()) (\<lambda>_.
     act_catch (act_bind (sys K (Execv path (exec_argv (shim_arguments c path (if cfg_detach c then ls_readiness s + 1 else - 1)))))
                  (\<lambda>_. act_return Executing))
       (\<lambda>e. act_return (Exit 126)))"

definition forward_to_shim :: "kernel \<Rightarrow> int \<Rightarrow> int \<Rightarrow> unit action" where
  "forward_to_shim K target signal_number = (if target > 0 then discard K (Kill target signal_number) else act_return ())"

definition await_detached :: "kernel \<Rightarrow> mc_run_config \<Rightarrow> launch_streams \<Rightarrow> int \<Rightarrow> int action" where
  "await_detached K c s child =
     act_bind (discard K (Close (ls_readiness s + 1))) (\<lambda>_.
     act_bind (read_ready_byte K (k_rounds K) (ls_readiness s)) (\<lambda>byte.
     act_bind (discard K (Close (ls_readiness s))) (\<lambda>_.
     if byte = Some ''1'' then act_return 0
     else
       act_bind (discard K (Waitpid child False)) (\<lambda>_.
       act_bind (set_error (mk_error MC_EXIT_RUNTIME 0 ''launch-shim'' (cfg_id c)
                              ''detached container failed before reaching running state'')) (\<lambda>_.
       act_return (- 1))))))"

text \<open>Waiting in the foreground; the handlers of the signals that have arrived run before the wait. \<open>Inl\<close> is the
  errno of a wait that failed.\<close>

fun wait_for_shim :: "kernel \<Rightarrow> (history \<Rightarrow> int list) \<Rightarrow> nat \<Rightarrow> int \<Rightarrow> bool \<Rightarrow> (errno + wait_status) action" where
  "wait_for_shim K arrived 0 child forwarding = act_stuck"
| "wait_for_shim K arrived (Suc n) child forwarding =
     act_bind (observe arrived) (\<lambda>signals.
     act_bind (if forwarding then act_all (map (forward_to_shim K child) (filter (\<lambda>s. s \<in> set shim_signals) signals)) else act_return ()) (\<lambda>_.
     act_bind (attempt (sys K (Waitpid child False))) (\<lambda>r.
     case r of
       Inl e \<Rightarrow> if e = EINTR then wait_for_shim K arrived n child forwarding else act_return (Inl e)
     | Inr _ \<Rightarrow> act_bind (fetch_status K) (\<lambda>status. act_return (Inr status)))))"

definition shim_status_code :: "wait_status \<Rightarrow> int" where
  "shim_status_code status =
     (case status of WIFEXITED n \<Rightarrow> int n | WIFSIGNALED n \<Rightarrow> 128 + int n | WOTHER \<Rightarrow> exit_value MC_EXIT_RUNTIME)"

text \<open>Putting handlers back with valid arguments does not fail, so \<open>errno\<close> is still that of the wait.\<close>

definition await_foreground :: "kernel \<Rightarrow> (history \<Rightarrow> int list) \<Rightarrow> string \<Rightarrow> int \<Rightarrow> int action" where
  "await_foreground K arrived path child =
     act_bind (attempt (install_signal_forwarding K)) (\<lambda>previous.
     act_bind (wait_for_shim K arrived (k_rounds K) child (\<not> isl previous)) (\<lambda>r.
     act_bind (case previous of Inl e \<Rightarrow> act_return () | Inr replaced \<Rightarrow> restore_signal_forwarding K replaced) (\<lambda>_.
     case r of
       Inl e \<Rightarrow> act_bind (set_error (mk_error MC_EXIT_RUNTIME e ''launch-shim'' (Some path) ''cannot wait for shim'')) (\<lambda>_. act_return (- 1))
     | Inr status \<Rightarrow> act_return (shim_status_code status))))"

definition spawn_shim :: "kernel \<Rightarrow> (history \<Rightarrow> int list) \<Rightarrow> mc_run_config \<Rightarrow> launch_streams \<Rightarrow> string \<Rightarrow> run_outcome action" where
  "spawn_shim K arrived c s path =
     act_bind (attempt (sys K Fork)) (\<lambda>r.
     if r = Inr 0 then act_bind (shim_child K c s path) (\<lambda>e. act_return (In_child e))
     else
       act_bind (act_all [close_if K (ls_log s), close_if K (ls_null s)]) (\<lambda>_.
       act_bind (case r of
           Inl e \<Rightarrow> act_bind (set_error (mk_error MC_EXIT_RUNTIME e ''launch-shim'' (Some path) ''cannot execute shim'')) (\<lambda>_. act_return (- 1))
         | Inr child \<Rightarrow> if cfg_detach c then await_detached K c s child else await_foreground K arrived path child) (\<lambda>n.
       act_return (Returned n))))"

section \<open>The shim\<close>

text \<open>What the process of the log pump finds: the outcomes of its calls and the log directory.\<close>

record pump_env =
  pe_log :: log_env
  pe_reads :: "(errno + string) list"
  pe_writes :: "(errno + nat) list"
  pe_state :: pump_state

definition pump_path :: "kernel \<Rightarrow> string \<Rightarrow> string" where
  "pump_path K cid = snprintf_buf 4096 (mc_log_dir (k_getenv K) @ ''/'' @ cid @ ''/container.log'')"

text \<open>The process of the pump ends in the pump; the shim gets its number.\<close>

definition start_log_pump :: "kernel \<Rightarrow> (history \<Rightarrow> pump_env) \<Rightarrow> string \<Rightarrow> run_outcome action" where
  "start_log_pump K pump cid =
     act_bind (sys K Pipe) (\<lambda>channel.
     act_bind (sys K (Dup 1)) (\<lambda>output.
     act_bind (attempt (sys K Fork)) (\<lambda>r.
     if r = Inr 0
     then act_bind (act_all [discard K (Close (channel + 1)), discard K (Pdeathsig SIGTERM)]) (\<lambda>_.
          act_bind (observe pump) (\<lambda>P.
          case snd (log_pump (pe_log P) (pump_path K cid) (pe_reads P) (pe_writes P) (pe_state P)) of
            None \<Rightarrow> act_stuck
          | Some code \<Rightarrow> act_return (In_child (Exit (int code)))))
     else
       act_bind (act_all [discard K (Close channel), discard K (Close output)]) (\<lambda>_.
       act_bind (act_catch
           (case r of
              Inl e \<Rightarrow> act_fail e
            | Inr logger \<Rightarrow> act_all [call K (Dup2 (channel + 1) 1), call K (Dup2 (channel + 1) 2)])
           (\<lambda>e. act_bind (discard K (Close (channel + 1))) (\<lambda>_. act_fail e))) (\<lambda>_.
       act_bind (discard K (Close (channel + 1))) (\<lambda>_.
       act_return (Returned (projr r))))))))"

fun wait_logger :: "kernel \<Rightarrow> nat \<Rightarrow> int \<Rightarrow> unit action" where
  "wait_logger K 0 logger = act_stuck"
| "wait_logger K (Suc n) logger =
     act_bind (attempt (sys K (Waitpid logger False))) (\<lambda>r. if r = Inl EINTR then wait_logger K n logger else act_return ())"

definition finish_log :: "kernel \<Rightarrow> int \<Rightarrow> unit action" where
  "finish_log K logger =
     (if logger > 0
      then act_bind (act_all [discard K (Close 1), discard K (Close 2)]) (\<lambda>_. wait_logger K (k_rounds K) logger)
      else act_return ())"

definition shim_code :: "int \<Rightarrow> mc_error option \<Rightarrow> int" where
  "shim_code result err =
     (if result < 0
      then (case err of None \<Rightarrow> exit_value MC_EXIT_RUNTIME | Some e \<Rightarrow> if err_code e = 0 then exit_value MC_EXIT_RUNTIME else err_code e)
      else result)"

definition shim_exit :: "int \<Rightarrow> run_outcome action" where
  "shim_exit result p = (p, Some (Inr (Returned (shim_code result (ps_error p)))))"

text \<open>From the accepted configuration to the exit code.\<close>

definition run_shim :: "kernel \<Rightarrow> run_env \<Rightarrow> (history \<Rightarrow> pump_env) \<Rightarrow> mc_run_config \<Rightarrow> run_outcome action" where
  "run_shim K E pump c =
     act_bind (if cfg_detach c then attempt (start_log_pump K pump (c_str (cfg_id c))) else act_return (Inr (Returned (- 1)))) (\<lambda>r.
     case r of
       Inl e \<Rightarrow>
         act_bind (set_error (mk_error MC_EXIT_RUNTIME e ''log-pump'' (cfg_id c) ''cannot start rotating log pump'')) (\<lambda>_. shim_exit (- 1))
     | Inr (In_child ending) \<Rightarrow> act_return (In_child ending)
     | Inr (Returned logger) \<Rightarrow>
         act_bind (mc_container_run K E c) (\<lambda>outcome.
         case outcome of
           In_child ending \<Rightarrow> act_return (In_child ending)
         | Returned result \<Rightarrow> act_bind (finish_log K logger) (\<lambda>_. shim_exit result)))"

definition shim_process :: "kernel \<Rightarrow> run_env \<Rightarrow> (history \<Rightarrow> pump_env) \<Rightarrow> shim_env \<Rightarrow> string list \<Rightarrow> run_outcome action" where
  "shim_process K E pump S argv =
     (case shim_parse S argv of
        None \<Rightarrow> act_return (Returned (exit_value MC_EXIT_USAGE))
      | Some c \<Rightarrow> run_shim K E pump c)"

section \<open>What the launcher has seen\<close>

lemma extends_launch [emits_intros]:
  "extends (forward_to_shim K child n)" "extends (install_signal_forwarding K)" "extends (restore_signal_forwarding K replaced)"
  by (auto simp: forward_to_shim_def install_signal_forwarding_def restore_signal_forwarding_def intro!: emits_intros)

lemma read_ready_byte_read:
  assumes "read_ready_byte K n d p = (p', Some (Inr (Some b)))"
  shows "\<exists>h. ps_history p' = ps_history p @ h @ [(Read d 1, Inr 1)] \<and> b = take 1 (k_text K (ps_history p'))"
  using assms
proof (induction n arbitrary: p)
  case 0
  then show ?case by (simp add: act_stuck_def)
next
  case (Suc n)
  define r where "r = k_call K (ps_history p) (Read d 1)"
  define q where "q = p\<lparr>ps_history := ps_history p @ [(Read d 1, r)]\<rparr>"
  have step: "read_ready_byte K (Suc n) d p = (case r of
      Inl e \<Rightarrow> if e = EINTR then read_ready_byte K n d q else (q, Some (Inr None))
    | Inr count \<Rightarrow> (q, Some (Inr (if count = 1 then Some (take 1 (k_text K (ps_history q))) else None))))"
    by (auto simp: attempt_def act_bind_def act_catch_def sys_def fetch_text_def act_return_def Let_def r_def q_def split: sum.split)
  show ?case
  proof (cases r)
    case (Inl e)
    then have "read_ready_byte K n d q = (p', Some (Inr (Some b)))" using Suc.prems unfolding step by (auto split: if_splits)
    from Suc.IH [OF this] show ?thesis by (auto simp: q_def)
  next
    case (Inr count)
    then show ?thesis using Suc.prems unfolding step by (auto simp: q_def split: if_splits)
  qed
qed

lemma wait_for_shim_reaped:
  assumes "wait_for_shim K arrived n child forwarding p = (p', Some (Inr (Inr status)))"
  shows "\<exists>h r. ps_history p' = ps_history p @ h @ [(Waitpid child False, Inr r)] \<and> status = k_status K (ps_history p')"
  using assms
proof (induction n arbitrary: p)
  case 0
  then show ?case by (simp add: act_stuck_def)
next
  case (Suc n)
  define forward where "forward = (if forwarding then act_all (map (forward_to_shim K child) (filter (\<lambda>s. s \<in> set shim_signals) (arrived (ps_history p))))
    else act_return ())"
  have "returns forward" "unfailing forward" "extends forward"
    unfolding forward_def forward_to_shim_def by (auto intro!: returns_intros unfailing_intros emits_intros)
  then obtain q x h where q: "forward p = (q, Some (Inr x))" "ps_history q = ps_history p @ h" by (rule settlesE)
  define r where "r = k_call K (ps_history q) (Waitpid child False)"
  define q1 where "q1 = q\<lparr>ps_history := ps_history q @ [(Waitpid child False, r)]\<rparr>"
  have o: "observe arrived p = (p, Some (Inr (arrived (ps_history p))))" by (simp add: observe_def)
  have a: "attempt (sys K (Waitpid child False)) q = (q1, Some (Inr r))" by (simp add: attempt_sys q1_def r_def)
  have step: "wait_for_shim K arrived (Suc n) child forwarding p = (case r of
      Inl e \<Rightarrow> if e = EINTR then wait_for_shim K arrived n child forwarding else act_return (Inl e)
    | Inr _ \<Rightarrow> act_bind (fetch_status K) (\<lambda>status. act_return (Inr status))) q1"
    unfolding wait_for_shim.simps(2) bind_settled [where m = "observe arrived", OF o] forward_def [symmetric]
      bind_settled [where m = forward, OF q(1)] bind_settled [where m = "attempt (sys K (Waitpid child False))", OF a] by (rule refl)
  show ?case
  proof (cases r)
    case (Inl e)
    then have "wait_for_shim K arrived n child forwarding q1 = (p', Some (Inr (Inr status)))"
      using Suc.prems unfolding step by (auto simp: act_return_def split: if_splits)
    from Suc.IH [OF this] show ?thesis using q(2) by (auto simp: q1_def)
  next
    case (Inr v)
    then show ?thesis using Suc.prems q(2) unfolding step by (auto simp: act_bind_def fetch_status_def act_return_def q1_def)
  qed
qed

lemma shim_child_executes:
  "executes ((if cfg_detach c then [Setsid, Dup2 (ls_null s) 0, Dup2 (ls_log s) 1, Dup2 (ls_log s) 2] else []) @
     [Execv path (exec_argv (shim_arguments c path (if cfg_detach c then ls_readiness s + 1 else - 1)))]) (shim_child K c s path)"
proof -
  have exec: "executes [Execv path argv] (act_catch (act_bind (sys K (Execv path argv)) (\<lambda>_. act_return Executing)) (\<lambda>e. act_return (Exit 126)))" for argv
    by (auto simp: executes_def act_catch_Inr act_bind_Inr sys_Inr)
  have "reaches ([Setsid] @ [Dup2 (ls_null s) 0] @ [Dup2 (ls_log s) 1] @ [Dup2 (ls_log s) 2] @ [] @ [] @ [])
      (act_all [call K Setsid, call K (Dup2 (ls_null s) 0), call K (Dup2 (ls_log s) 1), call K (Dup2 (ls_log s) 2),
        discard K (Close (ls_null s)), discard K (Close (ls_log s))])"
    by (intro reaches_Cons reaches_all_Nil reaches_call reaches_Nil) (auto intro!: emits_intros)
  then have "reaches [Setsid, Dup2 (ls_null s) 0, Dup2 (ls_log s) 1, Dup2 (ls_log s) 2] (detach_child K s)"
    unfolding detach_child_def by (intro reaches_bind_right) (auto intro!: emits_intros)
  then have "reaches (if cfg_detach c then [Setsid, Dup2 (ls_null s) 0, Dup2 (ls_log s) 1, Dup2 (ls_log s) 2] else [])
      (if cfg_detach c then detach_child K s else act_return ())"
    by (simp add: reaches_Nil emits_pure)
  from executes_guard [OF this exec] show ?thesis unfolding shim_child_def .
qed

lemma await_detached_ready:
  assumes "await_detached K c s child p = (p', Some (Inr n))" "n \<noteq> - 1"
  shows "n = 0 \<and> (\<exists>before after. ps_history p' = ps_history p @ before @ (Read (ls_readiness s) 1, Inr 1) # after \<and>
    take 1 (k_text K (ps_history p @ before @ [(Read (ls_readiness s) 1, Inr 1)])) = ''1'')"
proof -
  obtain q0 q1 q2 byte u v where q: "discard K (Close (ls_readiness s + 1)) p = (q0, Some (Inr u))"
      "read_ready_byte K (k_rounds K) (ls_readiness s) q0 = (q1, Some (Inr byte))" "discard K (Close (ls_readiness s)) q1 = (q2, Some (Inr v))"
      "(if byte = Some ''1'' then act_return 0
        else act_bind (discard K (Waitpid child False)) (\<lambda>_.
          act_bind (set_error (mk_error MC_EXIT_RUNTIME 0 ''launch-shim'' (cfg_id c) ''detached container failed before reaching running state''))
            (\<lambda>_. act_return (- 1)))) q2 = (p', Some (Inr n))"
    using assms(1) unfolding await_detached_def act_bind_Inr by (elim exE conjE) (rule that)
  have byte: "byte = Some ''1''" "n = 0" "p' = q2" using q(4) assms(2) by (auto simp: act_bind_Inr split: if_splits)
  have "extends (discard K (Close d))" for d by (auto intro!: emits_intros)
  then obtain h0 h2 where "ps_history q0 = ps_history p @ h0" "ps_history q2 = ps_history q1 @ h2"
    using extends_history q(1,3) by metis
  moreover obtain h1 where "ps_history q1 = ps_history q0 @ h1 @ [(Read (ls_readiness s) 1, Inr 1)]" "''1'' = take 1 (k_text K (ps_history q1))"
    using read_ready_byte_read [OF q(2) [unfolded byte(1)]] by blast
  ultimately show ?thesis using byte(2,3) by (intro conjI exI [of _ "h0 @ h1"] exI [of _ h2]) simp_all
qed

lemma await_foreground_code:
  assumes "await_foreground K arrived path child p = (p', Some (Inr n))" "n \<noteq> - 1"
  shows "\<exists>before r after. ps_history p' = ps_history p @ before @ (Waitpid child False, Inr r) # after \<and>
    n = shim_status_code (k_status K (ps_history p @ before @ [(Waitpid child False, Inr r)]))"
proof -
  obtain q0 q1 q2 previous r u where q: "attempt (install_signal_forwarding K) p = (q0, Some (Inr previous))"
      "wait_for_shim K arrived (k_rounds K) child (\<not> isl previous) q0 = (q1, Some (Inr r))"
      "(case previous of Inl e \<Rightarrow> act_return () | Inr replaced \<Rightarrow> restore_signal_forwarding K replaced) q1 = (q2, Some (Inr u))"
      "(case r of
         Inl e \<Rightarrow> act_bind (set_error (mk_error MC_EXIT_RUNTIME e ''launch-shim'' (Some path) ''cannot wait for shim'')) (\<lambda>_. act_return (- 1))
       | Inr status \<Rightarrow> act_return (shim_status_code status)) q2 = (p', Some (Inr n))"
    using assms(1) unfolding await_foreground_def act_bind_Inr by (elim exE conjE) (rule that)
  then obtain status where status: "r = Inr status" "n = shim_status_code status" "p' = q2"
    using assms(2) by (cases r) (auto simp: act_bind_Inr)
  have "extends (attempt (install_signal_forwarding K))"
    "extends (case previous of Inl e \<Rightarrow> act_return () | Inr replaced \<Rightarrow> restore_signal_forwarding K replaced)"
    by (auto intro!: emits_intros split: sum.split)
  then obtain h0 h2 where "ps_history q0 = ps_history p @ h0" "ps_history q2 = ps_history q1 @ h2"
    using extends_history q(1,3) by metis
  moreover obtain h1 v where "ps_history q1 = ps_history q0 @ h1 @ [(Waitpid child False, Inr v)]" "status = k_status K (ps_history q1)"
    using wait_for_shim_reaped [OF q(2) [unfolded status(1)]] by blast
  ultimately show ?thesis using status(2,3) by (intro exI [of _ "h0 @ h1"] exI [of _ v] exI [of _ h2]) simp
qed

section \<open>What the shim reports\<close>

lemma shim_code_zero: "shim_code result err = 0 \<Longrightarrow> result = 0"
  by (auto simp: shim_code_def split: if_splits option.splits)

lemma run_exit_code_zero: "run_exit_code (Some status) = 0 \<Longrightarrow> status = WIFEXITED 0"
  by (cases status) (simp_all add: run_exit_code_def)

lemma start_log_pump_forked:
  assumes "start_log_pump K pump cid p = (p', Some (Inr (Returned logger)))"
  shows "\<exists>h. ps_history p' = ps_history p @ h \<and> (Fork, Inr logger) \<in> set h"
proof -
  obtain channel out q0 q1 q2 r where q: "sys K Pipe p = (q0, Some (Inr channel))" "sys K (Dup 1) q0 = (q1, Some (Inr out))"
      "attempt (sys K Fork) q1 = (q2, Some (Inr r))"
    and rest: "(if r = Inr 0
     then act_bind (act_all [discard K (Close (channel + 1)), discard K (Pdeathsig SIGTERM)]) (\<lambda>_.
          act_bind (observe pump) (\<lambda>P.
          case snd (log_pump (pe_log P) (pump_path K cid) (pe_reads P) (pe_writes P) (pe_state P)) of
            None \<Rightarrow> act_stuck
          | Some code \<Rightarrow> act_return (In_child (Exit (int code)))))
     else
       act_bind (act_all [discard K (Close channel), discard K (Close out)]) (\<lambda>_.
       act_bind (act_catch
           (case r of
              Inl e \<Rightarrow> act_fail e
            | Inr logger \<Rightarrow> act_all [call K (Dup2 (channel + 1) 1), call K (Dup2 (channel + 1) 2)])
           (\<lambda>e. act_bind (discard K (Close (channel + 1))) (\<lambda>_. act_fail e))) (\<lambda>_.
       act_bind (discard K (Close (channel + 1))) (\<lambda>_.
       act_return (Returned (projr r)))))) q2 = (p', Some (Inr (Returned logger)))"
    using assms unfolding start_log_pump_def act_bind_Inr [of "sys _ _"] act_bind_Inr [of "attempt _"] by (elim exE conjE) (rule that)
  have r: "r \<noteq> Inr 0" using rest by (auto simp: act_bind_Inr split: option.splits)
  have tail: "act_bind (act_all [discard K (Close channel), discard K (Close out)]) (\<lambda>_.
       act_bind (act_catch
           (case r of
              Inl e \<Rightarrow> act_fail e
            | Inr logger \<Rightarrow> act_all [call K (Dup2 (channel + 1) 1), call K (Dup2 (channel + 1) 2)])
           (\<lambda>e. act_bind (discard K (Close (channel + 1))) (\<lambda>_. act_fail e))) (\<lambda>_.
       act_bind (discard K (Close (channel + 1))) (\<lambda>_.
       act_return (Returned (projr r))))) q2 = (p', Some (Inr (Returned logger)))" (is "?tail q2 = _")
    using rest r by simp
  have "extends ?tail" by (auto intro!: emits_intros split: sum.split)
  then obtain h where h: "ps_history p' = ps_history q2 @ h" using extends_history tail by blast
  have "r = Inr logger"
    using tail by (cases r) (auto simp: act_bind_Inr act_catch_Inr)
  moreover have "ps_history q2 = ps_history q1 @ [(Fork, r)]" using q(3) by (auto simp: attempt_sys)
  moreover have "ps_history q1 = ps_history p @ [(Pipe, Inr channel), (Dup 1, Inr out)]" using q(1,2) by (auto simp: sys_Inr)
  ultimately show ?thesis using h by auto
qed

lemma finish_log_flushed: "logger > 0 \<Longrightarrow> attempts [Close 1, Close 2, Waitpid logger False] (finish_log K logger)"
proof -
  assume "logger > 0"
  have wait: "attempts [Waitpid logger False] (wait_logger K n logger)" for n
  proof (cases n)
    case (Suc m)
    have "extends (wait_logger K m logger)" for m by (induction m) (auto intro!: emits_intros)
    then have "attempts [Waitpid logger False] (act_bind (attempt (sys K (Waitpid logger False))) (\<lambda>r. if r = Inl EINTR then wait_logger K m logger else act_return ()))"
      by (intro attempts_bind_left) (auto intro!: emits_intros simp: attempts_def attempt_sys)
    then show ?thesis using Suc by simp
  qed (simp add: attempts_def act_stuck_def)
  have "attempts ([Close 1, Close 2] @ [Waitpid logger False]) (act_bind (act_all [discard K (Close 1), discard K (Close 2)]) (\<lambda>_. wait_logger K (k_rounds K) logger))"
    using attempts_all [of "[[Close 1], [Close 2]]"] by (intro attempts_bind wait) (auto intro!: attempts_intros unfailing_intros)
  then show ?thesis using \<open>logger > 0\<close> by (simp add: finish_log_def)
qed

lemma run_shim_zero:
  assumes "run_shim K E pump c p = (p', Some (Inr (Returned 0)))"
  obtains q q' h rest where "mc_container_run K E c q = (q', Some (Inr (Returned 0)))" "ps_history q = ps_history p @ h" "ps_history p' = ps_history q' @ rest"
    "cfg_detach c \<longrightarrow> (\<exists>logger. (Fork, Inr logger) \<in> set h \<and> (logger > 0 \<longrightarrow> {Close 1, Close 2, Waitpid logger False} \<subseteq> fst ` set rest))"
proof -
  define first where "first = (if cfg_detach c then attempt (start_log_pump K pump (c_str (cfg_id c))) else act_return (Inr (Returned (- 1))))"
  obtain q r where q: "first p = (q, Some (Inr r))"
    and tail: "(case r of
       Inl e \<Rightarrow>
         act_bind (set_error (mk_error MC_EXIT_RUNTIME e ''log-pump'' (cfg_id c) ''cannot start rotating log pump'')) (\<lambda>_. shim_exit (- 1))
     | Inr (In_child ending) \<Rightarrow> act_return (In_child ending)
     | Inr (Returned logger) \<Rightarrow>
         act_bind (mc_container_run K E c) (\<lambda>outcome.
         case outcome of
           In_child ending \<Rightarrow> act_return (In_child ending)
         | Returned result \<Rightarrow> act_bind (finish_log K logger) (\<lambda>_. shim_exit result))) q = (p', Some (Inr (Returned 0)))"
    using assms unfolding run_shim_def first_def [symmetric] act_bind_Inr [of first] by blast
  have zero: "result = 0" if "shim_exit result p1 = (p2, Some (Inr (Returned 0)))" for result p1 p2
    using that shim_code_zero by (auto simp: shim_exit_def)
  obtain logger where logger: "r = Inr (Returned logger)"
    using tail by (cases r) (auto simp: act_bind_Inr split: run_outcome.splits dest!: zero)
  obtain q' outcome where out: "mc_container_run K E c q = (q', Some (Inr outcome))"
      "(case outcome of
          In_child ending \<Rightarrow> act_return (In_child ending)
        | Returned result \<Rightarrow> act_bind (finish_log K logger) (\<lambda>_. shim_exit result)) q' = (p', Some (Inr (Returned 0)))"
    using tail unfolding logger by (auto simp: act_bind_Inr [of "mc_container_run K E c"])
  obtain q2 result u where run: "mc_container_run K E c q = (q', Some (Inr (Returned result)))"
      "finish_log K logger q' = (q2, Some (Inr u))" "shim_exit result q2 = (p', Some (Inr (Returned 0)))"
    using out by (cases outcome) (auto simp: act_bind_Inr)
  have result: "result = 0" "p' = q2" using zero [OF run(3)] run(3) by (auto simp: shim_exit_def)
  show thesis
  proof (cases "cfg_detach c")
    case True
    then have "start_log_pump K pump (c_str (cfg_id c)) p = (q, Some (Inr (Returned logger)))"
      using q logger by (auto simp: first_def attempt_def act_catch_Inr act_bind_Inr)
    then obtain h where h: "ps_history q = ps_history p @ h" "(Fork, Inr logger) \<in> set h" using start_log_pump_forked by blast
    have "\<exists>rest. ps_history p' = ps_history q' @ rest \<and> (logger > 0 \<longrightarrow> {Close 1, Close 2, Waitpid logger False} \<subseteq> fst ` set rest)"
    proof (cases "logger > 0")
      case True
      show ?thesis using attemptsD [OF finish_log_flushed [OF True] run(2)] unfolding result(2) by (metis list.set(1,2))
    next
      case False
      then show ?thesis using run(2) result(2) by (auto simp: finish_log_def)
    qed
    then show thesis using that run(1) result(1) h by blast
  next
    case False
    then have "p = q" "logger = - 1" using q logger by (simp_all add: first_def act_return_def)
    then show thesis using that [of q q' "[]" "[]"] run(1,2) result False by (simp add: finish_log_def act_return_def)
  qed
qed

section \<open>An example\<close>

definition example_shim_argv :: "string list" where
  "example_shim_argv =
     [''/shim'', ''--id'', ''0123'', ''--rootfs'', ''/images/a'', ''--hostname'', ''box'', ''--workdir'', ''/'', ''--user'', ''0:0'',
      ''--memory'', ''4096'', ''--cpu-quota'', ''1000'', ''--pids-limit'', ''16'', ''--'', ''/bin/true'']"

definition example_pump :: pump_env where
  "example_pump = \<lparr>pe_log = \<lparr>lg_rename = (\<lambda>_ _. 0), lg_open = 0\<rparr>, pe_reads = [Inr []], pe_writes = [],
     pe_state = \<lparr>pm_files = (\<lambda>_. None), pm_size = 0\<rparr>\<rparr>"

lemma example_shim_accepted:
  "case shim_parse example_shim_env example_shim_argv of
     None \<Rightarrow> False
   | Some c \<Rightarrow> \<not> cfg_detach c \<and> \<not> cfg_network_bridge c \<and>
       (case snd (set_up (run_kernel 0) example_run_env c example_process) of Some (Inr _) \<Rightarrow> True | _ \<Rightarrow> False)"
  by code_simp

section \<open>Properties\<close>

text \<open>
  C6: the shim does not hide failures. If it exits with code 0, its arguments were accepted, a process was
  cloned into all namespaces with both identity maps opened before it was let go, the kernel reported that
  exactly this process exited with status 0, and, for a detached container, the output was closed and the
  log pump waited for afterwards, so that the log is complete when the shim is gone.
\<close>

theorem shim_success:
  assumes "shim_process K E pump S argv p = (p', Some (Inr (Returned 0)))"
  shows "\<exists>c cgroup barrier child h before rest.
    shim_parse S argv = Some c \<and>
    ps_history p' = ps_history p @ h @ (Clone3 (clone_flags cgroup) (clone_cgroup cgroup), Inr child) # before @ (Waitpid child True, Inr child) # rest \<and>
    subseq (opening_calls child barrier) (successes before) \<and>
    k_status K (ps_history p @ h @ (Clone3 (clone_flags cgroup) (clone_cgroup cgroup), Inr child) # before @ [(Waitpid child True, Inr child)]) =
      WIFEXITED 0 \<and>
    (cfg_detach c \<longrightarrow> (\<exists>logger. (Fork, Inr logger) \<in> set h \<and> (logger > 0 \<longrightarrow> {Close 1, Close 2, Waitpid logger False} \<subseteq> fst ` set rest)))"
proof -
  obtain c where c: "shim_parse S argv = Some c" "run_shim K E pump c p = (p', Some (Inr (Returned 0)))"
    using assms by (auto simp: shim_process_def split: option.splits)
  from c(2) obtain q q' h0 rest0 where run: "mc_container_run K E c q = (q', Some (Inr (Returned 0)))"
    and h0: "ps_history q = ps_history p @ h0" "ps_history p' = ps_history q' @ rest0"
    and log: "cfg_detach c \<longrightarrow> (\<exists>logger. (Fork, Inr logger) \<in> set h0 \<and> (logger > 0 \<longrightarrow> {Close 1, Close 2, Waitpid logger False} \<subseteq> fst ` set rest0))"
    by (rule run_shim_zero)
  have zero: "(0 :: int) \<noteq> - 1" by simp
  obtain q1 uid gid cgroup paths barrier ready child setting before after where
    "set_up K E c q = (q1, Some (Inr (uid, gid, cgroup, paths, barrier, ready)))"
    and h1: "ps_history q1 = ps_history q @ setting" and "Setgroups \<in> set (successes setting)"
    and h2: "ps_history q' = ps_history q1 @ (Clone3 (clone_flags cgroup) (clone_cgroup cgroup), Inr child) # before @ (Waitpid child True, Inr child) # after"
    and opened: "subseq (opening_calls child barrier) (successes before)"
    and code: "0 = run_exit_code (Some (k_status K (ps_history q1 @ (Clone3 (clone_flags cgroup) (clone_cgroup cgroup), Inr child) # before @
      [(Waitpid child True, Inr child)])))"
    using run_reported [OF run zero] by (elim exE conjE) (rule that)
  have "k_status K (ps_history q1 @ (Clone3 (clone_flags cgroup) (clone_cgroup cgroup), Inr child) # before @ [(Waitpid child True, Inr child)]) = WIFEXITED 0"
    using run_exit_code_zero code by simp
  moreover have "ps_history p' = ps_history p @ (h0 @ setting) @ (Clone3 (clone_flags cgroup) (clone_cgroup cgroup), Inr child) # before @
      (Waitpid child True, Inr child) # (after @ rest0)"
    using h0 h1 h2 by simp
  moreover have "cfg_detach c \<longrightarrow> (\<exists>logger. (Fork, Inr logger) \<in> set (h0 @ setting) \<and>
      (logger > 0 \<longrightarrow> {Close 1, Close 2, Waitpid logger False} \<subseteq> fst ` set (after @ rest0)))"
    using log unfolding set_append image_Un by blast
  moreover have "ps_history q1 = ps_history p @ h0 @ setting" using h0(1) h1 by simp
  ultimately show ?thesis
    using c(1) opened by (intro exI [of _ c] exI [of _ cgroup] exI [of _ barrier] exI [of _ child] exI [of _ "h0 @ setting"] exI [of _ before]
        exI [of _ "after @ rest0"]) simp
qed

theorem shim_success_witness:
  "\<exists>p' child before after. shim_process (run_kernel 0) example_run_env (\<lambda>_. example_pump) example_shim_env example_shim_argv example_process = (p', Some (Inr (Returned 0))) \<and>
     ps_history p' = before @ (Waitpid child True, Inr child) # after"
proof -
  obtain c where c: "shim_parse example_shim_env example_shim_argv = Some c" "\<not> cfg_detach c" "\<not> cfg_network_bridge c"
      "case snd (set_up (run_kernel 0) example_run_env c example_process) of Some (Inr _) \<Rightarrow> True | _ \<Rightarrow> False"
    using example_shim_accepted by (auto split: option.splits)
  obtain q n where q: "mc_container_run (run_kernel 0) example_run_env c example_process = (q, Some (Inr (Returned n)))"
    using example_run_settles [OF c(3)] by blast
  have "n = 0" using example_run_code [OF q c(3,4)] by simp
  then have "shim_process (run_kernel 0) example_run_env (\<lambda>_. example_pump) example_shim_env example_shim_argv example_process = (q, Some (Inr (Returned 0)))"
    using q c(1,2) by (simp add: shim_process_def run_shim_def act_bind_def act_return_def finish_log_def shim_exit_def shim_code_def)
  from this shim_success [OF this] show ?thesis by (metis append.assoc append_Cons)
qed

text \<open>
  C11: what the launcher's fork leads to. A child that comes to execute the shim does so with the prepared
  argument vector, and when detached only after it has a session of its own, reads from \<open>/dev/null\<close> and
  writes to the log. A parent that returns a result other than \<open>-1\<close> has either read the readiness byte of a
  detached shim and returns 0, or returns the code of the status reported for the shim it waited for.
\<close>

theorem launch_outcome:
  assumes "spawn_shim K arrived c s path p = (p', Some (Inr outcome))"
  shows "(outcome = In_child Executing \<longrightarrow>
      (\<exists>new. ps_history p' = ps_history p @ (Fork, Inr 0) # new \<and>
        subseq ((if cfg_detach c then [Setsid, Dup2 (ls_null s) 0, Dup2 (ls_log s) 1, Dup2 (ls_log s) 2] else []) @
          [Execv path (exec_argv (shim_arguments c path (if cfg_detach c then ls_readiness s + 1 else - 1)))]) (successes new))) \<and>
    (\<forall>n. outcome = Returned n \<and> n \<noteq> - 1 \<longrightarrow>
      (\<exists>child before after. child \<noteq> 0 \<and>
        (if cfg_detach c
         then n = 0 \<and> ps_history p' = ps_history p @ (Fork, Inr child) # before @ (Read (ls_readiness s) 1, Inr 1) # after \<and>
           take 1 (k_text K (ps_history p @ (Fork, Inr child) # before @ [(Read (ls_readiness s) 1, Inr 1)])) = ''1''
         else \<exists>r. ps_history p' = ps_history p @ (Fork, Inr child) # before @ (Waitpid child False, Inr r) # after \<and>
           n = shim_status_code (k_status K (ps_history p @ (Fork, Inr child) # before @ [(Waitpid child False, Inr r)])))))"
proof -
  define r where "r = k_call K (ps_history p) Fork"
  define q where "q = p\<lparr>ps_history := ps_history p @ [(Fork, r)]\<rparr>"
  define closing where "closing = act_all [close_if K (ls_log s), close_if K (ls_null s)]"
  define parent where "parent = (case r of
      Inl e \<Rightarrow> act_bind (set_error (mk_error MC_EXIT_RUNTIME e ''launch-shim'' (Some path) ''cannot execute shim'')) (\<lambda>_. act_return (- 1))
    | Inr child \<Rightarrow> if cfg_detach c then await_detached K c s child else await_foreground K arrived path child)"
  have "attempt (sys K Fork) p = (q, Some (Inr r))" by (simp add: attempt_sys q_def r_def)
  then have step: "(if r = Inr 0 then act_bind (shim_child K c s path) (\<lambda>e. act_return (In_child e))
      else act_bind closing (\<lambda>_. act_bind parent (\<lambda>n. act_return (Returned n)))) q = (p', Some (Inr outcome))"
    using assms unfolding spawn_shim_def closing_def parent_def by (simp add: act_bind_def [of "attempt _"])
  show ?thesis
  proof (cases "r = Inr 0")
    case True
    obtain e where e: "shim_child K c s path q = (p', Some (Inr e))" "outcome = In_child e" using step True by (auto simp: act_bind_Inr)
    have "\<exists>new. ps_history p' = ps_history q @ new \<and>
        subseq ((if cfg_detach c then [Setsid, Dup2 (ls_null s) 0, Dup2 (ls_log s) 1, Dup2 (ls_log s) 2] else []) @
          [Execv path (exec_argv (shim_arguments c path (if cfg_detach c then ls_readiness s + 1 else - 1)))]) (successes new)" if "e = Executing"
      using shim_child_executes [of c s path K] e(1) that unfolding executes_def by blast
    then show ?thesis using e(2) True by (auto simp: q_def)
  next
    case False
    then obtain q1 u n where n: "closing q = (q1, Some (Inr u))" "parent q1 = (p', Some (Inr n))" "outcome = Returned n"
      using step by (auto simp: act_bind_Inr)
    have closes: "extends closing" unfolding closing_def by (auto intro!: emits_intros)
    obtain h where h: "ps_history q1 = ps_history p @ (Fork, r) # h" using extends_history [OF closes n(1)] by (auto simp: q_def)
    show ?thesis
    proof (cases "n = - 1")
      case True
      then show ?thesis using n(3) by simp
    next
      case nonneg: False
      then obtain child where child: "r = Inr child" "child \<noteq> 0" using n(2) False by (cases r) (auto simp: parent_def act_bind_Inr)
      show ?thesis
      proof (cases "cfg_detach c")
        case True
        then have "await_detached K c s child q1 = (p', Some (Inr n))" using n(2) child by (simp add: parent_def)
        from await_detached_ready [OF this nonneg] obtain before after where "n = 0"
            "ps_history p' = ps_history p @ (Fork, Inr child) # (h @ before) @ (Read (ls_readiness s) 1, Inr 1) # after"
            "take 1 (k_text K (ps_history p @ (Fork, Inr child) # (h @ before) @ [(Read (ls_readiness s) 1, Inr 1)])) = ''1''"
          using h child(1) by auto
        then show ?thesis using True n(3) child(2) by (simp only: if_True run_outcome.inject run_outcome.distinct) blast
      next
        case fg: False
        then have "await_foreground K arrived path child q1 = (p', Some (Inr n))" using n(2) child by (simp add: parent_def)
        from await_foreground_code [OF this nonneg] obtain before v after where
            "ps_history p' = ps_history p @ (Fork, Inr child) # (h @ before) @ (Waitpid child False, Inr v) # after"
            "n = shim_status_code (k_status K (ps_history p @ (Fork, Inr child) # (h @ before) @ [(Waitpid child False, Inr v)]))"
          using h child(1) by auto
        then show ?thesis using fg n(3) child(2) by (simp only: if_False run_outcome.inject run_outcome.distinct) blast
      qed
    qed
  qed
qed

definition launch_kernel :: kernel where
  "launch_kernel = (run_kernel 5)\<lparr>k_call := \<lambda>h c. (case c of Fork \<Rightarrow> Inr 42 | Sigaction s handler \<Rightarrow> Inr 0 | _ \<Rightarrow> k_call (run_kernel 5) h c)\<rparr>"

theorem launch_outcome_witness:
  "\<exists>p' child before r after.
     spawn_shim launch_kernel (\<lambda>_. [SIGTERM]) example_run_config \<lparr>ls_readiness = - 1, ls_log = - 1, ls_null = - 1\<rparr> ''/shim'' example_process =
       (p', Some (Inr (Returned 5))) \<and>
     ps_history p' = (Fork, Inr child) # before @ (Waitpid child False, Inr r) # after"
proof -
  have "snd (spawn_shim launch_kernel (\<lambda>_. [SIGTERM]) example_run_config \<lparr>ls_readiness = - 1, ls_log = - 1, ls_null = - 1\<rparr> ''/shim'' example_process) =
      Some (Inr (Returned 5))"
    by code_simp
  then obtain p' where run: "spawn_shim launch_kernel (\<lambda>_. [SIGTERM]) example_run_config \<lparr>ls_readiness = - 1, ls_log = - 1, ls_null = - 1\<rparr> ''/shim''
      example_process = (p', Some (Inr (Returned 5)))"
    by (metis prod.collapse)
  have "\<not> cfg_detach example_run_config" by (simp add: example_run_config_def zero_config_def)
  with launch_outcome [OF run] have "\<exists>child before after r. ps_history p' = ps_history example_process @ (Fork, Inr child) # before @ (Waitpid child False, Inr r) # after"
    by auto
  then show ?thesis using run by (auto simp: example_process_def)
qed

end
