(* ===== verification/Spec2Isabelle.thy ===== *)
theory Spec2Isabelle
  imports MC_Validate MC_Resource MC_Mount MC_Security MC_Publish MC_Launch MC_Shim MC_Log MC_Fs
    MC_Ident MC_Config MC_Store MC_Proc MC_Lifecycle MC_Lease MC_Control MC_Image
    MC_Cli MC_Commands MC_Cgroup MC_Kernel MC_Rootfs MC_Init MC_Exec MC_Nft MC_Netlink MC_Stats
    MC_Forward MC_Run MC_State MC_Spawn
begin

text \<open>
  MiniContainer: a verification development for the container runtime in \<open>src/\<close>.

  \<^bold>\<open>The program.\<close> The command line (\<open>src/cli/main.c\<close>) parses the options of a container, admits it under the
  registry lock and stores its configuration (\<open>src/state/store.c\<close>). It starts a shim process
  (\<open>src/runtime/launch.c\<close>) whose argument vector carries the whole configuration. The shim
  (\<open>src/runtime/shim_main.c\<close>) parses it back, pumps the output into rotating logs and runs the container
  (\<open>src/linux/container.c\<close>): control group (\<open>src/linux/cgroup.c\<close>), new namespaces, identity maps, network
  (\<open>src/network/netlink.c\<close>, \<open>src/network/nft.c\<close>), root file system, lock-down (\<open>src/linux/security.c\<close>), state file,
  control socket. Later commands read the state file: \<open>kill\<close> and \<open>stop\<close> send requests to the control
  socket, \<open>exec\<close> enters the namespaces (\<open>src/linux/exec.c\<close>), \<open>stats\<close> reads the counters (\<open>src/linux/stats.c\<close>),
  \<open>gc\<close> repairs the states of containers whose shim is gone. Images are imported from archives
  (\<open>src/image/import.c\<close>).

  \<^bold>\<open>Conventions.\<close> A C string is a list of characters without the zero byte, a buffer of \<open>snprintf\<close> is cut where
  the code cuts it, C integers are words or bounded integers, and wrap-around is written out. A function
  that can fail returns a sum whose left side is the error record or errno. What the program calls but
  does not contain is a parameter: the kernel, \<open>/proc\<close>, the clock, json-c, libarchive, libseccomp, the
  system bus, the \<open>nft\<close> tool. What is relied on of them is a named predicate (\<open>jsonc_ok\<close>, \<open>reads_json\<close>,
  \<open>cgroupfs_ok\<close>, \<open>reports_handlers\<close>, \<open>prompt\<close>, \<open>ends_by\<close> and the like), satisfied by a concrete instance in the
  witness of each property that uses it.

  \<^bold>\<open>Theories, bottom up.\<close>
  \<^item> \<open>MC_Prelude\<close>: C integers, strings, \<open>strtoull\<close>, \<open>strtok\<close>, \<open>snprintf\<close>; decimal numbers; the locale \<open>codec\<close> of
    encodings that are read back, interpreted for JSON fragments, netlink attributes and the text of a tree.
  \<^item> \<open>MC_Error\<close>, \<open>MC_Json\<close>, \<open>MC_Runtime\<close>: exit codes and the error record; JSON trees and json-c; the
    configuration of a run (\<open>include/minicontainer/runtime.h\<close>).
  \<^item> \<open>MC_Validate\<close>, \<open>MC_Resource\<close>, \<open>MC_Mount\<close>, \<open>MC_Publish\<close>, \<open>MC_Ident\<close> (\<open>src/util/\<close>, \<open>src/network/parse.c\<close>): the
    parsers of names, links, sizes, mounts, publications and subordinate ids, shown equal to reference
    definitions or sound for what they accept.
  \<^item> \<open>MC_Fs\<close> (\<open>src/util/fs.c\<close>): a disk with a page cache and an unordered directory; \<open>mc_write_atomic\<close> yields the
    disks it goes through, and a crash at any of them leaves the old file or the new one.
  \<^item> \<open>MC_Security\<close>: capabilities, deny profiles and the installed filter, equal to a reference table.
  \<^item> \<open>MC_Launch\<close>, \<open>MC_Shim\<close>, \<open>MC_Log\<close>: the argument vector fits its allocation; the shim rebuilds the configuration
    from it (locale \<open>option_codec\<close>, interpreted for each repeated option); the log pump keeps the newest output.
  \<^item> \<open>MC_Config\<close>, \<open>MC_Store\<close>, \<open>MC_Proc\<close>, \<open>MC_Lifecycle\<close>, \<open>MC_Lease\<close> (\<open>src/state/store.c\<close>): stored configurations, the
    registry, process identities, signals and reconciliation. \<open>MC_Lease\<close> has the step relation of the registry
    and the locale \<open>exclusive_claims\<close>, interpreted for names, ports and addresses, which stay exclusive.
  \<^item> \<open>MC_Control\<close>: the control protocol on both sides of the socket.
  \<^item> \<open>MC_Image\<close>: import and resolution of images.
  \<^item> \<open>MC_Cli\<close>, \<open>MC_Commands\<close>: \<open>run\<close> and \<open>create\<close>, whose configuration is the one stored, loaded and rebuilt by
    the shim; and the other commands.
  \<^item> \<open>MC_Cgroup\<close>, \<open>MC_Stats\<close>: the limits are in force when creation succeeds; the statistics are the counters.
  \<^item> \<open>MC_Kernel\<close>: the privileged code. An \<open>action\<close> maps a process to a process and a result; every system call is
    appended to the history with the answer of the kernel, which may depend on the whole history. Five
    calculi of introduction rules compose facts about actions: which calls they may make (\<open>emits\<close>), which
    have succeeded in order (\<open>reaches\<close>), which were made whatever the answers (\<open>attempts\<close>), what is kept
    (\<open>keeps\<close>), and that they do not fail (\<open>unfailing\<close>).
  \<^item> \<open>MC_Rootfs\<close>, \<open>MC_Init\<close>, \<open>MC_Exec\<close>, \<open>MC_Nft\<close>, \<open>MC_Netlink\<close>, \<open>MC_Forward\<close>: the root file system, the init process and
    its supervisor, entering a container, the packet filter, the netlink messages, signal forwarding.
  \<^item> \<open>MC_Run\<close>: \<open>mc_container_run\<close>, composed of all of these: release on every path, the result, termination.
  \<^item> \<open>MC_State\<close>: the state document a run prints is typed and is what \<open>exec\<close> and \<open>stats\<close> find.
  \<^item> \<open>MC_Spawn\<close>: the processes around a run: the launcher after its fork, the start of the log pump, the shim
    from its arguments to its exit code, which is 0 only for a container that exited with 0.

  \<^bold>\<open>Loops.\<close> Loops over data are structural recursions. Loops around system calls are bounded by lists of
  outcomes or, in actions, by \<open>k_rounds\<close>; running out is the result \<open>None\<close>, never a value. Safety statements
  hold for every bound. That code returns is stated as such: \<open>run_terminates\<close> needs as many rounds as the
  process takes to end and 64 for the identity files, whose text has at most 63 characters; the witnesses
  choose bounds at which the loops end.

  \<^bold>\<open>Not modelled.\<close>
  \<^item> Failing memory allocation, and freeing memory.
  \<^item> The texts of the usage messages and of \<open>--help\<close>.
  \<^item> Signals are delivered between the rounds of a loop, not in the middle of a call. The default
    actions of signals, and SIGPIPE, do not occur in the model.
  \<^item> A JSON null where the code expects a string makes it dereference a null pointer; in the control
    protocol this is the outcome \<open>Shim_crash\<close>, in the readers of the state files it counts as no match.
  \<^item> The loops \<open>nftw\<close> runs in \<open>remove_entry\<close>: removing a tree is one call.
  \<^item> Two processes are composed through the files and messages they exchange; their steps are not
    interleaved, apart from the steps of the registry in \<open>MC_Lease\<close>.
\<close>

end
